(* ===== verification/JsNumber.thy ===== *)
theory JsNumber
  imports Complex_Main
begin

text \<open>
  JavaScript's Number type as binary64: rounding to nearest-even, the special values, and the
  standard-library operations the program applies to numbers.
\<close>

named_theorems js_num "equations of the Number operations on finite operands"

section \<open>Positional size of a positive rational\<close>

function digs :: "int \<Rightarrow> int \<Rightarrow> nat" where
  "digs b n = (if b < 2 \<or> n \<le> 0 then 0 else Suc (digs b (n div b)))"
  by pat_completeness auto
termination
  by (relation "measure (\<lambda>(b, n). nat n)") (auto simp: int_div_less_self)

declare digs.simps [simp del]

definition flogb :: "int \<Rightarrow> rat \<Rightarrow> int" where
  "flogb b q =
     (let (n, d) = quotient_of q; k = int (digs b n) - int (digs b d)
      in if of_int b powi k \<le> q then k else k - 1)"

lemma digs_bounds:
  assumes "2 \<le> b" "0 < n"
  shows "b ^ (digs b n - 1) \<le> n \<and> n < b ^ digs b n \<and> 0 < digs b n"
  using assms
proof (induction b n rule: digs.induct)
  case (1 b n)
  then have unf: "digs b n = Suc (digs b (n div b))"
    by (subst digs.simps) simp
  show ?case
  proof (cases "n < b")
    case True
    then have "digs b (n div b) = 0"
      using "1.prems" by (subst digs.simps) simp
    then show ?thesis using "1.prems" True unf by simp
  next
    case False
    have "0 < n div b" using "1.prems" False by (simp add: pos_imp_zdiv_pos_iff)
    then have IH: "b ^ (digs b (n div b) - 1) \<le> n div b" "n div b < b ^ digs b (n div b)"
      "0 < digs b (n div b)"
      using "1.IH" "1.prems" by auto
    have split: "n = b * (n div b) + n mod b" "0 \<le> n mod b" "n mod b < b"
      using "1.prems" by simp_all
    have "b ^ digs b (n div b) = b * b ^ (digs b (n div b) - 1)"
      using IH(3) by (metis Suc_diff_1 power_Suc)
    also have "\<dots> \<le> b * (n div b)" using IH(1) "1.prems" by simp
    finally have lo: "b ^ digs b (n div b) \<le> n" using split by linarith
    have "b * (n div b + 1) \<le> b * b ^ digs b (n div b)"
      using IH(2) "1.prems" by (intro mult_left_mono) simp_all
    moreover have "n < b * (n div b + 1)" using split unfolding distrib_left by linarith
    ultimately have "n < b ^ Suc (digs b (n div b))" by simp
    with lo unf show ?thesis by simp
  qed
qed

lemma digs_powi:
  assumes "2 \<le> b" "0 < n"
  shows "(of_int b :: rat) powi (int (digs b n) - 1) \<le> of_int n"
    and "(of_int n :: rat) < of_int b powi int (digs b n)"
proof -
  note B = digs_bounds [OF assms]
  have "(of_int b :: rat) powi (int (digs b n) - 1) = of_int (b ^ (digs b n - 1))"
    using B by (simp add: power_int_def nat_diff_distrib)
  also have "\<dots> \<le> of_int n" using B by (subst of_int_le_iff) simp
  finally show "(of_int b :: rat) powi (int (digs b n) - 1) \<le> of_int n" .
  have "(of_int n :: rat) < of_int (b ^ digs b n)" using B by (subst of_int_less_iff) simp
  then show "(of_int n :: rat) < of_int b powi int (digs b n)" by (simp add: power_int_def)
qed

lemma powi_quot: "(b::rat) \<noteq> 0 \<Longrightarrow> b powi x / b powi y = b powi (x - y)"
  by (simp add: power_int_diff)

lemma flogb_spec:
  assumes b: "2 \<le> b" and q: "0 < q"
  shows "of_int b powi flogb b q \<le> q" and "q < of_int b powi (flogb b q + 1)"
proof -
  obtain n d where nd: "quotient_of q = (n, d)" by fastforce
  have d: "0 < d" using nd quotient_of_denom_pos by blast
  have qnd: "q = of_int n / of_int d" using nd quotient_of_div by blast
  have n: "0 < n" using q d by (simp add: qnd zero_less_divide_iff)
  define k where "k = int (digs b n) - int (digs b d)"
  have B: "(0::rat) < of_int b" "(of_int b :: rat) \<noteq> 0" using b by simp_all
  note N = digs_powi [OF b n] and D = digs_powi [OF b d]
  have up: "q < of_int b powi (k + 1)"
  proof -
    have "q \<le> of_int n / of_int b powi (int (digs b d) - 1)"
      unfolding qnd using D(1) d n B by (intro divide_left_mono) (auto intro: mult_pos_pos)
    also have "\<dots> < of_int b powi int (digs b n) / of_int b powi (int (digs b d) - 1)"
      using N(2) n B by (intro divide_strict_right_mono) auto
    also have "\<dots> = of_int b powi (k + 1)"
      unfolding k_def by (simp only: powi_quot [OF B(2)]) (simp add: algebra_simps)
    finally show ?thesis .
  qed
  have lo: "of_int b powi (k - 1) \<le> q"
  proof -
    have "(of_int b :: rat) powi (k - 1) = of_int b powi (int (digs b n) - 1) / of_int b powi int (digs b d)"
      unfolding k_def by (simp only: powi_quot [OF B(2)]) (simp add: algebra_simps)
    also have "\<dots> \<le> of_int n / of_int b powi int (digs b d)"
      using N(1) n B by (intro divide_right_mono) auto
    also have "\<dots> \<le> q"
      unfolding qnd using D(2) d n B by (intro divide_left_mono) (auto intro: mult_pos_pos)
    finally show ?thesis .
  qed
  have F: "flogb b q = (if of_int b powi k \<le> q then k else k - 1)"
    by (simp add: flogb_def nd k_def)
  show "of_int b powi flogb b q \<le> q" "q < of_int b powi (flogb b q + 1)"
    using lo up by (auto simp: F)
qed

text \<open>For evaluation: powers of the base as quotients of integers.\<close>

fun ipow :: "int \<Rightarrow> num \<Rightarrow> int" where
  "ipow b num.One = b"
| "ipow b (num.Bit0 n) = (let p = ipow b n in p * p)"
| "ipow b (num.Bit1 n) = (let p = ipow b n in p * p * b)"

lemma ipow_power: "ipow b n = b ^ numeral n"
  by (induction n) (simp_all only: ipow.simps Let_def power_numeral_even power_numeral_odd mult_ac power_one_right numeral.simps(1))

definition base_pow :: "int \<Rightarrow> int \<Rightarrow> rat" where
  "base_pow b k = of_int b powi k"

lemma base_pow_code [code]:
  "base_pow b (Int.Pos n) = of_int (ipow b n)"
  "base_pow b (Int.Neg n) = 1 / of_int (ipow b n)"
  "base_pow b 0 = 1"
  by (simp_all add: base_pow_def ipow_power power_int_def divide_inverse power_inverse)

lemma powi_2_code [code_unfold]: "(2::rat) powi k = base_pow 2 k"
  by (simp add: base_pow_def)

lemma powi_10_code [code_unfold]: "(10::rat) powi k = base_pow 10 k"
  by (simp add: base_pow_def)

lemma powi_of_int_code [code_unfold]: "(of_int b::rat) powi k = base_pow b k"
  by (simp add: base_pow_def)

section \<open>Rounding to the nearest representable number\<close>

definition rne :: "rat \<Rightarrow> int" where
  "rne x = (let f = \<lfloor>x\<rfloor>; r = x - of_int f in
     if r < 1/2 then f else if r > 1/2 then f + 1 else if even f then f else f + 1)"

lemma rne_near: "\<bar>of_int (rne x) - x\<bar> \<le> 1/2"
proof -
  have "of_int \<lfloor>x\<rfloor> \<le> x" "x < of_int \<lfloor>x\<rfloor> + 1" by linarith+
  then show ?thesis by (simp add: rne_def Let_def abs_le_iff)
qed

lemma rne_of_int [simp]: "rne (of_int n) = n"
  by (simp add: rne_def Let_def)

lemma rne_mono:
  assumes "x \<le> y"
  shows "rne x \<le> rne y"
proof (rule ccontr)
  assume "\<not> rne x \<le> rne y"
  then have "rne y + 1 \<le> rne x" by simp
  then have "(of_int (rne y + 1) :: rat) \<le> of_int (rne x)" by (simp only: of_int_le_iff)
  then have "(of_int (rne y) :: rat) + 1 \<le> of_int (rne x)" by simp
  with rne_near [of x] rne_near [of y] assms have "x = y" by (simp add: abs_le_iff)
  with \<open>\<not> rne x \<le> rne y\<close> show False by simp
qed

lemma rne_minus [simp]: "rne (- x) = - rne x"
proof (cases "of_int \<lfloor>x\<rfloor> = x")
  case True
  then have "x = of_int \<lfloor>x\<rfloor>" by (rule sym)
  then have "rne (- x) = rne (of_int (- \<lfloor>x\<rfloor>))" "rne x = rne (of_int \<lfloor>x\<rfloor>)" by simp_all
  then show ?thesis by (simp only: rne_of_int)
next
  case False
  then have "of_int \<lfloor>x\<rfloor> < x" "x < of_int \<lfloor>x\<rfloor> + 1" by linarith+
  then have "\<lfloor>- x\<rfloor> = - \<lfloor>x\<rfloor> - 1" by (simp add: floor_eq_iff)
  then show ?thesis by (simp add: rne_def Let_def)
qed

definition binexp :: "rat \<Rightarrow> int" where
  "binexp q = max (flogb 2 \<bar>q\<bar> - 52) (- 1074)"

definition fl :: "rat \<Rightarrow> rat" where
  "fl q = (if q = 0 then 0 else of_int (rne (q / 2 powi binexp q)) * 2 powi binexp q)"

lemma fl_0 [simp]: "fl 0 = 0"
  by (simp add: fl_def)

lemma fl_minus [simp]: "fl (- q) = - fl q"
  by (simp add: fl_def binexp_def)

lemma two_powi_pos [simp]: "(0::rat) < 2 powi k" "(0::rat) \<le> 2 powi k" "(2::rat) powi k \<noteq> 0"
  by (simp_all add: zero_less_power_int)

lemma powi_le_iff [simp]: "(2::rat) powi a \<le> 2 powi b \<longleftrightarrow> a \<le> b"
  by (metis linorder_not_le power_int_increasing power_int_strict_increasing one_less_numeral_iff
      semiring_norm(76) one_le_numeral not_less)

lemma two_powi_less_imp: "(2::rat) powi a < 2 powi b \<Longrightarrow> a < b"
  by (metis leD leI powi_le_iff)

lemma two_powi_le_div: "k \<le> m \<Longrightarrow> (2::rat) powi m / 2 powi k = of_int (2 ^ nat (m - k))"
  by (simp only: powi_quot [of 2] zero_neq_numeral [symmetric] not_False_eq_True) (simp add: power_int_def)

text \<open>A value with at most 53 significant bits at an exponent of at least -1074 is representable.\<close>

lemma fl_representable:
  assumes m: "\<bar>m\<bar> \<le> 2 ^ 53" and e: "- 1074 \<le> e"
  shows "fl (of_int m * 2 powi e) = of_int m * 2 powi e"
proof (cases "m = 0")
  case True
  then show ?thesis by simp
next
  case False
  define v :: rat where "v = of_int m * 2 powi e"
  have av: "\<bar>v\<bar> = of_int \<bar>m\<bar> * 2 powi e" by (simp add: v_def abs_mult)
  have v0: "v \<noteq> 0" "0 < \<bar>v\<bar>" using False by (simp_all add: v_def)
  define L where "L = flogb 2 \<bar>v\<bar>"
  have lo: "2 powi L \<le> \<bar>v\<bar>"
    using flogb_spec(1) [OF order.refl v0(2)] by (simp add: L_def)
  have "\<exists>k. v / 2 powi binexp v = of_int k"
  proof (cases "binexp v \<le> e")
    case True
    have "v / 2 powi binexp v = of_int m * (2 powi e / 2 powi binexp v)" by (simp add: v_def)
    also have "\<dots> = of_int (m * 2 ^ nat (e - binexp v))"
      by (simp only: two_powi_le_div [OF True] of_int_mult)
    finally show ?thesis by blast
  next
    case False
    then have be: "binexp v = L - 52" "e < L - 52" using e by (auto simp: binexp_def L_def)
    have "\<bar>v\<bar> \<le> of_int (2 ^ 53) * 2 powi e"
      unfolding av using m by (intro mult_right_mono) (auto simp only: of_int_le_iff two_powi_pos)
    also have "\<dots> = 2 powi (e + 53)" by (simp add: power_int_add)
    finally have "2 powi L \<le> (2::rat) powi (e + 53)" using lo by linarith
    then have L: "L = e + 53" using be(2) by simp
    have "\<bar>v\<bar> = 2 powi (e + 53)"
      using lo \<open>\<bar>v\<bar> \<le> of_int (2 ^ 53) * 2 powi e\<close> L by (simp add: power_int_add)
    then have "\<bar>v\<bar> / 2 powi binexp v = of_int (2 ^ 52)"
      using two_powi_le_div [of "binexp v" "e + 53"] be(1) L by simp
    then have "v / 2 powi binexp v = of_int (2 ^ 52) \<or> v / 2 powi binexp v = of_int (- (2 ^ 52))"
      by (auto simp: abs_if split: if_splits)
    then show ?thesis by blast
  qed
  then obtain k where k: "v / 2 powi binexp v = of_int k" ..
  have "fl v = of_int (rne (v / 2 powi binexp v)) * 2 powi binexp v" using v0 by (simp add: fl_def)
  also have "\<dots> = v" unfolding k using k by (simp add: field_simps)
  finally show ?thesis by (simp add: v_def)
qed

lemma fl_of_int: "\<bar>n\<bar> \<le> 2 ^ 53 \<Longrightarrow> fl (of_int n) = of_int n"
  using fl_representable [of n 0] by simp

lemma flogb_mono: "0 < p \<Longrightarrow> p \<le> q \<Longrightarrow> flogb 2 p \<le> flogb 2 q"
proof -
  assume "0 < p" "p \<le> q"
  then have "2 powi flogb 2 p < (2::rat) powi (flogb 2 q + 1)"
    using flogb_spec(1) [of 2 p] flogb_spec(2) [of 2 q] by simp
  then show ?thesis by (auto dest: two_powi_less_imp)
qed

lemma scaled_bound:
  assumes "0 < q"
  shows "q / 2 powi binexp q < 2 ^ 53"
proof -
  have "q < 2 powi (flogb 2 q + 1)" using flogb_spec(2) [of 2 q] assms by simp
  also have "\<dots> \<le> 2 powi (53 + binexp q)" using assms by (simp add: binexp_def max_def)
  also have "\<dots> = 2 ^ 53 * 2 powi binexp q" by (simp add: power_int_add)
  finally show ?thesis by (simp add: pos_divide_less_eq)
qed

lemma fl_form: "\<exists>n. fl q = of_int n * 2 powi binexp q \<and> \<bar>n\<bar> \<le> 2 ^ 53"
proof (cases "q = 0")
  case True
  then show ?thesis by (intro exI [of _ 0]) simp
next
  case False
  have "\<bar>q\<bar> / 2 powi binexp q \<le> of_int (2 ^ 53)"
    using scaled_bound [of "\<bar>q\<bar>"] False by (simp add: binexp_def)
  then have up: "rne (\<bar>q\<bar> / 2 powi binexp q) \<le> 2 ^ 53"
    using rne_mono rne_of_int by metis
  have "rne 0 \<le> rne (\<bar>q\<bar> / 2 powi binexp q)" by (rule rne_mono) simp
  then have lo: "0 \<le> rne (\<bar>q\<bar> / 2 powi binexp q)" using rne_of_int [of 0] by simp
  have "\<bar>rne (q / 2 powi binexp q)\<bar> = \<bar>rne (\<bar>q\<bar> / 2 powi binexp q)\<bar>"
    by (cases "0 \<le> q") (simp_all add: abs_if)
  with up lo have "\<bar>rne (q / 2 powi binexp q)\<bar> \<le> 2 ^ 53" by simp
  then show ?thesis using False by (auto simp: fl_def)
qed

lemma fl_idem [simp]: "fl (fl q) = fl q"
proof -
  obtain n where "fl q = of_int n * 2 powi binexp q" "\<bar>n\<bar> \<le> 2 ^ 53" using fl_form by blast
  then show ?thesis using fl_representable [of n "binexp q"] by (simp add: binexp_def)
qed

lemma fl_nonneg: "0 \<le> q \<Longrightarrow> 0 \<le> fl q"
proof -
  assume "0 \<le> q"
  then have "rne 0 \<le> rne (q / 2 powi binexp q)" by (intro rne_mono) simp
  then show ?thesis using rne_of_int [of 0] by (simp add: fl_def)
qed

lemma fl_mono_pos:
  assumes "0 < p" "p \<le> q"
  shows "fl p \<le> fl q"
proof (cases "binexp p = binexp q")
  case True
  then have "rne (p / 2 powi binexp p) \<le> rne (q / 2 powi binexp q)"
    using assms by (intro rne_mono) (simp add: divide_right_mono)
  then show ?thesis using assms True by (simp add: fl_def mult_right_mono)
next
  case False
  define F where "F = flogb 2 q"
  have q: "0 < q" using assms by simp
  have "flogb 2 p \<le> F" using flogb_mono assms by (simp add: F_def)
  then have bq: "binexp q = F - 52" and bp: "binexp p \<le> F - 53"
    using False assms by (auto simp: binexp_def F_def)
  obtain n where n: "fl p = of_int n * 2 powi binexp p" "\<bar>n\<bar> \<le> 2 ^ 53" using fl_form by blast
  have "fl p \<le> of_int (2 ^ 53) * 2 powi binexp p"
    unfolding n(1) using n(2) by (intro mult_right_mono) (auto simp only: of_int_le_iff two_powi_pos abs_le_iff)
  also have "\<dots> = 2 powi (53 + binexp p)" by (simp add: power_int_add)
  also have "\<dots> \<le> 2 powi F" using bp by simp
  finally have lo: "fl p \<le> 2 powi F" .
  have "2 powi F \<le> q" using flogb_spec(1) [of 2 q] q by (simp add: F_def)
  then have "2 powi F / 2 powi (F - 52) \<le> q / 2 powi (F - 52)" by (simp add: divide_right_mono)
  then have "of_int (2 ^ 52) \<le> q / 2 powi (F - 52)" by (simp add: two_powi_le_div)
  then have "2 ^ 52 \<le> rne (q / 2 powi (F - 52))" using rne_mono rne_of_int by metis
  then have "(of_int (2 ^ 52) :: rat) \<le> of_int (rne (q / 2 powi (F - 52)))" by (simp only: of_int_le_iff)
  then have "of_int (2 ^ 52) * 2 powi (F - 52) \<le> fl q"
    using q by (simp add: fl_def bq mult_right_mono)
  moreover have "(of_int (2 ^ 52) :: rat) * 2 powi (F - 52) = 2 powi F"
    by (simp add: power_int_diff)
  ultimately show ?thesis using lo by simp
qed

lemma fl_mono: "p \<le> q \<Longrightarrow> fl p \<le> fl q"
proof -
  assume pq: "p \<le> q"
  consider "0 < p" | "p \<le> 0" "0 \<le> q" | "q < 0" using pq by linarith
  then show ?thesis
  proof cases
    case 1
    then show ?thesis using fl_mono_pos pq by simp
  next
    case 2
    then show ?thesis using fl_nonneg [of "- p"] fl_nonneg [of q] by simp
  next
    case 3
    then show ?thesis using fl_mono_pos [of "- q" "- p"] pq by simp
  qed
qed

definition subnormal_err :: rat where
  "subnormal_err = 1/2 * 2 powi (- 1074)"

lemma subnormal_err_bounds: "0 \<le> subnormal_err" "subnormal_err \<le> 1 / 10 ^ 20"
proof -
  show "0 \<le> subnormal_err" by (simp add: subnormal_err_def del: power_int_minus)
  have "subnormal_err \<le> 1/2 * 2 powi (- 70)"
    unfolding subnormal_err_def by (intro mult_left_mono powi_le_iff [THEN iffD2]) simp_all
  also have "\<dots> \<le> 1 / 10 ^ 20" by (simp add: power_int_def power_one_over)
  finally show "subnormal_err \<le> 1 / 10 ^ 20" .
qed

lemma fl_err: "\<bar>fl q - q\<bar> \<le> \<bar>q\<bar> / 2 ^ 53 + subnormal_err"
proof (cases "q = 0")
  case True
  then show ?thesis using subnormal_err_bounds by simp
next
  case False
  define E where "E = binexp q"
  have "fl q - q = (of_int (rne (q / 2 powi E)) - q / 2 powi E) * 2 powi E"
    using False by (simp add: fl_def E_def algebra_simps)
  then have "\<bar>fl q - q\<bar> = \<bar>of_int (rne (q / 2 powi E)) - q / 2 powi E\<bar> * 2 powi E"
    by (simp add: abs_mult)
  also have "\<dots> \<le> 1/2 * 2 powi E" by (intro mult_right_mono rne_near) simp
  also have "\<dots> \<le> \<bar>q\<bar> / 2 ^ 53 + subnormal_err"
  proof (cases "E = - 1074")
    case True
    have "(0::rat) \<le> \<bar>q\<bar> / 2 ^ 53" by simp
    moreover have "1/2 * 2 powi E = subnormal_err" by (simp add: True subnormal_err_def)
    ultimately show ?thesis by linarith
  next
    case F: False
    then have "E = flogb 2 \<bar>q\<bar> - 52" by (simp add: E_def binexp_def max_def split: if_splits)
    then have "1/2 * (2::rat) powi E = 2 powi flogb 2 \<bar>q\<bar> / 2 ^ 53" by (simp add: power_int_diff)
    also have "\<dots> \<le> \<bar>q\<bar> / 2 ^ 53"
      using flogb_spec(1) [of 2 "\<bar>q\<bar>"] False by (simp add: divide_right_mono)
    also have "\<dots> \<le> \<bar>q\<bar> / 2 ^ 53 + subnormal_err" using subnormal_err_bounds by simp
    finally show ?thesis .
  qed
  finally show ?thesis .
qed

section \<open>The Number type\<close>

datatype num = NaN | PInf | NInf | Fin rat

definition max_double :: rat where
  "max_double = of_int (2 ^ 53 - 1) * 2 powi 971"

definition mk :: "rat \<Rightarrow> num" where
  "mk q = (let r = fl q in if max_double < r then PInf else if r < - max_double then NInf else Fin r)"

fun wf_num :: "num \<Rightarrow> bool" where
  "wf_num (Fin q) = (fl q = q \<and> \<bar>q\<bar> \<le> max_double)"
| "wf_num _ = True"

lemma fl_max_double: "fl max_double = max_double"
  unfolding max_double_def by (rule fl_representable) simp_all

lemma wf_mk [simp]: "wf_num (mk q)"
  by (auto simp: mk_def Let_def)

lemma mk_Fin: "\<bar>q\<bar> \<le> max_double \<Longrightarrow> mk q = Fin (fl q)"
proof -
  assume "\<bar>q\<bar> \<le> max_double"
  then have "q \<le> max_double" "- max_double \<le> q" by linarith+
  then have "fl q \<le> fl max_double" "- fl max_double \<le> fl q"
    using fl_mono [of q max_double] fl_mono [of "- max_double" q] by simp_all
  then show ?thesis by (simp add: mk_def Let_def fl_max_double)
qed

lemma max_double_ge: "2 powi 971 \<le> max_double"
  unfolding max_double_def by simp

lemma mk_small: "\<bar>q\<bar> \<le> 10 ^ 30 \<Longrightarrow> mk q = Fin (fl q)"
proof (rule mk_Fin)
  assume "\<bar>q\<bar> \<le> 10 ^ 30"
  also have "(10 :: rat) ^ 30 \<le> 2 powi 100" by (simp add: power_int_def)
  also have "\<dots> \<le> 2 powi 971" by simp
  also note max_double_ge
  finally show "\<bar>q\<bar> \<le> max_double" .
qed

text \<open>For evaluation: a Number of moderate size is decided without computing the largest one.\<close>

lemma mk_code [code]:
  "mk q = (let r = fl q in
     if \<bar>r\<bar> \<le> 1000000000000000000000000000000 then Fin r
     else if max_double < r then PInf else if r < - max_double then NInf else Fin r)"
proof -
  have "(1000000000000000000000000000000 :: rat) \<le> 2 powi 100" by (simp add: power_int_def)
  also have "\<dots> \<le> 2 powi 971" by simp
  also note max_double_ge
  finally have "r \<le> max_double \<and> - max_double \<le> r"
    if "\<bar>r\<bar> \<le> 1000000000000000000000000000000" for r
    using that by linarith
  then show ?thesis by (auto simp: mk_def Let_def not_less [symmetric])
qed

fun is_finite :: "num \<Rightarrow> bool" where
  "is_finite (Fin _) = True"
| "is_finite _ = False"

fun is_nan :: "num \<Rightarrow> bool" where
  "is_nan NaN = True"
| "is_nan _ = False"

fun nneg :: "num \<Rightarrow> num" where
  "nneg NaN = NaN"
| "nneg PInf = NInf"
| "nneg NInf = PInf"
| "nneg (Fin a) = Fin (- a)"

fun nadd :: "num \<Rightarrow> num \<Rightarrow> num" where
  "nadd (Fin a) (Fin b) = mk (a + b)"
| "nadd NaN _ = NaN"
| "nadd _ NaN = NaN"
| "nadd PInf NInf = NaN"
| "nadd NInf PInf = NaN"
| "nadd PInf _ = PInf"
| "nadd _ PInf = PInf"
| "nadd NInf _ = NInf"
| "nadd _ NInf = NInf"

definition nsub :: "num \<Rightarrow> num \<Rightarrow> num" where
  "nsub x y = nadd x (nneg y)"

definition inf_of_sign :: "rat \<Rightarrow> num" where
  "inf_of_sign s = (if s = 0 then NaN else if 0 < s then PInf else NInf)"

fun nsign :: "num \<Rightarrow> rat" where
  "nsign (Fin a) = sgn a"
| "nsign PInf = 1"
| "nsign NInf = - 1"
| "nsign NaN = 0"

fun nmul :: "num \<Rightarrow> num \<Rightarrow> num" where
  "nmul (Fin a) (Fin b) = mk (a * b)"
| "nmul NaN _ = NaN"
| "nmul _ NaN = NaN"
| "nmul x y = inf_of_sign (nsign x * nsign y)"

text \<open>Division: zero is unsigned in this model, so a division by zero has the sign of the dividend.\<close>

fun ndiv :: "num \<Rightarrow> num \<Rightarrow> num" where
  "ndiv (Fin a) (Fin b) = (if b = 0 then inf_of_sign (sgn a) else mk (a / b))"
| "ndiv NaN _ = NaN"
| "ndiv _ NaN = NaN"
| "ndiv (Fin _) _ = Fin 0"
| "ndiv x (Fin b) = inf_of_sign (nsign x * (if b < 0 then - 1 else 1))"
| "ndiv _ _ = NaN"

fun nlt :: "num \<Rightarrow> num \<Rightarrow> bool" where
  "nlt (Fin a) (Fin b) = (a < b)"
| "nlt NaN _ = False"
| "nlt _ NaN = False"
| "nlt NInf y = (y \<noteq> NInf)"
| "nlt _ NInf = False"
| "nlt PInf _ = False"
| "nlt _ PInf = True"

definition nle :: "num \<Rightarrow> num \<Rightarrow> bool" where
  "nle x y = (\<not> is_nan x \<and> \<not> is_nan y \<and> \<not> nlt y x)"

definition nsame :: "num \<Rightarrow> num \<Rightarrow> bool" where
  "nsame x y = (x = y \<and> \<not> is_nan x)"

definition nmax :: "num \<Rightarrow> num \<Rightarrow> num" where
  "nmax x y = (if is_nan x \<or> is_nan y then NaN else if nlt x y then y else x)"

definition nmin :: "num \<Rightarrow> num \<Rightarrow> num" where
  "nmin x y = (if is_nan x \<or> is_nan y then NaN else if nlt y x then y else x)"

fun nmap_int :: "(rat \<Rightarrow> int) \<Rightarrow> num \<Rightarrow> num" where
  "nmap_int f (Fin a) = Fin (of_int (f a))"
| "nmap_int f x = x"

definition math_round :: "num \<Rightarrow> num" where
  "math_round = nmap_int (\<lambda>a. \<lfloor>a + 1/2\<rfloor>)"

definition math_floor :: "num \<Rightarrow> num" where
  "math_floor = nmap_int floor"

definition math_ceil :: "num \<Rightarrow> num" where
  "math_ceil = nmap_int ceiling"

fun math_abs :: "num \<Rightarrow> num" where
  "math_abs (Fin a) = Fin \<bar>a\<bar>"
| "math_abs NInf = PInf"
| "math_abs x = x"

text \<open>
  \<open>fixed_digits d a\<close> is the integer \<open>n\<close> that \<open>toFixed(d)\<close> prints for \<open>\<bar>a\<bar>\<close>, and
  \<open>fixed d x\<close> is \<open>parseFloat(x.toFixed(d))\<close>.
\<close>

definition fixed_digits :: "nat \<Rightarrow> rat \<Rightarrow> int" where
  "fixed_digits d a = \<lfloor>\<bar>a\<bar> * 10 ^ d + 1/2\<rfloor>"

fun fixed :: "nat \<Rightarrow> num \<Rightarrow> num" where
  "fixed d (Fin a) =
     (if 10 ^ 21 \<le> \<bar>a\<bar> then Fin a
      else mk ((if a < 0 then - 1 else 1) * of_int (fixed_digits d a) / 10 ^ d))"
| "fixed d x = x"

lemma finite_cases: "is_finite x \<Longrightarrow> (\<And>q. x = Fin q \<Longrightarrow> P) \<Longrightarrow> P"
  by (cases x) auto

lemma nle_Fin [simp]: "nle (Fin a) (Fin b) = (a \<le> b)"
  by (auto simp: nle_def)

lemma nmax_Fin [simp]: "nmax (Fin a) (Fin b) = Fin (max a b)"
  by (auto simp: nmax_def max_def)

lemma nmin_Fin [simp]: "nmin (Fin a) (Fin b) = Fin (min a b)"
  by (auto simp: nmin_def min_def)

lemma nsub_Fin [simp]: "nsub (Fin a) (Fin b) = mk (a - b)"
  by (simp add: nsub_def)

lemma nsame_Fin [simp]: "nsame (Fin a) (Fin b) = (a = b)"
  by (simp add: nsame_def)

lemma wf_nadd [simp]: "wf_num (nadd x y)" if "wf_num x" "wf_num y" for x y
  using that by (cases x; cases y) auto

lemma wf_inf_of_sign [simp]: "wf_num (inf_of_sign s)"
  by (simp add: inf_of_sign_def)

lemma wf_nmul [simp]: "wf_num (nmul x y)"
  by (cases x; cases y) auto

lemma max_double_nonneg: "0 \<le> max_double"
  using two_powi_pos(2) max_double_ge by (rule order_trans)

lemma wf_ndiv [simp]: "wf_num (ndiv x y)"
  by (cases x; cases y) (auto simp: max_double_nonneg)

lemma wf_fixed [simp]: "wf_num x \<Longrightarrow> wf_num (fixed d x)"
  by (cases x) auto

section \<open>Evaluation\<close>

text \<open>The value of two integers by rounding the quotient to the nearest, ties to even.\<close>

definition rne_div :: "int \<Rightarrow> int \<Rightarrow> int" where
  "rne_div a b = (let f = a div b; r = 2 * (a mod b) in if r < b then f else if b < r then f + 1 else if even f then f else f + 1)"

lemma rne_div: 
  assumes "0 < b"
  shows "rne (of_int a / of_int b) = rne_div a b"
proof -
  have f: "\<lfloor>of_int a / of_int b :: rat\<rfloor> = a div b" by (rule floor_divide_of_int_eq)
  have "(of_int a :: rat) = of_int (b * (a div b) + a mod b)" by simp
  also have "\<dots> = of_int b * of_int (a div b) + of_int (a mod b)" by (simp only: of_int_add of_int_mult)
  finally have r: "of_int a / of_int b - of_int (a div b) = (of_int (a mod b) / of_int b :: rat)"
    using assms by (simp add: field_simps)
  have lt: "(of_int (a mod b) / of_int b < (1/2::rat)) = (2 * (a mod b) < b)"
  proof -
    have "(of_int (a mod b) / of_int b < (1/2::rat)) = (of_int (2 * (a mod b)) < (of_int b :: rat))"
      using assms by (simp add: field_simps)
    then show ?thesis by (simp only: of_int_less_iff)
  qed
  have gt: "((1/2::rat) < of_int (a mod b) / of_int b) = (b < 2 * (a mod b))"
  proof -
    have "((1/2::rat) < of_int (a mod b) / of_int b) = (of_int b < (of_int (2 * (a mod b)) :: rat))"
      using assms by (simp add: field_simps)
    then show ?thesis by (simp only: of_int_less_iff)
  qed
  show ?thesis unfolding rne_def Let_def f r lt gt rne_div_def by simp
qed

fun num_bits :: "Num.num \<Rightarrow> int" where
  "num_bits num.One = 1"
| "num_bits (num.Bit0 n) = num_bits n + 1"
| "num_bits (num.Bit1 n) = num_bits n + 1"

lemma digs_pos: "2 \<le> b \<Longrightarrow> 0 < n \<Longrightarrow> digs b n = Suc (digs b (n div b))"
  by (subst digs.simps) simp

lemma digs_nonpos: "n \<le> 0 \<Longrightarrow> digs b n = 0"
  by (subst digs.simps) simp

lemma num_bits_digs: "num_bits n = int (digs 2 (numeral n))"
proof (induction n)
  case One
  show ?case using digs_pos [of 2 1] digs_nonpos [of 0 2] by simp
next
  case (Bit0 n)
  then show ?case using digs_pos [of 2 "numeral (num.Bit0 n)"] by simp
next
  case (Bit1 n)
  then show ?case using digs_pos [of 2 "numeral (num.Bit1 n)"] by simp
qed

fun int_bits :: "int \<Rightarrow> int" where
  "int_bits n = int (digs 2 n)"

lemma int_bits_code [code]:
  "int_bits (Int.Pos n) = num_bits n" "int_bits (Int.Neg n) = 0" "int_bits 0 = 0"
  by (simp_all add: num_bits_digs digs_nonpos)

fun ipow2 :: "int \<Rightarrow> int" where
  "ipow2 k = 2 ^ nat k"

lemma ipow2_code [code]:
  "ipow2 (Int.Pos n) = ipow 2 n" "ipow2 (Int.Neg n) = 1" "ipow2 0 = 1"
  by (simp_all add: ipow_power)

lemma powi_ipow2_pos: "0 \<le> k \<Longrightarrow> (2::rat) powi k = of_int (ipow2 k)"
  by (simp add: power_int_def)

lemma powi_ipow2_neg: "0 \<le> k \<Longrightarrow> (2::rat) powi (- k) = 1 / of_int (ipow2 k)"
  by (simp add: power_int_minus inverse_eq_divide powi_ipow2_pos del: ipow2.simps)

lemmas powi_ipow2 = powi_ipow2_pos powi_ipow2_neg

function strip2 :: "int \<Rightarrow> int \<Rightarrow> int \<times> int" where
  "strip2 m k = (if k \<le> 0 \<or> odd m then (m, k) else strip2 (m div 2) (k - 1))"
  by pat_completeness auto
termination by (relation "measure (\<lambda>(m, k). nat k)") auto

declare strip2.simps [simp del]

lemma strip2:
  "0 \<le> k \<Longrightarrow> case strip2 m k of (m', k') \<Rightarrow>
     0 \<le> k' \<and> (odd m' \<or> k' = 0) \<and> (of_int m / of_int (ipow2 k) :: rat) = of_int m' / of_int (ipow2 k')"
proof (induction m k rule: strip2.induct)
  case (1 m k)
  show ?case
  proof (cases "k \<le> 0 \<or> odd m")
    case True then show ?thesis using 1 by (subst strip2.simps) auto
  next
    case False
    then have k: "0 \<le> k - 1" "nat k = Suc (nat (k - 1))" by arith+
    from False have "m = 2 * (m div 2)" by simp
    then have "(of_int m :: rat) = 2 * of_int (m div 2)" by (metis of_int_mult of_int_numeral)
    then have "(of_int m / of_int (ipow2 k) :: rat) = of_int (m div 2) / of_int (ipow2 (k - 1))"
      using k by (simp add: field_simps)
    then show ?thesis using 1(1) [OF False k(1)] False by (subst strip2.simps) auto
  qed
qed

definition dyadic :: "int \<Rightarrow> int \<Rightarrow> rat" where
  "dyadic m e = of_int m * 2 powi e"

lemma dyadic_quotient [code abstract]:
  "quotient_of (dyadic m e) =
     (if 0 \<le> e then (m * ipow2 e, 1) else (case strip2 m (- e) of (m', k') \<Rightarrow> (m', ipow2 k')))"
proof (cases "0 \<le> e")
  case True
  then have "dyadic m e = of_int (m * ipow2 e)" by (simp add: dyadic_def powi_ipow2(1) del: ipow2.simps)
  then show ?thesis using True by (simp add: of_int_rat quotient_of_Fract Rat.normalize_def del: ipow2.simps)
next
  case False
  obtain m' k' where s: "strip2 m (- e) = (m', k')" by (cases "strip2 m (- e)")
  have *: "0 \<le> k'" "odd m' \<or> k' = 0" "(of_int m / of_int (ipow2 (- e)) :: rat) = of_int m' / of_int (ipow2 k')"
    using strip2 [of "- e" m] False s by auto
  have "dyadic m e = of_int m / of_int (ipow2 (- e))"
    using powi_ipow2(2) [of "- e"] False by (simp add: dyadic_def del: ipow2.simps)
  also have "\<dots> = Fract m' (ipow2 k')" using *(3) by (simp add: Fract_of_int_quotient)
  finally have eq: "dyadic m e = Fract m' (ipow2 k')" .
  have "coprime m' (ipow2 k')" using *(2) by (auto simp: coprime_commute)
  moreover have "0 < ipow2 k'" by simp
  ultimately have "quotient_of (Fract m' (ipow2 k')) = (m', ipow2 k')"
    by (simp add: quotient_of_Fract Rat.normalize_def)
  then show ?thesis using s False eq by simp
qed

fun fl_pair :: "int \<times> int \<Rightarrow> rat" where
  "fl_pair (n, d) =
     (let k0 = int_bits n - int_bits d;
          k = (if (if 0 \<le> k0 then d * ipow2 k0 \<le> n else d \<le> n * ipow2 (- k0)) then k0 else k0 - 1);
          e = max (k - 52) (- 1074)
      in dyadic (if 0 \<le> e then rne_div n (d * ipow2 e) else rne_div (n * ipow2 (- e)) d) e)"

lemma fl_pair:
  assumes "0 < q"
  shows "fl_pair (quotient_of q) = fl q"
proof -
  obtain n d where nd: "quotient_of q = (n, d)" by (cases "quotient_of q")
  then have d: "0 < d" and q: "q = of_int n / of_int d"
    using quotient_of_denom_pos quotient_of_div by auto
  define k0 where "k0 = int_bits n - int_bits d"
  have cmp: "(if 0 \<le> k0 then d * ipow2 k0 \<le> n else d \<le> n * ipow2 (- k0)) = (2 powi k0 \<le> q)"
  proof (cases "0 \<le> k0")
    case True
    have "(2 powi k0 \<le> q) = ((of_int (d * ipow2 k0) :: rat) \<le> of_int n)"
      using d unfolding q powi_ipow2(1) [OF True] by (simp add: field_simps del: ipow2.simps)
    then show ?thesis using True by (simp only: of_int_le_iff if_True)
  next
    case False
    then have "0 \<le> - k0" by simp
    from powi_ipow2(2) [OF this] have p: "(2::rat) powi k0 = 1 / of_int (ipow2 (- k0))" by simp
    have "(0::rat) < of_int (ipow2 (- k0))" by simp
    then have "(2 powi k0 \<le> q) = ((of_int d :: rat) \<le> of_int (n * ipow2 (- k0)))"
      using d unfolding q p by (simp add: field_simps del: ipow2.simps)
    then show ?thesis using False by (simp only: of_int_le_iff if_False)
  qed
  have fb: "flogb 2 q = (if 2 powi k0 \<le> q then k0 else k0 - 1)"
    by (simp add: flogb_def nd Let_def k0_def)
  define e where "e = binexp q"
  have e: "e = max ((if (if 0 \<le> k0 then d * ipow2 k0 \<le> n else d \<le> n * ipow2 (- k0)) then k0 else k0 - 1) - 52) (- 1074)"
    unfolding e_def binexp_def cmp using assms fb by simp
  have r: "rne (q / 2 powi e) = (if 0 \<le> e then rne_div n (d * ipow2 e) else rne_div (n * ipow2 (- e)) d)"
  proof (cases "0 \<le> e")
    case True
    have "q / 2 powi e = of_int n / of_int (d * ipow2 e)" unfolding q powi_ipow2(1) [OF True] by simp
    then show ?thesis using True d rne_div [of "d * ipow2 e" n] by simp
  next
    case False
    then have "0 \<le> - e" by simp
    from powi_ipow2(2) [OF this] have "(2::rat) powi e = 1 / of_int (ipow2 (- e))" by simp
    then have "q / 2 powi e = of_int (n * ipow2 (- e)) / of_int d" unfolding q by simp
    then show ?thesis using False d rne_div [of d "n * ipow2 (- e)"] by simp
  qed
  have "fl q = dyadic (rne (q / 2 powi e)) e" using assms by (simp add: fl_def dyadic_def e_def)
  then show ?thesis
    unfolding r nd fl_pair.simps Let_def k0_def [symmetric] e [symmetric] by simp
qed

lemma fl_code [code]:
  "fl q = (if q = 0 then 0 else if q < 0 then - fl_pair (quotient_of (- q)) else fl_pair (quotient_of q))"
  using fl_pair [of q] fl_pair [of "- q"] by auto

end
