(* ===== verification/JsMoney.thy ===== *)
theory JsMoney
  imports JsNumber
begin

text \<open>
  Money: numeric(15,2) columns hold whole cents; the driver hands them to the program as decimal
  text, which parseFloat turns into the nearest Number, and takes Numbers back as the shortest
  decimal that reads back as the same Number.
\<close>

section \<open>Cents as Numbers\<close>

definition money :: "int \<Rightarrow> rat" where
  "money c = fl (of_int c / 100)"

definition usd :: "int \<Rightarrow> num" where
  "usd c = mk (of_int c / 100)"

definition cents_ok :: "int \<Rightarrow> bool" where
  "cents_ok c \<longleftrightarrow> \<bar>c\<bar> < 10 ^ 15"

lemma cents_okD: "cents_ok c \<Longrightarrow> \<bar>of_int c :: rat\<bar> \<le> 999999999999999"
proof -
  assume "cents_ok c"
  then have "of_int \<bar>c\<bar> \<le> (of_int 999999999999999 :: rat)"
    unfolding cents_ok_def by (intro of_int_le_iff [THEN iffD2]) simp
  then show ?thesis by simp
qed

lemma usd_Fin: "cents_ok c \<Longrightarrow> usd c = Fin (money c)"
  unfolding usd_def money_def by (rule mk_small, frule cents_okD) (simp add: abs_le_iff)

lemma fl_near:
  assumes "\<bar>z\<bar> \<le> 10000000000001"
  shows "\<bar>fl z - z\<bar> \<le> 1 / 900"
proof -
  have "\<bar>fl z - z\<bar> \<le> \<bar>z\<bar> / 2 ^ 53 + subnormal_err" by (rule fl_err)
  also have "\<dots> \<le> 10000000000001 / 2 ^ 53 + 1 / 10 ^ 20"
    using assms subnormal_err_bounds by (intro add_mono divide_right_mono) auto
  also have "\<dots> \<le> 1 / 900" by simp
  finally show ?thesis .
qed

lemma money_near: "cents_ok c \<Longrightarrow> \<bar>money c - of_int c / 100\<bar> \<le> 1 / 900"
  unfolding money_def by (rule fl_near, drule cents_okD) (simp add: abs_le_iff)

lemma floor_near:
  fixes x :: rat
  assumes "\<bar>x - of_int c\<bar> < 1/2"
  shows "\<lfloor>x + 1/2\<rfloor> = c"
  using assms unfolding floor_eq_iff by linarith

lemma money_recover:
  assumes "cents_ok c"
  shows "\<lfloor>100 * money c + 1/2\<rfloor> = c"
  using money_near [OF assms] by (intro floor_near) linarith

lemma money_mono: "a \<le> b \<Longrightarrow> money a \<le> money b"
  unfolding money_def by (intro fl_mono) (simp add: divide_right_mono)

lemma money_le_iff [simp]:
  assumes "cents_ok a" "cents_ok b"
  shows "money a \<le> money b \<longleftrightarrow> a \<le> b"
proof
  assume "money a \<le> money b"
  then have "\<lfloor>100 * money a + 1/2\<rfloor> \<le> \<lfloor>100 * money b + 1/2\<rfloor>" by (intro floor_mono) simp
  then show "a \<le> b" using money_recover assms by simp
qed (rule money_mono)

lemma money_less_iff [simp]: "cents_ok a \<Longrightarrow> cents_ok b \<Longrightarrow> money a < money b \<longleftrightarrow> a < b"
  by (metis money_le_iff not_le)

lemma money_eq_iff [simp]: "cents_ok a \<Longrightarrow> cents_ok b \<Longrightarrow> money a = money b \<longleftrightarrow> a = b"
  by (metis money_le_iff order.antisym order.refl)

lemma money_0 [simp]: "money 0 = 0"
  by (simp add: money_def)

lemma money_minus [simp]: "money (- c) = - money c"
  unfolding money_def using fl_minus [of "of_int c / 100"] by simp

lemma cents_ok_0 [simp]: "cents_ok 0"
  by (simp add: cents_ok_def)

lemma cents_ok_minus [simp]: "cents_ok (- c) = cents_ok c"
  by (simp add: cents_ok_def)

lemma usd_0 [simp]: "usd 0 = Fin 0"
  by (simp add: usd_Fin)

lemma nlt_usd [simp]: "cents_ok a \<Longrightarrow> cents_ok b \<Longrightarrow> nlt (usd a) (usd b) \<longleftrightarrow> a < b"
  by (simp add: usd_Fin)

lemma nle_usd [simp]: "cents_ok a \<Longrightarrow> cents_ok b \<Longrightarrow> nle (usd a) (usd b) \<longleftrightarrow> a \<le> b"
  by (simp add: usd_Fin)

lemma wf_usd [simp]: "wf_num (usd c)"
  by (simp add: usd_def)

section \<open>Rounding to cents\<close>

definition round_cents :: "num \<Rightarrow> num" where
  "round_cents x = ndiv (math_round (nmul x (Fin 100))) (Fin 100)"

lemma fixed2_near:
  assumes "\<bar>x - of_int c / 100\<bar> < 1 / 200" "cents_ok c"
  shows "fixed 2 (Fin x) = usd c"
proof -
  have near: "\<bar>100 * x - of_int c\<bar> < 1/2" using assms(1) by linarith
  have "\<bar>x\<bar> \<le> 1000000000000000" using assms(1) cents_okD [OF assms(2)] by linarith
  also have "(1000000000000000 :: rat) < 10 ^ 21" by simp
  finally have ax: "\<bar>x\<bar> < 10 ^ 21" .
  have D: "fixed_digits 2 x = \<bar>c\<bar>"
    unfolding fixed_digits_def
    by (rule floor_near) (use near in \<open>auto simp: abs_if split: if_splits\<close>)
  have "c \<noteq> 0 \<Longrightarrow> x < 0 \<longleftrightarrow> c < 0"
  proof -
    assume "c \<noteq> 0"
    then consider "c \<le> - 1" | "1 \<le> c" by linarith
    then show ?thesis
    proof cases
      case 1
      then have "(of_int c :: rat) \<le> - 1" by (metis of_int_1 of_int_le_iff of_int_minus)
      then show ?thesis using near 1 by linarith
    next
      case 2
      then have "(1::rat) \<le> of_int c" by (metis of_int_1 of_int_le_iff)
      then show ?thesis using near 2 by linarith
    qed
  qed
  then have "(if x < 0 then - 1 else 1) * of_int (fixed_digits 2 x) = (of_int c :: rat)"
    unfolding D by (cases "c = 0") auto
  then show ?thesis using ax by (simp add: usd_def not_le [symmetric])
qed

lemma fixed2_usd [simp]: "cents_ok c \<Longrightarrow> fixed 2 (usd c) = usd c"
proof -
  assume c: "cents_ok c"
  have "\<bar>money c - of_int c / 100\<bar> < 1 / 200" using money_near [OF c] by simp
  then show ?thesis using fixed2_near c by (simp add: usd_Fin)
qed

lemma diff_near:
  assumes "cents_ok a" "cents_ok b" "cents_ok (a - b)"
  shows "nsub (usd a) (usd b) = Fin (fl (money a - money b))"
    and "\<bar>fl (money a - money b) - of_int (a - b) / 100\<bar> \<le> 1 / 300"
proof -
  have "\<bar>money a - money b - of_int (a - b) / 100\<bar> \<le> 1 / 450"
    using money_near [OF assms(1)] money_near [OF assms(2)]
    unfolding of_int_diff diff_divide_distrib by linarith
  moreover have z: "\<bar>money a - money b\<bar> \<le> 10000000000001"
  proof -
    define d z where "d = (of_int (a - b) :: rat)" and "z = money a - money b"
    have "\<bar>z - d / 100\<bar> \<le> 1 / 450" "\<bar>d\<bar> \<le> 999999999999999"
      using calculation cents_okD [OF assms(3)] by (simp_all only: d_def z_def)
    then show ?thesis unfolding z_def [symmetric] by linarith
  qed
  ultimately show "\<bar>fl (money a - money b) - of_int (a - b) / 100\<bar> \<le> 1 / 300"
    using fl_near [OF z] by linarith
  show "nsub (usd a) (usd b) = Fin (fl (money a - money b))"
    using z assms by (simp add: usd_Fin mk_small)
qed

lemma fixed2_diff:
  assumes "cents_ok a" "cents_ok b" "cents_ok (a - b)"
  shows "fixed 2 (nsub (usd a) (usd b)) = usd (a - b)"
proof -
  have "\<bar>fl (money a - money b) - of_int (a - b) / 100\<bar> < 1 / 200"
    using diff_near(2) [OF assms] by linarith
  then show ?thesis unfolding diff_near(1) [OF assms] using assms(3) by (rule fixed2_near)
qed

lemma round_cents_near:
  assumes "\<bar>x - of_int c / 100\<bar> \<le> 1 / 300" "cents_ok c"
  shows "round_cents (Fin x) = usd c"
proof -
  have x: "\<bar>x * 100\<bar> \<le> 1000000000000001" "\<bar>x * 100 - of_int c\<bar> \<le> 1/3"
    using assms(1) cents_okD [OF assms(2)] by linarith+
  have "\<bar>fl (x * 100) - x * 100\<bar> \<le> \<bar>x * 100\<bar> / 2 ^ 53 + subnormal_err" by (rule fl_err)
  also have "\<dots> \<le> (1000000000000001) / 2 ^ 53 + 1 / 10 ^ 20"
    using x(1) subnormal_err_bounds by (intro add_mono divide_right_mono) auto
  also have "\<dots> < 1/6" by simp
  finally have "\<bar>fl (x * 100) - of_int c\<bar> < 1/2" using x(2) by linarith
  then have "\<lfloor>fl (x * 100) + 1/2\<rfloor> = c" by (rule floor_near)
  moreover have "mk (x * 100) = Fin (fl (x * 100))"
    using x(1) by (intro mk_small) (simp add: abs_le_iff)
  ultimately show ?thesis by (simp add: round_cents_def math_round_def usd_def)
qed

lemma round_cents_diff:
  assumes "cents_ok a" "cents_ok b" "cents_ok (a - b)"
  shows "round_cents (nsub (usd a) (usd b)) = usd (a - b)"
  unfolding diff_near(1) [OF assms] using diff_near(2) [OF assms] assms(3) by (rule round_cents_near)

end
