(* ===== verification/JsDecimal.thy ===== *)
theory JsDecimal
  imports JsMoney
begin

text \<open>
  The decimal text of a Number (Number::toString: the fewest digits that read back as the same
  Number) and the assignment of a decimal to a numeric(15,2) column.
\<close>

section \<open>Shortest decimal\<close>

definition dec_try :: "rat \<Rightarrow> int \<Rightarrow> nat \<Rightarrow> int option" where
  "dec_try q n k =
     (let p = 10 powi (n - int k); y = q / p; lo = \<lfloor>y\<rfloor>; hi = lo + 1;
          ok_lo = (fl (of_int lo * p) = q); ok_hi = (fl (of_int hi * p) = q)
      in if ok_lo \<and> (\<not> ok_hi \<or> y - of_int lo \<le> of_int hi - y) then Some lo
         else if ok_hi then Some hi else None)"

fun dec_search :: "rat \<Rightarrow> int \<Rightarrow> nat list \<Rightarrow> (int \<times> nat) option" where
  "dec_search q n [] = None"
| "dec_search q n (k # ks) =
     (case dec_try q n k of Some s \<Rightarrow> Some (s, k) | None \<Rightarrow> dec_search q n ks)"

definition dec_point :: "rat \<Rightarrow> int" where
  "dec_point q = flogb 10 \<bar>q\<bar> + 1"

definition dec_of :: "rat \<Rightarrow> rat" where
  "dec_of q =
     (if q = 0 then 0 else
      case dec_search \<bar>q\<bar> (dec_point q) [1..<18] of
        Some (s, k) \<Rightarrow> sgn q * (of_int s * 10 powi (dec_point q - int k))
      | None \<Rightarrow> q)"

lemma dec_try_Some: "dec_try q n k = Some s \<Longrightarrow> fl (of_int s * 10 powi (n - int k)) = q"
  by (auto simp: dec_try_def Let_def split: if_splits)

lemma dec_search_Some:
  "dec_search q n ks = Some (s, k) \<Longrightarrow> k \<in> set ks \<and> fl (of_int s * 10 powi (n - int k)) = q"
  by (induction ks) (auto split: option.splits dest: dec_try_Some)

lemma dec_try_exists:
  assumes "fl (of_int s * 10 powi (n - int k)) = q" "\<bar>q / 10 powi (n - int k) - of_int s\<bar> < 1"
  shows "dec_try q n k \<noteq> None"
proof -
  define y where "y = q / 10 powi (n - int k)"
  have "s = \<lfloor>y\<rfloor> \<or> s = \<lfloor>y\<rfloor> + 1"
    using assms(2) unfolding y_def [symmetric] by linarith
  moreover have "fl (of_int s * 10 powi (n - int k)) = q" by (rule assms(1))
  ultimately have "fl (of_int \<lfloor>y\<rfloor> * 10 powi (n - int k)) = q \<or> fl (of_int (\<lfloor>y\<rfloor> + 1) * 10 powi (n - int k)) = q"
    by blast
  then show ?thesis unfolding dec_try_def Let_def y_def by (simp split: if_split) blast
qed

lemma dec_search_prefix:
  assumes "dec_try q n k \<noteq> None" "k \<in> set ks" "sorted ks"
  shows "\<exists>s k'. dec_search q n ks = Some (s, k') \<and> k' \<le> k"
  using assms by (induction ks) (auto split: option.splits)

lemma ten_powi_pos [simp]: "(0::rat) < 10 powi k" "(10::rat) powi k \<noteq> 0"
  by (simp_all add: zero_less_power_int)

lemma fl_sgn: "fl (sgn q * x) = sgn q * fl x" for q :: rat
  by (auto simp: sgn_if)

lemma fl_dec_of: "fl q = q \<Longrightarrow> fl (dec_of q) = q"
proof -
  assume q: "fl q = q"
  show ?thesis
  proof (cases "q = 0 \<or> dec_search \<bar>q\<bar> (dec_point q) [1..<18] = None")
    case True
    then show ?thesis using q by (auto simp: dec_of_def)
  next
    case False
    then obtain s k where sk: "dec_search \<bar>q\<bar> (dec_point q) [1..<18] = Some (s, k)" by auto
    then have "fl (dec_of q) = sgn q * fl (of_int s * 10 powi (dec_point q - int k))"
      using False by (simp add: dec_of_def fl_sgn)
    also have "\<dots> = sgn q * \<bar>q\<bar>" using dec_search_Some [OF sk] by simp
    also have "\<dots> = q" by (simp add: sgn_mult_abs)
    finally show ?thesis .
  qed
qed

text \<open>
  Fifteen digits suffice for a number of cents below \<open>10 ^ 15\<close>, and two decimals with at most
  fifteen digits that read back as the same Number are equal.
\<close>

lemma fl_err_num: "\<bar>fl q - q\<bar> \<le> \<bar>q\<bar> / 9007199254740992 + 1 / 10 ^ 20"
  using fl_err [of q] subnormal_err_bounds by simp

lemma ten_powi_scale: "k \<le> m \<Longrightarrow> (10::rat) powi m = of_int (10 ^ nat (m - k)) * 10 powi k"
proof -
  assume "k \<le> m"
  then have "(of_int (10 ^ nat (m - k)) :: rat) = 10 powi (m - k)" by (simp add: power_int_def)
  then show ?thesis by (simp add: power_int_add [symmetric])
qed

lemma same_grid:
  assumes "\<bar>of_int a * p - of_int b * p\<bar> < (p::rat)"
  shows "a = b"
proof -
  have "0 < p" using assms by linarith
  have "\<bar>of_int a * p - of_int b * p\<bar> = of_int \<bar>a - b\<bar> * p"
    using \<open>0 < p\<close> by (simp add: abs_mult left_diff_distrib [symmetric])
  then have "of_int \<bar>a - b\<bar> * p < of_int 1 * p" using assms by simp
  then have "(of_int \<bar>a - b\<bar> :: rat) < of_int 1" using \<open>0 < p\<close> by (simp only: mult_less_cancel_right_pos)
  then have "\<bar>a - b\<bar> < 1" by (simp only: of_int_less_iff)
  then show ?thesis by simp
qed

lemma dec_of_money_pos:
  assumes c: "cents_ok c" "0 < c"
  shows "dec_of (money c) = of_int c / 100"
proof -
  define x :: rat where "x = of_int c / 100"
  define q where "q = money c"
  define n where "n = dec_point q"
  define e :: rat where "e = 1 / 10 ^ 20"
  define p :: rat where "p = 10 powi (n - 15)"
  have qx: "q = fl x" by (simp add: q_def x_def money_def)
  have x1: "1 / 100 \<le> x" using c(2) by (simp add: x_def)
  have e: "e \<le> 1 / 9007199254740992000" by (simp add: e_def)
  have near: "\<bar>q - x\<bar> \<le> \<bar>x\<bar> / 9007199254740992 + e"
    using fl_err_num [of x] by (simp only: qx e_def)
  have q0: "0 < q" using near x1 e by linarith
  have nq: "10 powi (n - 1) \<le> q" "q < 10 powi n"
    using flogb_spec [of 10 q] q0 by (simp_all add: n_def dec_point_def)
  have n13: "n \<le> 13"
  proof (rule ccontr)
    assume "\<not> n \<le> 13"
    then have "(10::rat) powi 13 \<le> 10 powi (n - 1)" by (intro power_int_increasing) auto
    then have "10000000000000 \<le> q" using nq(1) by (simp add: power_int_def)
    moreover have "q \<le> of_int c / 100 + 1/900" using money_near [OF c(1)] unfolding q_def by linarith
    ultimately show False using cents_okD [OF c(1)] by linarith
  qed
  have pn: "10 powi n = 1000000000000000 * p"
    using ten_powi_scale [of "n - 15" n] by (simp add: p_def)
  define t where "t = c * 10 ^ nat (13 - n)"
  have "(10::rat) powi (- 2) = of_int (10 ^ nat (13 - n)) * p"
    using ten_powi_scale [of "n - 15" "- 2"] n13 by (simp add: p_def)
  moreover have "(10::rat) powi (- 2) = 1 / 100" by (simp add: power_int_def power_one_over)
  ultimately have "x = of_int c * (of_int (10 ^ nat (13 - n)) * p)" unfolding x_def by simp
  then have xt: "x = of_int t * p" by (simp add: t_def)
  have "q / p - of_int t = (q - x) / p" unfolding xt by (simp add: p_def field_simps)
  moreover have "\<bar>q - x\<bar> < p" using near nq(2) x1 e unfolding pn by linarith
  ultimately have "\<bar>q / p - of_int t\<bar> < 1" by (simp add: p_def abs_divide pos_divide_less_eq)
  then have "dec_try q n 15 \<noteq> None"
    using qx xt by (intro dec_try_exists [where s = t]) (simp_all add: p_def)
  moreover have "(15::nat) \<in> set [1..<18]" "sorted [1..<18::nat]" by simp_all
  ultimately obtain s k where sk: "dec_search q n [1..<18] = Some (s, k)" "k \<le> 15"
    using dec_search_prefix by blast
  define v :: rat where "v = of_int s * 10 powi (n - int k)"
  have flv: "fl v = q" using dec_search_Some [OF sk(1)] by (simp add: v_def)
  have nearv: "\<bar>q - v\<bar> \<le> \<bar>v\<bar> / 9007199254740992 + e"
    using fl_err_num [of v] by (simp only: flv e_def)
  have "\<bar>v - x\<bar> < p" using near nearv nq(2) x1 e unfolding pn by linarith
  moreover have vt: "v = of_int (s * 10 ^ (15 - k)) * p"
    using ten_powi_scale [of "n - 15" "n - int k"] sk(2) by (simp add: v_def p_def nat_diff_distrib)
  ultimately have "s * 10 ^ (15 - k) = t" unfolding xt by (intro same_grid [where p = p]) simp
  then have "v = x" by (simp only: vt xt)
  then show ?thesis
    using q0 sk(1) by (simp add: dec_of_def q_def [symmetric] n_def [symmetric] v_def x_def)
qed

lemma dec_of_minus: "dec_of (- q) = - dec_of q"
  by (auto simp: dec_of_def dec_point_def sgn_minus split: option.splits)

text \<open>Every amount a numeric(15,2) column can hold survives the trip through Number and back.\<close>

lemma dec_of_money: "cents_ok c \<Longrightarrow> dec_of (money c) = of_int c / 100"
proof -
  assume c: "cents_ok c"
  consider "c = 0" | "0 < c" | "0 < - c" by linarith
  then show ?thesis
  proof cases
    case 1
    then show ?thesis by (simp add: dec_of_def)
  next
    case 2
    with c show ?thesis by (rule dec_of_money_pos)
  next
    case 3
    then show ?thesis using dec_of_money_pos [of "- c"] c by (simp add: dec_of_minus)
  qed
qed

section \<open>numeric(15,2) assignment\<close>

definition to_cents :: "rat \<Rightarrow> int" where
  "to_cents q = (if q < 0 then - \<lfloor>- q * 100 + 1/2\<rfloor> else \<lfloor>q * 100 + 1/2\<rfloor>)"

lemma to_cents_exact [simp]: "to_cents (of_int c / 100) = c"
proof -
  have "\<lfloor>of_int c + 1 / 2 :: rat\<rfloor> = c" "\<lfloor>- of_int c + 1 / 2 :: rat\<rfloor> = - c"
    by (simp_all add: floor_eq_iff)
  then show ?thesis by (auto simp: to_cents_def)
qed

lemma to_cents_near: "\<bar>of_int (to_cents q) - 100 * q\<bar> \<le> 1 / 2"
proof -
  have *: "\<bar>of_int \<lfloor>x + 1/2\<rfloor> - x\<bar> \<le> 1 / 2" for x :: rat
    using of_int_floor_le [of "x + 1/2"] floor_correct [of "x + 1/2"] by linarith
  show ?thesis
  proof (cases "q < 0")
    case True
    then have "to_cents q = - \<lfloor>- q * 100 + 1/2\<rfloor>" by (simp add: to_cents_def)
    then show ?thesis using * [of "- q * 100"] by linarith
  next
    case False
    then have "to_cents q = \<lfloor>q * 100 + 1/2\<rfloor>" by (simp add: to_cents_def)
    then show ?thesis using * [of "q * 100"] by linarith
  qed
qed

end
