(* ===== verification/JsValue.thy ===== *)
theory JsValue
  imports JsDecimal
begin

text \<open>
  JavaScript strings and dynamic values: printing and reading of Numbers, case mapping and
  trimming, truthiness and the coercions parseFloat, parseInt and String. Strings are lists of
  characters below 256; case mapping and white space are those of ASCII.
\<close>

section \<open>Characters and strings\<close>

definition is_ws :: "char \<Rightarrow> bool" where
  "is_ws c \<longleftrightarrow> c \<in> set [CHR '' '', CHR 0x09, CHR 0x0A, CHR 0x0B, CHR 0x0C, CHR 0x0D]"

definition is_digit :: "char \<Rightarrow> bool" where
  "is_digit c \<longleftrightarrow> 48 \<le> (of_char c :: int) \<and> (of_char c :: int) \<le> 57"

definition lower_char :: "char \<Rightarrow> char" where
  "lower_char c = (let n = of_char c :: int in if 65 \<le> n \<and> n \<le> 90 then char_of (n + 32) else c)"

definition upper_char :: "char \<Rightarrow> char" where
  "upper_char c = (let n = of_char c :: int in if 97 \<le> n \<and> n \<le> 122 then char_of (n - 32) else c)"

definition to_lower :: "string \<Rightarrow> string" where
  "to_lower s = map lower_char s"

definition to_upper :: "string \<Rightarrow> string" where
  "to_upper s = map upper_char s"

definition trim :: "string \<Rightarrow> string" where
  "trim s = rev (dropWhile is_ws (rev (dropWhile is_ws s)))"

lemma lower_char_idem [simp]: "lower_char (lower_char c) = lower_char c"
proof -
  define n where "n = (of_char c :: int)"
  have "65 \<le> n \<Longrightarrow> n \<le> 90 \<Longrightarrow> (of_char (char_of (n + 32)) :: int) = n + 32"
    by (simp add: of_char_of)
  then show ?thesis by (auto simp: lower_char_def Let_def n_def)
qed

lemma to_lower_idem [simp]: "to_lower (to_lower s) = to_lower s"
  by (simp add: to_lower_def)

lemma to_lower_Nil [simp]: "to_lower [] = []"
  by (simp add: to_lower_def)

section \<open>Printing\<close>

definition digit_char :: "int \<Rightarrow> char" where
  "digit_char d = char_of (48 + d)"

function pos_str :: "int \<Rightarrow> string" where
  "pos_str n = (if n < 10 then [digit_char n] else pos_str (n div 10) @ [digit_char (n mod 10)])"
  by pat_completeness auto
termination
  by (relation "measure nat") auto

declare pos_str.simps [simp del]

definition int_str :: "int \<Rightarrow> string" where
  "int_str n = (if n < 0 then CHR ''-'' # pos_str (- n) else pos_str n)"

definition dig_val :: "string \<Rightarrow> int" where
  "dig_val s = foldl (\<lambda>a c. 10 * a + (of_char c - 48)) 0 s"

lemma digit_char_props:
  assumes "0 \<le> d" "d \<le> 9"
  shows "is_digit (digit_char d)" and "(of_char (digit_char d) :: int) = 48 + d"
proof -
  show "(of_char (digit_char d) :: int) = 48 + d"
    using assms by (simp add: digit_char_def of_char_of)
  then show "is_digit (digit_char d)" using assms by (simp add: is_digit_def)
qed

lemma pos_str_digits: "0 \<le> n \<Longrightarrow> list_all is_digit (pos_str n) \<and> pos_str n \<noteq> []"
proof (induction n rule: pos_str.induct)
  case (1 n)
  show ?case
    using 1 digit_char_props(1) [of n] digit_char_props(1) [of "n mod 10"]
    by (subst (1 2) pos_str.simps) (auto simp: pos_mod_bound less_imp_le)
qed

lemma dig_val_pos_str: "0 \<le> n \<Longrightarrow> dig_val (pos_str n) = n"
proof (induction n rule: pos_str.induct)
  case (1 n)
  have "dig_val (pos_str (n div 10)) = n div 10" if "\<not> n < 10" using 1 that by simp
  then show ?case
    using "1.prems" digit_char_props(2) [of n] digit_char_props(2) [of "n mod 10"]
    by (subst pos_str.simps) (auto simp: dig_val_def)
qed

text \<open>toFixed: the digits with at least \<open>d\<close> places behind the point.\<close>

definition pad_digits :: "nat \<Rightarrow> string \<Rightarrow> string" where
  "pad_digits d s = replicate (Suc d - length s) (CHR ''0'') @ s"

definition point_at :: "nat \<Rightarrow> string \<Rightarrow> string" where
  "point_at d s = (if d = 0 then s else take (length s - d) s @ CHR ''.'' # drop (length s - d) s)"

text \<open>Number::toString from the shortest digits.\<close>

definition digits_str :: "int \<Rightarrow> nat \<Rightarrow> int \<Rightarrow> string" where
  "digits_str s k n =
     (let ds = pos_str s in
      if int k \<le> n \<and> n \<le> 21 then ds @ replicate (nat (n - int k)) (CHR ''0'')
      else if 0 < n \<and> n \<le> 21 then take (nat n) ds @ CHR ''.'' # drop (nat n) ds
      else if - 6 < n \<and> n \<le> 0 then ''0.'' @ replicate (nat (- n)) (CHR ''0'') @ ds
      else (if k = 1 then ds else hd ds # CHR ''.'' # tl ds) @
           ''e'' @ (if 0 < n - 1 then ''+'' else ''-'') @ pos_str \<bar>n - 1\<bar>)"

definition rat_str :: "rat \<Rightarrow> string" where
  "rat_str q =
     (if q = 0 then ''0'' else
      (if q < 0 then ''-'' else '''') @
      (case dec_search \<bar>q\<bar> (dec_point q) [1..<18] of
         Some (s, k) \<Rightarrow> (if s = 10 ^ k then digits_str 1 1 (dec_point q + 1) else digits_str s k (dec_point q))
       | None \<Rightarrow> []))"

fun num_str :: "num \<Rightarrow> string" where
  "num_str NaN = ''NaN''"
| "num_str PInf = ''Infinity''"
| "num_str NInf = ''-Infinity''"
| "num_str (Fin q) = rat_str q"

fun fixed_str :: "nat \<Rightarrow> num \<Rightarrow> string" where
  "fixed_str d (Fin a) =
     (if 10 ^ 21 \<le> \<bar>a\<bar> then num_str (Fin a)
      else (if a < 0 then ''-'' else '''') @ point_at d (pad_digits d (pos_str (fixed_digits d a))))"
| "fixed_str d x = num_str x"

section \<open>Reading\<close>

fun split_sign :: "string \<Rightarrow> bool \<times> string" where
  "split_sign (c # r) =
     (if c = CHR ''-'' then (True, r) else if c = CHR ''+'' then (False, r) else (False, c # r))"
| "split_sign [] = (False, [])"

fun exp_part :: "string \<Rightarrow> int" where
  "exp_part (c # r) =
     (if c = CHR ''e'' \<or> c = CHR ''E'' then
        (let (neg, r') = split_sign r; ds = takeWhile is_digit r'
         in if ds = [] then 0 else (if neg then - dig_val ds else dig_val ds))
      else 0)"
| "exp_part [] = 0"

fun frac_part :: "string \<Rightarrow> string \<times> string" where
  "frac_part (c # r) =
     (if c = CHR ''.'' then (takeWhile is_digit r, dropWhile is_digit r) else ([], c # r))"
| "frac_part [] = ([], [])"

definition parse_float_str :: "string \<Rightarrow> num" where
  "parse_float_str str =
     (let (neg, s) = split_sign (dropWhile is_ws str) in
      if take 8 s = ''Infinity'' then (if neg then NInf else PInf)
      else
        (let ip = takeWhile is_digit s;
             (fp, r) = frac_part (dropWhile is_digit s)
         in if ip = [] \<and> fp = [] then NaN
            else mk ((if neg then - 1 else 1) * of_int (dig_val (ip @ fp)) *
                     10 powi (exp_part r - int (length fp)))))"

definition parse_int_str :: "string \<Rightarrow> num" where
  "parse_int_str str =
     (let (neg, s) = split_sign (dropWhile is_ws str); ds = takeWhile is_digit s
      in if ds = [] then NaN else mk ((if neg then - 1 else 1) * of_int (dig_val ds)))"

text \<open>\<open>fixed\<close> is what parseFloat reads from the text toFixed prints.\<close>

lemma takeWhile_all: "list_all P xs \<Longrightarrow> takeWhile P xs = xs"
  by (simp add: list_all_iff takeWhile_eq_all_conv)

lemma dig_val_append_zeros [simp]: "dig_val (replicate m (CHR ''0'') @ s) = dig_val s"
  by (induction m) (simp_all add: dig_val_def)

lemma digit_not_special:
  "is_digit c \<Longrightarrow> c \<noteq> CHR ''-'' \<and> c \<noteq> CHR ''+'' \<and> c \<noteq> CHR ''I'' \<and> \<not> is_ws c"
  by (auto simp: is_digit_def is_ws_def)

lemma parse_float_point_at:
  assumes ds: "list_all is_digit s" and len: "Suc d \<le> length s"
  shows "parse_float_str ((if neg then ''-'' else '''') @ point_at d s) =
         mk ((if neg then - 1 else 1) * of_int (dig_val s) / 10 ^ d)"
proof -
  define m where "m = length s - d"
  have all: "list_all is_digit (take m s)" "list_all is_digit (drop m s)"
    using ds by (auto simp: list_all_iff dest: in_set_takeD in_set_dropD)
  obtain a u where au: "take m s = a # u" using len by (cases "take m s") (auto simp: m_def)
  have a: "is_digit a" using all au by simp
  have nodot: "\<not> is_digit (CHR ''.'')" by (simp add: is_digit_def)
  have pa: "point_at d s = a # u @ (if d = 0 then [] else CHR ''.'' # drop m s)"
    using au len by (auto simp: point_at_def m_def [symmetric]) (simp add: m_def)
  have tw: "takeWhile is_digit (a # u @ (if d = 0 then [] else CHR ''.'' # drop m s)) = take m s"
    "dropWhile is_digit (a # u @ (if d = 0 then [] else CHR ''.'' # drop m s)) =
       (if d = 0 then [] else CHR ''.'' # drop m s)"
    using all(1) nodot unfolding au
    by (auto simp: list_all_iff takeWhile_append dropWhile_append)
  have fp: "frac_part (if d = 0 then [] else CHR ''.'' # drop m s) = (drop m s, [])"
    using all(2) len by (auto simp: list_all_iff m_def)
  have sp: "split_sign (dropWhile is_ws ((if neg then ''-'' else '''') @ a # r)) = (neg, a # r)" for r
    using digit_not_special [OF a] by (simp add: is_ws_def)
  have ninf: "take 8 (a # r) \<noteq> ''Infinity''" for r using digit_not_special [OF a] by simp
  have ld: "length (drop m s) = d" using len by (simp add: m_def)
  have "(10::rat) powi (0 - int d) = 1 / 10 ^ d" by (simp add: power_int_minus inverse_eq_divide)
  moreover have "a # u @ drop m s = s" by (metis append_Cons append_take_drop_id au)
  ultimately show ?thesis
    unfolding parse_float_str_def pa sp using au ld
    by (simp only: Let_def prod.case ninf if_False tw fp exp_part.simps append_take_drop_id) simp
qed

lemma parse_fixed_str:
  assumes "\<bar>a\<bar> < 10 ^ 21"
  shows "parse_float_str (fixed_str d (Fin a)) = fixed d (Fin a)"
proof -
  have n: "0 \<le> fixed_digits d a" by (simp add: fixed_digits_def)
  define s where "s = pad_digits d (pos_str (fixed_digits d a))"
  have "is_digit (CHR ''0'')" by (simp add: is_digit_def)
  then have "list_all is_digit s" using pos_str_digits [OF n] by (auto simp: s_def pad_digits_def list_all_iff)
  moreover have "Suc d \<le> length s" by (simp add: s_def pad_digits_def)
  moreover have "dig_val s = fixed_digits d a" using dig_val_pos_str [OF n] by (simp add: s_def pad_digits_def)
  ultimately show ?thesis
    using parse_float_point_at [of s d "a < 0"] assms by (simp add: s_def [symmetric] not_le [symmetric])
qed

section \<open>Dynamic values\<close>

text \<open>
  \<open>JNumeric q\<close> is the decimal text of a NUMERIC column with the value \<open>q\<close>, as the driver
  delivers it: a non-empty string that parseFloat reads as the Number nearest to \<open>q\<close>.
\<close>

datatype jsval = JUndef | JNull | JBool bool | JNum num | JText string | JNumeric rat

fun truthy :: "jsval \<Rightarrow> bool" where
  "truthy JUndef = False"
| "truthy JNull = False"
| "truthy (JBool b) = b"
| "truthy (JNum x) = (\<not> is_nan x \<and> x \<noteq> Fin 0)"
| "truthy (JText s) = (s \<noteq> [])"
| "truthy (JNumeric q) = True"

definition js_or :: "jsval \<Rightarrow> jsval \<Rightarrow> jsval" where
  "js_or a b = (if truthy a then a else b)"

fun nullish :: "jsval \<Rightarrow> bool" where
  "nullish JUndef = True"
| "nullish JNull = True"
| "nullish _ = False"

fun parse_float :: "jsval \<Rightarrow> num" where
  "parse_float (JNum x) = x"
| "parse_float (JText s) = parse_float_str s"
| "parse_float (JNumeric q) = mk q"
| "parse_float _ = NaN"

fun parse_int :: "jsval \<Rightarrow> num" where
  "parse_int (JNum x) = parse_int_str (num_str x)"
| "parse_int (JText s) = parse_int_str s"
| "parse_int (JNumeric q) = mk (if q < 0 then - of_int \<lfloor>- q\<rfloor> else of_int \<lfloor>q\<rfloor>)"
| "parse_int _ = NaN"

text \<open>The text of an optional text column under \<open>String(x || '')\<close>.\<close>

definition text_or_empty :: "string option \<Rightarrow> string" where
  "text_or_empty t = (case t of None \<Rightarrow> [] | Some s \<Rightarrow> s)"

lemma text_or_empty_simps [simp]: "text_or_empty None = []" "text_or_empty (Some s) = s"
  by (simp_all add: text_or_empty_def)

end
