(* ===== verification/Prelude.thy ===== *)
theory Prelude
  imports JsValue
begin

text \<open>
  What every component shares: the error values of the program, transactions over a database
  connection as state passing with errors as values, and tables as lists of rows.
\<close>

named_theorems tx_simps "how the transaction combinators compute"
named_theorems table_simps "how table operations compute"
named_theorems money_simps "exact money arithmetic on Numbers"

section \<open>Errors\<close>

text \<open>
  The error classes of domain/errors.js and utils/balanceAdjustments.js, with the messages and
  HTTP status codes they carry. \<open>DbError\<close> is an error the database raises, with its SQLSTATE;
  \<open>PlainError\<close> is a built-in Error, with the statusCode some call sites attach to it.
\<close>

datatype js_error =
    DomainError string nat
  | InvariantViolation string nat
  | NotFound string
  | BalanceAdjustmentError string nat
  | TypeErr string
  | PlainError string "nat option"
  | DbError string

fun status_code :: "js_error \<Rightarrow> nat option" where
  "status_code (DomainError m s) = Some s"
| "status_code (InvariantViolation m s) = Some s"
| "status_code (NotFound m) = Some 404"
| "status_code (BalanceAdjustmentError m s) = Some s"
| "status_code (TypeErr m) = None"
| "status_code (PlainError m s) = s"
| "status_code (DbError m) = None"

section \<open>Transactions\<close>

text \<open>
  A connection holds the tables it sees, whether a transaction is open, whether a statement of
  it has failed (the server then refuses every statement but a rollback), the savepoints, and
  the tables as they were at BEGIN.
\<close>

record 't conn =
  tabs :: 't
  in_tx :: bool
  aborted :: bool
  saves :: "(string \<times> 't) list"
  base :: 't

type_synonym ('t, 'a) tx = "'t conn \<Rightarrow> (js_error + 'a) \<times> 't conn"

definition tx_return :: "'a \<Rightarrow> ('t, 'a) tx" where
  "tx_return a c = (Inr a, c)"

definition tx_throw :: "js_error \<Rightarrow> ('t, 'a) tx" where
  "tx_throw e c = (Inl e, c)"

definition tx_bind :: "('t, 'a) tx \<Rightarrow> ('a \<Rightarrow> ('t, 'b) tx) \<Rightarrow> ('t, 'b) tx" where
  "tx_bind m k c = (case m c of (Inl e, c') \<Rightarrow> (Inl e, c') | (Inr a, c') \<Rightarrow> k a c')"

definition tx_catch :: "('t, 'a) tx \<Rightarrow> (js_error \<Rightarrow> ('t, 'a) tx) \<Rightarrow> ('t, 'a) tx" where
  "tx_catch m h c = (case m c of (Inl e, c') \<Rightarrow> h e c' | (Inr a, c') \<Rightarrow> (Inr a, c'))"

text \<open>
  \<open>query\<close> is one statement: it fails on an aborted transaction, leaves the tables alone when it
  fails, and then aborts the transaction it runs in.
\<close>

definition query :: "('t \<Rightarrow> string + 'a \<times> 't) \<Rightarrow> ('t, 'a) tx" where
  "query f c =
     (if aborted c then (Inl (DbError ''25P02''), c)
      else case f (tabs c) of
             Inl e \<Rightarrow> (Inl (DbError e), c\<lparr>aborted := in_tx c\<rparr>)
           | Inr (a, t) \<Rightarrow> (Inr a, c\<lparr>tabs := t\<rparr>))"

definition select :: "('t \<Rightarrow> 'a) \<Rightarrow> ('t, 'a) tx" where
  "select f = query (\<lambda>t. Inr (f t, t))"

definition savepoint :: "string \<Rightarrow> ('t, unit) tx" where
  "savepoint n c =
     (if aborted c then (Inl (DbError ''25P02''), c)
      else if \<not> in_tx c then (Inl (DbError ''25P01''), c)
      else (Inr (), c\<lparr>saves := (n, tabs c) # saves c\<rparr>))"

definition rollback_to :: "string \<Rightarrow> ('t, unit) tx" where
  "rollback_to n c =
     (case dropWhile (\<lambda>s. fst s \<noteq> n) (saves c) of
        [] \<Rightarrow> (Inl (DbError ''3B001''), c\<lparr>aborted := in_tx c\<rparr>)
      | s # ss \<Rightarrow> (Inr (), c\<lparr>tabs := snd s, aborted := False, saves := s # ss\<rparr>))"

definition release :: "string \<Rightarrow> ('t, unit) tx" where
  "release n c =
     (if aborted c then (Inl (DbError ''25P02''), c)
      else case dropWhile (\<lambda>s. fst s \<noteq> n) (saves c) of
             [] \<Rightarrow> (Inl (DbError ''3B001''), c\<lparr>aborted := in_tx c\<rparr>)
           | s # ss \<Rightarrow> (Inr (), c\<lparr>saves := ss\<rparr>))"

definition begin_tx :: "'t conn \<Rightarrow> 't conn" where
  "begin_tx c = c\<lparr>in_tx := True, aborted := False, saves := [], base := tabs c\<rparr>"

definition rollback_tx :: "'t conn \<Rightarrow> 't conn" where
  "rollback_tx c = c\<lparr>tabs := base c, in_tx := False, aborted := False, saves := []\<rparr>"

definition commit_tx :: "'t conn \<Rightarrow> 't conn" where
  "commit_tx c = (if aborted c then rollback_tx c else c\<lparr>in_tx := False, saves := []\<rparr>)"

definition withTransaction :: "('t, 'a) tx \<Rightarrow> ('t, 'a) tx" where
  "withTransaction f c =
     (case f (begin_tx c) of
        (Inr a, c') \<Rightarrow> (Inr a, commit_tx c')
      | (Inl e, c') \<Rightarrow> (Inl e, rollback_tx c'))"

lemma tx_return_app [tx_simps]: "tx_return a c = (Inr a, c)"
  by (simp add: tx_return_def)

lemma tx_throw_app [tx_simps]: "tx_throw e c = (Inl e, c)"
  by (simp add: tx_throw_def)

lemma tx_bind_Inr [tx_simps]: "m c = (Inr a, c') \<Longrightarrow> tx_bind m k c = k a c'"
  by (simp add: tx_bind_def)

lemma tx_bind_Inl [tx_simps]: "m c = (Inl e, c') \<Longrightarrow> tx_bind m k c = (Inl e, c')"
  by (simp add: tx_bind_def)

lemma tx_bind_return [tx_simps]: "tx_bind (tx_return a) k = k a"
  by (rule ext) (simp add: tx_bind_def tx_return_def)

lemma tx_bind_throw [tx_simps]: "tx_bind (tx_throw e) k = tx_throw e"
  by (rule ext) (simp add: tx_bind_def tx_throw_def)

lemma tx_bind_cases:
  assumes "tx_bind m k c = (r, c')"
  obtains (err) e where "m c = (Inl e, c')" "r = Inl e"
    | (ok) a c1 where "m c = (Inr a, c1)" "k a c1 = (r, c')"
  using assms by (cases "m c"; cases "fst (m c)") (auto simp: tx_bind_def)

lemma tx_bind_Inr_E:
  assumes "tx_bind m k c = (Inr b, c')"
  obtains a c1 where "m c = (Inr a, c1)" "k a c1 = (Inr b, c')"
  using assms by (rule tx_bind_cases) simp_all

lemma query_ok [tx_simps]: "\<not> aborted c \<Longrightarrow> f (tabs c) = Inr (a, t) \<Longrightarrow> query f c = (Inr a, c\<lparr>tabs := t\<rparr>)"
  by (simp add: query_def)

lemma query_fails [tx_simps]:
  "\<not> aborted c \<Longrightarrow> f (tabs c) = Inl e \<Longrightarrow> query f c = (Inl (DbError e), c\<lparr>aborted := in_tx c\<rparr>)"
  by (simp add: query_def)

lemma select_app [tx_simps]: "\<not> aborted c \<Longrightarrow> select f c = (Inr (f (tabs c)), c)"
  by (simp add: select_def query_def)

lemma select_Inr: "select f c = (Inr a, c') \<longleftrightarrow> \<not> aborted c \<and> a = f (tabs c) \<and> c' = c"
  by (auto simp: select_def query_def)

lemma query_Inr: "query f c = (Inr a, c') \<longleftrightarrow> \<not> aborted c \<and> (\<exists>t. f (tabs c) = Inr (a, t) \<and> c' = c\<lparr>tabs := t\<rparr>)"
  by (auto simp: query_def split: sum.splits)

text \<open>A failing transaction body leaves no trace, and so does one whose transaction was aborted.\<close>

lemma withTransaction_error: 
  assumes "withTransaction f c = (Inl e, c')" "\<And>c1 r c2. f c1 = (r, c2) \<Longrightarrow> base c2 = base c1"
  shows "tabs c' = tabs c"
proof -
  obtain c2 where "f (begin_tx c) = (Inl e, c2)" "c' = rollback_tx c2"
    using assms(1) by (auto simp: withTransaction_def split: prod.splits sum.splits)
  then show ?thesis using assms(2) [of "begin_tx c" "Inl e" c2] by (simp add: rollback_tx_def begin_tx_def)
qed

text \<open>
  \<open>framed m\<close>: the operation \<open>m\<close> neither opens nor closes a transaction. \<open>preserves I m\<close>: every
  state of the tables the connection can still return to satisfies \<open>I\<close> after \<open>m\<close> if it did before.
\<close>

definition framed :: "('t, 'a) tx \<Rightarrow> bool" where
  "framed m \<longleftrightarrow> (\<forall>c. base (snd (m c)) = base c \<and> in_tx (snd (m c)) = in_tx c)"

definition conn_inv :: "('t \<Rightarrow> bool) \<Rightarrow> 't conn \<Rightarrow> bool" where
  "conn_inv I c \<longleftrightarrow> I (tabs c) \<and> I (base c) \<and> (\<forall>s\<in>set (saves c). I (snd s))"

definition preserves :: "('t \<Rightarrow> bool) \<Rightarrow> ('t, 'a) tx \<Rightarrow> bool" where
  "preserves I m \<longleftrightarrow> (\<forall>c. conn_inv I c \<longrightarrow> conn_inv I (snd (m c)))"

named_theorems tx_frames "operations that are framed"
named_theorems tx_preserves "operations that preserve an invariant"

lemma framedD: "framed m \<Longrightarrow> m c = (r, c') \<Longrightarrow> base c' = base c \<and> in_tx c' = in_tx c"
  by (metis framed_def snd_conv)

lemma preservesD: "preserves I m \<Longrightarrow> m c = (r, c') \<Longrightarrow> conn_inv I c \<Longrightarrow> conn_inv I c'"
  by (metis preserves_def snd_conv)

lemma tx_bind_fst:
  "tx_bind m k c = (case fst (m c) of Inl e \<Rightarrow> (Inl e, snd (m c)) | Inr a \<Rightarrow> k a (snd (m c)))"
  by (simp add: tx_bind_def split: prod.splits sum.splits)

lemma tx_catch_fst:
  "tx_catch m h c = (case fst (m c) of Inl e \<Rightarrow> h e (snd (m c)) | Inr a \<Rightarrow> (Inr a, snd (m c)))"
  by (simp add: tx_catch_def split: prod.splits sum.splits)

lemma dropWhile_part: "dropWhile P xs = y # ys \<Longrightarrow> y \<in> set xs \<and> set ys \<subseteq> set xs"
  by (metis list.set_intros(1) set_dropWhileD set_subset_Cons subset_iff)

lemma framed_return [tx_frames]: "framed (tx_return a)"
  by (simp add: framed_def tx_return_def)

lemma framed_throw [tx_frames]: "framed (tx_throw e)"
  by (simp add: framed_def tx_throw_def)

lemma framed_query [tx_frames]: "framed (query f)"
  by (auto simp: framed_def query_def split: sum.splits)

lemma framed_select [tx_frames]: "framed (select f)"
  by (simp add: select_def framed_query)

lemma framed_savepoint [tx_frames]: "framed (savepoint n)"
  by (simp add: framed_def savepoint_def)

lemma framed_rollback_to [tx_frames]: "framed (rollback_to n)"
  by (simp add: framed_def rollback_to_def split: list.splits)

lemma framed_release [tx_frames]: "framed (release n)"
  by (simp add: framed_def release_def split: list.splits)

lemma framed_bind [tx_frames]: "framed m \<Longrightarrow> (\<And>a. framed (k a)) \<Longrightarrow> framed (tx_bind m k)"
  by (auto simp: framed_def tx_bind_fst split: sum.splits)

lemma framed_catch [tx_frames]: "framed m \<Longrightarrow> (\<And>e. framed (h e)) \<Longrightarrow> framed (tx_catch m h)"
  by (auto simp: framed_def tx_catch_fst split: sum.splits)

lemma preserves_return [tx_preserves]: "preserves I (tx_return a)"
  by (simp add: preserves_def tx_return_def)

lemma preserves_throw [tx_preserves]: "preserves I (tx_throw e)"
  by (simp add: preserves_def tx_throw_def)

lemma preserves_query:
  "(\<And>t a t'. I t \<Longrightarrow> f t = Inr (a, t') \<Longrightarrow> I t') \<Longrightarrow> preserves I (query f)"
  by (auto simp: preserves_def query_def conn_inv_def split: sum.splits prod.splits)

lemma preserves_select [tx_preserves]: "preserves I (select f)"
  unfolding select_def by (rule preserves_query) simp

lemma preserves_savepoint [tx_preserves]: "preserves I (savepoint n)"
  by (auto simp: preserves_def savepoint_def conn_inv_def)

lemma preserves_rollback_to [tx_preserves]: "preserves I (rollback_to n)"
  by (auto simp: preserves_def rollback_to_def conn_inv_def split: list.splits dest!: dropWhile_part)

lemma preserves_release [tx_preserves]: "preserves I (release n)"
  by (auto simp: preserves_def release_def conn_inv_def split: list.splits dest!: dropWhile_part)

lemma preserves_bind [tx_preserves]:
  "preserves I m \<Longrightarrow> (\<And>a. preserves I (k a)) \<Longrightarrow> preserves I (tx_bind m k)"
  by (auto simp: preserves_def tx_bind_fst split: sum.splits)

lemma preserves_catch [tx_preserves]:
  "preserves I m \<Longrightarrow> (\<And>e. preserves I (h e)) \<Longrightarrow> preserves I (tx_catch m h)"
  by (auto simp: preserves_def tx_catch_fst split: sum.splits)

lemma preserves_withTransaction:
  assumes "preserves I m" "framed m"
  shows "preserves I (withTransaction m)"
  unfolding preserves_def
proof (intro allI impI)
  fix c :: "'a conn"
  assume c: "conn_inv I c"
  obtain r c2 where m: "m (begin_tx c) = (r, c2)" by (cases "m (begin_tx c)")
  have "conn_inv I (begin_tx c)" using c by (simp add: conn_inv_def begin_tx_def)
  from preservesD [OF assms(1) m this] show "conn_inv I (snd (withTransaction m c))"
    using m by (cases r) (auto simp: withTransaction_def conn_inv_def commit_tx_def rollback_tx_def)
qed

lemma withTransaction_undoes:
  assumes "framed f" "withTransaction f c = (Inl e, c')"
  shows "tabs c' = tabs c"
  using withTransaction_error [OF assms(2)] framedD [OF assms(1)] by blast

text \<open>
  Operations whose effect on the tables stays within a preorder, for instance the one relating
  states that differ in one table only; savepoints are left as they were.
\<close>

definition confined :: "('t \<Rightarrow> 't \<Rightarrow> bool) \<Rightarrow> ('t, 'a) tx \<Rightarrow> bool" where
  "confined R m \<longleftrightarrow> (\<forall>c. R (tabs c) (tabs (snd (m c))) \<and> saves (snd (m c)) = saves c)"

lemma confinedD: "confined R m \<Longrightarrow> m c = (r, c') \<Longrightarrow> R (tabs c) (tabs c') \<and> saves c' = saves c"
  by (metis confined_def snd_conv)

locale effect =
  fixes R :: "'t \<Rightarrow> 't \<Rightarrow> bool"
  assumes effect_refl: "R t t"
    and effect_trans: "R t u \<Longrightarrow> R u v \<Longrightarrow> R t v"
begin

lemma confined_return: "confined R (tx_return a)"
  by (simp add: confined_def tx_return_def effect_refl)

lemma confined_throw: "confined R (tx_throw e)"
  by (simp add: confined_def tx_throw_def effect_refl)

lemma confined_query: "(\<And>t a t'. f t = Inr (a, t') \<Longrightarrow> R t t') \<Longrightarrow> confined R (query f)"
  by (auto simp: confined_def query_def effect_refl split: sum.splits prod.splits)

lemma confined_select: "confined R (select f)"
  unfolding select_def by (rule confined_query) (simp add: effect_refl)

lemma confined_bind: "confined R m \<Longrightarrow> (\<And>a. confined R (k a)) \<Longrightarrow> confined R (tx_bind m k)"
  by (auto simp: confined_def tx_bind_fst intro: effect_trans split: sum.splits)

lemma confined_catch: "confined R m \<Longrightarrow> (\<And>e. confined R (h e)) \<Longrightarrow> confined R (tx_catch m h)"
  by (auto simp: confined_def tx_catch_fst intro: effect_trans split: sum.splits)

lemmas confined_rules = confined_return confined_throw confined_select confined_bind confined_catch

text \<open>The pattern SAVEPOINT, work, RELEASE or ROLLBACK TO, continuing after a failure.\<close>

lemma guarded_work:
  assumes "confined R work"
  shows "R (tabs c) (tabs (snd (tx_bind (tx_catch (tx_bind (savepoint n) (\<lambda>_. tx_return True)) (\<lambda>_. tx_return False)) (\<lambda>held.
      tx_catch (tx_bind work (\<lambda>r. tx_bind (if held then release n else tx_return ()) (\<lambda>_. tx_return (g r))))
        (\<lambda>e. tx_bind (if held then tx_catch (rollback_to n) (\<lambda>_. tx_return ()) else tx_return ()) (\<lambda>_. tx_return d))) c)))"
proof -
  obtain r c1 where w: "work c = (r, c1)" by (cases "work c")
  obtain r2 c2 where w2: "work (c\<lparr>saves := (n, tabs c) # saves c\<rparr>) = (r2, c2)"
    by (cases "work (c\<lparr>saves := (n, tabs c) # saves c\<rparr>)")
  have "R (tabs c) (tabs c1)" "R (tabs c) (tabs c2)" "saves c2 = (n, tabs c) # saves c"
    using confinedD [OF assms w] confinedD [OF assms w2] by simp_all
  then show ?thesis
    by (cases r; cases r2)
      (auto simp: tx_bind_def tx_catch_def tx_return_def savepoint_def release_def rollback_to_def w w2 effect_refl
        split: if_splits)
qed

end

section \<open>Tables\<close>

definition find_by :: "('r \<Rightarrow> 'k) \<Rightarrow> 'k \<Rightarrow> 'r list \<Rightarrow> 'r option" where
  "find_by key k t = List.find (\<lambda>r. key r = k) t"

definition update_by :: "('r \<Rightarrow> 'k) \<Rightarrow> 'k \<Rightarrow> ('r \<Rightarrow> 'r) \<Rightarrow> 'r list \<Rightarrow> 'r list" where
  "update_by key k f t = map (\<lambda>r. if key r = k then f r else r) t"

lemma find_by_Nil [table_simps]: "find_by key k [] = None"
  by (simp add: find_by_def)

lemma find_by_Cons [table_simps]: "find_by key k (r # t) = (if key r = k then Some r else find_by key k t)"
  by (simp add: find_by_def)

lemma update_by_Nil [table_simps]: "update_by key k f [] = []"
  by (simp add: update_by_def)

lemma update_by_Cons [table_simps]:
  "update_by key k f (r # t) = (if key r = k then f r else r) # update_by key k f t"
  by (simp add: update_by_def)

lemma find_by_key: "find_by key k t = Some r \<Longrightarrow> key r = k \<and> r \<in> set t"
  by (induction t) (auto simp: table_simps split: if_splits)

lemma find_by_None: "find_by key k t = None \<longleftrightarrow> (\<forall>r\<in>set t. key r \<noteq> k)"
  by (induction t) (auto simp: table_simps)

lemma find_by_append [table_simps]:
  "find_by key k (t @ u) = (case find_by key k t of None \<Rightarrow> find_by key k u | Some r \<Rightarrow> Some r)"
  by (induction t) (auto simp: table_simps)

lemma length_update_by [simp]: "length (update_by key k f t) = length t"
  by (simp add: update_by_def)

text \<open>The contract of a table addressed by its primary key.\<close>

locale keyed_table =
  fixes lookup :: "'k \<Rightarrow> 't \<Rightarrow> 'r option"
    and modify :: "'k \<Rightarrow> ('r \<Rightarrow> 'r) \<Rightarrow> 't \<Rightarrow> 't"
    and keeps :: "('r \<Rightarrow> 'r) \<Rightarrow> bool"
  assumes lookup_modify_same: "keeps f \<Longrightarrow> lookup k (modify k f t) = map_option f (lookup k t)"
    and lookup_modify_other: "keeps f \<Longrightarrow> j \<noteq> k \<Longrightarrow> lookup j (modify k f t) = lookup j t"
begin

lemma lookup_modify:
  "keeps f \<Longrightarrow> lookup j (modify k f t) = (if j = k then map_option f (lookup k t) else lookup j t)"
  using lookup_modify_same lookup_modify_other by simp

lemma modify_preserves_all:
  assumes "keeps f" "\<And>r. P r \<Longrightarrow> P (f r)" "\<And>j r. lookup j t = Some r \<Longrightarrow> P r"
    and "lookup j (modify k f t) = Some r"
  shows "P r"
  using assms(2-4) by (auto simp: lookup_modify [OF assms(1)] split: if_splits)

lemma modify_missing: "keeps f \<Longrightarrow> lookup k t = None \<Longrightarrow> lookup j (modify k f t) = lookup j t"
  by (simp add: lookup_modify)

end

lemma find_update_same: "(\<And>r. key (f r) = key r) \<Longrightarrow> find_by key k (update_by key k f t) = map_option f (find_by key k t)"
  by (induction t) (auto simp: table_simps)

lemma find_update_other:
  "(\<And>r. key (f r) = key r) \<Longrightarrow> j \<noteq> k \<Longrightarrow> find_by key j (update_by key k f t) = find_by key j t"
  by (induction t) (auto simp: table_simps)

end
