(* ===== verification/Database.thy ===== *)
theory Database
  imports Prelude
begin

text \<open>
  The tables of migrations/000_core_schema.sql and its successors that the account, payout,
  drawdown, progression and certificate components share, and the statements they have in common. A NUMERIC(15,2)
  column is held as its number of cents, a NUMERIC(5,2) percentage as its number of
  hundredths, a timestamp as milliseconds; a nullable column is an option. Columns that
  no modelled operation reads (updated_at, audit text) are left out.
\<close>

section \<open>Rows\<close>

text \<open>A JSONB object, as its entries; \<open>obj_put\<close> is the spread of an object with one more entry.\<close>

type_synonym json_obj = "(string \<times> jsval) list"

definition obj_put :: "json_obj \<Rightarrow> string \<Rightarrow> jsval \<Rightarrow> json_obj" where
  "obj_put m k v = filter (\<lambda>e. fst e \<noteq> k) m @ [(k, v)]"

record account =
  acc_id :: string
  acc_uid :: "string option"
  acc_user :: "string option"
  acc_type :: string
  acc_size :: int
  current_balance :: int
  starting_balance :: int
  peak_balance :: int
  profit_target :: int
  max_drawdown_pct :: int
  acc_status :: "string option"
  phase_start :: "int option"
  phase_end :: "int option"
  review_flagged :: bool
  review_flag_reason :: "string option"
  eod_peak_equity :: "int option"
  eod_trailing_floor :: "int option"
  challenge_model_slug :: "string option"
  challenge_model_id :: "int option"
  step_number :: "int option"
  daily_drawdown_pct :: "int option"
  drawdown_type :: "string option"
  consistency_max_day_pct :: "int option"
  min_trading_days :: "int option"
  min_daily_profit_pct :: "int option"
  parent_account :: "string option"
  created_at :: "int option"
  scaling_multiplier :: rat
  scaling_claimed :: int

record ledger_row =
  led_id :: int
  led_account :: string
  led_user :: "string option"
  led_source :: string
  led_competition :: "int option"
  led_entry :: "int option"
  led_amount :: int
  led_before :: int
  led_after :: int
  led_reason :: string
  led_created_by :: string
  led_metadata :: json_obj

record payout =
  pay_id :: string
  pay_user :: "string option"
  pay_account :: "string option"
  amount_requested :: "int option"
  firm_cut :: "int option"
  amount_payable :: "int option"
  payment_method :: "string option"
  pay_status :: "string option"
  paid_at :: "int option"
  transaction_id :: "string option"
  first_approver :: "string option"
  first_approved_at :: "int option"
  second_approver :: "string option"
  second_approved_at :: "int option"

record user =
  user_id :: string
  email :: string
  full_name :: string
  kyc_status :: "string option"

record trade =
  trade_id :: string
  trade_account :: "string option"
  trade_status :: "string option"
  demo_pnl :: "int option"
  trade_instrument :: string
  trade_direction :: string
  trade_lots :: rat
  trade_open_price :: "rat option"
  trade_close_price :: "rat option"
  trade_open_time :: "int option"
  trade_close_time :: "int option"
  trade_sl :: "rat option"
  trade_tp :: "rat option"
  trade_order_type :: "string option"
  trade_pending_price :: "rat option"
  trade_reason :: "string option"
  trade_commission :: "int option"
  trade_oco :: "string option"
  trade_deferred_price :: "rat option"
  trade_deferred_reason :: "string option"
  trade_deferred_at :: "int option"
  trade_original_commission :: "int option"
  trade_parent :: "string option"
  trade_partial :: bool
  trade_slippage :: "int option"

record trade_log =
  tl_id :: int
  tl_trade :: "string option"
  tl_user :: "string option"
  tl_account :: "string option"
  tl_ip :: "string option"
  tl_at :: int

record certificate =
  cert_id :: int
  public_id :: string
  cert_user :: string
  cert_account :: "string option"
  cert_template :: "int option"
  cert_kind :: string
  cert_title :: string
  cert_subtitle :: "string option"
  cert_recipient :: string
  cert_amount :: "int option"
  cert_currency :: string
  cert_metadata :: json_obj
  cert_status :: string
  cert_revoked_at :: "int option"
  cert_revoked_reason :: "string option"
  cert_signature :: string
  cert_issued_by :: "string option"
  cert_source_key :: "string option"
  cert_issued_at :: int

record template =
  tpl_id :: int
  tpl_kind :: "string option"
  tpl_active :: bool

record review =
  rev_id :: int
  rev_source :: string
  rev_user :: string
  rev_from :: string
  rev_target :: string
  rev_size :: "rat option"
  rev_status :: string
  rev_triggered :: "string option"
  rev_reason :: "string option"
  rev_requested_by :: "string option"
  rev_decided_by :: "string option"
  rev_note :: "string option"
  rev_created_account :: "string option"
  rev_payload :: json_obj
  rev_decided_at :: "int option"
  rev_created_at :: int

text \<open>A row of bbook_pnl: the day and its counters.\<close>

record day_count =
  day_date :: int
  day_passed :: int
  day_failed :: int
  day_expired :: int
  day_funded :: int

record db =
  now :: int
  accounts :: "account list"
  ledger :: "ledger_row list"
  ledger_seq :: int
  payouts :: "payout list"
  users :: "user list"
  trades :: "trade list"
  settings :: "(string \<times> string) list"
  certificates :: "certificate list"
  cert_seq :: int
  templates :: "template list"
  reviews :: "review list"
  review_seq :: int
  day_counts :: "day_count list"
  uid_seqs :: "(string \<times> int) list"
  trade_logs :: "trade_log list"
  trade_log_seq :: int

text \<open>
  The JavaScript object of an accounts row: the driver delivers NUMERIC columns as text, and the
  aggregate overwrites two of them with Numbers.
\<close>

record account_row =
  row_id :: string
  row_user :: "string option"
  row_type :: "string option"
  row_current :: jsval
  row_starting :: jsval
  row_peak :: jsval
  row_status :: "string option"

definition numeric_val :: "int \<Rightarrow> jsval" where
  "numeric_val c = JNumeric (of_int c / 100)"

definition row_of :: "account \<Rightarrow> account_row" where
  "row_of a =
     \<lparr>row_id = acc_id a, row_user = acc_user a, row_type = Some (acc_type a),
      row_current = numeric_val (current_balance a), row_starting = numeric_val (starting_balance a),
      row_peak = numeric_val (peak_balance a), row_status = acc_status a\<rparr>"

lemma parse_numeric_val [simp]: "parse_float (numeric_val c) = usd c"
  by (simp add: numeric_val_def usd_def)

section \<open>Bound parameters and column assignment\<close>

text \<open>
  A Number is bound as the text it prints as, which the server reads exactly. NaN is not among
  the values any modelled statement binds; it is refused here like the infinities.
\<close>

fun bind_num :: "num \<Rightarrow> string + rat" where
  "bind_num (Fin q) = Inr (dec_of q)"
| "bind_num _ = Inl ''22003''"

text \<open>Assignment to a NUMERIC(15,2) column rounds half away from zero and checks the range.\<close>

definition numeric15_2 :: "rat \<Rightarrow> string + int" where
  "numeric15_2 q = (let c = to_cents q in if cents_ok c then Inr c else Inl ''22003'')"

lemma numeric15_2_cents [simp]: "cents_ok c \<Longrightarrow> numeric15_2 (of_int c / 100) = Inr c"
  by (simp add: numeric15_2_def Let_def)

lemma numeric15_2_ok: "numeric15_2 q = Inr c \<longleftrightarrow> cents_ok (to_cents q) \<and> c = to_cents q"
  by (auto simp: numeric15_2_def Let_def)

lemma bind_usd [simp]: "cents_ok c \<Longrightarrow> bind_num (usd c) = Inr (of_int c / 100)"
  by (simp add: usd_Fin dec_of_money)

section \<open>The keyed tables\<close>

definition get_account :: "string \<Rightarrow> db \<Rightarrow> account option" where
  "get_account i t = find_by acc_id i (accounts t)"

definition put_account :: "string \<Rightarrow> (account \<Rightarrow> account) \<Rightarrow> db \<Rightarrow> db" where
  "put_account i f t = t\<lparr>accounts := update_by acc_id i f (accounts t)\<rparr>"

definition get_payout :: "string \<Rightarrow> db \<Rightarrow> payout option" where
  "get_payout i t = find_by pay_id i (payouts t)"

definition put_payout :: "string \<Rightarrow> (payout \<Rightarrow> payout) \<Rightarrow> db \<Rightarrow> db" where
  "put_payout i f t = t\<lparr>payouts := update_by pay_id i f (payouts t)\<rparr>"

definition keeps_acc_id :: "(account \<Rightarrow> account) \<Rightarrow> bool" where
  "keeps_acc_id f \<longleftrightarrow> (\<forall>a. acc_id (f a) = acc_id a)"

definition keeps_pay_id :: "(payout \<Rightarrow> payout) \<Rightarrow> bool" where
  "keeps_pay_id f \<longleftrightarrow> (\<forall>p. pay_id (f p) = pay_id p)"

interpretation acct: keyed_table get_account put_account keeps_acc_id
  by unfold_locales
    (auto simp: get_account_def put_account_def keeps_acc_id_def find_update_same find_update_other)

interpretation pout: keyed_table get_payout put_payout keeps_pay_id
  by unfold_locales
    (auto simp: get_payout_def put_payout_def keeps_pay_id_def find_update_same find_update_other)

lemma put_account_others [simp]:
  "ledger (put_account i f t) = ledger t" "ledger_seq (put_account i f t) = ledger_seq t"
  "payouts (put_account i f t) = payouts t" "users (put_account i f t) = users t"
  "trades (put_account i f t) = trades t" "settings (put_account i f t) = settings t"
  "certificates (put_account i f t) = certificates t" "now (put_account i f t) = now t"
  "reviews (put_account i f t) = reviews t" "review_seq (put_account i f t) = review_seq t"
  "day_counts (put_account i f t) = day_counts t" "uid_seqs (put_account i f t) = uid_seqs t"
  by (simp_all add: put_account_def)

lemma put_payout_others [simp]:
  "ledger (put_payout i f t) = ledger t" "ledger_seq (put_payout i f t) = ledger_seq t"
  "accounts (put_payout i f t) = accounts t" "users (put_payout i f t) = users t"
  "trades (put_payout i f t) = trades t" "settings (put_payout i f t) = settings t"
  "certificates (put_payout i f t) = certificates t" "now (put_payout i f t) = now t"
  by (simp_all add: put_payout_def)

lemma get_account_put_payout [simp]: "get_account i (put_payout j f t) = get_account i t"
  by (simp add: get_account_def)

lemma get_payout_put_account [simp]: "get_payout i (put_account j f t) = get_payout i t"
  by (simp add: get_payout_def)

lemma keeps_acc_idI [intro]: "(\<And>a. acc_id (f a) = acc_id a) \<Longrightarrow> keeps_acc_id f"
  by (simp add: keeps_acc_id_def)

lemma keeps_pay_idI [intro]: "(\<And>p. pay_id (f p) = pay_id p) \<Longrightarrow> keeps_pay_id f"
  by (simp add: keeps_pay_id_def)

lemma get_account_id: "get_account i t = Some a \<Longrightarrow> acc_id a = i"
  by (auto simp: get_account_def dest: find_by_key)

lemma get_payout_id: "get_payout i t = Some p \<Longrightarrow> pay_id p = i"
  by (auto simp: get_payout_def dest: find_by_key)

section \<open>What the column types guarantee\<close>

text \<open>The money columns of a row, within NUMERIC(15,2), and the accounts_status_check constraint.\<close>

definition known_statuses :: "string list" where
  "known_statuses = [''active'', ''passed'', ''failed'', ''expired'', ''locked'', ''cancelled'', ''closed'']"

definition account_typed :: "account \<Rightarrow> bool" where
  "account_typed a \<longleftrightarrow>
     cents_ok (acc_size a) \<and> cents_ok (current_balance a) \<and> cents_ok (starting_balance a) \<and>
     cents_ok (peak_balance a) \<and> cents_ok (profit_target a) \<and>
     (\<forall>c. eod_peak_equity a = Some c \<longrightarrow> cents_ok c) \<and>
     (\<forall>c. eod_trailing_floor a = Some c \<longrightarrow> cents_ok c) \<and>
     (\<forall>s. acc_status a = Some s \<longrightarrow> s \<in> set known_statuses)"

definition accounts_typed :: "db \<Rightarrow> bool" where
  "accounts_typed t \<longleftrightarrow> (\<forall>i a. get_account i t = Some a \<longrightarrow> account_typed a)"

lemma accounts_typedD: "accounts_typed t \<Longrightarrow> get_account i t = Some a \<Longrightarrow> account_typed a"
  by (auto simp: accounts_typed_def)

lemma accounts_typed_put:
  assumes "accounts_typed t" "keeps_acc_id f" "\<And>a. get_account i t = Some a \<Longrightarrow> account_typed (f a)"
  shows "accounts_typed (put_account i f t)"
  unfolding accounts_typed_def
  using assms by (auto simp: acct.lookup_modify accounts_typed_def split: if_splits)

section \<open>A concrete state, for the examples\<close>

definition demo_account :: account where
  "demo_account =
     \<lparr>acc_id = ''a1'', acc_uid = None, acc_user = Some ''u1'', acc_type = ''funded'', acc_size = 10000000,
      current_balance = 10500000, starting_balance = 10000000, peak_balance = 10600000,
      profit_target = 0, max_drawdown_pct = 400, acc_status = Some ''active'',
      phase_start = None, phase_end = None, review_flagged = False, review_flag_reason = None,
      eod_peak_equity = Some 10600000, eod_trailing_floor = Some 9900000, challenge_model_slug = None,
      challenge_model_id = None, step_number = None, daily_drawdown_pct = None, drawdown_type = None,
      consistency_max_day_pct = None, min_trading_days = None, min_daily_profit_pct = None, parent_account = None,
      created_at = None, scaling_multiplier = 1, scaling_claimed = 0\<rparr>"

definition demo_db :: db where
  "demo_db =
     \<lparr>now = 0, accounts = [demo_account], ledger = [], ledger_seq = 0,
      payouts = [\<lparr>pay_id = ''p1'', pay_user = Some ''u1'', pay_account = Some ''a1'', amount_requested = Some 300000,
                  firm_cut = Some 0, amount_payable = Some 300000, payment_method = Some ''usdt'',
                  pay_status = Some ''pending'', paid_at = None, transaction_id = None, first_approver = None,
                  first_approved_at = None, second_approver = None, second_approved_at = None\<rparr>],
      users = [\<lparr>user_id = ''u1'', email = ''t@x'', full_name = ''T'', kyc_status = Some ''approved''\<rparr>],
      trades = [], settings = [(''payout_dual_approval_threshold'', ''2500'')], certificates = [],
      cert_seq = 0, templates = [], reviews = [], review_seq = 0, day_counts = [], uid_seqs = [],
      trade_logs = [], trade_log_seq = 0\<rparr>"

definition conn_of :: "'t \<Rightarrow> 't conn" where
  "conn_of t = begin_tx \<lparr>tabs = t, in_tx = False, aborted = False, saves = [], base = t\<rparr>"

lemma conn_of_simps [simp]: "tabs (conn_of t) = t" "\<not> aborted (conn_of t)" "in_tx (conn_of t)" "base (conn_of t) = t"
  by (simp_all add: conn_of_def begin_tx_def)

lemma demo_lookup [simp]: "get_account ''a1'' demo_db = Some demo_account"
  by (simp add: get_account_def demo_db_def demo_account_def find_by_def)

lemma demo_typed [simp]: "account_typed demo_account"
  by (simp add: account_typed_def demo_account_def cents_ok_def known_statuses_def)

lemma run_ok: "\<not> isl (fst (m c)) \<Longrightarrow> m c = (Inr (projr (fst (m c))), snd (m c))"
  by (cases "m c"; cases "fst (m c)") auto

end
