(* ===== verification/Drawdown.thy ===== *)
theory Drawdown
  imports Database
begin

text \<open>
  services/drawdownService.ts: the trailing drawdown floor with its one-way lock for funded
  accounts, as a pure resolution on Numbers and as the guarded statements that persist it. The
  lemmas show that neither the floor nor a persisted anchor ever moves down while trading.
\<close>

section \<open>The pure core\<close>

record drawdown_account =
  dd_starting :: jsval
  dd_peak :: jsval
  dd_floor :: jsval
  dd_type :: string

record resolution =
  rs_floor :: num
  rs_peak :: num
  rs_peak_changed :: bool
  rs_locked :: "num option"
  rs_locked_changed :: bool

text \<open>\<open>toNum(value, fallback)\<close>, None being null.\<close>

definition dd_num :: "jsval \<Rightarrow> num option \<Rightarrow> num option" where
  "dd_num v fallback =
     (if nullish v then fallback
      else let n = parse_float v in if is_finite n then Some n else fallback)"

definition num_or_zero :: "num option \<Rightarrow> num" where
  "num_or_zero x = (case x of None \<Rightarrow> Fin 0 | Some n \<Rightarrow> n)"

definition computeTrailingFloor :: "num \<Rightarrow> num \<Rightarrow> num" where
  "computeTrailingFloor peakEquity maxDrawdownPct =
     nmul peakEquity (nsub (Fin 1) (ndiv maxDrawdownPct (Fin 100)))"

definition lock_threshold :: "num \<Rightarrow> num \<Rightarrow> num" where
  "lock_threshold starting locksAtPct = nmul starting (nadd (Fin 1) (ndiv locksAtPct (Fin 100)))"

definition resolveEffectiveFloor :: "drawdown_account \<Rightarrow> num \<Rightarrow> num \<Rightarrow> num option \<Rightarrow> resolution" where
  "resolveEffectiveFloor acc equity maxDrawdownPct drawdownLocksAtPct =
     (let startingBalance = num_or_zero (dd_num (dd_starting acc) (Some (Fin 0)));
          priorPeak = (if nullish (dd_peak acc) then startingBalance
                       else num_or_zero (dd_num (dd_peak acc) (Some (Fin 0))));
          nextPeak = nmax priorPeak equity;
          peakChanged = nlt priorPeak nextPeak;
          trailingFloor = computeTrailingFloor nextPeak maxDrawdownPct;
          existingLocked = (if nullish (dd_floor acc) then None else dd_num (dd_floor acc) None)
      in case (if dd_type acc = ''funded'' then drawdownLocksAtPct else None) of
           None \<Rightarrow> \<lparr>rs_floor = trailingFloor, rs_peak = nextPeak, rs_peak_changed = peakChanged,
                    rs_locked = existingLocked, rs_locked_changed = False\<rparr>
         | Some locks \<Rightarrow>
             (let lockThreshold = lock_threshold startingBalance locks;
                  candidateFloor = computeTrailingFloor lockThreshold maxDrawdownPct;
                  changed = (nle lockThreshold nextPeak \<and>
                             (case existingLocked of None \<Rightarrow> True | Some l \<Rightarrow> nlt l candidateFloor));
                  nextLocked = (if changed then Some candidateFloor else existingLocked)
              in \<lparr>rs_floor = (case nextLocked of None \<Rightarrow> trailingFloor | Some l \<Rightarrow> nmax trailingFloor l),
                  rs_peak = nextPeak, rs_peak_changed = peakChanged,
                  rs_locked = nextLocked, rs_locked_changed = changed\<rparr>))"

section \<open>Persisting\<close>

text \<open>One guarded UPDATE: the column is raised to the bound value, never lowered.\<close>

definition raise_column ::
  "(account \<Rightarrow> int option) \<Rightarrow> (int option \<Rightarrow> account \<Rightarrow> account) \<Rightarrow> string \<Rightarrow> num \<Rightarrow> db \<Rightarrow> string + unit \<times> db" where
  "raise_column get put i x t =
     (case get_account i t of
        None \<Rightarrow> Inr ((), t)
      | Some a \<Rightarrow>
          (case bind_num x of
             Inl e \<Rightarrow> Inl e
           | Inr q \<Rightarrow>
               if (case get a of None \<Rightarrow> True | Some c \<Rightarrow> of_int c / 100 < q) then
                 (case numeric15_2 q of
                    Inl e \<Rightarrow> Inl e
                  | Inr p \<Rightarrow> Inr ((), put_account i (put (Some p)) t))
               else Inr ((), t)))"

definition put_peak :: "int option \<Rightarrow> account \<Rightarrow> account" where
  "put_peak v a = a\<lparr>eod_peak_equity := v\<rparr>"

definition put_floor :: "int option \<Rightarrow> account \<Rightarrow> account" where
  "put_floor v a = a\<lparr>eod_trailing_floor := v\<rparr>"

definition updatePeakEquity :: "string \<Rightarrow> num \<Rightarrow> jsval \<Rightarrow> (db, num) tx" where
  "updatePeakEquity accountId equity currentPeak =
     (let parsedCurrentPeak = parse_float (js_or currentPeak (JNum (Fin 0)));
          next = nmax parsedCurrentPeak equity
      in tx_bind (if nlt parsedCurrentPeak next then query (raise_column eod_peak_equity put_peak accountId next)
                  else tx_return ()) (\<lambda>_. tx_return next))"

definition maybeLockFundedFloor ::
  "string \<Rightarrow> drawdown_account \<Rightarrow> num \<Rightarrow> num \<Rightarrow> num option \<Rightarrow> (db, num option) tx" where
  "maybeLockFundedFloor accId acc peakEquity maxDrawdownPct drawdownLocksAtPct =
     (let existing = (if nullish (dd_floor acc) then None else Some (parse_float (dd_floor acc))) in
      case drawdownLocksAtPct of
        None \<Rightarrow> tx_return existing
      | Some locks \<Rightarrow>
          (let lockThreshold = lock_threshold (parse_float (dd_starting acc)) locks in
           if nlt peakEquity lockThreshold then tx_return existing
           else
             (let candidateFloor = computeTrailingFloor lockThreshold maxDrawdownPct in
              if (case existing of None \<Rightarrow> True | Some l \<Rightarrow> nlt l candidateFloor) then
                tx_bind (query (raise_column eod_trailing_floor put_floor accId candidateFloor))
                  (\<lambda>_. tx_return (Some candidateFloor))
              else tx_return existing)))"

definition getEffectiveDrawdownFloor ::
  "string \<Rightarrow> drawdown_account \<Rightarrow> num \<Rightarrow> num \<Rightarrow> num option \<Rightarrow> (db, num) tx" where
  "getEffectiveDrawdownFloor accId acc equity maxDrawdownPct drawdownLocksAtPct =
     (let resolved = resolveEffectiveFloor acc equity maxDrawdownPct drawdownLocksAtPct in
      tx_bind (if rs_peak_changed resolved
               then query (raise_column eod_peak_equity put_peak accId (rs_peak resolved)) else tx_return ()) (\<lambda>_.
        tx_bind (if rs_locked_changed resolved
                 then query (raise_column eod_trailing_floor put_floor accId (num_or_zero (rs_locked resolved)))
                 else tx_return ()) (\<lambda>_.
          tx_return (rs_floor resolved))))"

text \<open>
  The bulk statement. Of several updates for one account the server applies one, which one being
  unspecified: \<open>pick\<close> chooses among those whose guard holds. Entries without an account id are skipped.
\<close>

record peak_update =
  pu_account :: string
  pu_peak :: "rat option"
  pu_floor :: "rat option"

definition above :: "rat option \<Rightarrow> int option \<Rightarrow> bool" where
  "above v c = (case v of None \<Rightarrow> False | Some q \<Rightarrow> (case c of None \<Rightarrow> True | Some x \<Rightarrow> of_int x / 100 < q))"

definition raised :: "int option \<Rightarrow> rat option \<Rightarrow> string + int option" where
  "raised c v =
     (case v of
        None \<Rightarrow> Inr c
      | Some q \<Rightarrow>
          (case numeric15_2 (case c of None \<Rightarrow> q | Some x \<Rightarrow> max (of_int x / 100) q) of
             Inl e \<Rightarrow> Inl e | Inr p \<Rightarrow> Inr (Some p)))"

definition flush_row :: "(peak_update list \<Rightarrow> peak_update) \<Rightarrow> peak_update list \<Rightarrow> account \<Rightarrow> string + account \<times> bool" where
  "flush_row pick us a =
     (let cands = filter (\<lambda>u. pu_account u = acc_id a \<and>
                    (above (pu_peak u) (eod_peak_equity a) \<or> above (pu_floor u) (eod_trailing_floor a))) us in
      if cands = [] then Inr (a, False)
      else let u = pick cands in
        (case (raised (eod_peak_equity a) (pu_peak u), raised (eod_trailing_floor a) (pu_floor u)) of
           (Inr p, Inr f) \<Rightarrow> Inr (a\<lparr>eod_peak_equity := p, eod_trailing_floor := f\<rparr>, True)
         | _ \<Rightarrow> Inl ''22003''))"

fun flush_rows :: "(peak_update list \<Rightarrow> peak_update) \<Rightarrow> peak_update list \<Rightarrow> account list \<Rightarrow> string + account list \<times> nat" where
  "flush_rows pick us [] = Inr ([], 0)"
| "flush_rows pick us (a # as) =
     (case (flush_row pick us a, flush_rows pick us as) of
        (Inr (b, ch), Inr (bs, n)) \<Rightarrow> Inr (b # bs, (if ch then 1 else 0) + n)
      | (Inl e, _) \<Rightarrow> Inl e
      | (_, Inl e) \<Rightarrow> Inl e)"

definition flushPeakEquityUpdates :: "(peak_update list \<Rightarrow> peak_update) \<Rightarrow> peak_update list \<Rightarrow> (db, nat) tx" where
  "flushPeakEquityUpdates pick updates =
     (let us = filter (\<lambda>u. pu_account u \<noteq> []) updates in
      if us = [] then tx_return 0
      else query (\<lambda>t. case flush_rows pick us (accounts t) of
                        Inl e \<Rightarrow> Inl e
                      | Inr (as, n) \<Rightarrow> Inr (n, t\<lparr>accounts := as\<rparr>)))"

section \<open>Persisted anchors only rise\<close>

definition opt_le :: "int option \<Rightarrow> int option \<Rightarrow> bool" where
  "opt_le x y = (case x of None \<Rightarrow> True | Some a \<Rightarrow> (case y of None \<Rightarrow> False | Some b \<Rightarrow> a \<le> b))"

lemma opt_le_refl [simp]: "opt_le x x"
  by (simp add: opt_le_def split: option.split)

lemma opt_le_trans: "opt_le x y \<Longrightarrow> opt_le y z \<Longrightarrow> opt_le x z"
  by (auto simp: opt_le_def split: option.splits)

text \<open>The two anchors of every account rise or stay, and nothing else about it changes.\<close>

definition anchors_only :: "account \<Rightarrow> account \<Rightarrow> bool" where
  "anchors_only a b \<longleftrightarrow> (\<exists>p f. b = a\<lparr>eod_peak_equity := p, eod_trailing_floor := f\<rparr> \<and>
     opt_le (eod_peak_equity a) p \<and> opt_le (eod_trailing_floor a) f)"

definition anchors_rise :: "db \<Rightarrow> db \<Rightarrow> bool" where
  "anchors_rise t u \<longleftrightarrow> (\<exists>as. u = t\<lparr>accounts := as\<rparr>) \<and>
     (\<forall>i. rel_option anchors_only (get_account i t) (get_account i u))"

lemma anchors_only_refl: "anchors_only a a"
  unfolding anchors_only_def by (rule exI [of _ "eod_peak_equity a"], rule exI [of _ "eod_trailing_floor a"]) simp

lemma anchors_only_trans:
  assumes "anchors_only a b" "anchors_only b c"
  shows "anchors_only a c"
proof -
  obtain p f where b: "b = a\<lparr>eod_peak_equity := p, eod_trailing_floor := f\<rparr>"
    "opt_le (eod_peak_equity a) p" "opt_le (eod_trailing_floor a) f"
    using assms(1) by (auto simp: anchors_only_def)
  obtain p' f' where c: "c = b\<lparr>eod_peak_equity := p', eod_trailing_floor := f'\<rparr>"
    "opt_le (eod_peak_equity b) p'" "opt_le (eod_trailing_floor b) f'"
    using assms(2) by (auto simp: anchors_only_def)
  have "c = a\<lparr>eod_peak_equity := p', eod_trailing_floor := f'\<rparr>" using b(1) c(1) by simp
  moreover have "opt_le (eod_peak_equity a) p'" "opt_le (eod_trailing_floor a) f'"
    using b c(2,3) by (auto intro: opt_le_trans)
  ultimately show ?thesis unfolding anchors_only_def by blast
qed

lemma rel_option_trans:
  "(\<And>a b c. P a b \<Longrightarrow> P b c \<Longrightarrow> P a c) \<Longrightarrow> rel_option P x y \<Longrightarrow> rel_option P y z \<Longrightarrow> rel_option P x z"
  by (cases x; cases y; cases z) auto

interpretation anch: effect anchors_rise
proof
  show "anchors_rise t t" for t
    unfolding anchors_rise_def by (auto intro: exI [of _ "accounts t"] option.rel_refl anchors_only_refl)
  show "anchors_rise t v" if "anchors_rise t u" "anchors_rise u v" for t u v
    using that rel_option_trans [OF anchors_only_trans] unfolding anchors_rise_def by (fastforce)
qed

lemma to_cents_mono:
  assumes "p \<le> q"
  shows "to_cents p \<le> to_cents q"
proof -
  have *: "x \<le> y \<Longrightarrow> \<lfloor>x * 100 + 1/2\<rfloor> \<le> \<lfloor>y * 100 + 1/2\<rfloor>" for x y :: rat by (intro floor_mono) simp
  have pos: "0 \<le> \<lfloor>z * 100 + 1/2\<rfloor>" if "0 \<le> z" for z :: rat using that by simp
  consider "q < 0" | "p < 0" "0 \<le> q" | "0 \<le> p" by linarith
  then show ?thesis
  proof cases
    case 1 then show ?thesis using assms * [of "- q" "- p"] by (simp add: to_cents_def)
  next
    case 2
    then have "to_cents p = - \<lfloor>- p * 100 + 1/2\<rfloor>" "to_cents q = \<lfloor>q * 100 + 1/2\<rfloor>" by (simp_all add: to_cents_def)
    then show ?thesis using pos [of "- p"] pos [of q] 2 by linarith
  next
    case 3 then show ?thesis using assms * [of p q] by (simp add: to_cents_def)
  qed
qed

lemma anchors_onlyI:
  "opt_le (eod_peak_equity a) p \<Longrightarrow> opt_le (eod_trailing_floor a) f \<Longrightarrow>
   anchors_only a (a\<lparr>eod_peak_equity := p, eod_trailing_floor := f\<rparr>)"
  unfolding anchors_only_def by blast

lemma anchors_only_peak: "opt_le (eod_peak_equity a) p \<Longrightarrow> anchors_only a (put_peak p a)"
  using anchors_onlyI [of a p "eod_trailing_floor a"] by (simp add: put_peak_def)

lemma anchors_only_floor: "opt_le (eod_trailing_floor a) f \<Longrightarrow> anchors_only a (put_floor f a)"
  using anchors_onlyI [of a "eod_peak_equity a" f] by (simp add: put_floor_def)

lemma raise_column_rises:
  assumes "raise_column get put i x t = Inr (u, t')"
    and col: "(get, put) = (eod_peak_equity, put_peak) \<or> (get, put) = (eod_trailing_floor, put_floor)"
  shows "anchors_rise t t'"
proof (cases "get_account i t")
  case None
  then show ?thesis using assms(1) by (auto simp: raise_column_def anch.effect_refl)
next
  case (Some a)
  then consider "t' = t" | q where "t' = put_account i (put (Some (to_cents q))) t"
      "case get a of None \<Rightarrow> True | Some c \<Rightarrow> of_int c / 100 < q"
    using assms(1) by (auto simp: raise_column_def numeric15_2_ok split: sum.splits if_splits)
  then show ?thesis
  proof cases
    case 2
    have hit: "opt_le (get a) (Some (to_cents q))"
      using 2(2) to_cents_mono [of "of_int c / 100" q for c] by (auto simp: opt_le_def less_imp_le split: option.splits)
    have "anchors_only a (put (Some (to_cents q)) a)"
      using col hit anchors_only_peak anchors_only_floor by auto
    moreover have "keeps_acc_id (put (Some (to_cents q)))"
      using col by (auto simp: put_peak_def put_floor_def)
    ultimately show ?thesis
      using Some unfolding anchors_rise_def 2(1)
      by (auto simp: acct.lookup_modify option.rel_refl anchors_only_refl) (auto simp: put_account_def)
  qed (simp add: anch.effect_refl)
qed

lemma raised_rises: "raised c v = Inr p \<Longrightarrow> opt_le c p"
  using to_cents_mono [of "of_int x / 100" "max (of_int x / 100) q" for x q]
  by (auto simp: raised_def opt_le_def numeric15_2_ok split: option.splits sum.splits)

lemma flush_row_rises: "flush_row pick us a = Inr (b, ch) \<Longrightarrow> anchors_only a b \<and> acc_id b = acc_id a"
  by (auto simp: flush_row_def Let_def anchors_only_refl intro: anchors_onlyI raised_rises split: if_splits sum.splits)

lemma flush_rows_lookup:
  "flush_rows pick us as = Inr (bs, n) \<Longrightarrow> rel_option anchors_only (find_by acc_id i as) (find_by acc_id i bs)"
proof (induction as arbitrary: bs n)
  case (Cons a as)
  then obtain b ch bs' m where "flush_row pick us a = Inr (b, ch)" "flush_rows pick us as = Inr (bs', m)" "bs = b # bs'"
    by (auto split: sum.splits prod.splits)
  then show ?case using Cons.IH flush_row_rises by (auto simp: table_simps)
qed (simp add: table_simps)

lemma confined_updatePeakEquity: "confined anchors_rise (updatePeakEquity i e p)"
  by (auto simp: updatePeakEquity_def Let_def intro!: anch.confined_rules anch.confined_query intro: raise_column_rises)

lemma confined_maybeLock: "confined anchors_rise (maybeLockFundedFloor i acc pk d l)"
  by (auto simp: maybeLockFundedFloor_def Let_def intro!: anch.confined_rules anch.confined_query
      intro: raise_column_rises split: option.splits)

lemma confined_getEffective: "confined anchors_rise (getEffectiveDrawdownFloor i acc e d l)"
  by (auto simp: getEffectiveDrawdownFloor_def Let_def intro!: anch.confined_rules anch.confined_query
      intro: raise_column_rises)

lemma confined_flush: "confined anchors_rise (flushPeakEquityUpdates pick us)"
proof -
  have "anchors_rise t t'" if f: "(case flush_rows pick vs (accounts t) of Inl e \<Rightarrow> Inl e | Inr (as, n) \<Rightarrow> Inr (n, t\<lparr>accounts := as\<rparr>)) = Inr (a, t')" for t a t' vs
  proof -
    obtain as n where as: "flush_rows pick vs (accounts t) = Inr (as, n)" "t' = t\<lparr>accounts := as\<rparr>"
      using f by (auto split: sum.splits prod.splits)
    show ?thesis
      unfolding anchors_rise_def as(2) get_account_def using flush_rows_lookup [OF as(1)] by auto
  qed
  then show ?thesis
    by (auto simp: flushPeakEquityUpdates_def Let_def intro!: anch.confined_rules anch.confined_query)
qed

text \<open>Any interleaving of the writers.\<close>

datatype dd_write =
    UpdatePeak string num jsval
  | MaybeLock string drawdown_account num num "num option"
  | Resolve string drawdown_account num num "num option"
  | Flush "peak_update list \<Rightarrow> peak_update" "peak_update list"

fun dd_step :: "dd_write \<Rightarrow> db conn \<Rightarrow> db conn" where
  "dd_step (UpdatePeak i e p) c = snd (updatePeakEquity i e p c)"
| "dd_step (MaybeLock i acc pk d l) c = snd (maybeLockFundedFloor i acc pk d l c)"
| "dd_step (Resolve i acc e d l) c = snd (getEffectiveDrawdownFloor i acc e d l c)"
| "dd_step (Flush pick us) c = snd (flushPeakEquityUpdates pick us c)"

text \<open>C13. No interleaving of the four persisting operations, with whatever stale rows, equities or
  bulk updates they are called, ever lowers an account's peak equity or its locked floor, or
  changes anything else.\<close>

theorem anchors_never_fall:
  "anchors_rise (tabs c) (tabs (foldl (\<lambda>c w. dd_step w c) c ws))"
proof (induction ws rule: rev_induct)
  case (snoc w ws)
  have "anchors_rise (tabs c1) (tabs (dd_step w c1))" for c1
    using confined_updatePeakEquity confined_maybeLock confined_getEffective confined_flush
    by (cases w) (auto simp: confined_def)
  then show ?case using snoc anch.effect_trans by auto
qed (simp add: anch.effect_refl)

section \<open>The floor never falls while trading\<close>

lemma loss_factor:
  assumes "0 \<le> d" "d \<le> 100"
  obtains f where "nsub (Fin 1) (ndiv (Fin d) (Fin 100)) = Fin f" "0 \<le> f" "f \<le> 1"
proof -
  have m: "mk (d / 100) = Fin (fl (d / 100))" using assms by (intro mk_small) simp
  have x: "0 \<le> fl (d / 100)" "fl (d / 100) \<le> 1"
    using assms fl_nonneg [of "d / 100"] fl_mono [of "d / 100" 1] fl_of_int [of 1] by simp_all
  have "mk (1 - fl (d / 100)) = Fin (fl (1 - fl (d / 100)))" using x by (intro mk_small) simp
  moreover have "0 \<le> fl (1 - fl (d / 100))" "fl (1 - fl (d / 100)) \<le> 1"
    using x fl_nonneg [of "1 - fl (d / 100)"] fl_mono [of "1 - fl (d / 100)" 1] fl_of_int [of 1] by simp_all
  ultimately show ?thesis using that m by simp
qed

text \<open>The trailing floor as a monotone function of the peak.\<close>

lemma trailing_mono:
  assumes d: "0 \<le> d" "d \<le> 100"
  obtains T where "\<And>p. \<bar>p\<bar> \<le> max_double \<Longrightarrow> computeTrailingFloor (Fin p) (Fin d) = Fin (T p)"
    "\<And>p q. p \<le> q \<Longrightarrow> T p \<le> T q" "\<And>p. 0 \<le> p \<Longrightarrow> fl p = p \<Longrightarrow> T p \<le> p"
proof -
  obtain f where f: "nsub (Fin 1) (ndiv (Fin d) (Fin 100)) = Fin f" "0 \<le> f" "f \<le> 1"
    using loss_factor [OF d] .
  have T: "computeTrailingFloor (Fin p) (Fin d) = mk (p * f)" for p
    unfolding computeTrailingFloor_def f(1) by simp
  show ?thesis
  proof (rule that [of "\<lambda>p. fl (p * f)"])
    fix p :: rat assume p: "\<bar>p\<bar> \<le> max_double"
    have "\<bar>p * f\<bar> \<le> \<bar>p\<bar>" using f mult_left_le [of f "\<bar>p\<bar>"] by (simp add: abs_mult)
    then have "mk (p * f) = Fin (fl (p * f))" using p by (intro mk_Fin) simp
    then show "computeTrailingFloor (Fin p) (Fin d) = Fin (fl (p * f))" by (simp add: T)
  next
    show "p \<le> q \<Longrightarrow> fl (p * f) \<le> fl (q * f)" for p q using f by (intro fl_mono mult_right_mono) simp_all
  next
    show "fl (p * f) \<le> p" if "0 \<le> p" "fl p = p" for p
      using fl_mono [of "p * f" p] that f mult_left_le [of f p] by (simp add: mult.commute)
  qed
qed

definition advance :: "drawdown_account \<Rightarrow> resolution \<Rightarrow> drawdown_account" where
  "advance acc r = acc\<lparr>dd_peak := JNum (rs_peak r), dd_floor := (case rs_locked r of None \<Rightarrow> JNull | Some l \<Rightarrow> JNum l)\<rparr>"

primrec floors :: "drawdown_account \<Rightarrow> num \<Rightarrow> num option \<Rightarrow> num list \<Rightarrow> num list" where
  "floors acc d l [] = []"
| "floors acc d l (e # es) =
     (let r = resolveEffectiveFloor acc e d l in rs_floor r # floors (advance acc r) d l es)"

definition prior_peak :: "drawdown_account \<Rightarrow> num" where
  "prior_peak acc = (if nullish (dd_peak acc) then num_or_zero (dd_num (dd_starting acc) (Some (Fin 0)))
                     else num_or_zero (dd_num (dd_peak acc) (Some (Fin 0))))"

definition existing_lock :: "drawdown_account \<Rightarrow> num option" where
  "existing_lock acc = (if nullish (dd_floor acc) then None else dd_num (dd_floor acc) None)"

definition active_lock :: "drawdown_account \<Rightarrow> num option \<Rightarrow> num option" where
  "active_lock acc l = (if dd_type acc = ''funded'' then l else None)"

definition lock_at :: "drawdown_account \<Rightarrow> num \<Rightarrow> num" where
  "lock_at acc l = lock_threshold (num_or_zero (dd_num (dd_starting acc) (Some (Fin 0)))) l"

lemma dd_num_finite: "dd_num v None = Some x \<Longrightarrow> is_finite x" "is_finite (num_or_zero (dd_num v (Some (Fin 0))))"
  by (auto simp: dd_num_def num_or_zero_def Let_def split: if_splits)

definition plain_val :: "jsval \<Rightarrow> bool" where
  "plain_val v \<longleftrightarrow> (case v of JNum x \<Rightarrow> wf_num x | _ \<Rightarrow> True)"

lemma wf_parse_float [simp]: "plain_val v \<Longrightarrow> wf_num (parse_float v)"
  by (cases v) (auto simp: plain_val_def parse_float_str_def Let_def split: prod.split)

lemma resolve_eq:
  "resolveEffectiveFloor acc e d l =
     (let q = nmax (prior_peak acc) e; T = computeTrailingFloor q d; K = existing_lock acc
      in case active_lock acc l of
           None \<Rightarrow> \<lparr>rs_floor = T, rs_peak = q, rs_peak_changed = nlt (prior_peak acc) q, rs_locked = K, rs_locked_changed = False\<rparr>
         | Some x \<Rightarrow>
             (let C = computeTrailingFloor (lock_at acc x) d;
                  ch = (nle (lock_at acc x) q \<and> (case K of None \<Rightarrow> True | Some y \<Rightarrow> nlt y C));
                  N = (if ch then Some C else K)
              in \<lparr>rs_floor = (case N of None \<Rightarrow> T | Some y \<Rightarrow> nmax T y), rs_peak = q,
                  rs_peak_changed = nlt (prior_peak acc) q, rs_locked = N, rs_locked_changed = ch\<rparr>))"
  unfolding resolveEffectiveFloor_def prior_peak_def existing_lock_def active_lock_def lock_at_def Let_def by (rule refl)

text \<open>One resolution, as a step on the peak \<open>p\<close> and the lock \<open>L\<close>.\<close>

lemma resolve_step:
  assumes p: "prior_peak acc = Fin p" "\<bar>p\<bar> \<le> max_double" and e: "\<bar>e\<bar> \<le> max_double"
    and T: "\<forall>p. \<bar>p\<bar> \<le> max_double \<longrightarrow> computeTrailingFloor (Fin p) (Fin d) = Fin (T p)"
    and thr: "\<forall>l'. active_lock acc l = Some l' \<longrightarrow> lock_at acc l' = Fin t \<and> \<bar>t\<bar> \<le> max_double"
    and L: "existing_lock acc = map_option Fin L"
  shows "\<exists>L'. existing_lock (advance acc (resolveEffectiveFloor acc (Fin e) (Fin d) l)) = map_option Fin L' \<and>
    prior_peak (advance acc (resolveEffectiveFloor acc (Fin e) (Fin d) l)) = Fin (max p e) \<and>
    (\<forall>x. L = Some x \<longrightarrow> (\<exists>y. L' = Some y \<and> x \<le> y)) \<and>
    rs_floor (resolveEffectiveFloor acc (Fin e) (Fin d) l) =
      Fin (case if active_lock acc l = None then None else L' of None \<Rightarrow> T (max p e) | Some x \<Rightarrow> max (T (max p e)) x)"
proof -
  have m: "\<bar>max p e\<bar> \<le> max_double" using p e by (auto simp: max_def)
  have adv: "rs_locked r = map_option Fin K \<Longrightarrow> existing_lock (advance acc r) = map_option Fin K"
    "rs_peak r = Fin q \<Longrightarrow> prior_peak (advance acc r) = Fin q" for r K q
    by (auto simp: existing_lock_def prior_peak_def advance_def dd_num_def num_or_zero_def split: option.splits)
  show ?thesis
  proof (cases "active_lock acc l")
    case None
    show ?thesis
      using None p L T [rule_format, OF m] by (intro exI [of _ L] conjI adv) (simp_all add: resolve_eq)
  next
    case (Some l')
    define K where "K = (if t \<le> max p e \<and> (case L of None \<Rightarrow> True | Some x \<Rightarrow> x < T t) then Some (T t) else L)"
    show ?thesis
      using Some p L T [rule_format, OF m] thr [rule_format, OF Some] T [rule_format, of t]
      by (intro exI [of _ K] conjI adv) (auto simp: resolve_eq Let_def K_def split: option.splits)
  qed
qed

lemma floors_rise:
  assumes T: "\<forall>p. \<bar>p\<bar> \<le> max_double \<longrightarrow> computeTrailingFloor (Fin p) (Fin d) = Fin (T p)"
    and mono: "\<And>p q. p \<le> q \<Longrightarrow> T p \<le> T q"
  shows "\<lbrakk>prior_peak acc = Fin p; \<bar>p\<bar> \<le> max_double; existing_lock acc = map_option Fin L;
     \<forall>l'. active_lock acc l = Some l' \<longrightarrow> lock_at acc l' = Fin t \<and> \<bar>t\<bar> \<le> max_double;
     \<forall>e\<in>set es. \<bar>e\<bar> \<le> max_double\<rbrakk> \<Longrightarrow>
   sorted_wrt nle (floors acc (Fin d) l (map Fin es)) \<and>
   (\<forall>x\<in>set (floors acc (Fin d) l (map Fin es)). \<exists>q. x = Fin q \<and> T p \<le> q \<and>
      (active_lock acc l \<noteq> None \<longrightarrow> (\<forall>y. L = Some y \<longrightarrow> y \<le> q)))"
proof (induction es arbitrary: acc p L)
  case (Cons e es)
  let ?r = "resolveEffectiveFloor acc (Fin e) (Fin d) l"
  have e: "\<bar>e\<bar> \<le> max_double" and es: "\<forall>e\<in>set es. \<bar>e\<bar> \<le> max_double" using Cons.prems(5) by auto
  obtain L' where L': "existing_lock (advance acc ?r) = map_option Fin L'" "prior_peak (advance acc ?r) = Fin (max p e)"
      "\<forall>x. L = Some x \<longrightarrow> (\<exists>y. L' = Some y \<and> x \<le> y)"
      "rs_floor ?r = Fin (case if active_lock acc l = None then None else L' of None \<Rightarrow> T (max p e) | Some x \<Rightarrow> max (T (max p e)) x)"
    using resolve_step [OF Cons.prems(1,2) e T Cons.prems(4,3)] by (elim exE conjE)
  have same: "active_lock (advance acc ?r) l = active_lock acc l" "lock_at (advance acc ?r) l' = lock_at acc l'" for l'
    by (simp_all add: active_lock_def lock_at_def advance_def)
  have m: "\<bar>max p e\<bar> \<le> max_double" using Cons.prems(2) e by (auto simp: max_def)
  note IH = Cons.IH [OF L'(2) m L'(1) Cons.prems(4) [folded same] es, unfolded same]
  have step: "floors acc (Fin d) l (map Fin (e # es)) = rs_floor ?r # floors (advance acc ?r) (Fin d) l (map Fin es)"
    by (simp add: Let_def)
  have "T p \<le> T (max p e)" by (rule mono) simp
  then show ?case
    unfolding step using IH L'(3,4) by (fastforce split: option.splits if_splits)
qed simp

text \<open>C14. While an account trades, its effective drawdown floor never falls: for every sequence
  of finite equities, drawdown limit between 0 and 100 percent, stored peak and stored lock, the
  floors resolved in sequence are ascending, through the funded lock as well.\<close>

theorem floor_never_falls:
  assumes d: "0 \<le> d" "d \<le> 100" and es: "\<forall>e\<in>set es. \<bar>e\<bar> \<le> max_double"
    and plain: "plain_val (dd_starting acc)" "plain_val (dd_peak acc)"
    and lock: "\<And>x. l = Some x \<Longrightarrow> is_finite (lock_at acc x)"
  shows "sorted_wrt nle (floors acc (Fin d) l (map Fin es))"
proof -
  obtain T where T: "\<And>p. \<bar>p\<bar> \<le> max_double \<Longrightarrow> computeTrailingFloor (Fin p) (Fin d) = Fin (T p)"
    "\<And>p q. p \<le> q \<Longrightarrow> T p \<le> T q" by (rule trailing_mono [OF d], rule that)
  have fin: "is_finite (prior_peak acc)" by (simp add: prior_peak_def dd_num_finite)
  then obtain p where p: "prior_peak acc = Fin p" by (rule finite_cases)
  have "wf_num (prior_peak acc)"
    using plain by (auto simp: prior_peak_def dd_num_def num_or_zero_def Let_def max_double_nonneg)
  then have pm: "\<bar>p\<bar> \<le> max_double" using p by simp
  have L: "existing_lock acc = map_option Fin (case existing_lock acc of Some (Fin y) \<Rightarrow> Some y | _ \<Rightarrow> None)"
    by (auto simp: existing_lock_def split: option.splits num.splits dest: dd_num_finite(1))
  obtain t where t: "\<forall>x. active_lock acc l = Some x \<longrightarrow> lock_at acc x = Fin t \<and> \<bar>t\<bar> \<le> max_double"
  proof (cases "active_lock acc l")
    case (Some x)
    then have "is_finite (lock_at acc x)" using lock by (auto simp: active_lock_def split: if_splits)
    moreover have "wf_num (lock_at acc x)" by (simp add: lock_at_def lock_threshold_def)
    ultimately show ?thesis using that Some by (cases "lock_at acc x") auto
  qed (use that in auto)
  have "\<forall>p. \<bar>p\<bar> \<le> max_double \<longrightarrow> computeTrailingFloor (Fin p) (Fin d) = Fin (T p)" using T(1) by blast
  from floors_rise [OF this T(2) p pm L t es] show ?thesis by blast
qed

definition demo_dd :: drawdown_account where
  "demo_dd = \<lparr>dd_starting = JNumeric 100000, dd_peak = JNull, dd_floor = JNull, dd_type = ''funded''\<rparr>"

theorem floor_never_falls_witness:
  "sorted_wrt nle (floors demo_dd (Fin 5) (Some (Fin 2)) (map Fin [99000, 103000, 98000, 110000, 101000])) \<and>
   floors demo_dd (Fin 5) (Some (Fin 2)) (map Fin [99000, 103000, 98000, 110000, 101000]) =
     [Fin 95000, Fin 97850, Fin 97850, Fin 104500, Fin 104500]"
proof -
  have "10 ^ 30 \<le> (2::rat) powi 971"
    using order_trans [of "10 ^ 30" "2 powi 100" "(2::rat) powi 971"] by (simp add: power_int_def)
  then have big: "10 ^ 30 \<le> max_double" using max_double_ge by (rule order_trans)
  have es: "\<forall>e\<in>set [99000, 103000, 98000, 110000, 101000]. \<bar>e\<bar> \<le> max_double"
    using order_trans [OF _ big, of "numeral n" for n] by simp
  have "is_finite (lock_at demo_dd (Fin 2))" by code_simp
  then have "sorted_wrt nle (floors demo_dd (Fin 5) (Some (Fin 2)) (map Fin [99000, 103000, 98000, 110000, 101000]))"
    by (intro floor_never_falls es) (simp_all add: demo_dd_def plain_val_def)
  moreover have "floors demo_dd (Fin 5) (Some (Fin 2)) (map Fin [99000, 103000, 98000, 110000, 101000]) =
     [Fin 95000, Fin 97850, Fin 97850, Fin 104500, Fin 104500]" by code_simp
  ultimately show ?thesis by (rule conjI)
qed

end
