(* ===== verification/JsMap.thy ===== *)
theory JsMap
  imports Main
begin

text \<open>
  The Map and Set objects of the program's in-memory state: association lists and lists in
  insertion order. \<open>jm_set\<close> keeps the place of an existing key.
\<close>

type_synonym 'v jsmap = "(string \<times> 'v) list"

definition jm_get :: "'v jsmap \<Rightarrow> string \<Rightarrow> 'v option" where
  "jm_get m k = map_of m k"

definition jm_set :: "string \<Rightarrow> 'v \<Rightarrow> 'v jsmap \<Rightarrow> 'v jsmap" where
  "jm_set k v m = (if k \<in> fst ` set m then map (\<lambda>(j, w). if j = k then (j, v) else (j, w)) m else m @ [(k, v)])"

definition jm_del :: "string \<Rightarrow> 'v jsmap \<Rightarrow> 'v jsmap" where
  "jm_del k m = filter (\<lambda>e. fst e \<noteq> k) m"

definition jm_upd :: "string \<Rightarrow> ('v \<Rightarrow> 'v) \<Rightarrow> 'v jsmap \<Rightarrow> 'v jsmap" where
  "jm_upd k f m = (case jm_get m k of None \<Rightarrow> m | Some v \<Rightarrow> jm_set k (f v) m)"

definition jm_keys :: "'v jsmap \<Rightarrow> string list" where
  "jm_keys m = map fst m"

definition jm_values :: "'v jsmap \<Rightarrow> 'v list" where
  "jm_values m = map snd m"

definition jm_wf :: "'v jsmap \<Rightarrow> bool" where
  "jm_wf m \<longleftrightarrow> distinct (jm_keys m)"

definition js_add :: "string \<Rightarrow> string list \<Rightarrow> string list" where
  "js_add x s = (if x \<in> set s then s else s @ [x])"

definition js_remove :: "string \<Rightarrow> string list \<Rightarrow> string list" where
  "js_remove x s = filter (\<lambda>y. y \<noteq> x) s"

section \<open>The contract of a finite map\<close>

locale finite_map =
  fixes get :: "'m \<Rightarrow> 'k \<Rightarrow> 'v option"
    and upd :: "'k \<Rightarrow> 'v \<Rightarrow> 'm \<Rightarrow> 'm"
    and rem :: "'k \<Rightarrow> 'm \<Rightarrow> 'm"
    and inv :: "'m \<Rightarrow> bool"
  assumes get_upd: "get (upd k v m) j = (if j = k then Some v else get m j)"
    and get_rem: "get (rem k m) j = (if j = k then None else get m j)"
    and inv_upd: "inv m \<Longrightarrow> inv (upd k v m)"
    and inv_rem: "inv m \<Longrightarrow> inv (rem k m)"
begin

lemma get_rem_upd: "get (rem k (upd k v m)) j = (if j = k then None else get m j)"
  by (simp add: get_rem get_upd)

lemma get_rems: "get (fold rem ks m) j = (if j \<in> set ks then None else get m j)"
  by (induction ks arbitrary: m) (auto simp: get_rem)

lemma inv_rems: "inv m \<Longrightarrow> inv (fold rem ks m)"
  by (induction ks arbitrary: m) (auto simp: inv_rem)

end

lemma map_of_append_new: "k \<notin> fst ` set m \<Longrightarrow> map_of (m @ [(k, v)]) j = (if j = k then Some v else map_of m j)"
  by (induction m) (auto simp: map_add_def)

lemma map_of_replace:
  "map_of (map (\<lambda>(j, w). if j = k then (j, v) else (j, w)) m) j = (if j = k then map_option (\<lambda>_. v) (map_of m k) else map_of m j)"
  by (induction m) auto

lemma fst_replace [simp]: "map fst (map (\<lambda>(j, w). if j = k then (j, v) else (j, w)) m) = map fst m"
  by (induction m) auto

lemma map_of_filter_key: "map_of (filter (\<lambda>e. fst e \<noteq> k) m) j = (if j = k then None else map_of m j)"
  by (induction m) auto

interpretation jm: finite_map jm_get jm_set jm_del jm_wf
proof
  show "jm_get (jm_set k v m) j = (if j = k then Some v else jm_get m j)" for k m j and v :: 'v
    by (auto simp: jm_get_def jm_set_def map_of_append_new map_of_replace map_of_eq_None_iff [symmetric] simp del: map_of_append
        dest: weak_map_of_SomeI)
  show "jm_get (jm_del k m) j = (if j = k then None else jm_get m j)" for k j and m :: "'v jsmap"
    by (simp add: jm_get_def jm_del_def map_of_filter_key)
  show "jm_wf m \<Longrightarrow> jm_wf (jm_set k v m)" for k m and v :: 'v
    by (auto simp: jm_wf_def jm_keys_def jm_set_def simp del: map_map)
  show "jm_wf m \<Longrightarrow> jm_wf (jm_del k m)" for k and m :: "'v jsmap"
    by (simp add: jm_wf_def jm_keys_def jm_del_def distinct_map_filter)
qed

lemma jm_get_upd: "jm_get (jm_upd k f m) j = (if j = k then map_option f (jm_get m k) else jm_get m j)"
  by (simp add: jm_upd_def jm.get_upd split: option.split)

lemma jm_wf_upd: "jm_wf m \<Longrightarrow> jm_wf (jm_upd k f m)"
  by (simp add: jm_upd_def jm.inv_upd split: option.split)

lemma jm_get_Nil [simp]: "jm_get [] k = None"
  by (simp add: jm_get_def)

lemma jm_wf_Nil [simp]: "jm_wf []"
  by (simp add: jm_wf_def jm_keys_def)

lemma jm_keys_get: "k \<in> set (jm_keys m) \<longleftrightarrow> jm_get m k \<noteq> None"
  by (force simp: jm_keys_def jm_get_def map_of_eq_None_iff)

lemma jm_get_mem: "jm_wf m \<Longrightarrow> jm_get m k = Some v \<longleftrightarrow> (k, v) \<in> set m"
  by (simp add: jm_get_def jm_wf_def jm_keys_def)

lemma set_js_add [simp]: "set (js_add x s) = insert x (set s)"
  by (auto simp: js_add_def)

lemma set_js_remove [simp]: "set (js_remove x s) = set s - {x}"
  by (auto simp: js_remove_def)

lemmas jm_simps = jm.get_upd jm.get_rem jm_get_upd

end
