(* ===== verification/Instruments.thy ===== *)
theory Instruments
  imports Prelude
begin

text \<open>
  instruments.ts: the catalogue of instruments with their contract sizes, price grids and quote
  currencies, the lists derived from it, and the rounding and printing of prices. The environment
  is a parameter; symbols are those a catalogue can hold, so that names inherited by every
  object are not among them.
\<close>

section \<open>Definitions of instruments\<close>

type_synonym env = "string \<Rightarrow> string option"

record instrument =
  symbol :: string
  ins_group :: string
  subCategory :: string
  quoteCurrency :: "string option"
  contractSize :: num
  ins_leverage :: num
  decimals :: nat
  ins_step :: num
  pipSize :: num
  minDistance :: num
  pointMultiplier :: num
  wideSpreadThreshold :: num
  quickMoveThreshold :: num
  marketDataSymbol :: string
  defaultSpread :: num

definition FOREX_MAJORS :: "string list" where
  "FOREX_MAJORS =
    [''EURUSD'', ''GBPUSD'', ''USDJPY'', ''USDCHF'', ''AUDUSD'', ''USDCAD'', ''NZDUSD'']"

definition FOREX_MINORS :: "string list" where
  "FOREX_MINORS =
    [''EURGBP'', ''EURJPY'', ''GBPJPY'', ''AUDJPY'', ''CADJPY'', ''CHFJPY'', ''NZDJPY'',
    ''EURAUD'', ''EURCAD'', ''EURCHF'', ''EURNZD'', ''GBPAUD'', ''GBPCAD'', ''GBPCHF'',
    ''GBPNZD'', ''AUDCAD'', ''AUDCHF'', ''AUDNZD'', ''CADCHF'', ''NZDCAD'', ''NZDCHF'']"

definition COMMODITY_METALS :: "string list" where
  "COMMODITY_METALS =
    [''XAUUSD'', ''XAGUSD'', ''XPTUSD'', ''XPDUSD'']"

definition ENERGIES :: "string list" where
  "ENERGIES =
    [''XTIUSD'', ''XBRUSD'', ''XNGUSD'']"

definition INDICES_SPOT :: "string list" where
  "INDICES_SPOT =
    [''US30'', ''USTEC'', ''US500'', ''UK100'', ''AUS200'', ''JP225'', ''HK50'']"

definition INDICES_MAJOR :: "string list" where
  "INDICES_MAJOR =
    [''DE40'', ''FRA40'', ''EUSTX50'']"

definition FOREX_INSTRUMENTS :: "string list" where
  "FOREX_INSTRUMENTS = FOREX_MAJORS @ FOREX_MINORS"

definition COMMODITY_INSTRUMENTS :: "string list" where
  "COMMODITY_INSTRUMENTS = COMMODITY_METALS"

definition INDEX_INSTRUMENTS :: "string list" where
  "INDEX_INSTRUMENTS = INDICES_SPOT @ INDICES_MAJOR"

definition LEVERAGE_FLAT :: num where
  "LEVERAGE_FLAT = Fin 100"

definition splitForexSymbol :: "string \<Rightarrow> string \<times> string" where
  "splitForexSymbol s = (take 3 s, drop 3 s)"

definition buildForexDefinition :: "string \<Rightarrow> string \<Rightarrow> instrument" where
  "buildForexDefinition sy sub =
     (let (bas, quote) = splitForexSymbol sy; isJpy = (quote = ''JPY'') in
      \<lparr>symbol = sy, ins_group = ''forex'', subCategory = sub, quoteCurrency = Some quote, contractSize = Fin 100000,
       ins_leverage = LEVERAGE_FLAT, decimals = (if isJpy then 3 else 5),
       ins_step = (if isJpy then mk (1 / 1000) else mk (1 / 100000)),
       pipSize = (if isJpy then mk (1 / 100) else mk (1 / 10000)),
       minDistance = (if isJpy then mk (1 / 100) else mk (1 / 10000)),
       pointMultiplier = (if isJpy then Fin 1000 else Fin 100000),
       wideSpreadThreshold = mk (9 / 2), quickMoveThreshold = Fin 20, marketDataSymbol = bas @ ''/'' @ quote,
       defaultSpread = (if isJpy then mk (12 / 1000) else mk (12 / 100000))\<rparr>)"

definition NON_FOREX_QUOTE_CURRENCIES :: "(string \<times> string) list" where
  "NON_FOREX_QUOTE_CURRENCIES =
    [(''XAUUSD'', ''USD''), (''XAGUSD'', ''USD''), (''XPTUSD'', ''USD''), (''XPDUSD'', ''USD''),
     (''XTIUSD'', ''USD''), (''XBRUSD'', ''USD''), (''XNGUSD'', ''USD''), (''US30'', ''USD''),
     (''USTEC'', ''USD''), (''US500'', ''USD''), (''UK100'', ''GBP''), (''AUS200'', ''AUD''),
     (''JP225'', ''JPY''), (''HK50'', ''HKD''), (''DE40'', ''EUR''), (''FRA40'', ''EUR''),
     (''EUSTX50'', ''EUR'')]"

definition RAW_METALS :: "instrument list" where
  "RAW_METALS = [
    \<lparr>symbol = ''XAUUSD'', ins_group = ''commodity'', subCategory = ''metal'', quoteCurrency = None, contractSize = Fin 100,
     ins_leverage = LEVERAGE_FLAT, decimals = 2, ins_step = mk (1 / 100), pipSize = mk (1 / 10), minDistance = mk (1 / 2),
     pointMultiplier = Fin 100, wideSpreadThreshold = Fin 80, quickMoveThreshold = Fin 120, marketDataSymbol = ''XAU/USD'',
     defaultSpread = mk (3 / 10)\<rparr>,
    \<lparr>symbol = ''XAGUSD'', ins_group = ''commodity'', subCategory = ''metal'', quoteCurrency = None, contractSize = Fin 5000,
     ins_leverage = LEVERAGE_FLAT, decimals = 2, ins_step = mk (1 / 100), pipSize = mk (1 / 100), minDistance = mk (1 / 2),
     pointMultiplier = Fin 100, wideSpreadThreshold = Fin 80, quickMoveThreshold = Fin 120, marketDataSymbol = ''XAG/USD'',
     defaultSpread = mk (3 / 100)\<rparr>,
    \<lparr>symbol = ''XPTUSD'', ins_group = ''commodity'', subCategory = ''metal'', quoteCurrency = None, contractSize = Fin 100,
     ins_leverage = LEVERAGE_FLAT, decimals = 2, ins_step = mk (1 / 100), pipSize = mk (1 / 100), minDistance = mk (1 / 2),
     pointMultiplier = Fin 100, wideSpreadThreshold = Fin 80, quickMoveThreshold = Fin 120, marketDataSymbol = ''XPT/USD'',
     defaultSpread = mk (1 / 2)\<rparr>,
    \<lparr>symbol = ''XPDUSD'', ins_group = ''commodity'', subCategory = ''metal'', quoteCurrency = None, contractSize = Fin 100,
     ins_leverage = LEVERAGE_FLAT, decimals = 2, ins_step = mk (1 / 100), pipSize = mk (1 / 100), minDistance = mk (1 / 2),
     pointMultiplier = Fin 100, wideSpreadThreshold = Fin 80, quickMoveThreshold = Fin 120, marketDataSymbol = ''XPD/USD'',
     defaultSpread = mk (3 / 5)\<rparr>]"

definition RAW_ENERGIES :: "instrument list" where
  "RAW_ENERGIES = [
    \<lparr>symbol = ''XTIUSD'', ins_group = ''energy'', subCategory = ''energy'', quoteCurrency = None, contractSize = Fin 1000,
     ins_leverage = LEVERAGE_FLAT, decimals = 2, ins_step = mk (1 / 100), pipSize = mk (1 / 100), minDistance = mk (1 / 20),
     pointMultiplier = Fin 100, wideSpreadThreshold = Fin 6, quickMoveThreshold = Fin 25, marketDataSymbol = ''WTI/USD'',
     defaultSpread = mk (1 / 25)\<rparr>,
    \<lparr>symbol = ''XBRUSD'', ins_group = ''energy'', subCategory = ''energy'', quoteCurrency = None, contractSize = Fin 1000,
     ins_leverage = LEVERAGE_FLAT, decimals = 2, ins_step = mk (1 / 100), pipSize = mk (1 / 100), minDistance = mk (1 / 20),
     pointMultiplier = Fin 100, wideSpreadThreshold = Fin 6, quickMoveThreshold = Fin 25, marketDataSymbol = ''BRENT/USD'',
     defaultSpread = mk (1 / 25)\<rparr>,
    \<lparr>symbol = ''XNGUSD'', ins_group = ''energy'', subCategory = ''energy'', quoteCurrency = None, contractSize = Fin 10000,
     ins_leverage = LEVERAGE_FLAT, decimals = 3, ins_step = mk (1 / 1000), pipSize = mk (1 / 1000), minDistance = mk (1 / 200),
     pointMultiplier = Fin 1000, wideSpreadThreshold = Fin 6, quickMoveThreshold = Fin 25, marketDataSymbol = ''NATGAS/USD'',
     defaultSpread = mk (1 / 200)\<rparr>]"

definition RAW_INDICES_SPOT :: "instrument list" where
  "RAW_INDICES_SPOT = [
    \<lparr>symbol = ''US30'', ins_group = ''index'', subCategory = ''spot'', quoteCurrency = None, contractSize = Fin 1,
     ins_leverage = LEVERAGE_FLAT, decimals = 1, ins_step = mk (1 / 10), pipSize = mk (1 / 10), minDistance = Fin 1,
     pointMultiplier = Fin 10, wideSpreadThreshold = Fin 50, quickMoveThreshold = Fin 50, marketDataSymbol = ''DJI'',
     defaultSpread = Fin 2\<rparr>,
    \<lparr>symbol = ''USTEC'', ins_group = ''index'', subCategory = ''spot'', quoteCurrency = None, contractSize = Fin 1,
     ins_leverage = LEVERAGE_FLAT, decimals = 1, ins_step = mk (1 / 10), pipSize = mk (1 / 10), minDistance = Fin 1,
     pointMultiplier = Fin 10, wideSpreadThreshold = Fin 50, quickMoveThreshold = Fin 50, marketDataSymbol = ''NDX'',
     defaultSpread = mk (3 / 2)\<rparr>,
    \<lparr>symbol = ''US500'', ins_group = ''index'', subCategory = ''spot'', quoteCurrency = None, contractSize = Fin 1,
     ins_leverage = LEVERAGE_FLAT, decimals = 1, ins_step = mk (1 / 10), pipSize = mk (1 / 10), minDistance = Fin 1,
     pointMultiplier = Fin 10, wideSpreadThreshold = Fin 20, quickMoveThreshold = Fin 25, marketDataSymbol = ''SPX'',
     defaultSpread = mk (3 / 5)\<rparr>,
    \<lparr>symbol = ''UK100'', ins_group = ''index'', subCategory = ''spot'', quoteCurrency = None, contractSize = Fin 1,
     ins_leverage = LEVERAGE_FLAT, decimals = 1, ins_step = mk (1 / 10), pipSize = mk (1 / 10), minDistance = Fin 1,
     pointMultiplier = Fin 10, wideSpreadThreshold = Fin 20, quickMoveThreshold = Fin 25, marketDataSymbol = ''UKX'',
     defaultSpread = Fin 1\<rparr>,
    \<lparr>symbol = ''AUS200'', ins_group = ''index'', subCategory = ''spot'', quoteCurrency = None, contractSize = Fin 1,
     ins_leverage = LEVERAGE_FLAT, decimals = 1, ins_step = mk (1 / 10), pipSize = mk (1 / 10), minDistance = Fin 1,
     pointMultiplier = Fin 10, wideSpreadThreshold = Fin 20, quickMoveThreshold = Fin 25, marketDataSymbol = ''AS51'',
     defaultSpread = Fin 2\<rparr>,
    \<lparr>symbol = ''JP225'', ins_group = ''index'', subCategory = ''spot'', quoteCurrency = None, contractSize = Fin 1,
     ins_leverage = LEVERAGE_FLAT, decimals = 0, ins_step = Fin 1, pipSize = Fin 1, minDistance = Fin 5,
     pointMultiplier = Fin 1, wideSpreadThreshold = Fin 20, quickMoveThreshold = Fin 30, marketDataSymbol = ''NKY'',
     defaultSpread = Fin 8\<rparr>,
    \<lparr>symbol = ''HK50'', ins_group = ''index'', subCategory = ''spot'', quoteCurrency = None, contractSize = Fin 1,
     ins_leverage = LEVERAGE_FLAT, decimals = 0, ins_step = Fin 1, pipSize = Fin 1, minDistance = Fin 5,
     pointMultiplier = Fin 1, wideSpreadThreshold = Fin 20, quickMoveThreshold = Fin 30, marketDataSymbol = ''HSI'',
     defaultSpread = Fin 8\<rparr>]"

definition RAW_INDICES_MAJOR :: "instrument list" where
  "RAW_INDICES_MAJOR = [
    \<lparr>symbol = ''DE40'', ins_group = ''index'', subCategory = ''major'', quoteCurrency = None, contractSize = Fin 1,
     ins_leverage = LEVERAGE_FLAT, decimals = 1, ins_step = mk (1 / 10), pipSize = mk (1 / 10), minDistance = Fin 1,
     pointMultiplier = Fin 10, wideSpreadThreshold = Fin 20, quickMoveThreshold = Fin 30, marketDataSymbol = ''DE40'',
     defaultSpread = mk (6 / 5)\<rparr>,
    \<lparr>symbol = ''FRA40'', ins_group = ''index'', subCategory = ''major'', quoteCurrency = None, contractSize = Fin 1,
     ins_leverage = LEVERAGE_FLAT, decimals = 1, ins_step = mk (1 / 10), pipSize = mk (1 / 10), minDistance = Fin 1,
     pointMultiplier = Fin 10, wideSpreadThreshold = Fin 20, quickMoveThreshold = Fin 25, marketDataSymbol = ''PX1'',
     defaultSpread = Fin 1\<rparr>,
    \<lparr>symbol = ''EUSTX50'', ins_group = ''index'', subCategory = ''major'', quoteCurrency = None, contractSize = Fin 1,
     ins_leverage = LEVERAGE_FLAT, decimals = 1, ins_step = mk (1 / 10), pipSize = mk (1 / 10), minDistance = Fin 1,
     pointMultiplier = Fin 10, wideSpreadThreshold = Fin 20, quickMoveThreshold = Fin 25, marketDataSymbol = ''SX5E'',
     defaultSpread = Fin 1\<rparr>]"

definition RAW_INSTRUMENT_DEFINITIONS :: "instrument list" where
  "RAW_INSTRUMENT_DEFINITIONS =
     map (\<lambda>s. buildForexDefinition s ''major'') FOREX_MAJORS @ map (\<lambda>s. buildForexDefinition s ''minor'') FOREX_MINORS @
     RAW_METALS @ RAW_ENERGIES @ RAW_INDICES_SPOT @ RAW_INDICES_MAJOR"

text \<open>The empty string is as good as no currency in the chain of alternatives.\<close>

definition given :: "string option \<Rightarrow> string option" where
  "given x = (case x of Some [] \<Rightarrow> None | _ \<Rightarrow> x)"

definition with_currency :: "instrument \<Rightarrow> instrument" where
  "with_currency d =
     d\<lparr>quoteCurrency := Some
         (case given (quoteCurrency d) of
            Some c \<Rightarrow> c
          | None \<Rightarrow> (case given (map_of NON_FOREX_QUOTE_CURRENCIES (symbol d)) of Some c \<Rightarrow> c | None \<Rightarrow> ''USD''))\<rparr>"

definition INSTRUMENT_DEFINITIONS :: "instrument list" where
  "INSTRUMENT_DEFINITIONS = map with_currency RAW_INSTRUMENT_DEFINITIONS"

section \<open>Derived tables\<close>

text \<open>An object built by assigning in turn: the last entry of a key counts.\<close>

definition table_of :: "(instrument \<Rightarrow> 'a) \<Rightarrow> string \<Rightarrow> 'a option" where
  "table_of f = map_of (rev (map (\<lambda>d. (symbol d, f d)) INSTRUMENT_DEFINITIONS))"

definition INSTRUMENT_CATALOG :: "string \<Rightarrow> instrument option" where
  "INSTRUMENT_CATALOG = table_of (\<lambda>d. d)"

definition CONTRACT_SIZES :: "string \<Rightarrow> num option" where
  "CONTRACT_SIZES = table_of contractSize"

definition LEVERAGE :: "string \<Rightarrow> num option" where
  "LEVERAGE = table_of ins_leverage"

definition TWELVE_DATA_SYMBOLS :: "string \<Rightarrow> string option" where
  "TWELVE_DATA_SYMBOLS = table_of marketDataSymbol"

definition DEFAULT_SPREADS :: "string \<Rightarrow> num option" where
  "DEFAULT_SPREADS = table_of defaultSpread"

definition INSTRUMENTS :: "string list" where
  "INSTRUMENTS = map symbol INSTRUMENT_DEFINITIONS"

definition USD_QUOTED_INSTRUMENTS :: "string list" where
  "USD_QUOTED_INSTRUMENTS = map symbol (filter (\<lambda>d. quoteCurrency d = Some ''USD'') INSTRUMENT_DEFINITIONS)"

definition isFxConversionEnabled :: "env \<Rightarrow> bool" where
  "isFxConversionEnabled env = (to_lower (trim (text_or_empty (env ''FX_CONVERSION_ENABLED''))) = ''true'')"

definition getTradableInstruments :: "env \<Rightarrow> string list" where
  "getTradableInstruments env = (if isFxConversionEnabled env then INSTRUMENTS else USD_QUOTED_INSTRUMENTS)"

definition isTradableInstrument :: "env \<Rightarrow> string option \<Rightarrow> bool" where
  "isTradableInstrument env sy = (to_upper (trim (text_or_empty sy)) \<in> set (getTradableInstruments env))"

definition getInstrumentConfig :: "string option \<Rightarrow> instrument option" where
  "getInstrumentConfig sy = INSTRUMENT_CATALOG (to_upper (text_or_empty sy))"

definition config_or :: "(instrument \<Rightarrow> 'a) \<Rightarrow> 'a \<Rightarrow> string option \<Rightarrow> 'a" where
  "config_or f d sy = (case getInstrumentConfig sy of None \<Rightarrow> d | Some i \<Rightarrow> f i)"

definition getPriceDecimals :: "string option \<Rightarrow> nat" where
  "getPriceDecimals = config_or decimals 5"

definition getInputStep :: "string option \<Rightarrow> num" where
  "getInputStep = config_or ins_step (mk (1 / 100000))"

definition getInputStepString :: "string option \<Rightarrow> string" where
  "getInputStepString sy = fixed_str (getPriceDecimals sy) (getInputStep sy)"

definition getPipSize :: "string option \<Rightarrow> num" where
  "getPipSize = config_or pipSize (mk (1 / 10000))"

definition getMinDistance :: "string option \<Rightarrow> num" where
  "getMinDistance sy = config_or minDistance (getPipSize sy) sy"

definition getPointMultiplier :: "string option \<Rightarrow> num" where
  "getPointMultiplier = config_or pointMultiplier (Fin 100000)"

definition getSpreadPoints :: "num \<Rightarrow> string option \<Rightarrow> num" where
  "getSpreadPoints spreadAbs sy = nmul spreadAbs (getPointMultiplier sy)"

definition getWideSpreadThreshold :: "string option \<Rightarrow> num" where
  "getWideSpreadThreshold = config_or wideSpreadThreshold (mk (9 / 2))"

definition getQuickMoveThreshold :: "string option \<Rightarrow> num" where
  "getQuickMoveThreshold = config_or quickMoveThreshold (Fin 20)"

definition roundPrice :: "jsval \<Rightarrow> string option \<Rightarrow> num" where
  "roundPrice v sy =
     (let parsed = parse_float v in
      if \<not> is_finite parsed then parsed else parse_float_str (fixed_str (getPriceDecimals sy) parsed))"

definition formatPrice :: "jsval \<Rightarrow> string option \<Rightarrow> string" where
  "formatPrice v sy =
     (let parsed = parse_float v in
      if \<not> is_finite parsed then [] else fixed_str (getPriceDecimals sy) parsed)"

section \<open>The catalogue is consistent\<close>

definition grid_ok :: "instrument \<Rightarrow> bool" where
  "grid_ok d \<longleftrightarrow>
     getInstrumentConfig (Some (symbol d)) = Some d \<and>
     ins_step d = mk (1 / 10 ^ decimals d) \<and> pointMultiplier d = Fin (10 ^ decimals d) \<and>
     getInputStepString (Some (symbol d)) = (if decimals d = 0 then ''1'' else ''0.'' @ replicate (decimals d - 1) (CHR ''0'') @ ''1'') \<and>
     nle (ins_step d) (pipSize d) \<and> nle (pipSize d) (minDistance d) \<and> nlt (Fin 0) (contractSize d)"

text \<open>What of it is a matter of each definition alone.\<close>

definition row_ok :: "instrument \<Rightarrow> bool" where
  "row_ok d \<longleftrightarrow>
     to_upper (symbol d) = symbol d \<and> ins_step d = mk (1 / 10 ^ decimals d) \<and> pointMultiplier d = Fin (10 ^ decimals d) \<and>
     fixed_str (decimals d) (ins_step d) = (if decimals d = 0 then ''1'' else ''0.'' @ replicate (decimals d - 1) (CHR ''0'') @ ''1'') \<and>
     nle (ins_step d) (pipSize d) \<and> nle (pipSize d) (minDistance d) \<and> nlt (Fin 0) (contractSize d)"

lemma rows_ok: "list_all row_ok INSTRUMENT_DEFINITIONS"
  by code_simp

lemma distinct_symbols: "distinct (map symbol INSTRUMENT_DEFINITIONS)"
  by code_simp

lemma table_of_in: "d \<in> set INSTRUMENT_DEFINITIONS \<Longrightarrow> table_of f (symbol d) = Some (f d)"
  unfolding table_of_def
  by (rule map_of_is_SomeI) (auto simp: o_def distinct_symbols rev_map [symmetric])

lemma config_of: "d \<in> set INSTRUMENT_DEFINITIONS \<Longrightarrow> getInstrumentConfig (Some (symbol d)) = Some d"
  using rows_ok by (simp add: getInstrumentConfig_def INSTRUMENT_CATALOG_def list_all_iff row_ok_def table_of_in)

lemma config_or_in: "d \<in> set INSTRUMENT_DEFINITIONS \<Longrightarrow> config_or f x (Some (symbol d)) = f d"
  by (simp add: config_or_def config_of)

lemma symbols_eq: "INSTRUMENTS = FOREX_INSTRUMENTS @ COMMODITY_INSTRUMENTS @ ENERGIES @ INDEX_INSTRUMENTS"
  by code_simp

text \<open>The catalogue is consistent: its 45 symbols are distinct, every symbol is found under
  its own name, the group lists name exactly the catalogue, and every price step is the unit of
  the last decimal place, no larger than the pip and the minimum distance.\<close>

lemma catalogue_consistent:
  "distinct INSTRUMENTS \<and> length INSTRUMENTS = 45 \<and> list_all grid_ok INSTRUMENT_DEFINITIONS \<and>
   INSTRUMENTS = FOREX_INSTRUMENTS @ COMMODITY_INSTRUMENTS @ ENERGIES @ INDEX_INSTRUMENTS"
proof -
  have "list_all grid_ok INSTRUMENT_DEFINITIONS"
    using rows_ok
    by (auto simp: list_all_iff row_ok_def grid_ok_def config_of getInputStepString_def getPriceDecimals_def getInputStep_def config_or_in)
  moreover have "distinct INSTRUMENTS" using distinct_symbols by (simp add: INSTRUMENTS_def)
  moreover have "length (FOREX_INSTRUMENTS @ COMMODITY_INSTRUMENTS @ ENERGIES @ INDEX_INSTRUMENTS) = 45" by code_simp
  ultimately show ?thesis using symbols_eq by simp
qed

section \<open>Prices on the grid\<close>

text \<open>Rounding a price of moderate size changes it by at most half a unit of the last place, up
  to the rounding of the Number.\<close>

lemma fixed_digits_near: "\<bar>of_int (fixed_digits d a) - \<bar>a\<bar> * 10 ^ d\<bar> \<le> 1 / 2"
  unfolding fixed_digits_def by linarith

lemma decimals_le: "getPriceDecimals sy \<le> 5"
proof -
  have "list_all (\<lambda>d. decimals d \<le> 5) INSTRUMENT_DEFINITIONS" by code_simp
  moreover have "INSTRUMENT_CATALOG s = Some d \<Longrightarrow> d \<in> set INSTRUMENT_DEFINITIONS" for s d
    by (auto simp: INSTRUMENT_CATALOG_def table_of_def dest!: map_of_SomeD)
  ultimately show ?thesis
    by (auto simp: getPriceDecimals_def config_or_def getInstrumentConfig_def list_all_iff split: option.split)
qed

lemma fixed_grid:
  assumes d: "d \<le> 5" and a: "\<bar>a\<bar> \<le> 10 ^ 9"
  shows "\<exists>r. fixed d (Fin a) = Fin r \<and> \<bar>r\<bar> \<le> 10 ^ 9 + 2 \<and> fixed d (Fin r) = Fin r"
proof -
  define n where "n = fixed_digits d a"
  define s :: rat where "s = (if a < 0 then - 1 else 1)"
  define r where "r = fl (s * of_int n / 10 ^ d)"
  have ten: "(1::rat) \<le> 10 ^ d" "(10::rat) ^ d \<le> 10 ^ 5" using d power_increasing [of d 5 "10::rat"] by simp_all
  have n0: "0 \<le> n" unfolding n_def fixed_digits_def by simp
  have nd: "\<bar>of_int n / 10 ^ d - \<bar>a\<bar>\<bar> \<le> 1 / 2"
  proof -
    have "of_int n / 10 ^ d - \<bar>a\<bar> = (of_int n - \<bar>a\<bar> * 10 ^ d) / 10 ^ d" by (simp add: field_simps)
    then have "\<bar>of_int n / 10 ^ d - \<bar>a\<bar>\<bar> = \<bar>of_int n - \<bar>a\<bar> * 10 ^ d\<bar> / 10 ^ d" by (simp add: abs_divide)
    also have "\<dots> \<le> (1 / 2) / 1" using ten fixed_digits_near [of d a] unfolding n_def by (intro frac_le) auto
    finally show ?thesis by simp
  qed
  have s: "\<bar>s\<bar> = 1" by (simp add: s_def)
  have "of_int n / 10 ^ d \<le> (10 ^ 9 + 1 :: rat)" using nd a unfolding abs_le_iff by linarith
  then have b: "\<bar>s * of_int n / 10 ^ d\<bar> \<le> 10 ^ 9 + 1" using s n0 by (simp add: abs_mult abs_divide)
  have "\<bar>r - s * of_int n / 10 ^ d\<bar> \<le> \<bar>s * of_int n / 10 ^ d\<bar> / 2 ^ 53 + subnormal_err"
    unfolding r_def by (rule fl_err)
  also have "\<dots> \<le> (10 ^ 9 + 1) / 2 ^ 53 + 1 / 10 ^ 20"
    using b subnormal_err_bounds by (intro add_mono divide_right_mono) auto
  also have "\<dots> < 1 / 10 ^ 6" by simp
  finally have near: "\<bar>r - s * of_int n / 10 ^ d\<bar> < 1 / 10 ^ 6" .
  have "\<bar>r\<bar> \<le> \<bar>r - y\<bar> + \<bar>y\<bar>" for y by linarith
  from this [of "s * of_int n / 10 ^ d"] near b have r: "\<bar>r\<bar> \<le> 10 ^ 9 + 2" by simp
  have f1: "fixed d (Fin a) = Fin r"
    using a b by (simp add: n_def [symmetric] s_def [symmetric] r_def mk_small)
  have sg: "\<bar>\<bar>r\<bar> - of_int n / 10 ^ d\<bar> < 1 / 10 ^ 6"
  proof -
    have "\<bar>s * of_int n / 10 ^ d\<bar> = of_int n / 10 ^ d" using s n0 by (simp add: abs_mult abs_divide)
    then show ?thesis using near abs_triangle_ineq3 [of r "s * of_int n / 10 ^ d"] by linarith
  qed
  have "\<bar>\<bar>r\<bar> * 10 ^ d - of_int n\<bar> < 1 / 2"
  proof -
    have "\<bar>r\<bar> * 10 ^ d - of_int n = (\<bar>r\<bar> - of_int n / 10 ^ d) * 10 ^ d" by (simp add: field_simps)
    then have "\<bar>\<bar>r\<bar> * 10 ^ d - of_int n\<bar> = \<bar>\<bar>r\<bar> - of_int n / 10 ^ d\<bar> * 10 ^ d" by (simp add: abs_mult)
    also have "\<dots> \<le> 1 / 10 ^ 6 * 10 ^ 5" using sg ten by (intro mult_mono) auto
    finally show ?thesis by simp
  qed
  then have fd: "fixed_digits d r = n" unfolding fixed_digits_def by (rule floor_near)
  have e: "(if r < 0 then - 1 else 1) * of_int n / 10 ^ d = s * of_int n / 10 ^ d"
  proof (cases "n = 0")
    case False
    then have n1: "(1::rat) \<le> of_int n" using n0 by simp
    define q where "q = (of_int n / 10 ^ d :: rat)"
    have "(1::rat) / 10 ^ 5 \<le> of_int n / 10 ^ d" using n1 ten by (intro frac_le) auto
    then have q: "1 / 100000 \<le> q" by (simp add: q_def)
    have "\<bar>r - s * q\<bar> < 1 / 1000000" using near by (simp add: q_def)
    with q have "(r < 0) = (s < 0)" unfolding s_def abs_less_iff by (cases "a < 0"; simp; linarith)
    then show ?thesis by (auto simp: s_def split: if_splits)
  qed simp
  have "mk (s * of_int n / 10 ^ d) = Fin r" unfolding r_def using b by (intro mk_small) simp
  moreover have "\<not> 10 ^ 21 \<le> \<bar>r\<bar>" using r by simp
  ultimately have "fixed d (Fin r) = Fin r" unfolding fixed.simps fd e by simp
  then show ?thesis using f1 r by blast
qed

lemmas fixed_small = fixed_grid [OF decimals_le]

text \<open>C15. Prices survive the grid: the text a price is shown as reads back as the price rounded to
  the grid of its instrument, and a rounded price is on the grid, so rounding it again
  changes nothing.\<close>

theorem price_roundtrip:
  assumes "parse_float v = Fin x" "\<bar>x\<bar> \<le> 10 ^ 9"
  shows "parse_float_str (formatPrice v sy) = roundPrice v sy \<and> roundPrice (JNum (roundPrice v sy)) sy = roundPrice v sy"
proof -
  let ?d = "getPriceDecimals sy"
  have x: "\<bar>x\<bar> < 10 ^ 21" using assms(2) by simp
  have r: "roundPrice v sy = fixed ?d (Fin x)"
    using parse_fixed_str [OF x] by (simp add: roundPrice_def assms(1) Let_def)
  obtain y where y: "fixed ?d (Fin x) = Fin y" "\<bar>y\<bar> \<le> 10 ^ 9 + 2" "fixed ?d (Fin y) = Fin y"
    using fixed_small [OF assms(2)] by blast
  have "roundPrice (JNum (Fin y)) sy = Fin y"
    using parse_fixed_str [of y ?d] y by (simp add: roundPrice_def Let_def)
  then show ?thesis
    unfolding r y(1) using parse_fixed_str [OF x, of ?d] y(1) by (simp add: formatPrice_def assms(1) Let_def del: fixed.simps fixed_str.simps)
qed

theorem price_roundtrip_witness:
  "formatPrice (JText ''1.234567'') (Some ''EURUSD'') = ''1.23457'' \<and>
   roundPrice (JNum (roundPrice (JText ''1.234567'') (Some ''EURUSD''))) (Some ''EURUSD'') =
   roundPrice (JText ''1.234567'') (Some ''EURUSD'')"
proof -
  have "parse_float (JText ''1.234567'') = Fin (fl (1234567 / 1000000))" by code_simp
  moreover have "\<bar>fl (1234567 / 1000000)\<bar> \<le> 10 ^ 9" by code_simp
  ultimately have "roundPrice (JNum (roundPrice (JText ''1.234567'') (Some ''EURUSD''))) (Some ''EURUSD'') =
    roundPrice (JText ''1.234567'') (Some ''EURUSD'')"
    using price_roundtrip by blast
  moreover have "formatPrice (JText ''1.234567'') (Some ''EURUSD'') = ''1.23457''" by code_simp
  ultimately show ?thesis by blast
qed

end
