(* ===== verification/JsDate.thy ===== *)
theory JsDate
  imports JsValue
begin

text \<open>
  Dates: a Date is its time value in milliseconds since 1970-01-01T00:00:00Z, in the proleptic
  Gregorian calendar. Calendar fields in UTC, the ISO text of toISOString, and the text of the
  day that comparisons of dates use. Years are those between 0 and 9999.
\<close>

definition ms_per_day :: int where
  "ms_per_day = 86400000"

definition day_of :: "int \<Rightarrow> int" where
  "day_of t = t div ms_per_day"

text \<open>Year, month and day of a day number counted from 1970-01-01, by 400-year eras from March.\<close>

definition civil_of_day :: "int \<Rightarrow> int \<times> int \<times> int" where
  "civil_of_day n =
     (let z = n + 719468; era = z div 146097; doe = z mod 146097;
          c = min 3 (doe div 36524); r = doe - 36524 * c;
          q = min 24 (r div 1461); s = r - 1461 * q;
          e = min 3 (s div 365); doy = s - 365 * e; yoe = 100 * c + 4 * q + e;
          mp = (5 * doy + 2) div 153;
          d = doy - (153 * mp + 2) div 5 + 1;
          m = (if mp < 10 then mp + 3 else mp - 9)
      in (yoe + era * 400 + (if m \<le> 2 then 1 else 0), m, d))"

definition day_of_civil :: "int \<Rightarrow> int \<Rightarrow> int \<Rightarrow> int" where
  "day_of_civil y m d =
     (let y' = (if m \<le> 2 then y - 1 else y); era = y' div 400; yoe = y' mod 400;
          mp = (if 2 < m then m - 3 else m + 9);
          doy = (153 * mp + 2) div 5 + d - 1;
          doe = yoe * 365 + yoe div 4 - yoe div 100 + doy
      in era * 146097 + doe - 719468)"

definition pad_int :: "nat \<Rightarrow> int \<Rightarrow> string" where
  "pad_int w n = (let s = pos_str n in replicate (w - length s) (CHR ''0'') @ s)"

definition date_str :: "int \<Rightarrow> string" where
  "date_str n = (let (y, m, d) = civil_of_day n in pad_int 4 y @ ''-'' @ pad_int 2 m @ ''-'' @ pad_int 2 d)"

definition iso_str :: "int \<Rightarrow> string" where
  "iso_str t =
     (let r = t mod ms_per_day in
      date_str (day_of t) @ ''T'' @ pad_int 2 (r div 3600000) @ '':'' @ pad_int 2 (r div 60000 mod 60) @ '':'' @
      pad_int 2 (r div 1000 mod 60) @ ''.'' @ pad_int 3 (r mod 1000) @ ''Z'')"

definition full_year :: "int \<Rightarrow> int" where
  "full_year t = fst (civil_of_day (day_of t))"

lemma iso_examples:
  "iso_str 0 = ''1970-01-01T00:00:00.000Z''"
  "iso_str 1709210096789 = ''2024-02-29T12:34:56.789Z''"
  "date_str (day_of_civil 2026 8 3) = ''2026-08-03''"
  by code_simp+

text \<open>The two conversions are inverse to each other, for every day of the calendar.\<close>

lemma digit_split:
  fixes x b k m :: int
  assumes "0 \<le> x" "0 < b" "0 \<le> k" "x \<le> b * k + m" "b - 1 \<le> m"
  shows "0 \<le> min k (x div b) \<and> min k (x div b) \<le> k \<and> 0 \<le> x - b * min k (x div b) \<and> x - b * min k (x div b) \<le> m"
proof (cases "x div b \<le> k")
  case True
  have "x - b * (x div b) = x mod b" by (simp add: minus_mult_div_eq_mod)
  moreover have "0 \<le> x mod b" "x mod b < b" using assms(2) by simp_all
  moreover have "0 \<le> x div b" using assms(1,2) by (simp add: pos_imp_zdiv_nonneg_iff)
  ultimately show ?thesis using True assms(3,5) by (simp add: min_absorb2)
next
  case False
  then have "b * k \<le> b * (x div b)" using assms(2) by simp
  moreover have "b * (x div b) \<le> x" using assms(2) by (metis mult_div_mod_eq add_le_cancel_left le_add_same_cancel1 pos_mod_sign)
  ultimately have "b * k \<le> x" by (rule order_trans)
  then show ?thesis using False assms by simp
qed

lemma day_of_civil_of_day: "(case civil_of_day n of (y, m, d) \<Rightarrow> day_of_civil y m d) = n"
proof -
  define z where "z = n + 719468"
  define era doe where "era = z div 146097" and "doe = z mod 146097"
  have doe: "0 \<le> doe" "doe < 146097" by (simp_all add: doe_def)
  have z: "n = era * 146097 + doe - 719468" unfolding era_def doe_def z_def by simp
  define c where "c = min 3 (doe div 36524)"
  define r where "r = doe - 36524 * c"
  define q where "q = min 24 (r div 1461)"
  define s where "s = r - 1461 * q"
  define e where "e = min 3 (s div 365)"
  define doy where "doy = s - 365 * e"
  define yoe where "yoe = 100 * c + 4 * q + e"
  have c: "0 \<le> c" "c \<le> 3" "0 \<le> r" "r \<le> 36524"
    using digit_split [of doe 36524 3 36524] doe unfolding r_def c_def by simp_all
  have q: "0 \<le> q" "q \<le> 24" "0 \<le> s" "s \<le> 1460"
    using digit_split [of r 1461 24 1460] c unfolding s_def q_def by simp_all
  have e: "0 \<le> e" "e \<le> 3" "0 \<le> doy" "doy \<le> 365"
    using digit_split [of s 365 3 365] q unfolding doy_def e_def by simp_all
  have "yoe = (25 * c + q) * 4 + e" "yoe = c * 100 + (4 * q + e)" by (simp_all add: yoe_def)
  then have yoe: "0 \<le> yoe" "yoe < 400" "yoe div 4 = 25 * c + q" "yoe div 100 = c"
    using c(1,2) q(1,2) e(1,2) by (simp_all add: div_pos_pos_trivial)
  define mp where "mp = (5 * doy + 2) div 153"
  have mp: "0 \<le> mp" "mp < 12" using e(3,4) unfolding mp_def by (simp_all add: pos_imp_zdiv_nonneg_iff)
  have era: "(yoe + era * 400) div 400 = era" "(yoe + era * 400) mod 400 = yoe"
    using yoe(1,2) by simp_all
  have split: "doe = 365 * yoe + yoe div 4 - yoe div 100 + doy"
    unfolding yoe(3,4) by (simp add: yoe_def doy_def s_def r_def)
  have civil: "civil_of_day n =
    (yoe + era * 400 + (if (if mp < 10 then mp + 3 else mp - 9) \<le> 2 then 1 else 0),
     if mp < 10 then mp + 3 else mp - 9, doy - (153 * mp + 2) div 5 + 1)"
    unfolding civil_of_day_def Let_def z_def [symmetric] era_def [symmetric] doe_def [symmetric] c_def [symmetric]
      r_def [symmetric] q_def [symmetric] s_def [symmetric] e_def [symmetric] doy_def [symmetric]
      yoe_def [symmetric] mp_def [symmetric] by simp
  show ?thesis
    unfolding civil day_of_civil_def using mp era split z by (auto simp: Let_def)
qed

lemma day_of_mono: "s \<le> t \<Longrightarrow> day_of s \<le> day_of t"
  by (simp add: day_of_def ms_per_day_def zdiv_mono1)

end
