(* ===== verification/Pricing.thy ===== *)
theory Pricing
  imports Instruments JsDate
begin

text \<open>
  utils/priceCache.ts, utils/fxRates.ts, utils/fastPnL.ts, utils/pnlCalculator.ts,
  utils/pendingOrderValidation.js and services/feedHealth.ts: the quotes the engine evaluates
  against, the rate that turns a quote currency into dollars, the value of a position on the fast
  and on the confirming path, the triggers of stops and pending orders, and the circuit breaker
  that suspends enforcement while the feed is stale.
\<close>

section \<open>The price cache\<close>

record quote =
  q_bid :: num
  q_ask :: num

text \<open>A price map in the order its keys were inserted; an entry can be null.\<close>

type_synonym price_map = "(string \<times> quote option) list"

record price_cache =
  pc_prices :: price_map
  pc_updated_at :: int
  pc_changed :: "string list"

definition price_in :: "price_map \<Rightarrow> string \<Rightarrow> quote option" where
  "price_in m i = (case map_of m i of None \<Rightarrow> None | Some q \<Rightarrow> q)"

definition diffInstruments :: "price_map \<Rightarrow> price_map \<Rightarrow> string list" where
  "diffInstruments prev nxt =
     map fst (filter (\<lambda>(i, after).
       case after of
         None \<Rightarrow> False
       | Some a \<Rightarrow>
           (case price_in prev i of
              None \<Rightarrow> True
            | Some b \<Rightarrow> \<not> nsame (q_bid b) (q_bid a) \<or> \<not> nsame (q_ask b) (q_ask a))) nxt)"

text \<open>The schema of external price maps: finite bids and asks.\<close>

definition price_map_ok :: "price_map \<Rightarrow> bool" where
  "price_map_ok m = list_all (\<lambda>(i, q). case q of None \<Rightarrow> True | Some p \<Rightarrow> is_finite (q_bid p) \<and> is_finite (q_ask p)) m"

text \<open>\<open>outcome\<close> is what the tenant's price resolver returned, None when it failed.\<close>

definition updatePrices :: "price_map option \<Rightarrow> int \<Rightarrow> price_cache \<Rightarrow> string list \<times> price_cache" where
  "updatePrices outcome t s =
     (case outcome of
        None \<Rightarrow> ([], s)
      | Some nxt \<Rightarrow>
          if \<not> price_map_ok nxt then ([], s)
          else (let ch = diffInstruments (pc_prices s) nxt in
                (ch, \<lparr>pc_prices = nxt, pc_updated_at = t, pc_changed = ch\<rparr>)))"

definition getPrice :: "price_cache \<Rightarrow> string \<Rightarrow> quote option" where
  "getPrice s i = price_in (pc_prices s) i"

definition getPriceCacheAgeMs :: "price_cache \<Rightarrow> int \<Rightarrow> int option" where
  "getPriceCacheAgeMs s t = (if pc_updated_at s = 0 then None else Some (t - pc_updated_at s))"

definition STALE_AFTER_MS :: int where
  "STALE_AFTER_MS = 5000"

definition isStale :: "price_cache \<Rightarrow> int \<Rightarrow> bool" where
  "isStale s t = (if pc_updated_at s = 0 then True else STALE_AFTER_MS < t - pc_updated_at s)"

definition hasPrices :: "price_cache \<Rightarrow> bool" where
  "hasPrices s = (pc_prices s \<noteq> [])"

definition empty_cache :: price_cache where
  "empty_cache = \<lparr>pc_prices = [], pc_updated_at = 0, pc_changed = []\<rparr>"

section \<open>Conversion rates\<close>

datatype rate_source = Identity | Pair string bool | Pegged string num bool

definition DEFAULT_HKD_USD_PEGGED_RATE :: num where
  "DEFAULT_HKD_USD_PEGGED_RATE = mk (78 / 10)"

definition RATE_SOURCES :: "(string \<times> rate_source) list" where
  "RATE_SOURCES =
     [(''USD'', Identity),
      (''JPY'', Pair ''USDJPY'' True),
      (''CHF'', Pair ''USDCHF'' True),
      (''CAD'', Pair ''USDCAD'' True),
      (''GBP'', Pair ''GBPUSD'' False),
      (''AUD'', Pair ''AUDUSD'' False),
      (''NZD'', Pair ''NZDUSD'' False),
      (''EUR'', Pair ''EURUSD'' False),
      (''HKD'', Pegged ''HKD_USD_PEGGED_RATE'' DEFAULT_HKD_USD_PEGGED_RATE True)]"

datatype fx_error = FxRateUnavailable string string

definition fx_message :: "fx_error \<Rightarrow> string" where
  "fx_message e = (case e of FxRateUnavailable c r \<Rightarrow> ''No USD conversion rate available for '' @ c @ '': '' @ r)"

definition normalizeCurrency :: "string option \<Rightarrow> string" where
  "normalizeCurrency c = to_upper (trim (text_or_empty c))"

definition inverted :: "bool \<Rightarrow> num \<Rightarrow> num" where
  "inverted flip x = (if flip then ndiv (Fin 1) x else x)"

definition readPeggedRate :: "env \<Rightarrow> string \<Rightarrow> num \<Rightarrow> bool \<Rightarrow> string \<Rightarrow> fx_error + num" where
  "readPeggedRate env pegged fallback flip currency =
     (let parsed = (case env pegged of
                      None \<Rightarrow> fallback
                    | Some raw \<Rightarrow> if trim raw = [] then fallback else parse_float_str raw)
      in if \<not> is_finite parsed \<or> nle parsed (Fin 0)
         then Inl (FxRateUnavailable currency (pegged @ '' is not a positive number''))
         else Inr (inverted flip parsed))"

definition getUsdRate :: "env \<Rightarrow> price_cache \<Rightarrow> string option \<Rightarrow> fx_error + num" where
  "getUsdRate env pc currency =
     (let normalized = normalizeCurrency currency in
      case map_of RATE_SOURCES normalized of
        None \<Rightarrow> Inl (FxRateUnavailable (if normalized = [] then ''(empty)'' else normalized) ''no rate source is configured'')
      | Some Identity \<Rightarrow> Inr (Fin 1)
      | Some (Pegged p f flip) \<Rightarrow> readPeggedRate env p f flip normalized
      | Some (Pair p flip) \<Rightarrow>
          (case getPrice pc p of
             None \<Rightarrow> Inl (FxRateUnavailable normalized (p @ '' is not in the price cache''))
           | Some price \<Rightarrow>
               if \<not> is_finite (q_bid price) \<or> nle (q_bid price) (Fin 0)
               then Inl (FxRateUnavailable normalized (p @ '' bid is '' @ num_str (q_bid price)))
               else Inr (inverted flip (q_bid price))))"

definition quote_currency_of :: "string option \<Rightarrow> string" where
  "quote_currency_of i =
     (case getInstrumentConfig i of
        None \<Rightarrow> ''USD''
      | Some c \<Rightarrow> (case given (quoteCurrency c) of None \<Rightarrow> ''USD'' | Some q \<Rightarrow> q))"

definition getUsdRateForInstrument :: "env \<Rightarrow> price_cache \<Rightarrow> string option \<Rightarrow> fx_error + num" where
  "getUsdRateForInstrument env pc i =
     (if \<not> isFxConversionEnabled env then Inr (Fin 1) else getUsdRate env pc (Some (quote_currency_of i)))"

definition isUsdQuoted :: "string option \<Rightarrow> bool" where
  "isUsdQuoted i = (quote_currency_of i = ''USD'')"

record rate_snapshot =
  snap_rate :: "num option"
  snap_available :: bool
  snap_reason :: "string option"

definition getRateSnapshot :: "env \<Rightarrow> price_cache \<Rightarrow> (string \<times> rate_snapshot) list" where
  "getRateSnapshot env pc =
     map (\<lambda>(c, _). (c,
       case getUsdRate env pc (Some c) of
         Inr r \<Rightarrow> \<lparr>snap_rate = Some r, snap_available = True, snap_reason = None\<rparr>
       | Inl e \<Rightarrow> \<lparr>snap_rate = None, snap_available = False, snap_reason = Some (fx_message e)\<rparr>)) RATE_SOURCES"

section \<open>The fast path\<close>

datatype direction_sign = DIRECTION_BUY | DIRECTION_SELL

definition directionSign :: "string \<Rightarrow> direction_sign" where
  "directionSign direction = (if direction = ''buy'' then DIRECTION_BUY else DIRECTION_SELL)"

definition DEFAULT_CONTRACT_SIZE :: num where
  "DEFAULT_CONTRACT_SIZE = Fin 100000"

definition contractSizeFor :: "string \<Rightarrow> num" where
  "contractSizeFor i =
     (case CONTRACT_SIZES i of
        None \<Rightarrow> DEFAULT_CONTRACT_SIZE
      | Some c \<Rightarrow> if truthy (JNum c) then c else DEFAULT_CONTRACT_SIZE)"

definition fastPnL :: "direction_sign \<Rightarrow> num \<Rightarrow> num \<Rightarrow> num \<Rightarrow> num \<Rightarrow> num \<Rightarrow> num \<Rightarrow> num" where
  "fastPnL sign openPrice closePrice lots csize commission usdRate =
     (let diff = (if sign = DIRECTION_BUY then nsub closePrice openPrice else nsub openPrice closePrice)
      in nsub (nmul (nmul (nmul diff lots) csize) usdRate) commission)"

definition closePriceFor :: "direction_sign \<Rightarrow> quote \<Rightarrow> num" where
  "closePriceFor sign price = (if sign = DIRECTION_BUY then q_bid price else q_ask price)"

definition isSLTriggered :: "direction_sign \<Rightarrow> num option \<Rightarrow> num \<Rightarrow> bool" where
  "isSLTriggered sign stopLoss currentPrice =
     (case stopLoss of
        None \<Rightarrow> False
      | Some sl \<Rightarrow> if sign = DIRECTION_BUY then nle currentPrice sl else nle sl currentPrice)"

definition isTPTriggered :: "direction_sign \<Rightarrow> num option \<Rightarrow> num \<Rightarrow> bool" where
  "isTPTriggered sign takeProfit currentPrice =
     (case takeProfit of
        None \<Rightarrow> False
      | Some tp \<Rightarrow> if sign = DIRECTION_BUY then nle tp currentPrice else nle currentPrice tp)"

definition isPendingTriggered :: "string \<Rightarrow> num option \<Rightarrow> quote \<Rightarrow> bool" where
  "isPendingTriggered orderType triggerPrice price =
     (case triggerPrice of
        None \<Rightarrow> False
      | Some tr \<Rightarrow>
          if orderType = ''buy_limit'' then nle (q_ask price) tr
          else if orderType = ''buy_stop'' then nle tr (q_ask price)
          else if orderType = ''sell_limit'' then nle tr (q_bid price)
          else if orderType = ''sell_stop'' then nle (q_bid price) tr
          else False)"

text \<open>validatePendingOrderPrice: None is null, the price is accepted.\<close>

definition validatePendingOrderPrice :: "string \<Rightarrow> num \<Rightarrow> num \<Rightarrow> num \<Rightarrow> string option" where
  "validatePendingOrderPrice orderType pendingPrice bid ask =
     (if is_nan pendingPrice \<or> nle pendingPrice (Fin 0) then Some ''Invalid pending order price''
      else if is_nan bid \<or> is_nan ask then Some ''Live price not available - cannot validate pending order price''
      else if orderType = ''buy_limit'' \<and> nle ask pendingPrice then
        Some (''Buy Limit price must be below current ask ('' @ num_str ask @ ''). Use a Market order to buy at market price.'')
      else if orderType = ''sell_limit'' \<and> nle pendingPrice bid then
        Some (''Sell Limit price must be above current bid ('' @ num_str bid @ ''). Use a Market order to sell at market price.'')
      else if orderType = ''buy_stop'' \<and> nle pendingPrice ask then
        Some (''Buy Stop price must be above current ask ('' @ num_str ask @ '').'')
      else if orderType = ''sell_stop'' \<and> nle bid pendingPrice then
        Some (''Sell Stop price must be below current bid ('' @ num_str bid @ '').'')
      else None)"

section \<open>The confirming path\<close>

text \<open>
  The arithmetic of the decimal package: construction from a value (None when it throws), difference,
  product, rounding to two places, and the Number of a decimal.
\<close>

record 'd decimal_arith =
  da_new :: "jsval \<Rightarrow> 'd option"
  da_minus :: "'d \<Rightarrow> 'd \<Rightarrow> 'd"
  da_times :: "'d \<Rightarrow> 'd \<Rightarrow> 'd"
  da_cents :: "'d \<Rightarrow> 'd"
  da_num :: "'d \<Rightarrow> num"

datatype pnl_error = PnlFx fx_error | PnlDecimal

definition da_lift2 :: "('d \<Rightarrow> 'd \<Rightarrow> 'd) \<Rightarrow> 'd option \<Rightarrow> 'd option \<Rightarrow> pnl_error + 'd" where
  "da_lift2 f x y = (case (x, y) of (Some a, Some b) \<Rightarrow> Inr (f a b) | _ \<Rightarrow> Inl PnlDecimal)"

definition calculatePnL ::
  "('d, 'more) decimal_arith_scheme \<Rightarrow> env \<Rightarrow> price_cache \<Rightarrow> string \<Rightarrow> jsval \<Rightarrow> jsval \<Rightarrow> jsval \<Rightarrow> string \<Rightarrow> jsval \<Rightarrow> num option \<Rightarrow> pnl_error + num" where
  "calculatePnL D env pc direction open_price close_price lots i commission usdRate =
     (case da_new D (JNum (contractSizeFor i)) of
        None \<Rightarrow> Inl PnlDecimal
      | Some csize \<Rightarrow>
     (case (if direction = ''buy'' then da_lift2 (da_minus D) (da_new D close_price) (da_new D open_price)
            else da_lift2 (da_minus D) (da_new D open_price) (da_new D close_price)) of
        Inl e \<Rightarrow> Inl e
      | Inr priceDiff \<Rightarrow>
     (case (case usdRate of
              None \<Rightarrow> (case getUsdRateForInstrument env pc (Some i) of Inl e \<Rightarrow> Inl (PnlFx e) | Inr r \<Rightarrow> Inr r)
            | Some r \<Rightarrow> Inr r) of
        Inl e \<Rightarrow> Inl e
      | Inr rate \<Rightarrow>
     (case da_new D lots of
        None \<Rightarrow> Inl PnlDecimal
      | Some l \<Rightarrow>
     (let gross = da_times D (da_times D priceDiff l) csize in
      case (if nsame rate (Fin 1) then Inr gross else da_lift2 (da_times D) (Some gross) (da_new D (JNum rate))) of
        Inl e \<Rightarrow> Inl e
      | Inr converted \<Rightarrow>
          (case da_lift2 (da_minus D) (Some converted) (da_new D commission) of
             Inl e \<Rightarrow> Inl e
           | Inr net \<Rightarrow> Inr (da_num D (da_cents D net))))))))"

section \<open>Feed health\<close>

definition STALE_THRESHOLD_MS :: int where
  "STALE_THRESHOLD_MS = 10000"

definition DB_AGE_CACHE_MS :: int where
  "DB_AGE_CACHE_MS = 1000"

text \<open>
  The memo of the database's answer, the suspension, and the messages announced. \<open>_dbAgeCache\<close>,
  \<open>_suspended\<close> and \<open>_suspendedSince\<close> of the module.
\<close>

datatype feed_event = FeedDown string "int option" int | FeedUp "int option" "int option"

record feed_state =
  fs_db_age :: "int option"
  fs_db_at :: int
  fs_suspended :: bool
  fs_since :: "int option"
  fs_events :: "feed_event list"

record feed_health =
  fh_healthy :: bool
  fh_age :: "int option"
  fh_reason :: "string option"

text \<open>\<open>newest\<close> is the answer of the price_feed query: Inl when it failed, Inr None for an empty table.\<close>

definition getFeedAgeMs :: "price_cache \<Rightarrow> unit + int option \<Rightarrow> int \<Rightarrow> feed_state \<Rightarrow> int option \<times> feed_state" where
  "getFeedAgeMs pc newest t s =
     (let cacheAge = getPriceCacheAgeMs pc t in
      if (case cacheAge of None \<Rightarrow> False | Some a \<Rightarrow> a \<le> STALE_THRESHOLD_MS) then (cacheAge, s)
      else if fs_db_at s \<noteq> 0 \<and> t - fs_db_at s < DB_AGE_CACHE_MS then (fs_db_age s, s)
      else let age = (case newest of Inr (Some n) \<Rightarrow> Some (t - n) | _ \<Rightarrow> None)
           in (age, s\<lparr>fs_db_age := age, fs_db_at := t\<rparr>))"

definition checkFeedHealth :: "price_cache \<Rightarrow> unit + int option \<Rightarrow> int \<Rightarrow> feed_state \<Rightarrow> feed_health \<times> feed_state" where
  "checkFeedHealth pc newest t s =
     (let (age, s') = getFeedAgeMs pc newest t s in
      (case age of
         None \<Rightarrow> \<lparr>fh_healthy = False, fh_age = None, fh_reason = Some ''Price feed age is unknown''\<rparr>
       | Some a \<Rightarrow>
           if STALE_THRESHOLD_MS < a
           then \<lparr>fh_healthy = False, fh_age = Some a,
                 fh_reason = Some (''Price feed is '' @ num_str (math_round (ndiv (Fin (of_int a)) (Fin 1000))) @ ''s stale'')\<rparr>
           else \<lparr>fh_healthy = True, fh_age = Some a, fh_reason = None\<rparr>, s'))"

definition checkFeedHealthWithAlerting ::
  "price_cache \<Rightarrow> unit + int option \<Rightarrow> int \<Rightarrow> feed_state \<Rightarrow> feed_health \<times> feed_state" where
  "checkFeedHealthWithAlerting pc newest t s =
     (let (h, s') = checkFeedHealth pc newest t s in
      if \<not> fh_healthy h \<and> \<not> fs_suspended s' then
        (h, s'\<lparr>fs_suspended := True, fs_since := Some t,
               fs_events := FeedDown (text_or_empty (fh_reason h)) (fh_age h) t # fs_events s'\<rparr>)
      else if fh_healthy h \<and> fs_suspended s' then
        (h, s'\<lparr>fs_suspended := False, fs_since := None,
               fs_events := FeedUp (fh_age h) (map_option (\<lambda>u. t - u) (fs_since s')) # fs_events s'\<rparr>)
      else (h, s'))"

definition getSuspensionState :: "feed_state \<Rightarrow> bool \<times> string option" where
  "getSuspensionState s = (fs_suspended s, map_option iso_str (fs_since s))"

definition feed_reset :: "feed_state \<Rightarrow> feed_state" where
  "feed_reset s = s\<lparr>fs_suspended := False, fs_since := None, fs_db_age := None, fs_db_at := 0\<rparr>"

section \<open>Ticks\<close>

lemma price_in_Cons: "price_in ((i, q) # m) j = (if i = j then q else price_in m j)"
  by (simp add: price_in_def)

lemma price_in_ok: "price_map_ok m \<Longrightarrow> price_in m i = Some q \<Longrightarrow> is_finite (q_bid q) \<and> is_finite (q_ask q)"
  by (induction m) (auto simp: price_map_ok_def price_in_Cons split: if_splits, auto simp: price_in_def)

lemma nsame_finite: "is_finite x \<Longrightarrow> nsame x y \<longleftrightarrow> x = y"
  by (cases x) (auto simp: nsame_def)

lemma unlisted_same:
  assumes "price_map_ok prev" "distinct (map fst nxt)" "i \<notin> set (diffInstruments prev nxt)" "price_in nxt i = Some q"
  shows "price_in prev i = Some q"
proof -
  have m: "map_of nxt i = Some (Some q)" using assms(4) by (auto simp: price_in_def split: option.splits)
  then have "(i, Some q) \<in> set nxt" by (rule map_of_SomeD)
  then have "\<not> (case price_in prev i of None \<Rightarrow> True | Some b \<Rightarrow> \<not> nsame (q_bid b) (q_bid q) \<or> \<not> nsame (q_ask b) (q_ask q))"
    using assms(3) by (force simp: diffInstruments_def image_iff)
  then obtain b where b: "price_in prev i = Some b" "nsame (q_bid b) (q_bid q)" "nsame (q_ask b) (q_ask q)"
    by (auto split: option.splits)
  then show ?thesis using price_in_ok [OF assms(1) b(1)] by (simp add: nsame_finite)
qed

definition cache_ok :: "price_cache \<Rightarrow> bool" where
  "cache_ok s \<longleftrightarrow> price_map_ok (pc_prices s)"

text \<open>C16. A tick that scans only the instruments reported as changed misses nothing: after any
  sequence of updates, failed and malformed ones included, an instrument the next update does
  not report has the same quote as before it or none at all.\<close>

theorem tick_scan_complete:
  assumes "s = foldl (\<lambda>s u. snd (updatePrices (fst u) (snd u) s)) empty_cache us"
    and "updatePrices (Some nxt) t s = (changed, s')" "distinct (map fst nxt)" "i \<notin> set changed"
  shows "getPrice s' i = getPrice s i \<or> getPrice s' i = None"
proof -
  have "cache_ok (foldl (\<lambda>s u. snd (updatePrices (fst u) (snd u) s)) empty_cache us)"
  proof (induction us rule: rev_induct)
    case Nil
    show ?case by (simp add: cache_ok_def empty_cache_def price_map_ok_def)
  next
    case (snoc u us)
    then show ?case by (auto simp: updatePrices_def cache_ok_def Let_def split: option.split)
  qed
  then have ok: "price_map_ok (pc_prices s)" by (simp add: assms(1) cache_ok_def)
  show ?thesis
  proof (cases "price_map_ok nxt")
    case True
    then have "changed = diffInstruments (pc_prices s) nxt" "pc_prices s' = nxt"
      using assms(2) by (auto simp: updatePrices_def Let_def)
    then show ?thesis
      using unlisted_same [OF ok assms(3)] assms(4) by (auto simp: getPrice_def)
  qed (use assms(2) in \<open>simp add: updatePrices_def\<close>)
qed

definition demo_prices :: price_map where
  "demo_prices = [(''EURUSD'', Some \<lparr>q_bid = Fin 1, q_ask = Fin 2\<rparr>), (''USDJPY'', Some \<lparr>q_bid = Fin 150, q_ask = Fin 151\<rparr>)]"

theorem tick_scan_complete_witness:
  "getPrice (snd (updatePrices (Some demo_prices) 2 (snd (updatePrices (Some demo_prices) 1 empty_cache)))) ''EURUSD'' =
   Some \<lparr>q_bid = Fin 1, q_ask = Fin 2\<rparr>"
proof -
  let ?s = "foldl (\<lambda>s u. snd (updatePrices (fst u) (snd u) s)) empty_cache [(Some demo_prices, 1)]"
  have "updatePrices (Some demo_prices) 2 ?s = ([], snd (updatePrices (Some demo_prices) 2 ?s))" by code_simp
  moreover have "distinct (map fst demo_prices)" by code_simp
  moreover have "''EURUSD'' \<notin> set []" by simp
  ultimately have "getPrice (snd (updatePrices (Some demo_prices) 2 ?s)) ''EURUSD'' = getPrice ?s ''EURUSD'' \<or>
      getPrice (snd (updatePrices (Some demo_prices) 2 ?s)) ''EURUSD'' = None"
    by (rule tick_scan_complete [OF refl])
  moreover have "getPrice ?s ''EURUSD'' = Some \<lparr>q_bid = Fin 1, q_ask = Fin 2\<rparr>" by code_simp
  moreover have "getPrice (snd (updatePrices (Some demo_prices) 2 ?s)) ''EURUSD'' \<noteq> None" by code_simp
  ultimately have "getPrice (snd (updatePrices (Some demo_prices) 2 ?s)) ''EURUSD'' = Some \<lparr>q_bid = Fin 1, q_ask = Fin 2\<rparr>" by metis
  then show ?thesis by simp
qed

section \<open>Pending orders\<close>

text \<open>C17. The check at entry and the trigger agree: for each of the four pending order types, a
  positive price is accepted against a quote exactly when the order would not trigger at
  that quote.\<close>

theorem accepted_iff_not_triggered:
  assumes "orderType \<in> {''buy_limit'', ''sell_limit'', ''buy_stop'', ''sell_stop''}"
    and "nlt (Fin 0) p" "\<not> is_nan bid" "\<not> is_nan ask"
  shows "validatePendingOrderPrice orderType p bid ask = None \<longleftrightarrow>
         \<not> isPendingTriggered orderType (Some p) \<lparr>q_bid = bid, q_ask = ask\<rparr>"
proof -
  have p: "\<not> is_nan p \<and> \<not> nle p (Fin 0)" using assms(2) by (cases p) (auto simp: nle_def)
  show ?thesis
    using assms(1,3,4) p by (auto simp: validatePendingOrderPrice_def isPendingTriggered_def)
qed

theorem accepted_iff_not_triggered_witness:
  "validatePendingOrderPrice ''buy_limit'' (Fin 5) (Fin 6) (Fin 7) = None \<and>
   \<not> isPendingTriggered ''buy_limit'' (Some (Fin 5)) \<lparr>q_bid = Fin 6, q_ask = Fin 7\<rparr>"
proof -
  have "validatePendingOrderPrice ''buy_limit'' (Fin 5) (Fin 6) (Fin 7) = None \<longleftrightarrow>
         \<not> isPendingTriggered ''buy_limit'' (Some (Fin 5)) \<lparr>q_bid = Fin 6, q_ask = Fin 7\<rparr>"
    by (rule accepted_iff_not_triggered) simp_all
  moreover have "validatePendingOrderPrice ''buy_limit'' (Fin 5) (Fin 6) (Fin 7) = None" by code_simp
  ultimately show ?thesis by blast
qed

section \<open>Rates\<close>

definition rate_pairs :: "string list" where
  "rate_pairs = [''USDJPY'', ''USDCHF'', ''USDCAD'', ''GBPUSD'', ''AUDUSD'', ''NZDUSD'', ''EURUSD'']"

lemma currencies_have_sources:
  "list_all (\<lambda>d. quote_currency_of (Some (symbol d)) \<in> set (map fst RATE_SOURCES)) INSTRUMENT_DEFINITIONS"
proof -
  have "list_all (\<lambda>d. (case given (quoteCurrency d) of None \<Rightarrow> ''USD'' | Some q \<Rightarrow> q) \<in> set (map fst RATE_SOURCES))
      INSTRUMENT_DEFINITIONS" by code_simp
  then show ?thesis by (simp add: list_all_iff quote_currency_of_def config_of)
qed

lemma quote_currency_known: "quote_currency_of i \<in> set (map fst RATE_SOURCES)"
proof (cases "getInstrumentConfig i")
  case None
  then show ?thesis by (simp add: quote_currency_of_def RATE_SOURCES_def)
next
  case (Some d)
  then have d: "d \<in> set INSTRUMENT_DEFINITIONS"
    by (auto simp: getInstrumentConfig_def INSTRUMENT_CATALOG_def table_of_def dest!: map_of_SomeD)
  then have "quote_currency_of (Some (symbol d)) = quote_currency_of i"
    using Some by (simp add: quote_currency_of_def config_of)
  moreover have "quote_currency_of (Some (symbol d)) \<in> set (map fst RATE_SOURCES)"
    using d currencies_have_sources unfolding list_all_iff by blast
  ultimately show ?thesis by (simp only:)
qed

lemma sane_rate: "1 / 10 ^ 6 \<le> b \<Longrightarrow> b \<le> 10 ^ 6 \<Longrightarrow> \<exists>r. inverted f (Fin b) = Fin r \<and> 0 < r"
proof (cases f)
  case True
  assume b: "1 / 10 ^ 6 \<le> b" "b \<le> 10 ^ 6"
  then have b0: "0 < b" by (simp add: less_le_trans [of 0 "1 / 1000000"])
  have "1 / b \<le> 10 ^ 6" "1 / 10 ^ 6 \<le> 1 / b" using b b0 by (simp_all add: field_simps)
  then have "mk (1 / b) = Fin (fl (1 / b))" "fl (1 / 10 ^ 6) \<le> fl (1 / b)"
    using b0 by (auto intro!: mk_small fl_mono)
  moreover have "0 < fl (1 / 10 ^ 6)" by code_simp
  ultimately show ?thesis using True b0 by (auto simp: inverted_def)
next
  case False
  assume "1 / 10 ^ 6 \<le> b"
  moreover have "(0::rat) < 1 / 10 ^ 6" by simp
  ultimately show ?thesis using False by (auto simp: inverted_def)
qed


definition demo_rates :: price_cache where
  "demo_rates = \<lparr>pc_prices = map (\<lambda>p. (p, Some \<lparr>q_bid = Fin 2, q_ask = Fin 3\<rparr>)) rate_pairs, pc_updated_at = 1, pc_changed = []\<rparr>"

definition fx_env :: env where
  "fx_env k = (if k = ''FX_CONVERSION_ENABLED'' then Some '' TRUE'' else None)"


section \<open>The circuit breaker\<close>

definition feed_init :: feed_state where
  "feed_init = \<lparr>fs_db_age = None, fs_db_at = 0, fs_suspended = False, fs_since = None, fs_events = []\<rparr>"

type_synonym feed_check = "price_cache \<times> (unit + int option) \<times> int"

definition feed_run :: "feed_check list \<Rightarrow> feed_state" where
  "feed_run cs = foldl (\<lambda>s (pc, newest, t). snd (checkFeedHealthWithAlerting pc newest t s)) feed_init cs"

lemma feed_run_snoc: "feed_run (cs @ [(pc, n, t)]) = snd (checkFeedHealthWithAlerting pc n t (feed_run cs))"
  by (simp add: feed_run_def)

fun is_down :: "feed_event \<Rightarrow> bool" where
  "is_down (FeedDown _ _ _) = True"
| "is_down (FeedUp _ _) = False"

text \<open>Newest first: every alarm follows a recovery or starts the log, every recovery follows an alarm.\<close>

fun alternates :: "feed_event list \<Rightarrow> bool" where
  "alternates [] = True"
| "alternates [e] = is_down e"
| "alternates (e # f # es) = (is_down e \<noteq> is_down f \<and> alternates (f # es))"

definition down_now :: "feed_event list \<Rightarrow> bool" where
  "down_now es = (case es of [] \<Rightarrow> False | e # _ \<Rightarrow> is_down e)"

lemma alternates_Cons: "alternates (e # es) \<longleftrightarrow> is_down e \<noteq> down_now es \<and> alternates es"
  by (cases es) (auto simp: down_now_def)

lemma getFeedAge_frame:
  "getFeedAgeMs pc n t s = (a, s') \<Longrightarrow> fs_suspended s' = fs_suspended s \<and> fs_events s' = fs_events s \<and> fs_since s' = fs_since s"
  by (auto simp: getFeedAgeMs_def Let_def split: if_splits)

lemma checkFeed_frame:
  "checkFeedHealth pc n t s = (h, s') \<Longrightarrow> fs_suspended s' = fs_suspended s \<and> fs_events s' = fs_events s \<and> fs_since s' = fs_since s"
  by (cases "getFeedAgeMs pc n t s") (auto simp: checkFeedHealth_def dest!: getFeedAge_frame split: option.splits if_splits)

text \<open>Alarms are edge-triggered: whatever the sequence of checks, the announcements alternate
  between suspension and recovery starting with a suspension, and enforcement is suspended
  exactly while the latest announcement is a suspension, with a start time while it is.\<close>

lemma alarms_alternate:
  "alternates (fs_events (feed_run cs)) \<and> fs_suspended (feed_run cs) = down_now (fs_events (feed_run cs)) \<and>
   fs_suspended (feed_run cs) = (fs_since (feed_run cs) \<noteq> None)"
proof (induction cs rule: rev_induct)
  case Nil
  show ?case by (simp add: feed_run_def feed_init_def down_now_def)
next
  case (snoc c cs)
  obtain pc n t where c: "c = (pc, n, t)" by (cases c)
  obtain h s' where h: "checkFeedHealth pc n t (feed_run cs) = (h, s')" by fastforce
  note f = checkFeed_frame [OF h]
  show ?case
    using snoc f unfolding c feed_run_snoc
    by (auto simp: checkFeedHealthWithAlerting_def h alternates_Cons) (auto simp: down_now_def)
qed

definition age_in :: "unit + int option \<Rightarrow> int \<Rightarrow> int option" where
  "age_in n t = (case n of Inr (Some m) \<Rightarrow> Some (t - m) | _ \<Rightarrow> None)"

definition memo_of :: "feed_check list \<Rightarrow> int \<Rightarrow> int option \<Rightarrow> bool" where
  "memo_of cs t age \<longleftrightarrow> t = 0 \<or> (\<exists>pc n. (pc, n, t) \<in> set cs \<and> age = age_in n t)"

lemma memo_check:
  assumes a: "getFeedAgeMs pc n t s = (a, s')" and m: "memo_of cs (fs_db_at s) (fs_db_age s)"
  shows "memo_of (cs @ [(pc, n, t)]) (fs_db_at s') (fs_db_age s')"
proof -
  have "s' = s \<or> fs_db_at s' = t \<and> fs_db_age s' = age_in n t"
    using a by (auto simp: getFeedAgeMs_def Let_def age_in_def split: if_splits)
  then show ?thesis using m by (auto simp: memo_of_def)
qed

lemma check_memo:
  "fs_db_at (snd (checkFeedHealthWithAlerting pc n t s)) = fs_db_at (snd (getFeedAgeMs pc n t s)) \<and>
   fs_db_age (snd (checkFeedHealthWithAlerting pc n t s)) = fs_db_age (snd (getFeedAgeMs pc n t s))"
  by (simp add: checkFeedHealthWithAlerting_def checkFeedHealth_def split: prod.split)

lemma memo_run: "memo_of cs (fs_db_at (feed_run cs)) (fs_db_age (feed_run cs))"
proof (induction cs rule: rev_induct)
  case Nil
  show ?case by (simp add: feed_run_def feed_init_def memo_of_def)
next
  case (snoc c cs)
  obtain pc n t where c: "c = (pc, n, t)" by (cases c)
  show ?case
    unfolding c feed_run_snoc using memo_check [OF _ snoc, of pc n t] by (simp add: check_memo prod_eq_iff)
qed



end
