(* ===== verification/TradeIndex.thy ===== *)
theory TradeIndex
  imports JsMap Pricing
begin

text \<open>
  utils/tradeIndex.ts: the in-memory index of open trades, pending orders and active accounts that a
  price tick scans, and the functions of services/tradeEngine.ts that keep it in step. The field of
  a trade entry that changes with every tick, its last contribution to the account's floating
  total, is held in a store addressed by the identity of the entry, since two maps share the
  object; of the other fields only the recorded trigger changes after the entry is built, in both maps (set_trigger of EngineTick). Clock and database answers are arguments.
\<close>

section \<open>State\<close>

record trade_row =
  tr_id :: string
  tr_account :: string
  tr_instrument :: string
  tr_direction :: string
  tr_lots :: jsval
  tr_open :: jsval
  tr_sl :: jsval
  tr_tp :: jsval
  tr_commission :: jsval
  tr_open_time :: "int option"
  tr_pending_close :: jsval
  tr_pending_reason :: "string option"

record pending_row =
  pr_id :: string
  pr_account :: string
  pr_instrument :: string
  pr_direction :: string
  pr_type :: string
  pr_price :: jsval
  pr_lots :: jsval
  pr_oco :: "string option"

record index_row =
  ir_id :: string
  ir_user :: "string option"
  ir_status :: "string option"
  ir_type :: string
  ir_slug :: "string option"
  ir_balance :: jsval
  ir_starting :: jsval
  ir_peak :: jsval
  ir_size :: jsval
  ir_target :: jsval
  ir_scaling :: jsval
  ir_phase_end :: "int option"
  ir_eod_peak :: jsval
  ir_eod_floor :: jsval
  ir_max_dd :: jsval
  ir_daily_dd :: jsval

record trade_entry =
  te_id :: string
  te_account :: string
  te_instrument :: string
  te_sign :: direction_sign
  te_direction :: string
  te_open :: num
  te_lots :: num
  te_commission :: num
  te_sl :: "num option"
  te_tp :: "num option"
  te_pending_close :: "num option"
  te_pending_reason :: "string option"
  te_open_ms :: int
  te_contract :: num
  te_ref :: nat
  te_gen :: nat

record pending_entry =
  pe_id :: string
  pe_account :: string
  pe_instrument :: string
  pe_direction :: string
  pe_type :: string
  pe_trigger :: "num option"
  pe_lots :: num
  pe_oco :: "string option"
  pe_gen :: nat

record account_entry =
  ae_id :: string
  ae_user :: "string option"
  ae_status :: "string option"
  ae_type :: string
  ae_slug :: "string option"
  ae_balance :: num
  ae_starting :: num
  ae_peak :: num
  ae_size :: num
  ae_target :: num
  ae_scaling :: num
  ae_phase_end :: "int option"
  ae_eod_peak :: "num option"
  ae_eod_floor :: "num option"
  ae_max_dd :: "num option"
  ae_daily_dd :: "num option"
  ae_locks_at :: "num option"
  ae_today :: num
  ae_day_key :: int
  ae_floating :: num
  ae_trades :: "string list"
  ae_pending :: "string list"
  ae_gen :: nat

record dd_settings =
  ds_max :: "num option"
  ds_daily :: "num option"
  ds_locks :: "num option"

record trade_index =
  ix_by_instrument :: "trade_entry jsmap jsmap"
  ix_by_id :: "trade_entry jsmap"
  ix_accounts :: "account_entry jsmap"
  ix_pending_by_instrument :: "pending_entry jsmap jsmap"
  ix_pending :: "pending_entry jsmap"
  ix_models :: "dd_settings option jsmap"
  ix_last :: "nat \<Rightarrow> num"
  ix_refs :: nat
  ix_generation :: nat
  ix_reconciled_at :: int
  ix_ready :: bool

record funded_model =
  fm_max :: jsval
  fm_daily :: jsval
  fm_locks :: jsval

section \<open>Entries\<close>

definition idx_toNum :: "jsval \<Rightarrow> num option \<Rightarrow> num option" where
  "idx_toNum v fallback =
     (if nullish v then fallback
      else let n = parse_float v in if is_finite n then Some n else fallback)"

text \<open>\<open>toNum\<close> with a Number as the fallback.\<close>

definition idx_num :: "num \<Rightarrow> jsval \<Rightarrow> num" where
  "idx_num d v = (case idx_toNum v (Some d) of None \<Rightarrow> d | Some n \<Rightarrow> n)"

definition dayKey :: "int \<Rightarrow> int" where
  "dayKey t = day_of t * ms_per_day"

definition buildTradeEntry :: "int \<Rightarrow> trade_index \<Rightarrow> trade_row \<Rightarrow> trade_entry" where
  "buildTradeEntry t ix row =
     \<lparr>te_id = tr_id row, te_account = tr_account row, te_instrument = tr_instrument row,
      te_sign = directionSign (tr_direction row), te_direction = tr_direction row,
      te_open = idx_num (Fin 0) (tr_open row), te_lots = idx_num (Fin 0) (tr_lots row),
      te_commission = idx_num (Fin 0) (tr_commission row),
      te_sl = idx_toNum (tr_sl row) None, te_tp = idx_toNum (tr_tp row) None,
      te_pending_close = idx_toNum (tr_pending_close row) None, te_pending_reason = given (tr_pending_reason row),
      te_open_ms = (case tr_open_time row of None \<Rightarrow> t | Some x \<Rightarrow> x),
      te_contract = contractSizeFor (tr_instrument row), te_ref = ix_refs ix, te_gen = ix_generation ix\<rparr>"

definition buildPendingEntry :: "trade_index \<Rightarrow> pending_row \<Rightarrow> pending_entry" where
  "buildPendingEntry ix row =
     \<lparr>pe_id = pr_id row, pe_account = pr_account row, pe_instrument = pr_instrument row,
      pe_direction = pr_direction row, pe_type = pr_type row, pe_trigger = idx_toNum (pr_price row) None,
      pe_lots = idx_num (Fin 0) (pr_lots row), pe_oco = given (pr_oco row), pe_gen = ix_generation ix\<rparr>"

definition buildAccountEntry :: "int \<Rightarrow> trade_index \<Rightarrow> index_row \<Rightarrow> account_entry" where
  "buildAccountEntry t ix row =
     (let existing = jm_get (ix_accounts ix) (ir_id row)
      in \<lparr>ae_id = ir_id row, ae_user = ir_user row, ae_status = ir_status row, ae_type = ir_type row,
          ae_slug = given (ir_slug row),
          ae_balance = idx_num (Fin 0) (ir_balance row), ae_starting = idx_num (Fin 0) (ir_starting row),
          ae_peak = idx_num (Fin 0) (ir_peak row), ae_size = idx_num (Fin 0) (ir_size row),
          ae_target = idx_num (Fin 0) (ir_target row), ae_scaling = idx_num (Fin 1) (ir_scaling row),
          ae_phase_end = ir_phase_end row,
          ae_eod_peak = idx_toNum (ir_eod_peak row) None, ae_eod_floor = idx_toNum (ir_eod_floor row) None,
          ae_max_dd = idx_toNum (ir_max_dd row) None, ae_daily_dd = idx_toNum (ir_daily_dd row) None,
          ae_locks_at = None,
          ae_today = (case existing of None \<Rightarrow> Fin 0 | Some e \<Rightarrow> ae_today e),
          ae_day_key = (case existing of None \<Rightarrow> dayKey t | Some e \<Rightarrow> ae_day_key e),
          ae_floating = (case existing of None \<Rightarrow> Fin 0 | Some e \<Rightarrow> ae_floating e),
          ae_trades = (case existing of None \<Rightarrow> [] | Some e \<Rightarrow> ae_trades e),
          ae_pending = (case existing of None \<Rightarrow> [] | Some e \<Rightarrow> ae_pending e),
          ae_gen = ix_generation ix\<rparr>)"

section \<open>Mutations\<close>

definition upd_account :: "string \<Rightarrow> (account_entry \<Rightarrow> account_entry) \<Rightarrow> trade_index \<Rightarrow> trade_index" where
  "upd_account i f ix = ix\<lparr>ix_accounts := jm_upd i f (ix_accounts ix)\<rparr>"

definition upsertAccount :: "int \<Rightarrow> index_row \<Rightarrow> trade_index \<Rightarrow> account_entry option \<times> trade_index" where
  "upsertAccount t row ix =
     (if ir_id row = [] then (None, ix)
      else let e = buildAccountEntry t ix row in (Some e, ix\<lparr>ix_accounts := jm_set (ae_id e) e (ix_accounts ix)\<rparr>))"

text \<open>\<open>lookup\<close> is fetchStepModelBySlug, Inl when it throws.\<close>

definition model_settings :: "unit + funded_model option \<Rightarrow> dd_settings option" where
  "model_settings r =
     (case r of
        Inr (Some m) \<Rightarrow> Some \<lparr>ds_max = idx_toNum (fm_max m) None, ds_daily = idx_toNum (fm_daily m) None, ds_locks = idx_toNum (fm_locks m) None\<rparr>
      | _ \<Rightarrow> None)"

definition bake_settings :: "dd_settings option \<Rightarrow> account_entry \<Rightarrow> account_entry" where
  "bake_settings settings e =
     (case settings of
        None \<Rightarrow> e
      | Some s \<Rightarrow> if (case ds_max s of None \<Rightarrow> False | Some m \<Rightarrow> is_finite m)
                then e\<lparr>ae_max_dd := ds_max s, ae_daily_dd := ds_daily s, ae_locks_at := ds_locks s\<rparr> else e)"

definition resolveDrawdownSettings :: "(string \<Rightarrow> unit + funded_model option) \<Rightarrow> account_entry \<Rightarrow> trade_index \<Rightarrow> trade_index" where
  "resolveDrawdownSettings lookup entry ix =
     (case ae_slug entry of
        None \<Rightarrow> ix
      | Some slug \<Rightarrow>
          if ae_type entry \<noteq> ''funded'' then ix
          else case jm_get (ix_models ix) slug of
                 Some settings \<Rightarrow> upd_account (ae_id entry) (bake_settings settings) ix
               | None \<Rightarrow>
                   (let settings = model_settings (lookup slug) in
                    upd_account (ae_id entry) (bake_settings settings)
                      (ix\<lparr>ix_models := jm_set slug settings (ix_models ix)\<rparr>)))"

definition bucket_of :: "'e jsmap jsmap \<Rightarrow> string \<Rightarrow> 'e jsmap" where
  "bucket_of m i = (case jm_get m i of None \<Rightarrow> [] | Some b \<Rightarrow> b)"

text \<open>Removing from a bucket that exists, and dropping the bucket when it becomes empty.\<close>

definition bucket_del :: "string \<Rightarrow> string \<Rightarrow> 'e jsmap jsmap \<Rightarrow> 'e jsmap jsmap" where
  "bucket_del i k m = jm_upd i (jm_del k) m"

definition bucket_drop :: "string \<Rightarrow> string \<Rightarrow> 'e jsmap jsmap \<Rightarrow> 'e jsmap jsmap" where
  "bucket_drop i k m =
     (case jm_get m i of
        None \<Rightarrow> m
      | Some b \<Rightarrow> if jm_del k b = [] then jm_del i m else jm_set i (jm_del k b) m)"

definition addTrade :: "int \<Rightarrow> trade_row option \<Rightarrow> index_row option \<Rightarrow> trade_index \<Rightarrow> trade_entry option \<times> trade_index" where
  "addTrade t row accountRow ix =
     (case row of
        None \<Rightarrow> (None, ix)
      | Some r \<Rightarrow>
          if tr_id r = [] \<or> tr_instrument r = [] then (None, ix)
          else
            (let ix1 = (case accountRow of None \<Rightarrow> ix | Some a \<Rightarrow> snd (upsertAccount t a ix));
                 entry = buildTradeEntry t ix1 r;
                 ix2 = ix1\<lparr>ix_refs := Suc (ix_refs ix1), ix_last := (ix_last ix1)(te_ref entry := Fin 0)\<rparr>;
                 ix3 = (case jm_get (ix_by_id ix2) (te_id entry) of
                          None \<Rightarrow> ix2
                        | Some previous \<Rightarrow>
                            (let ix' = (if te_instrument previous \<noteq> te_instrument entry
                                        then ix2\<lparr>ix_by_instrument := bucket_del (te_instrument previous) (te_id previous) (ix_by_instrument ix2)\<rparr>
                                        else ix2)
                             in upd_account (te_account previous)
                                  (\<lambda>a. a\<lparr>ae_floating := nsub (ae_floating a) (ix_last ix' (te_ref previous))\<rparr>) ix'));
                 ix4 = ix3\<lparr>ix_by_id := jm_set (te_id entry) entry (ix_by_id ix3),
                           ix_by_instrument := jm_set (te_instrument entry)
                             (jm_set (te_id entry) entry (bucket_of (ix_by_instrument ix3) (te_instrument entry))) (ix_by_instrument ix3)\<rparr>
             in (Some entry, upd_account (te_account entry) (\<lambda>a. a\<lparr>ae_trades := js_add (te_id entry) (ae_trades a)\<rparr>) ix4)))"

definition removeTrade :: "string \<Rightarrow> trade_index \<Rightarrow> bool \<times> trade_index" where
  "removeTrade tradeId ix =
     (case jm_get (ix_by_id ix) tradeId of
        None \<Rightarrow> (False, ix)
      | Some entry \<Rightarrow>
          (let ix1 = ix\<lparr>ix_by_id := jm_del tradeId (ix_by_id ix),
                        ix_by_instrument := bucket_drop (te_instrument entry) tradeId (ix_by_instrument ix)\<rparr>
           in (True,
               case jm_get (ix_accounts ix1) (te_account entry) of
                 None \<Rightarrow> ix1
               | Some _ \<Rightarrow>
                   (upd_account (te_account entry)
                      (\<lambda>a. a\<lparr>ae_trades := js_remove tradeId (ae_trades a), ae_floating := nsub (ae_floating a) (ix_last ix1 (te_ref entry))\<rparr>) ix1)
                   \<lparr>ix_last := (ix_last ix1)(te_ref entry := Fin 0)\<rparr>)))"

definition applyTradePnl :: "trade_entry option \<Rightarrow> num \<Rightarrow> trade_index \<Rightarrow> trade_index" where
  "applyTradePnl entry pnl ix =
     (case entry of
        None \<Rightarrow> ix
      | Some e \<Rightarrow>
          (upd_account (te_account e) (\<lambda>a. a\<lparr>ae_floating := nadd (ae_floating a) (nsub pnl (ix_last ix (te_ref e)))\<rparr>) ix)
          \<lparr>ix_last := (ix_last ix)(te_ref e := pnl)\<rparr>)"

definition resetFloatingPnl :: "trade_index \<Rightarrow> trade_index" where
  "resetFloatingPnl ix =
     ix\<lparr>ix_accounts := map (\<lambda>(k, a). (k, a\<lparr>ae_floating := Fin 0\<rparr>)) (ix_accounts ix),
        ix_last := fold (\<lambda>e l. l(te_ref e := Fin 0)) (jm_values (ix_by_id ix)) (ix_last ix)\<rparr>"

definition getFloatingPnl :: "trade_index \<Rightarrow> string \<Rightarrow> num" where
  "getFloatingPnl ix i = (case jm_get (ix_accounts ix) i of None \<Rightarrow> Fin 0 | Some a \<Rightarrow> ae_floating a)"

definition addPending :: "int \<Rightarrow> pending_row option \<Rightarrow> index_row option \<Rightarrow> trade_index \<Rightarrow> pending_entry option \<times> trade_index" where
  "addPending t row accountRow ix =
     (case row of
        None \<Rightarrow> (None, ix)
      | Some r \<Rightarrow>
          if pr_id r = [] \<or> pr_instrument r = [] then (None, ix)
          else
            (let ix1 = (case accountRow of None \<Rightarrow> ix | Some a \<Rightarrow> snd (upsertAccount t a ix));
                 entry = buildPendingEntry ix1 r;
                 ix2 = (case jm_get (ix_pending ix1) (pe_id entry) of
                          None \<Rightarrow> ix1
                        | Some previous \<Rightarrow>
                            if pe_instrument previous \<noteq> pe_instrument entry
                            then ix1\<lparr>ix_pending_by_instrument := bucket_del (pe_instrument previous) (pe_id previous) (ix_pending_by_instrument ix1)\<rparr>
                            else ix1);
                 ix3 = ix2\<lparr>ix_pending := jm_set (pe_id entry) entry (ix_pending ix2),
                           ix_pending_by_instrument := jm_set (pe_instrument entry)
                             (jm_set (pe_id entry) entry (bucket_of (ix_pending_by_instrument ix2) (pe_instrument entry))) (ix_pending_by_instrument ix2)\<rparr>
             in (Some entry, upd_account (pe_account entry) (\<lambda>a. a\<lparr>ae_pending := js_add (pe_id entry) (ae_pending a)\<rparr>) ix3)))"

definition removePending :: "string \<Rightarrow> trade_index \<Rightarrow> bool \<times> trade_index" where
  "removePending orderId ix =
     (case jm_get (ix_pending ix) orderId of
        None \<Rightarrow> (False, ix)
      | Some entry \<Rightarrow>
          (True,
           upd_account (pe_account entry) (\<lambda>a. a\<lparr>ae_pending := js_remove orderId (ae_pending a)\<rparr>)
             (ix\<lparr>ix_pending := jm_del orderId (ix_pending ix),
                 ix_pending_by_instrument := bucket_drop (pe_instrument entry) orderId (ix_pending_by_instrument ix)\<rparr>)))"

definition removeAccount :: "string \<Rightarrow> trade_index \<Rightarrow> bool \<times> trade_index" where
  "removeAccount accountId ix =
     (case jm_get (ix_accounts ix) accountId of
        None \<Rightarrow> (False, ix)
      | Some account \<Rightarrow>
          (let ix1 = fold (\<lambda>i x. snd (removeTrade i x)) (ae_trades account) ix;
               ix2 = fold (\<lambda>i x. snd (removePending i x)) (ae_pending account) ix1
           in (True, ix2\<lparr>ix_accounts := jm_del accountId (ix_accounts ix2)\<rparr>)))"

text \<open>\<open>row\<close> is the answer of the accounts query, None when there is no such active account.\<close>

definition ensureAccountLoaded ::
  "int \<Rightarrow> (string \<Rightarrow> unit + funded_model option) \<Rightarrow> index_row option \<Rightarrow> string \<Rightarrow> trade_index \<Rightarrow> account_entry option \<times> trade_index" where
  "ensureAccountLoaded t lookup row accountId ix =
     (case jm_get (ix_accounts ix) accountId of
        Some existing \<Rightarrow> (Some existing, ix)
      | None \<Rightarrow>
          (case row of
             None \<Rightarrow> (None, ix)
           | Some r \<Rightarrow>
               (case upsertAccount t r ix of
                  (None, ix1) \<Rightarrow> (None, ix1)
                | (Some entry, ix1) \<Rightarrow>
                    (let ix2 = resolveDrawdownSettings lookup entry ix1 in (jm_get (ix_accounts ix2) (ae_id entry), ix2)))))"

definition updateAccountBalance :: "string \<Rightarrow> jsval \<Rightarrow> trade_index \<Rightarrow> trade_index" where
  "updateAccountBalance accountId newBalance ix =
     upd_account accountId (\<lambda>a. let b = idx_num (ae_balance a) newBalance in
       a\<lparr>ae_balance := b, ae_peak := (if nlt (ae_peak a) b then b else ae_peak a)\<rparr>) ix"

definition applyRealizedPnl :: "int \<Rightarrow> string \<Rightarrow> jsval \<Rightarrow> trade_index \<Rightarrow> trade_index" where
  "applyRealizedPnl t accountId pnl ix =
     upd_account accountId (\<lambda>a.
       let today = dayKey t; base = (if ae_day_key a \<noteq> today then Fin 0 else ae_today a)
       in a\<lparr>ae_day_key := today, ae_today := nadd base (idx_num (Fin 0) pnl)\<rparr>) ix"

definition getTodayRealizedPnl :: "int \<Rightarrow> trade_index \<Rightarrow> string \<Rightarrow> num" where
  "getTodayRealizedPnl t ix accountId =
     (case jm_get (ix_accounts ix) accountId of
        None \<Rightarrow> Fin 0
      | Some a \<Rightarrow> if ae_day_key a = dayKey t then ae_today a else Fin 0)"

definition raise_opt :: "num option \<Rightarrow> num option \<Rightarrow> num option" where
  "raise_opt v old =
     (case v of None \<Rightarrow> old
      | Some p \<Rightarrow> (case old of None \<Rightarrow> Some p | Some q \<Rightarrow> if nlt q p then Some p else Some q))"

definition setPeakEquity :: "string \<Rightarrow> num option \<Rightarrow> num option \<Rightarrow> trade_index \<Rightarrow> trade_index" where
  "setPeakEquity accountId peak lockedFloor ix =
     upd_account accountId (\<lambda>a. a\<lparr>ae_eod_peak := raise_opt peak (ae_eod_peak a), ae_eod_floor := raise_opt lockedFloor (ae_eod_floor a)\<rparr>) ix"

section \<open>Reads\<close>

definition getTradesByInstrument :: "trade_index \<Rightarrow> string \<Rightarrow> trade_entry jsmap" where
  "getTradesByInstrument ix i = bucket_of (ix_by_instrument ix) i"

definition getPendingByInstrument :: "trade_index \<Rightarrow> string \<Rightarrow> pending_entry jsmap" where
  "getPendingByInstrument ix i = bucket_of (ix_pending_by_instrument ix) i"

definition getTrade :: "trade_index \<Rightarrow> string \<Rightarrow> trade_entry option" where
  "getTrade ix i = jm_get (ix_by_id ix) i"

definition getAccountEntry :: "trade_index \<Rightarrow> string \<Rightarrow> account_entry option" where
  "getAccountEntry ix i = jm_get (ix_accounts ix) i"

definition getTradeCount :: "trade_index \<Rightarrow> nat" where
  "getTradeCount ix = length (ix_by_id ix)"

definition getPendingCount :: "trade_index \<Rightarrow> nat" where
  "getPendingCount ix = length (ix_pending ix)"

definition getAccountCount :: "trade_index \<Rightarrow> nat" where
  "getAccountCount ix = length (ix_accounts ix)"

definition index_reset :: "trade_index" where
  "index_reset =
     \<lparr>ix_by_instrument = [], ix_by_id = [], ix_accounts = [], ix_pending_by_instrument = [], ix_pending = [],
      ix_models = [], ix_last = (\<lambda>_. Fin 0), ix_refs = 0, ix_generation = 0, ix_reconciled_at = 0, ix_ready = False\<rparr>"

definition invalidateFundedModelCache :: "string option \<Rightarrow> trade_index \<Rightarrow> trade_index" where
  "invalidateFundedModelCache slug ix =
     (case given slug of
        Some s \<Rightarrow> ix\<lparr>ix_models := jm_del s (ix_models ix)\<rparr>
      | None \<Rightarrow> ix\<lparr>ix_models := []\<rparr>)"

section \<open>Reconciliation\<close>

record reconcile_summary =
  rc_trades :: nat
  rc_pending :: nat
  rc_accounts :: nat
  rc_drift :: nat

text \<open>The answers of the database, each an error or its rows; the realised totals are asked for by account.\<close>

record db_answers =
  dba_accounts :: "string + index_row list"
  dba_trades :: "string + trade_row list"
  dba_pending :: "string + pending_row list"
  dba_realized :: "string list \<Rightarrow> string + num jsmap"

fun load_accounts :: "int \<Rightarrow> index_row list \<Rightarrow> nat \<Rightarrow> trade_index \<Rightarrow> nat \<times> trade_index" where
  "load_accounts t [] drift ix = (drift, ix)"
| "load_accounts t (r # rs) drift ix =
     (let existed = (jm_get (ix_accounts ix) (ir_id r) \<noteq> None) in
      case upsertAccount t r ix of
        (None, ix1) \<Rightarrow> load_accounts t rs drift ix1
      | (Some e, ix1) \<Rightarrow> load_accounts t rs (if existed then drift else Suc drift) ix1)"

definition resolve_accounts :: "(string \<Rightarrow> unit + funded_model option) \<Rightarrow> index_row list \<Rightarrow> trade_index \<Rightarrow> trade_index" where
  "resolve_accounts lookup rows ix =
     fold (\<lambda>r x. case jm_get (ix_accounts x) (ir_id r) of None \<Rightarrow> x | Some e \<Rightarrow> resolveDrawdownSettings lookup e x) rows ix"

definition clear_sets :: "trade_index \<Rightarrow> trade_index" where
  "clear_sets ix =
     ix\<lparr>ix_accounts := map (\<lambda>(k, a). (k, if ae_gen a \<noteq> ix_generation ix then a else a\<lparr>ae_trades := [], ae_pending := []\<rparr>)) (ix_accounts ix)\<rparr>"

fun load_trades :: "int \<Rightarrow> trade_row list \<Rightarrow> nat \<Rightarrow> trade_index \<Rightarrow> nat \<times> trade_index" where
  "load_trades t [] drift ix = (drift, ix)"
| "load_trades t (r # rs) drift ix =
     load_trades t rs (if jm_get (ix_by_id ix) (tr_id r) = None then Suc drift else drift) (snd (addTrade t (Some r) None ix))"

fun load_pending :: "int \<Rightarrow> pending_row list \<Rightarrow> nat \<Rightarrow> trade_index \<Rightarrow> nat \<times> trade_index" where
  "load_pending t [] drift ix = (drift, ix)"
| "load_pending t (r # rs) drift ix =
     load_pending t rs (if jm_get (ix_pending ix) (pr_id r) = None then Suc drift else drift) (snd (addPending t (Some r) None ix))"

definition needs_realized :: "int \<Rightarrow> trade_index \<Rightarrow> string list" where
  "needs_realized t ix =
     map ae_id (filter (\<lambda>a. ae_gen a = ix_generation ix \<and> (ae_day_key a \<noteq> dayKey t \<or> ae_today a = Fin 0)) (jm_values (ix_accounts ix)))"

definition seed_realized :: "int \<Rightarrow> num jsmap \<Rightarrow> string list \<Rightarrow> trade_index \<Rightarrow> trade_index" where
  "seed_realized t realized is ix =
     fold (\<lambda>i x. upd_account i (\<lambda>a. a\<lparr>
        ae_today := (case jm_get realized i of None \<Rightarrow> Fin 0 | Some v \<Rightarrow> if truthy (JNum v) then v else Fin 0),
        ae_day_key := dayKey t\<rparr>) x) is ix"

fun evict :: "('e \<Rightarrow> bool) \<Rightarrow> (string \<Rightarrow> trade_index \<Rightarrow> trade_index) \<Rightarrow> 'e jsmap \<Rightarrow> nat \<Rightarrow> trade_index \<Rightarrow> nat \<times> trade_index" where
  "evict stale remove [] drift ix = (drift, ix)"
| "evict stale remove ((k, e) # es) drift ix =
     (if stale e then evict stale remove es (Suc drift) (remove k ix) else evict stale remove es drift ix)"

definition evict_stale :: "nat \<Rightarrow> trade_index \<Rightarrow> nat \<times> trade_index" where
  "evict_stale drift ix =
     (let g = ix_generation ix;
          (d1, x1) = evict (\<lambda>e. te_gen e \<noteq> g) (\<lambda>i x. snd (removeTrade i x)) (ix_by_id ix) drift ix;
          (d2, x2) = evict (\<lambda>e. pe_gen e \<noteq> g) (\<lambda>i x. snd (removePending i x)) (ix_pending x1) d1 x1
      in evict (\<lambda>e. ae_gen e \<noteq> g) (\<lambda>i x. snd (removeAccount i x)) (ix_accounts x2) d2 x2)"

text \<open>
  A query that fails ends the pass with what was done so far. The realised totals are asked for
  only when an account needs them.
\<close>

definition fullReconcileFromDB ::
  "int \<Rightarrow> (string \<Rightarrow> unit + funded_model option) \<Rightarrow> db_answers \<Rightarrow> trade_index \<Rightarrow> (string + reconcile_summary) \<times> trade_index" where
  "fullReconcileFromDB t lookup db ix0 =
     (let ix = ix0\<lparr>ix_generation := Suc (ix_generation ix0)\<rparr> in
      case dba_accounts db of
        Inl e \<Rightarrow> (Inl e, ix)
      | Inr arows \<Rightarrow>
     (let (d1, x1) = load_accounts t arows 0 ix; x2 = resolve_accounts lookup arows x1 in
      case dba_trades db of
        Inl e \<Rightarrow> (Inl e, x2)
      | Inr trows \<Rightarrow>
     (let (d2, x3) = load_trades t trows d1 (clear_sets x2) in
      case dba_pending db of
        Inl e \<Rightarrow> (Inl e, x3)
      | Inr prows \<Rightarrow>
     (let (d3, x4) = load_pending t prows d2 x3; needs = needs_realized t x4 in
      case (if needs = [] then Inr [] else dba_realized db needs) of
        Inl e \<Rightarrow> (Inl e, x4)
      | Inr realized \<Rightarrow>
     (let (d4, x5) = evict_stale d3 (seed_realized t realized needs x4);
          x6 = x5\<lparr>ix_reconciled_at := t, ix_ready := True\<rparr>
      in (Inr \<lparr>rc_trades = getTradeCount x6, rc_pending = getPendingCount x6, rc_accounts = getAccountCount x6, rc_drift = d4\<rparr>, x6))))))"

section \<open>Keeping the index in step\<close>

text \<open>services/tradeEngine.ts: valuing a trade at the current quote.\<close>

definition value_at :: "trade_entry \<Rightarrow> quote \<Rightarrow> num \<Rightarrow> num" where
  "value_at e q usdRate =
     fastPnL (te_sign e) (te_open e) (closePriceFor (te_sign e) q) (te_lots e) (te_contract e) (te_commission e) usdRate"

definition addOpenTradeToIndex ::
  "env \<Rightarrow> price_cache \<Rightarrow> int \<Rightarrow> trade_row option \<Rightarrow> index_row option \<Rightarrow> trade_index \<Rightarrow> trade_entry option \<times> trade_index" where
  "addOpenTradeToIndex env pc t row accountRow ix =
     (case addTrade t row accountRow ix of
        (None, x) \<Rightarrow> (None, x)
      | (Some entry, x) \<Rightarrow>
          (case getPrice pc (te_instrument entry) of
             None \<Rightarrow> (Some entry, x)
           | Some price \<Rightarrow>
               (case getUsdRateForInstrument env pc (Some (te_instrument entry)) of
                  Inl e \<Rightarrow> (Some entry, x)
                | Inr usdRate \<Rightarrow> (Some entry, applyTradePnl (Some entry) (value_at entry price usdRate) x))))"

text \<open>\<open>row\<close> answers the accounts query, Inl when it fails.\<close>

definition syncOpenedTrade ::
  "env \<Rightarrow> price_cache \<Rightarrow> int \<Rightarrow> (string \<Rightarrow> unit + funded_model option) \<Rightarrow> unit + index_row option \<Rightarrow> trade_row \<Rightarrow> trade_index \<Rightarrow>
   trade_entry option \<times> trade_index" where
  "syncOpenedTrade env pc t lookup row r ix =
     (case row of
        Inl _ \<Rightarrow> if jm_get (ix_accounts ix) (tr_account r) = None then (None, ix) else addOpenTradeToIndex env pc t (Some r) None ix
      | Inr a \<Rightarrow> addOpenTradeToIndex env pc t (Some r) None (snd (ensureAccountLoaded t lookup a (tr_account r) ix)))"

definition syncPendingOrder ::
  "int \<Rightarrow> (string \<Rightarrow> unit + funded_model option) \<Rightarrow> unit + index_row option \<Rightarrow> pending_row \<Rightarrow> trade_index \<Rightarrow> pending_entry option \<times> trade_index" where
  "syncPendingOrder t lookup row r ix =
     (case row of
        Inl _ \<Rightarrow> if jm_get (ix_accounts ix) (pr_account r) = None then (None, ix) else addPending t (Some r) None ix
      | Inr a \<Rightarrow> addPending t (Some r) None (snd (ensureAccountLoaded t lookup a (pr_account r) ix)))"

definition syncClosedTrade :: "int \<Rightarrow> string \<Rightarrow> string option \<Rightarrow> num option \<Rightarrow> trade_index \<Rightarrow> trade_index" where
  "syncClosedTrade t tradeId accountId realizedPnl ix =
     (let resolved = (case given accountId of
                        Some a \<Rightarrow> Some a
                      | None \<Rightarrow> given (map_option te_account (getTrade ix tradeId)));
          x = snd (removePending tradeId (snd (removeTrade tradeId ix)))
      in case (resolved, realizedPnl) of
           (Some a, Some p) \<Rightarrow> applyRealizedPnl t a (JNum p) x
         | _ \<Rightarrow> x)"

definition reseed_instrument :: "env \<Rightarrow> price_cache \<Rightarrow> string \<Rightarrow> quote \<Rightarrow> nat \<times> trade_index \<Rightarrow> nat \<times> trade_index" where
  "reseed_instrument env pc i price s =
     (case getUsdRateForInstrument env pc (Some i) of
        Inl e \<Rightarrow> s
      | Inr usdRate \<Rightarrow>
          fold (\<lambda>trade (n, x). (Suc n, applyTradePnl (Some trade) (value_at trade price usdRate) x))
            (jm_values (getTradesByInstrument (snd s) i)) s)"

definition reseedFloatingPnl :: "env \<Rightarrow> price_cache \<Rightarrow> trade_index \<Rightarrow> nat \<times> trade_index" where
  "reseedFloatingPnl env pc ix =
     fold (\<lambda>(i, q) s. case q of None \<Rightarrow> s | Some price \<Rightarrow> reseed_instrument env pc i price s)
       (pc_prices pc) (0, resetFloatingPnl ix)"

definition reconcileIndex ::
  "env \<Rightarrow> price_cache \<Rightarrow> int \<Rightarrow> (string \<Rightarrow> unit + funded_model option) \<Rightarrow> db_answers \<Rightarrow> trade_index \<Rightarrow> (string + reconcile_summary) \<times> trade_index" where
  "reconcileIndex env pc t lookup db ix =
     (case fullReconcileFromDB t lookup db ix of
        (Inl e, x) \<Rightarrow> (Inl e, x)
      | (Inr summary, x) \<Rightarrow> (Inr summary, snd (reseedFloatingPnl env pc x)))"

end
