(* ===== verification/TradeIndexInv.thy ===== *)
theory TradeIndexInv
  imports TradeIndex
begin

text \<open>
  The consistency of the trade index: the maps by id and by instrument hold the same entries, the
  sets of an account hold trades and orders of that account that the index knows, and this survives every
  operation in every order, reconciliation and its failures included.
\<close>

section \<open>Two maps over the same entries\<close>

definition agree :: "('e \<Rightarrow> string) \<Rightarrow> ('e \<Rightarrow> string) \<Rightarrow> 'e jsmap \<Rightarrow> 'e jsmap jsmap \<Rightarrow> bool" where
  "agree key inst m b \<longleftrightarrow>
     jm_wf m \<and> jm_wf b \<and> (\<forall>i. jm_wf (bucket_of b i)) \<and>
     (\<forall>k e. jm_get m k = Some e \<longrightarrow> key e = k) \<and>
     (\<forall>i k e. jm_get (bucket_of b i) k = Some e \<longleftrightarrow> jm_get m k = Some e \<and> inst e = i)"

lemma jm_del_Nil [simp]: "jm_del k [] = []"
  by (simp add: jm_del_def)

lemma bucket_of_set: "bucket_of (jm_set i x b) j = (if j = i then x else bucket_of b j)"
  by (simp add: bucket_of_def jm.get_upd)

lemma bucket_of_del: "bucket_of (bucket_del i k b) j = (if j = i then jm_del k (bucket_of b i) else bucket_of b j)"
  by (auto simp: bucket_of_def bucket_del_def jm_get_upd split: option.split)

lemma bucket_of_drop: "bucket_of (bucket_drop i k b) j = (if j = i then jm_del k (bucket_of b i) else bucket_of b j)"
  by (auto simp: bucket_of_def bucket_drop_def jm_simps split: option.split)

lemma jm_wf_bucket_ops: "jm_wf b \<Longrightarrow> jm_wf (bucket_del i k b)" "jm_wf b \<Longrightarrow> jm_wf (bucket_drop i k b)"
  by (auto simp: bucket_del_def bucket_drop_def jm_wf_upd intro: jm.inv_upd jm.inv_rem split: option.split)

lemma agree_add:
  assumes "agree key inst m b"
  shows "agree key inst (jm_set (key e) e m)
    (let b' = (case jm_get m (key e) of None \<Rightarrow> b | Some p \<Rightarrow> if inst p \<noteq> inst e then bucket_del (inst p) (key p) b else b)
     in jm_set (inst e) (jm_set (key e) e (bucket_of b' (inst e))) b')"
proof -
  define b' where "b' = (case jm_get m (key e) of None \<Rightarrow> b | Some p \<Rightarrow> if inst p \<noteq> inst e then bucket_del (inst p) (key p) b else b)"
  have wf: "jm_wf b'" "jm_wf (bucket_of b' i)" for i
    using assms by (auto simp: agree_def b'_def bucket_of_del jm.inv_rem jm_wf_bucket_ops split: option.split)
  have rest: "k \<noteq> key e \<Longrightarrow> jm_get (bucket_of b' i) k = jm_get (bucket_of b i) k" for i k
    using assms by (auto simp: agree_def b'_def bucket_of_del jm.get_rem split: option.split)
  have gone: "i \<noteq> inst e \<Longrightarrow> jm_get (bucket_of b' i) (key e) = None" for i
  proof (cases "jm_get m (key e)")
    case None
    then have "jm_get (bucket_of b i) (key e) \<noteq> Some f" for f using assms by (simp add: agree_def)
    then have "jm_get (bucket_of b i) (key e) = None" by fastforce
    then show ?thesis using None by (simp add: b'_def)
  next
    case (Some p)
    assume i: "i \<noteq> inst e"
    have "key p = key e" using Some assms by (auto simp: agree_def)
    moreover have "jm_get (bucket_of b i) (key e) = None" if "i \<noteq> inst p"
    proof (rule ccontr)
      assume "jm_get (bucket_of b i) (key e) \<noteq> None"
      then show False using Some assms that by (auto simp: agree_def)
    qed
    ultimately show ?thesis using Some i by (auto simp: b'_def bucket_of_del jm.get_rem)
  qed
  show ?thesis
    unfolding Let_def b'_def [symmetric]
    using assms wf rest gone by (auto simp: agree_def bucket_of_set jm.get_upd intro: jm.inv_upd)
qed

lemma agree_drop:
  assumes "agree key inst m b" "jm_get m k = Some e"
  shows "agree key inst (jm_del k m) (bucket_drop (inst e) k b)"
  using assms by (auto simp: agree_def bucket_of_drop jm.get_rem jm_wf_bucket_ops intro: jm.inv_rem)

section \<open>The invariant\<close>

text \<open>\<open>acct\<close> gives the account each trade or order belongs to, which the database never changes.\<close>

definition index_ok :: "(string \<Rightarrow> string) \<Rightarrow> trade_index \<Rightarrow> bool" where
  "index_ok acct ix \<longleftrightarrow>
     agree te_id te_instrument (ix_by_id ix) (ix_by_instrument ix) \<and>
     agree pe_id pe_instrument (ix_pending ix) (ix_pending_by_instrument ix) \<and>
     jm_wf (ix_accounts ix) \<and>
     (\<forall>k e. jm_get (ix_by_id ix) k = Some e \<longrightarrow> te_account e = acct k \<and> te_ref e < ix_refs ix \<and> te_gen e \<le> ix_generation ix) \<and>
     (\<forall>k e. jm_get (ix_pending ix) k = Some e \<longrightarrow> pe_account e = acct k \<and> pe_gen e \<le> ix_generation ix) \<and>
     (\<forall>j k e f. jm_get (ix_by_id ix) j = Some e \<longrightarrow> jm_get (ix_by_id ix) k = Some f \<longrightarrow> te_ref e = te_ref f \<longrightarrow> j = k) \<and>
     (\<forall>a e. jm_get (ix_accounts ix) a = Some e \<longrightarrow> ae_id e = a \<and> ae_gen e \<le> ix_generation ix \<and>
        (\<forall>k\<in>set (ae_trades e). jm_get (ix_by_id ix) k \<noteq> None \<and> acct k = a) \<and>
        (\<forall>k\<in>set (ae_pending e). jm_get (ix_pending ix) k \<noteq> None \<and> acct k = a))"

text \<open>The account part alone, over the keys the index knows.\<close>

definition sets_ok :: "(string \<Rightarrow> string) \<Rightarrow> (string \<Rightarrow> bool) \<Rightarrow> (string \<Rightarrow> bool) \<Rightarrow> nat \<Rightarrow> account_entry jsmap \<Rightarrow> bool" where
  "sets_ok acct known pknown g m \<longleftrightarrow> jm_wf m \<and>
     (\<forall>a e. jm_get m a = Some e \<longrightarrow> ae_id e = a \<and> ae_gen e \<le> g \<and>
        (\<forall>k\<in>set (ae_trades e). known k \<and> acct k = a) \<and> (\<forall>k\<in>set (ae_pending e). pknown k \<and> acct k = a))"

definition trades_ok :: "(string \<Rightarrow> string) \<Rightarrow> nat \<Rightarrow> nat \<Rightarrow> trade_entry jsmap \<Rightarrow> bool" where
  "trades_ok acct r g m \<longleftrightarrow>
     (\<forall>k e. jm_get m k = Some e \<longrightarrow> te_account e = acct k \<and> te_ref e < r \<and> te_gen e \<le> g) \<and>
     (\<forall>j k e f. jm_get m j = Some e \<longrightarrow> jm_get m k = Some f \<longrightarrow> te_ref e = te_ref f \<longrightarrow> j = k)"

definition orders_ok :: "(string \<Rightarrow> string) \<Rightarrow> nat \<Rightarrow> pending_entry jsmap \<Rightarrow> bool" where
  "orders_ok acct g m \<longleftrightarrow> (\<forall>k e. jm_get m k = Some e \<longrightarrow> pe_account e = acct k \<and> pe_gen e \<le> g)"

lemma index_ok_parts:
  "index_ok acct ix \<longleftrightarrow>
     agree te_id te_instrument (ix_by_id ix) (ix_by_instrument ix) \<and>
     agree pe_id pe_instrument (ix_pending ix) (ix_pending_by_instrument ix) \<and>
     trades_ok acct (ix_refs ix) (ix_generation ix) (ix_by_id ix) \<and>
     orders_ok acct (ix_generation ix) (ix_pending ix) \<and>
     sets_ok acct (\<lambda>k. jm_get (ix_by_id ix) k \<noteq> None) (\<lambda>k. jm_get (ix_pending ix) k \<noteq> None) (ix_generation ix) (ix_accounts ix)"
  unfolding index_ok_def trades_ok_def orders_ok_def sets_ok_def by blast

lemma sets_ok_upd:
  assumes "sets_ok acct known pknown g m"
    and "\<And>e. jm_get m a = Some e \<Longrightarrow> ae_id (f e) = ae_id e \<and> ae_gen (f e) \<le> g \<and>
      (\<forall>k\<in>set (ae_trades (f e)). known' k \<and> acct k = a) \<and> (\<forall>k\<in>set (ae_pending (f e)). pknown' k \<and> acct k = a)"
    and "\<And>b k e. b \<noteq> a \<Longrightarrow> jm_get m b = Some e \<Longrightarrow> k \<in> set (ae_trades e) \<Longrightarrow> known' k"
    and "\<And>b k e. b \<noteq> a \<Longrightarrow> jm_get m b = Some e \<Longrightarrow> k \<in> set (ae_pending e) \<Longrightarrow> pknown' k"
  shows "sets_ok acct known' pknown' g (jm_upd a f m)"
proof -
  have wf: "jm_wf (jm_upd a f m)" using assms(1) by (simp add: sets_ok_def jm_wf_upd)
  have "ae_id e = b \<and> ae_gen e \<le> g \<and> (\<forall>k\<in>set (ae_trades e). known' k \<and> acct k = b) \<and> (\<forall>k\<in>set (ae_pending e). pknown' k \<and> acct k = b)"
    if e: "jm_get (jm_upd a f m) b = Some e" for b e
  proof (cases "b = a")
    case True
    then obtain e0 where "jm_get m a = Some e0" "e = f e0" using e by (auto simp: jm_get_upd)
    then show ?thesis using True assms(1,2) by (auto simp: sets_ok_def)
  next
    case False
    then have "jm_get m b = Some e" using e by (simp add: jm_get_upd)
    then show ?thesis using False assms(1,3,4) by (auto simp: sets_ok_def)
  qed
  then show ?thesis using wf unfolding sets_ok_def by blast
qed

text \<open>Updates of an account entry that leave its identity and its sets alone.\<close>

definition value_only :: "(account_entry \<Rightarrow> account_entry) \<Rightarrow> bool" where
  "value_only f \<longleftrightarrow> (\<forall>e. ae_id (f e) = ae_id e \<and> ae_gen (f e) = ae_gen e \<and> ae_trades (f e) = ae_trades e \<and> ae_pending (f e) = ae_pending e)"

lemma index_ok_value: "value_only f \<Longrightarrow> index_ok acct ix \<Longrightarrow> index_ok acct (upd_account a f ix)"
proof -
  assume f: "value_only f" and ok: "index_ok acct ix"
  have "sets_ok acct (\<lambda>k. jm_get (ix_by_id ix) k \<noteq> None) (\<lambda>k. jm_get (ix_pending ix) k \<noteq> None) (ix_generation ix) (jm_upd a f (ix_accounts ix))"
    by (rule sets_ok_upd [where known = "\<lambda>k. jm_get (ix_by_id ix) k \<noteq> None" and pknown = "\<lambda>k. jm_get (ix_pending ix) k \<noteq> None"])
      (use ok f in \<open>auto simp: index_ok_parts sets_ok_def value_only_def\<close>)
  then show ?thesis using ok by (simp add: index_ok_parts upd_account_def)
qed

lemma index_ok_last [simp]: "index_ok acct (ix\<lparr>ix_last := l\<rparr>) = index_ok acct ix"
  by (simp add: index_ok_def)

lemma index_ok_models [simp]: "index_ok acct (ix\<lparr>ix_models := l\<rparr>) = index_ok acct ix"
  by (simp add: index_ok_def)

lemma upd_account_last: "(upd_account a f ix)\<lparr>ix_last := l\<rparr> = upd_account a f (ix\<lparr>ix_last := l\<rparr>)"
  by (simp add: upd_account_def)

lemma value_only_simps:
  "value_only (\<lambda>a. a\<lparr>ae_floating := v a\<rparr>)"
  "value_only (bake_settings s)"
  "value_only (\<lambda>a. let b = w a in a\<lparr>ae_balance := b, ae_peak := (if nlt (ae_peak a) b then b else ae_peak a)\<rparr>)"
  "value_only (\<lambda>a. let today = d; base = h a in a\<lparr>ae_day_key := today, ae_today := nadd base x\<rparr>)"
  "value_only (\<lambda>a. a\<lparr>ae_eod_peak := p a, ae_eod_floor := q a\<rparr>)"
  "value_only (\<lambda>a. a\<lparr>ae_today := n, ae_day_key := d\<rparr>)"
  by (auto simp: value_only_def bake_settings_def Let_def split: option.split)

section \<open>Every operation preserves it\<close>

lemma index_ok_upsert: "index_ok acct ix \<Longrightarrow> index_ok acct (snd (upsertAccount t row ix))"
proof (cases "ir_id row = []")
  case False
  assume ok: "index_ok acct ix"
  have "sets_ok acct (\<lambda>k. jm_get (ix_by_id ix) k \<noteq> None) (\<lambda>k. jm_get (ix_pending ix) k \<noteq> None) (ix_generation ix)
      (jm_set (ir_id row) (buildAccountEntry t ix row) (ix_accounts ix))"
    using ok unfolding sets_ok_def index_ok_parts
    by (auto simp: jm.get_upd buildAccountEntry_def Let_def intro: jm.inv_upd split: if_splits option.splits)
  moreover have "ae_id (buildAccountEntry t ix row) = ir_id row" by (simp add: buildAccountEntry_def Let_def)
  ultimately show ?thesis using ok False by (simp add: upsertAccount_def Let_def index_ok_parts)
qed (simp add: upsertAccount_def)

lemma trades_ok_set:
  "trades_ok acct r g m \<Longrightarrow> te_account e = acct k \<Longrightarrow> te_ref e = r \<Longrightarrow> te_gen e \<le> g \<Longrightarrow> trades_ok acct (Suc r) g (jm_set k e m)"
  by (fastforce simp: trades_ok_def jm.get_upd less_Suc_eq split: if_splits)

text \<open>What addTrade does to the maps.\<close>

lemma addTrade_parts:
  fixes t r arow ix
  assumes r: "tr_id r \<noteq> []" "tr_instrument r \<noteq> []"
  defines "ix1 \<equiv> (case arow of None \<Rightarrow> ix | Some a \<Rightarrow> snd (upsertAccount t a ix))"
  defines "e \<equiv> buildTradeEntry t ix1 r"
  defines "res \<equiv> snd (addTrade t (Some r) arow ix)"
  shows "ix_by_id res = jm_set (tr_id r) e (ix_by_id ix1)"
    and "ix_by_instrument res = (let b' = (case jm_get (ix_by_id ix1) (te_id e) of None \<Rightarrow> ix_by_instrument ix1
        | Some p \<Rightarrow> if te_instrument p \<noteq> te_instrument e then bucket_del (te_instrument p) (te_id p) (ix_by_instrument ix1) else ix_by_instrument ix1)
      in jm_set (te_instrument e) (jm_set (te_id e) e (bucket_of b' (te_instrument e))) b')"
    and "ix_pending res = ix_pending ix1" "ix_pending_by_instrument res = ix_pending_by_instrument ix1"
    and "ix_refs res = Suc (ix_refs ix1)" "ix_generation res = ix_generation ix1"
    and "\<exists>v. ix_accounts res = jm_upd (tr_account r) (\<lambda>a. a\<lparr>ae_trades := js_add (tr_id r) (ae_trades a)\<rparr>)
      (case jm_get (ix_by_id ix1) (tr_id r) of None \<Rightarrow> ix_accounts ix1 | Some p \<Rightarrow> jm_upd (te_account p) (\<lambda>a. a\<lparr>ae_floating := v a\<rparr>) (ix_accounts ix1))"
proof -
  have id: "te_id e = tr_id r" "te_account e = tr_account r" "te_instrument e = tr_instrument r"
    by (simp_all add: e_def buildTradeEntry_def)
  note defs = res_def addTrade_def ix1_def [symmetric] e_def [symmetric] Let_def upd_account_def
  show "ix_by_id res = jm_set (tr_id r) e (ix_by_id ix1)" "ix_pending res = ix_pending ix1"
    "ix_pending_by_instrument res = ix_pending_by_instrument ix1" "ix_refs res = Suc (ix_refs ix1)" "ix_generation res = ix_generation ix1"
    using r id by (simp_all add: defs split: option.split)
  show "ix_by_instrument res = (let b' = (case jm_get (ix_by_id ix1) (te_id e) of None \<Rightarrow> ix_by_instrument ix1
        | Some p \<Rightarrow> if te_instrument p \<noteq> te_instrument e then bucket_del (te_instrument p) (te_id p) (ix_by_instrument ix1) else ix_by_instrument ix1)
      in jm_set (te_instrument e) (jm_set (te_id e) e (bucket_of b' (te_instrument e))) b')"
    using r id by (simp add: defs split: option.split)
  show "\<exists>v. ix_accounts res = jm_upd (tr_account r) (\<lambda>a. a\<lparr>ae_trades := js_add (tr_id r) (ae_trades a)\<rparr>)
      (case jm_get (ix_by_id ix1) (tr_id r) of None \<Rightarrow> ix_accounts ix1 | Some p \<Rightarrow> jm_upd (te_account p) (\<lambda>a. a\<lparr>ae_floating := v a\<rparr>) (ix_accounts ix1))"
    using r id by (auto simp: defs split: option.split)
qed

lemma sets_ok_value: "value_only f \<Longrightarrow> sets_ok acct K P g m \<Longrightarrow> sets_ok acct K P g (jm_upd a f m)"
  by (rule sets_ok_upd [where known = K and pknown = P]) (auto simp: sets_ok_def value_only_def)

lemma index_ok_addTrade:
  assumes ok: "index_ok acct ix" and r: "\<And>x. row = Some x \<Longrightarrow> tr_account x = acct (tr_id x)"
  shows "index_ok acct (snd (addTrade t row arow ix))"
proof (cases "\<exists>x. row = Some x \<and> tr_id x \<noteq> [] \<and> tr_instrument x \<noteq> []")
  case True
  then obtain x where x: "row = Some x" "tr_id x \<noteq> []" "tr_instrument x \<noteq> []" by blast
  define ix1 where "ix1 = (case arow of None \<Rightarrow> ix | Some a \<Rightarrow> snd (upsertAccount t a ix))"
  have ok1: "index_ok acct ix1" using ok index_ok_upsert by (simp add: ix1_def split: option.split)
  define e where "e = buildTradeEntry t ix1 x"
  have e: "te_id e = tr_id x" "te_account e = acct (tr_id x)" "te_ref e = ix_refs ix1" "te_gen e = ix_generation ix1"
    using r [OF x(1)] by (simp_all add: e_def buildTradeEntry_def)
  note parts = addTrade_parts [OF x(2,3), of t arow ix, folded ix1_def, folded e_def]
  let ?res = "snd (addTrade t (Some x) arow ix)"
  have 1: "agree te_id te_instrument (ix_by_id ?res) (ix_by_instrument ?res)"
    unfolding parts(1,2) e(1) [symmetric] by (rule agree_add) (use ok1 in \<open>simp add: index_ok_parts\<close>)
  have 2: "trades_ok acct (ix_refs ?res) (ix_generation ?res) (ix_by_id ?res)"
    unfolding parts(1,5,6) by (rule trades_ok_set) (use ok1 e in \<open>simp_all add: index_ok_parts\<close>)
  obtain v where v: "ix_accounts ?res = jm_upd (tr_account x) (\<lambda>a. a\<lparr>ae_trades := js_add (tr_id x) (ae_trades a)\<rparr>)
      (case jm_get (ix_by_id ix1) (tr_id x) of None \<Rightarrow> ix_accounts ix1 | Some p \<Rightarrow> jm_upd (te_account p) (\<lambda>a. a\<lparr>ae_floating := v a\<rparr>) (ix_accounts ix1))"
    using parts(7) by blast
  define m where "m = (case jm_get (ix_by_id ix1) (tr_id x) of None \<Rightarrow> ix_accounts ix1 | Some p \<Rightarrow> jm_upd (te_account p) (\<lambda>a. a\<lparr>ae_floating := v a\<rparr>) (ix_accounts ix1))"
  have m: "sets_ok acct (\<lambda>k. jm_get (ix_by_id ix1) k \<noteq> None) (\<lambda>k. jm_get (ix_pending ix1) k \<noteq> None) (ix_generation ix1) m"
    using ok1 by (auto simp: m_def index_ok_parts intro: sets_ok_value value_only_simps split: option.split)
  have 3: "sets_ok acct (\<lambda>k. jm_get (ix_by_id ?res) k \<noteq> None) (\<lambda>k. jm_get (ix_pending ?res) k \<noteq> None) (ix_generation ?res) (ix_accounts ?res)"
    unfolding v m_def [symmetric] parts(1,3,6)
    by (rule sets_ok_upd [OF m]) (use m r [OF x(1)] in \<open>auto simp: sets_ok_def jm.get_upd\<close>)
  show ?thesis using 1 2 3 ok1 parts(3,4,6) x(1) by (simp add: index_ok_parts)
next
  case False
  then show ?thesis using ok by (auto simp: addTrade_def split: option.split)
qed

lemma removeTrade_parts:
  assumes "jm_get (ix_by_id ix) k = Some e"
  defines "res \<equiv> snd (removeTrade k ix)"
  shows "ix_by_id res = jm_del k (ix_by_id ix)"
    and "ix_by_instrument res = bucket_drop (te_instrument e) k (ix_by_instrument ix)"
    and "ix_pending res = ix_pending ix" "ix_pending_by_instrument res = ix_pending_by_instrument ix"
    and "ix_refs res = ix_refs ix" "ix_generation res = ix_generation ix"
    and "\<exists>v. ix_accounts res = jm_upd (te_account e) (\<lambda>a. a\<lparr>ae_trades := js_remove k (ae_trades a), ae_floating := v a\<rparr>) (ix_accounts ix)"
  using assms by (auto simp: res_def removeTrade_def Let_def upd_account_def jm_upd_def split: option.split)

lemma trades_ok_del: "trades_ok acct r g m \<Longrightarrow> trades_ok acct r g (jm_del k m)"
  by (auto simp: trades_ok_def jm.get_rem)

lemma orders_ok_del: "orders_ok acct g m \<Longrightarrow> orders_ok acct g (jm_del k m)"
  by (auto simp: orders_ok_def jm.get_rem)

lemma index_ok_removeTrade: "index_ok acct ix \<Longrightarrow> index_ok acct (snd (removeTrade k ix))"
proof (cases "jm_get (ix_by_id ix) k")
  case (Some e)
  assume ok: "index_ok acct ix"
  note parts = removeTrade_parts [OF Some]
  have acc: "te_account e = acct k" using ok Some by (auto simp: index_ok_parts trades_ok_def)
  let ?res = "snd (removeTrade k ix)"
  obtain v where v: "ix_accounts ?res = jm_upd (te_account e) (\<lambda>a. a\<lparr>ae_trades := js_remove k (ae_trades a), ae_floating := v a\<rparr>) (ix_accounts ix)"
    using parts(7) by blast
  have s: "sets_ok acct (\<lambda>k. jm_get (ix_by_id ix) k \<noteq> None) (\<lambda>k. jm_get (ix_pending ix) k \<noteq> None) (ix_generation ix) (ix_accounts ix)"
    using ok by (simp add: index_ok_parts)
  have "sets_ok acct (\<lambda>k. jm_get (ix_by_id ?res) k \<noteq> None) (\<lambda>k. jm_get (ix_pending ?res) k \<noteq> None) (ix_generation ?res) (ix_accounts ?res)"
    unfolding v parts(1,3,6) acc
    by (rule sets_ok_upd [OF s]) (use s in \<open>auto simp: sets_ok_def jm.get_rem\<close>)
  moreover have "agree te_id te_instrument (ix_by_id ?res) (ix_by_instrument ?res)"
    unfolding parts(1,2) by (rule agree_drop [OF _ Some]) (use ok in \<open>simp add: index_ok_parts\<close>)
  ultimately show ?thesis using ok parts(1,3-6) by (simp add: index_ok_parts trades_ok_del)
qed (simp add: removeTrade_def)

lemma addPending_parts:
  fixes t r arow ix
  assumes r: "pr_id r \<noteq> []" "pr_instrument r \<noteq> []"
  defines "ix1 \<equiv> (case arow of None \<Rightarrow> ix | Some a \<Rightarrow> snd (upsertAccount t a ix))"
  defines "e \<equiv> buildPendingEntry ix1 r"
  defines "res \<equiv> snd (addPending t (Some r) arow ix)"
  shows "ix_pending res = jm_set (pr_id r) e (ix_pending ix1)"
    and "ix_pending_by_instrument res = (let b' = (case jm_get (ix_pending ix1) (pe_id e) of None \<Rightarrow> ix_pending_by_instrument ix1
        | Some p \<Rightarrow> if pe_instrument p \<noteq> pe_instrument e then bucket_del (pe_instrument p) (pe_id p) (ix_pending_by_instrument ix1) else ix_pending_by_instrument ix1)
      in jm_set (pe_instrument e) (jm_set (pe_id e) e (bucket_of b' (pe_instrument e))) b')"
    and "ix_by_id res = ix_by_id ix1" "ix_by_instrument res = ix_by_instrument ix1"
    and "ix_refs res = ix_refs ix1" "ix_generation res = ix_generation ix1"
    and "ix_accounts res = jm_upd (pr_account r) (\<lambda>a. a\<lparr>ae_pending := js_add (pr_id r) (ae_pending a)\<rparr>) (ix_accounts ix1)"
proof -
  have id: "pe_id e = pr_id r" "pe_account e = pr_account r" "pe_instrument e = pr_instrument r"
    by (simp_all add: e_def buildPendingEntry_def)
  note defs = res_def addPending_def ix1_def [symmetric] e_def [symmetric] Let_def upd_account_def
  show "ix_pending res = jm_set (pr_id r) e (ix_pending ix1)" "ix_by_id res = ix_by_id ix1" "ix_by_instrument res = ix_by_instrument ix1"
    "ix_refs res = ix_refs ix1" "ix_generation res = ix_generation ix1"
    "ix_accounts res = jm_upd (pr_account r) (\<lambda>a. a\<lparr>ae_pending := js_add (pr_id r) (ae_pending a)\<rparr>) (ix_accounts ix1)"
    using r id by (simp_all add: defs split: option.split)
  show "ix_pending_by_instrument res = (let b' = (case jm_get (ix_pending ix1) (pe_id e) of None \<Rightarrow> ix_pending_by_instrument ix1
        | Some p \<Rightarrow> if pe_instrument p \<noteq> pe_instrument e then bucket_del (pe_instrument p) (pe_id p) (ix_pending_by_instrument ix1) else ix_pending_by_instrument ix1)
      in jm_set (pe_instrument e) (jm_set (pe_id e) e (bucket_of b' (pe_instrument e))) b')"
    using r id by (simp add: defs split: option.split)
qed

lemma index_ok_addPending:
  assumes ok: "index_ok acct ix" and r: "\<And>x. row = Some x \<Longrightarrow> pr_account x = acct (pr_id x)"
  shows "index_ok acct (snd (addPending t row arow ix))"
proof (cases "\<exists>x. row = Some x \<and> pr_id x \<noteq> [] \<and> pr_instrument x \<noteq> []")
  case True
  then obtain x where x: "row = Some x" "pr_id x \<noteq> []" "pr_instrument x \<noteq> []" by blast
  define ix1 where "ix1 = (case arow of None \<Rightarrow> ix | Some a \<Rightarrow> snd (upsertAccount t a ix))"
  have ok1: "index_ok acct ix1" using ok index_ok_upsert by (simp add: ix1_def split: option.split)
  define e where "e = buildPendingEntry ix1 x"
  have e: "pe_id e = pr_id x" "pe_account e = acct (pr_id x)" "pe_gen e = ix_generation ix1"
    using r [OF x(1)] by (simp_all add: e_def buildPendingEntry_def)
  note parts = addPending_parts [OF x(2,3), of t arow ix, folded ix1_def, folded e_def]
  let ?res = "snd (addPending t (Some x) arow ix)"
  have 1: "agree pe_id pe_instrument (ix_pending ?res) (ix_pending_by_instrument ?res)"
    unfolding parts(1,2) e(1) [symmetric] by (rule agree_add) (use ok1 in \<open>simp add: index_ok_parts\<close>)
  have 2: "orders_ok acct (ix_generation ?res) (ix_pending ?res)"
    unfolding parts(1,6) using ok1 e by (auto simp: index_ok_parts orders_ok_def jm.get_upd)
  have m: "sets_ok acct (\<lambda>k. jm_get (ix_by_id ix1) k \<noteq> None) (\<lambda>k. jm_get (ix_pending ix1) k \<noteq> None) (ix_generation ix1) (ix_accounts ix1)"
    using ok1 by (simp add: index_ok_parts)
  have 3: "sets_ok acct (\<lambda>k. jm_get (ix_by_id ?res) k \<noteq> None) (\<lambda>k. jm_get (ix_pending ?res) k \<noteq> None) (ix_generation ?res) (ix_accounts ?res)"
    unfolding parts(1,3,6,7)
    by (rule sets_ok_upd [OF m]) (use m r [OF x(1)] in \<open>auto simp: sets_ok_def jm.get_upd\<close>)
  show ?thesis using 1 2 3 ok1 parts(3-6) x(1) by (simp add: index_ok_parts)
next
  case False
  then show ?thesis using ok by (auto simp: addPending_def split: option.split)
qed

lemma index_ok_removePending: "index_ok acct ix \<Longrightarrow> index_ok acct (snd (removePending k ix))"
proof (cases "jm_get (ix_pending ix) k")
  case (Some e)
  assume ok: "index_ok acct ix"
  have acc: "pe_account e = acct k" using ok Some by (auto simp: index_ok_parts orders_ok_def)
  have s: "sets_ok acct (\<lambda>k. jm_get (ix_by_id ix) k \<noteq> None) (\<lambda>k. jm_get (ix_pending ix) k \<noteq> None) (ix_generation ix) (ix_accounts ix)"
    using ok by (simp add: index_ok_parts)
  have "sets_ok acct (\<lambda>k. jm_get (ix_by_id ix) k \<noteq> None) (\<lambda>j. jm_get (jm_del k (ix_pending ix)) j \<noteq> None) (ix_generation ix)
      (jm_upd (acct k) (\<lambda>a. a\<lparr>ae_pending := js_remove k (ae_pending a)\<rparr>) (ix_accounts ix))"
    by (rule sets_ok_upd [OF s]) (use s in \<open>auto simp: sets_ok_def jm.get_rem\<close>)
  moreover have "agree pe_id pe_instrument (jm_del k (ix_pending ix)) (bucket_drop (pe_instrument e) k (ix_pending_by_instrument ix))"
    by (rule agree_drop [OF _ Some]) (use ok in \<open>simp add: index_ok_parts\<close>)
  ultimately show ?thesis using ok Some acc by (simp add: removePending_def upd_account_def index_ok_parts orders_ok_del)
qed (simp add: removePending_def)

lemma index_ok_fold: "(\<And>k x. index_ok acct x \<Longrightarrow> index_ok acct (f k x)) \<Longrightarrow> index_ok acct ix \<Longrightarrow> index_ok acct (fold f ks ix)"
  by (induction ks arbitrary: ix) auto

lemma index_ok_delAccount: "index_ok acct ix \<Longrightarrow> index_ok acct (ix\<lparr>ix_accounts := jm_del a (ix_accounts ix)\<rparr>)"
  by (auto simp: index_ok_parts sets_ok_def jm.get_rem intro: jm.inv_rem)

lemma index_ok_removeAccount: "index_ok acct ix \<Longrightarrow> index_ok acct (snd (removeAccount a ix))"
  by (auto simp: removeAccount_def Let_def intro!: index_ok_delAccount index_ok_fold index_ok_removeTrade index_ok_removePending split: option.split)

lemma index_ok_resolve: "index_ok acct ix \<Longrightarrow> index_ok acct (resolveDrawdownSettings lookup e ix)"
  by (auto simp: resolveDrawdownSettings_def Let_def intro!: index_ok_value value_only_simps split: option.split)

lemma index_ok_ensure: "index_ok acct ix \<Longrightarrow> index_ok acct (snd (ensureAccountLoaded t lookup row a ix))"
proof -
  assume ok: "index_ok acct ix"
  have "index_ok acct ix1" if "upsertAccount t r ix = (x, ix1)" for r x ix1
    using index_ok_upsert [OF ok, of t r] that by simp
  then show ?thesis
    using ok by (auto simp: ensureAccountLoaded_def Let_def intro!: index_ok_resolve split: option.split prod.split)
qed

lemma index_ok_apply: "index_ok acct ix \<Longrightarrow> index_ok acct (applyTradePnl e p ix)"
  by (auto simp: applyTradePnl_def upd_account_last intro!: index_ok_value value_only_simps split: option.split)

lemma index_ok_balance: "index_ok acct ix \<Longrightarrow> index_ok acct (updateAccountBalance a b ix)"
  unfolding updateAccountBalance_def by (intro index_ok_value value_only_simps)

lemma index_ok_realized: "index_ok acct ix \<Longrightarrow> index_ok acct (applyRealizedPnl t a p ix)"
  unfolding applyRealizedPnl_def by (rule index_ok_value) (simp_all add: value_only_def Let_def)

lemma index_ok_peak: "index_ok acct ix \<Longrightarrow> index_ok acct (setPeakEquity a p f ix)"
  unfolding setPeakEquity_def by (intro index_ok_value value_only_simps)

lemma jm_get_map_vals: "jm_get (map (\<lambda>(k, a). (k, f a)) m) k = map_option f (jm_get m k)"
  unfolding jm_get_def by (induction m) auto

lemma jm_wf_map_vals: "jm_wf (map (\<lambda>(k, a). (k, f a)) m) = jm_wf m"
  by (simp add: jm_wf_def jm_keys_def o_def case_prod_beta)

lemma sets_ok_map:
  assumes f: "\<And>a. ae_id (f a) = ae_id a \<and> ae_gen (f a) = ae_gen a \<and> set (ae_trades (f a)) \<subseteq> set (ae_trades a) \<and> set (ae_pending (f a)) \<subseteq> set (ae_pending a)"
    and m: "sets_ok acct K P g m"
  shows "sets_ok acct K P g (map (\<lambda>(k, a). (k, f a)) m)"
  unfolding sets_ok_def
proof (intro conjI [OF _ allI [OF allI [OF impI]]])
  show "jm_wf (map (\<lambda>(k, a). (k, f a)) m)" using m by (simp add: jm_wf_map_vals sets_ok_def)
next
  fix a e
  assume "jm_get (map (\<lambda>(k, a). (k, f a)) m) a = Some e"
  then obtain e0 where e0: "jm_get m a = Some e0" "e = f e0" by (auto simp: jm_get_map_vals)
  then have "ae_id e0 = a \<and> ae_gen e0 \<le> g \<and> (\<forall>k\<in>set (ae_trades e0). K k \<and> acct k = a) \<and> (\<forall>k\<in>set (ae_pending e0). P k \<and> acct k = a)"
    using m by (simp add: sets_ok_def)
  then show "ae_id e = a \<and> ae_gen e \<le> g \<and> (\<forall>k\<in>set (ae_trades e). K k \<and> acct k = a) \<and> (\<forall>k\<in>set (ae_pending e). P k \<and> acct k = a)"
    using f [of e0] e0(2) by auto
qed

lemma index_ok_reset: "index_ok acct ix \<Longrightarrow> index_ok acct (resetFloatingPnl ix)"
  using sets_ok_map [where f = "\<lambda>a. a\<lparr>ae_floating := Fin 0\<rparr>"] by (simp add: resetFloatingPnl_def index_ok_parts)

lemma index_ok_clear: "index_ok acct ix \<Longrightarrow> index_ok acct (clear_sets ix)"
  using sets_ok_map [where f = "\<lambda>a. if ae_gen a \<noteq> ix_generation ix then a else a\<lparr>ae_trades := [], ae_pending := []\<rparr>"]
  by (simp add: clear_sets_def index_ok_parts)

section \<open>Reconciliation preserves it\<close>

lemma index_ok_load_accounts: "index_ok acct ix \<Longrightarrow> index_ok acct (snd (load_accounts t rs d ix))"
proof (induction rs arbitrary: d ix)
  case (Cons r rs)
  then show ?case using index_ok_upsert [OF Cons.prems, of t r] by (auto simp: Let_def split: prod.split option.split)
qed simp

lemma index_ok_resolve_accounts: "index_ok acct ix \<Longrightarrow> index_ok acct (resolve_accounts lookup rs ix)"
  unfolding resolve_accounts_def by (rule index_ok_fold) (auto intro: index_ok_resolve split: option.split)

definition rows_ok :: "(string \<Rightarrow> string) \<Rightarrow> trade_row list \<Rightarrow> bool" where
  "rows_ok acct rs \<longleftrightarrow> (\<forall>r\<in>set rs. tr_account r = acct (tr_id r))"

definition prows_ok :: "(string \<Rightarrow> string) \<Rightarrow> pending_row list \<Rightarrow> bool" where
  "prows_ok acct rs \<longleftrightarrow> (\<forall>r\<in>set rs. pr_account r = acct (pr_id r))"

lemma index_ok_addTrade_Some:
  "tr_account r = acct (tr_id r) \<Longrightarrow> index_ok acct ix \<Longrightarrow> index_ok acct (snd (addTrade t (Some r) a ix))"
  by (rule index_ok_addTrade) auto

lemma index_ok_addPending_Some:
  "pr_account r = acct (pr_id r) \<Longrightarrow> index_ok acct ix \<Longrightarrow> index_ok acct (snd (addPending t (Some r) a ix))"
  by (rule index_ok_addPending) auto

lemma index_ok_load_trades: "rows_ok acct rs \<Longrightarrow> index_ok acct ix \<Longrightarrow> index_ok acct (snd (load_trades t rs d ix))"
  by (induction rs arbitrary: d ix) (auto simp: rows_ok_def index_ok_addTrade_Some)

lemma index_ok_load_pending: "prows_ok acct rs \<Longrightarrow> index_ok acct ix \<Longrightarrow> index_ok acct (snd (load_pending t rs d ix))"
  by (induction rs arbitrary: d ix) (auto simp: prows_ok_def index_ok_addPending_Some)

lemma index_ok_seed: "index_ok acct ix \<Longrightarrow> index_ok acct (seed_realized t m is ix)"
  unfolding seed_realized_def by (rule index_ok_fold) (auto intro: index_ok_value simp: value_only_def)

lemma index_ok_evict:
  "(\<And>k x. index_ok acct x \<Longrightarrow> index_ok acct (rem k x)) \<Longrightarrow> index_ok acct ix \<Longrightarrow> index_ok acct (snd (evict st rem es d ix))"
  by (induction es arbitrary: d ix) auto

lemma index_ok_evict_stale: "index_ok acct ix \<Longrightarrow> index_ok acct (snd (evict_stale d ix))"
  unfolding evict_stale_def Let_def
  by (auto split: prod.split intro!: index_ok_evict index_ok_removeAccount)
    (metis index_ok_evict index_ok_removeTrade index_ok_removePending snd_conv)

lemma index_ok_next: "index_ok acct ix \<Longrightarrow> index_ok acct (ix\<lparr>ix_generation := Suc (ix_generation ix)\<rparr>)"
  by (fastforce simp: index_ok_def)

lemma index_ok_flags: "index_ok acct ix \<Longrightarrow> index_ok acct (ix\<lparr>ix_reconciled_at := t, ix_ready := b\<rparr>)"
  by (simp add: index_ok_def)

definition answers_ok :: "(string \<Rightarrow> string) \<Rightarrow> db_answers \<Rightarrow> bool" where
  "answers_ok acct db \<longleftrightarrow> (\<forall>rs. dba_trades db = Inr rs \<longrightarrow> rows_ok acct rs) \<and> (\<forall>rs. dba_pending db = Inr rs \<longrightarrow> prows_ok acct rs)"

lemma index_ok_reconcile:
  assumes ok: "index_ok acct ix" and db: "answers_ok acct db"
  shows "index_ok acct (snd (fullReconcileFromDB t lookup db ix))"
proof (cases "dba_accounts db")
  case (Inl e)
  then show ?thesis using index_ok_next [OF ok] by (simp add: fullReconcileFromDB_def)
next
  case (Inr arows)
  obtain d1 x1 where x1: "load_accounts t arows 0 (ix\<lparr>ix_generation := Suc (ix_generation ix)\<rparr>) = (d1, x1)" by fastforce
  define x2 where "x2 = resolve_accounts lookup arows x1"
  have ok2: "index_ok acct x2"
    using index_ok_load_accounts [OF index_ok_next [OF ok], of t arows 0] x1 by (simp add: x2_def index_ok_resolve_accounts)
  show ?thesis
  proof (cases "dba_trades db")
    case (Inl e)
    then show ?thesis using ok2 Inr x1 by (simp add: fullReconcileFromDB_def x2_def)
  next
    case T: (Inr trows)
    obtain d2 x3 where x3: "load_trades t trows d1 (clear_sets x2) = (d2, x3)" by fastforce
    have ok3: "index_ok acct x3"
      using index_ok_load_trades [OF _ index_ok_clear [OF ok2], of trows t d1] db T x3 by (simp add: answers_ok_def)
    show ?thesis
    proof (cases "dba_pending db")
      case (Inl e)
      then show ?thesis using ok3 Inr T x1 x3 by (simp add: fullReconcileFromDB_def x2_def [symmetric])
    next
      case P: (Inr prows)
      obtain d3 x4 where x4: "load_pending t prows d2 x3 = (d3, x4)" by fastforce
      have ok4: "index_ok acct x4"
        using index_ok_load_pending [OF _ ok3, of prows t d2] db P x4 by (simp add: answers_ok_def)
      have "index_ok acct x5" if "evict_stale d3 (seed_realized t m is x4) = (d4, x5)" for m "is" d4 x5
        using index_ok_evict_stale [OF index_ok_seed [OF ok4], of d3 t m "is"] that by simp
      then show ?thesis
        using ok4 Inr T P x1 x3 x4
        by (auto simp: fullReconcileFromDB_def x2_def [symmetric] Let_def intro: index_ok_flags split: sum.split prod.split)
    qed
  qed
qed

section \<open>Every sequence of operations\<close>

datatype index_op =
    AddTrade int "trade_row option" "index_row option"
  | RemoveTrade string
  | AddPending int "pending_row option" "index_row option"
  | RemovePending string
  | Upsert int index_row
  | RemoveAccount string
  | EnsureLoaded int "string \<Rightarrow> unit + funded_model option" "index_row option" string
  | Balance string jsval
  | ApplyPnl "trade_entry option" num
  | ResetFloating
  | Realized int string jsval
  | SetPeak string "num option" "num option"
  | Invalidate "string option"
  | Reconcile int "string \<Rightarrow> unit + funded_model option" db_answers

fun index_step :: "index_op \<Rightarrow> trade_index \<Rightarrow> trade_index" where
  "index_step (AddTrade t r a) ix = snd (addTrade t r a ix)"
| "index_step (RemoveTrade k) ix = snd (removeTrade k ix)"
| "index_step (AddPending t r a) ix = snd (addPending t r a ix)"
| "index_step (RemovePending k) ix = snd (removePending k ix)"
| "index_step (Upsert t a) ix = snd (upsertAccount t a ix)"
| "index_step (RemoveAccount a) ix = snd (removeAccount a ix)"
| "index_step (EnsureLoaded t l r a) ix = snd (ensureAccountLoaded t l r a ix)"
| "index_step (Balance a b) ix = updateAccountBalance a b ix"
| "index_step (ApplyPnl e p) ix = applyTradePnl e p ix"
| "index_step ResetFloating ix = resetFloatingPnl ix"
| "index_step (Realized t a p) ix = applyRealizedPnl t a p ix"
| "index_step (SetPeak a p f) ix = setPeakEquity a p f ix"
| "index_step (Invalidate s) ix = invalidateFundedModelCache s ix"
| "index_step (Reconcile t l db) ix = snd (fullReconcileFromDB t l db ix)"

fun op_ok :: "(string \<Rightarrow> string) \<Rightarrow> index_op \<Rightarrow> bool" where
  "op_ok acct (AddTrade t (Some r) a) = (tr_account r = acct (tr_id r))"
| "op_ok acct (AddPending t (Some r) a) = (pr_account r = acct (pr_id r))"
| "op_ok acct (Reconcile t l db) = answers_ok acct db"
| "op_ok acct _ = True"

lemma index_ok_step: "op_ok acct p \<Longrightarrow> index_ok acct ix \<Longrightarrow> index_ok acct (index_step p ix)"
proof (induction acct p rule: op_ok.induct)
qed (auto intro: index_ok_addTrade index_ok_addPending index_ok_reconcile index_ok_removeTrade index_ok_removePending
    index_ok_upsert index_ok_removeAccount index_ok_ensure index_ok_balance index_ok_apply index_ok_reset index_ok_realized index_ok_peak
    simp: invalidateFundedModelCache_def split: option.split)

lemma index_ok_empty: "index_ok acct index_reset"
  by (simp add: index_ok_def index_reset_def agree_def bucket_of_def)

text \<open>C21. The trade index stays consistent: after any sequence of its operations, among them
  reconciliations against whatever the database answers or fails to answer, the trades found under
  an instrument are exactly the trades found by id on it, likewise the pending orders, no two
  trades share an identity, and the sets an account holds name trades and orders of that account
  which the index knows.\<close>

theorem index_stays_consistent:
  assumes "list_all (op_ok acct) ops"
  shows "index_ok acct (foldl (\<lambda>ix p. index_step p ix) index_reset ops)"
  using assms
proof (induction ops rule: rev_induct)
  case (snoc p ops)
  then show ?case by (simp add: index_ok_step)
qed (simp add: index_ok_empty)

definition demo_trade :: trade_row where
  "demo_trade = \<lparr>tr_id = ''t1'', tr_account = ''a1'', tr_instrument = ''EURUSD'', tr_direction = ''buy'', tr_lots = JNumeric 1,
     tr_open = JNumeric (11 / 10), tr_sl = JNull, tr_tp = JNull, tr_commission = JNumeric 3, tr_open_time = Some 0,
     tr_pending_close = JNull, tr_pending_reason = None\<rparr>"

definition demo_index_row :: index_row where
  "demo_index_row = \<lparr>ir_id = ''a1'', ir_user = Some ''u1'', ir_status = Some ''active'', ir_type = ''phase1'', ir_slug = None,
     ir_balance = JNumeric 100000, ir_starting = JNumeric 100000, ir_peak = JNumeric 100000, ir_size = JNumeric 100000,
     ir_target = JNumeric 8000, ir_scaling = JNull, ir_phase_end = None, ir_eod_peak = JNull, ir_eod_floor = JNull,
     ir_max_dd = JNumeric 10, ir_daily_dd = JNumeric 5\<rparr>"

theorem index_stays_consistent_witness:
  "index_ok (\<lambda>_. ''a1'') (foldl (\<lambda>ix p. index_step p ix) index_reset
     [Upsert 0 demo_index_row, AddTrade 0 (Some demo_trade) None, RemoveTrade ''t0''])"
  by (rule index_stays_consistent) (simp add: demo_trade_def)

end
