(* ===== verification/TradeIndexSync.thy ===== *)
theory TradeIndexSync
  imports TradeIndexInv
begin

text \<open>
  What a reconciliation leaves behind: exactly what the database says is open, pending and active, so that
  a second pass over the same answers corrects nothing; and what a reseed makes of the floating totals.
\<close>

section \<open>Views\<close>

text \<open>Of an account: the stamp of its last pass, and whether it lists a trade or an order.\<close>

definition stamp :: "trade_index \<Rightarrow> string \<Rightarrow> nat option" where
  "stamp ix a = map_option ae_gen (jm_get (ix_accounts ix) a)"

definition lists_trade :: "trade_index \<Rightarrow> string \<Rightarrow> string \<Rightarrow> bool" where
  "lists_trade ix a k = (case jm_get (ix_accounts ix) a of None \<Rightarrow> False | Some e \<Rightarrow> k \<in> set (ae_trades e))"

definition lists_order :: "trade_index \<Rightarrow> string \<Rightarrow> string \<Rightarrow> bool" where
  "lists_order ix a k = (case jm_get (ix_accounts ix) a of None \<Rightarrow> False | Some e \<Rightarrow> k \<in> set (ae_pending e))"

text \<open>Two states that differ in values only.\<close>

definition same_shape :: "trade_index \<Rightarrow> trade_index \<Rightarrow> bool" where
  "same_shape x y \<longleftrightarrow> ix_by_id y = ix_by_id x \<and> ix_pending y = ix_pending x \<and> ix_generation y = ix_generation x \<and>
     stamp y = stamp x \<and> lists_trade y = lists_trade x \<and> lists_order y = lists_order x"

lemma same_shape_refl: "same_shape x x"
  by (simp add: same_shape_def)

lemma same_shape_trans: "same_shape x y \<Longrightarrow> same_shape y z \<Longrightarrow> same_shape x z"
  by (simp add: same_shape_def)

lemma views_upd:
  "stamp (upd_account i f x) a = (if a = i then map_option (\<lambda>e. ae_gen (f e)) (jm_get (ix_accounts x) i) else stamp x a)"
  "lists_trade (upd_account i f x) a k = (if a = i then (case jm_get (ix_accounts x) i of None \<Rightarrow> False | Some e \<Rightarrow> k \<in> set (ae_trades (f e))) else lists_trade x a k)"
  "lists_order (upd_account i f x) a k = (if a = i then (case jm_get (ix_accounts x) i of None \<Rightarrow> False | Some e \<Rightarrow> k \<in> set (ae_pending (f e))) else lists_order x a k)"
  by (auto simp: stamp_def lists_trade_def lists_order_def upd_account_def jm_get_upd option.map_comp o_def split: option.split)

lemma upd_account_maps [simp]:
  "ix_by_id (upd_account i f x) = ix_by_id x" "ix_pending (upd_account i f x) = ix_pending x"
  "ix_generation (upd_account i f x) = ix_generation x" "ix_by_instrument (upd_account i f x) = ix_by_instrument x"
  "ix_last (upd_account i f x) = ix_last x" "ix_refs (upd_account i f x) = ix_refs x"
  by (simp_all add: upd_account_def)

lemma same_shape_value: "value_only f \<Longrightarrow> same_shape x (upd_account i f x)"
  unfolding same_shape_def fun_eq_iff views_upd
  by (auto simp: value_only_def stamp_def lists_trade_def lists_order_def split: option.split)

lemma same_shape_fold: "(\<And>k x. same_shape x (f k x)) \<Longrightarrow> same_shape x (fold f ks x)"
  by (induction ks arbitrary: x) (auto intro: same_shape_refl same_shape_trans)

lemma same_shape_models: "same_shape x (x\<lparr>ix_models := m\<rparr>)"
  by (simp add: same_shape_def stamp_def lists_trade_def lists_order_def fun_eq_iff)

lemma same_shape_resolve: "same_shape x (resolveDrawdownSettings l e x)"
  by (auto simp: resolveDrawdownSettings_def Let_def same_shape_refl intro: same_shape_value value_only_simps same_shape_trans [OF same_shape_models]
      split: option.split)

lemma same_shape_resolve_accounts: "same_shape x (resolve_accounts l rs x)"
  unfolding resolve_accounts_def by (rule same_shape_fold) (auto intro: same_shape_refl same_shape_resolve split: option.split)

lemma same_shape_seed: "same_shape x (seed_realized t m is x)"
  unfolding seed_realized_def by (rule same_shape_fold) (auto intro!: same_shape_value simp: value_only_def)

section \<open>The passes\<close>

lemma upsert_views:
  assumes "ir_id r \<noteq> []"
  shows "upsertAccount t r x = (Some (buildAccountEntry t x r), snd (upsertAccount t r x))"
    and "ix_by_id (snd (upsertAccount t r x)) = ix_by_id x" "ix_pending (snd (upsertAccount t r x)) = ix_pending x"
    and "ix_generation (snd (upsertAccount t r x)) = ix_generation x"
    and "stamp (snd (upsertAccount t r x)) a = (if a = ir_id r then Some (ix_generation x) else stamp x a)"
  using assms by (auto simp: upsertAccount_def Let_def stamp_def jm.get_upd buildAccountEntry_def)

lemma load_accounts_views:
  assumes "\<forall>r\<in>set rs. ir_id r \<noteq> []"
  shows "ix_by_id (snd (load_accounts t rs d x)) = ix_by_id x \<and> ix_pending (snd (load_accounts t rs d x)) = ix_pending x \<and>
    ix_generation (snd (load_accounts t rs d x)) = ix_generation x \<and>
    (\<forall>a. stamp (snd (load_accounts t rs d x)) a = (if a \<in> ir_id ` set rs then Some (ix_generation x) else stamp x a)) \<and>
    (d \<le> fst (load_accounts t rs d x)) \<and> ((\<forall>r\<in>set rs. stamp x (ir_id r) \<noteq> None) \<longrightarrow> fst (load_accounts t rs d x) = d)"
  using assms
proof (induction rs arbitrary: d x)
  case (Cons r rs)
  have r: "ir_id r \<noteq> []" "\<forall>r\<in>set rs. ir_id r \<noteq> []" using Cons.prems by auto
  note v = upsert_views [OF r(1), of t x]
  have step: "load_accounts t (r # rs) d x = load_accounts t rs (if stamp x (ir_id r) = None then Suc d else d) (snd (upsertAccount t r x))"
    by (subst load_accounts.simps, subst v(1)) (simp add: stamp_def Let_def)
  show ?case
    unfolding step using Cons.IH [OF r(2), of "if stamp x (ir_id r) = None then Suc d else d" "snd (upsertAccount t r x)"] v(2-5)
    by (auto split: if_splits)
qed simp

lemma clear_views:
  "ix_by_id (clear_sets x) = ix_by_id x" "ix_pending (clear_sets x) = ix_pending x" "ix_generation (clear_sets x) = ix_generation x"
  "stamp (clear_sets x) = stamp x"
  by (auto simp: clear_sets_def stamp_def jm_get_map_vals fun_eq_iff option.map_comp o_def intro!: option.map_cong0)

text \<open>An entry as the pass builds it from a row, up to its identity and its stamp.\<close>

definition entry_of :: "int \<Rightarrow> trade_row \<Rightarrow> trade_entry \<Rightarrow> bool" where
  "entry_of t r e \<longleftrightarrow> e = (buildTradeEntry t index_reset r)\<lparr>te_ref := te_ref e, te_gen := te_gen e\<rparr>"

definition order_of :: "pending_row \<Rightarrow> pending_entry \<Rightarrow> bool" where
  "order_of r e \<longleftrightarrow> e = (buildPendingEntry index_reset r)\<lparr>pe_gen := pe_gen e\<rparr>"

lemma entry_of_build: "entry_of t r (buildTradeEntry t x r)"
  by (simp add: entry_of_def buildTradeEntry_def)

lemma order_of_build: "order_of r (buildPendingEntry x r)"
  by (simp add: order_of_def buildPendingEntry_def)

lemma addTrade_views:
  fixes t r x
  assumes r: "tr_id r \<noteq> []" "tr_instrument r \<noteq> []"
  defines "y \<equiv> snd (addTrade t (Some r) None x)"
  shows "ix_by_id y = jm_set (tr_id r) (buildTradeEntry t x r) (ix_by_id x)" "ix_pending y = ix_pending x"
    and "ix_generation y = ix_generation x" "stamp y a = stamp x a"
    and "lists_order y a k = lists_order x a k"
    and "lists_trade y a k \<longleftrightarrow> lists_trade x a k \<or> (a = tr_account r \<and> k = tr_id r \<and> stamp x a \<noteq> None)"
proof -
  note p = addTrade_parts [OF r, of t None x, simplified, folded y_def]
  show "ix_by_id y = jm_set (tr_id r) (buildTradeEntry t x r) (ix_by_id x)" "ix_pending y = ix_pending x" "ix_generation y = ix_generation x"
    using p(1,3,6) by simp_all
  obtain v where v: "ix_accounts y = jm_upd (tr_account r) (\<lambda>a. a\<lparr>ae_trades := js_add (tr_id r) (ae_trades a)\<rparr>)
      (case jm_get (ix_by_id x) (tr_id r) of None \<Rightarrow> ix_accounts x | Some p \<Rightarrow> jm_upd (te_account p) (\<lambda>a. a\<lparr>ae_floating := v a\<rparr>) (ix_accounts x))"
    using p(7) unfolding option.case(1) by (elim exE)
  show "stamp y a = stamp x a" "lists_order y a k = lists_order x a k"
    "lists_trade y a k \<longleftrightarrow> lists_trade x a k \<or> (a = tr_account r \<and> k = tr_id r \<and> stamp x a \<noteq> None)"
    by (auto simp: stamp_def lists_trade_def lists_order_def v jm_get_upd option.map_comp o_def split: option.splits)
qed

lemma load_trades_views:
  fixes t rs
  assumes "\<forall>r\<in>set rs. tr_id r \<noteq> [] \<and> tr_instrument r \<noteq> []" "distinct (map tr_id rs)"
  defines "y \<equiv> \<lambda>d x. snd (load_trades t rs d x)"
  shows "ix_pending (y d x) = ix_pending x \<and> ix_generation (y d x) = ix_generation x \<and> stamp (y d x) = stamp x \<and> lists_order (y d x) = lists_order x \<and>
    (\<forall>k. k \<notin> tr_id ` set rs \<longrightarrow> jm_get (ix_by_id (y d x)) k = jm_get (ix_by_id x) k) \<and>
    (\<forall>r\<in>set rs. \<exists>e. jm_get (ix_by_id (y d x)) (tr_id r) = Some e \<and> entry_of t r e \<and> te_gen e = ix_generation x) \<and>
    (\<forall>a k. lists_trade (y d x) a k \<longleftrightarrow> lists_trade x a k \<or> (\<exists>r\<in>set rs. a = tr_account r \<and> k = tr_id r \<and> stamp x a \<noteq> None)) \<and>
    ((\<forall>r\<in>set rs. jm_get (ix_by_id x) (tr_id r) \<noteq> None) \<longrightarrow> fst (load_trades t rs d x) = d)"
  using assms(1,2) unfolding y_def
proof (induction rs arbitrary: d x)
  case (Cons r rs)
  have r: "tr_id r \<noteq> []" "tr_instrument r \<noteq> []" and rs: "\<forall>r\<in>set rs. tr_id r \<noteq> [] \<and> tr_instrument r \<noteq> []" "distinct (map tr_id rs)"
    and new: "tr_id r \<notin> tr_id ` set rs" using Cons.prems by auto
  note v = addTrade_views [OF r, of t x]
  let ?d = "if jm_get (ix_by_id x) (tr_id r) = None then Suc d else d"
  let ?x = "snd (addTrade t (Some r) None x)"
  have step: "load_trades t (r # rs) d x = load_trades t rs ?d ?x" by simp
  have st: "stamp ?x = stamp x" "lists_order ?x = lists_order x" using v(4,5) by (auto simp: fun_eq_iff)
  note IH = Cons.IH [OF rs, of ?d ?x, unfolded st v(2,3)]
  have here: "jm_get (ix_by_id ?x) (tr_id r) = Some (buildTradeEntry t x r)" by (simp add: v(1) jm.get_upd)
  have gen: "te_gen (buildTradeEntry t x r) = ix_generation x" by (simp add: buildTradeEntry_def)
  show ?case
    unfolding step using IH new here gen entry_of_build [of t r x] v(6)
    by (auto simp: v(1) jm.get_upd)
qed (simp add: fun_eq_iff)

lemma addPending_views:
  fixes t r x
  assumes r: "pr_id r \<noteq> []" "pr_instrument r \<noteq> []"
  defines "y \<equiv> snd (addPending t (Some r) None x)"
  shows "ix_pending y = jm_set (pr_id r) (buildPendingEntry x r) (ix_pending x)" "ix_by_id y = ix_by_id x"
    and "ix_generation y = ix_generation x" "stamp y a = stamp x a"
    and "lists_trade y a k = lists_trade x a k"
    and "lists_order y a k \<longleftrightarrow> lists_order x a k \<or> (a = pr_account r \<and> k = pr_id r \<and> stamp x a \<noteq> None)"
  using r by (auto simp: y_def addPending_def Let_def buildPendingEntry_def stamp_def lists_trade_def lists_order_def upd_account_def jm_get_upd option.map_comp o_def
      split: option.splits)

lemma load_pending_views:
  fixes t rs
  assumes "\<forall>r\<in>set rs. pr_id r \<noteq> [] \<and> pr_instrument r \<noteq> []" "distinct (map pr_id rs)"
  defines "y \<equiv> \<lambda>d x. snd (load_pending t rs d x)"
  shows "ix_by_id (y d x) = ix_by_id x \<and> ix_generation (y d x) = ix_generation x \<and> stamp (y d x) = stamp x \<and> lists_trade (y d x) = lists_trade x \<and>
    (\<forall>k. k \<notin> pr_id ` set rs \<longrightarrow> jm_get (ix_pending (y d x)) k = jm_get (ix_pending x) k) \<and>
    (\<forall>r\<in>set rs. \<exists>e. jm_get (ix_pending (y d x)) (pr_id r) = Some e \<and> order_of r e \<and> pe_gen e = ix_generation x) \<and>
    (\<forall>a k. lists_order (y d x) a k \<longleftrightarrow> lists_order x a k \<or> (\<exists>r\<in>set rs. a = pr_account r \<and> k = pr_id r \<and> stamp x a \<noteq> None)) \<and>
    ((\<forall>r\<in>set rs. jm_get (ix_pending x) (pr_id r) \<noteq> None) \<longrightarrow> fst (load_pending t rs d x) = d)"
  using assms(1,2) unfolding y_def
proof (induction rs arbitrary: d x)
  case (Cons r rs)
  have r: "pr_id r \<noteq> []" "pr_instrument r \<noteq> []" and rs: "\<forall>r\<in>set rs. pr_id r \<noteq> [] \<and> pr_instrument r \<noteq> []" "distinct (map pr_id rs)"
    and new: "pr_id r \<notin> pr_id ` set rs" using Cons.prems by auto
  note v = addPending_views [OF r, of t x]
  let ?d = "if jm_get (ix_pending x) (pr_id r) = None then Suc d else d"
  let ?x = "snd (addPending t (Some r) None x)"
  have step: "load_pending t (r # rs) d x = load_pending t rs ?d ?x" by simp
  have st: "stamp ?x = stamp x" "lists_trade ?x = lists_trade x" using v(4,5) by (auto simp: fun_eq_iff)
  note IH = Cons.IH [OF rs, of ?d ?x, unfolded st v(2,3)]
  have here: "jm_get (ix_pending ?x) (pr_id r) = Some (buildPendingEntry x r)" by (simp add: v(1) jm.get_upd)
  have gen: "pe_gen (buildPendingEntry x r) = ix_generation x" by (simp add: buildPendingEntry_def)
  show ?case
    unfolding step using IH new here gen order_of_build [of r x] v(6)
    by (auto simp: v(1) jm.get_upd)
qed (simp add: fun_eq_iff)

section \<open>Evictions\<close>

lemma evict_fold:
  "evict st rem es d ix = (d + length (filter (\<lambda>e. st (snd e)) es), fold rem (map fst (filter (\<lambda>e. st (snd e)) es)) ix)"
  by (induction es arbitrary: d ix) auto

lemma removeTrade_views:
  fixes k x
  defines "y \<equiv> snd (removeTrade k x)"
  shows "jm_get (ix_by_id y) j = (if j = k then None else jm_get (ix_by_id x) j)" "ix_pending y = ix_pending x"
    and "ix_generation y = ix_generation x" "stamp y a = stamp x a" "lists_order y a j = lists_order x a j"
    and "j \<noteq> k \<Longrightarrow> lists_trade y a j = lists_trade x a j" "lists_trade y a j \<Longrightarrow> lists_trade x a j"
  by (auto simp: y_def removeTrade_def Let_def stamp_def lists_trade_def lists_order_def upd_account_def jm_simps option.map_comp o_def split: option.splits if_splits)

lemma removePending_views:
  fixes k x
  defines "y \<equiv> snd (removePending k x)"
  shows "jm_get (ix_pending y) j = (if j = k then None else jm_get (ix_pending x) j)" "ix_by_id y = ix_by_id x"
    and "ix_generation y = ix_generation x" "stamp y a = stamp x a" "lists_trade y a j = lists_trade x a j"
    and "j \<noteq> k \<Longrightarrow> lists_order y a j = lists_order x a j" "lists_order y a j \<Longrightarrow> lists_order x a j"
  by (auto simp: y_def removePending_def Let_def stamp_def lists_trade_def lists_order_def upd_account_def jm_simps option.map_comp o_def split: option.splits if_splits)

lemma removeTrades_views:
  fixes ks x
  defines "y \<equiv> fold (\<lambda>i x. snd (removeTrade i x)) ks x"
  shows "(\<forall>j. jm_get (ix_by_id y) j = (if j \<in> set ks then None else jm_get (ix_by_id x) j)) \<and> ix_pending y = ix_pending x \<and>
    ix_generation y = ix_generation x \<and> stamp y = stamp x \<and> lists_order y = lists_order x \<and>
    (\<forall>a j. j \<notin> set ks \<longrightarrow> lists_trade y a j = lists_trade x a j) \<and> (\<forall>a j. lists_trade y a j \<longrightarrow> lists_trade x a j)"
  unfolding y_def
proof (induction ks arbitrary: x)
  case (Cons k ks)
  show ?case using Cons.IH [of "snd (removeTrade k x)"] by (auto simp: removeTrade_views(1-6) fun_eq_iff intro: removeTrade_views(7) [where k = k and x = x])
qed simp

lemma removePendings_views:
  fixes ks x
  defines "y \<equiv> fold (\<lambda>i x. snd (removePending i x)) ks x"
  shows "(\<forall>j. jm_get (ix_pending y) j = (if j \<in> set ks then None else jm_get (ix_pending x) j)) \<and> ix_by_id y = ix_by_id x \<and>
    ix_generation y = ix_generation x \<and> stamp y = stamp x \<and> lists_trade y = lists_trade x \<and>
    (\<forall>a j. j \<notin> set ks \<longrightarrow> lists_order y a j = lists_order x a j) \<and> (\<forall>a j. lists_order y a j \<longrightarrow> lists_order x a j)"
  unfolding y_def
proof (induction ks arbitrary: x)
  case (Cons k ks)
  show ?case using Cons.IH [of "snd (removePending k x)"] by (auto simp: removePending_views(1-6) fun_eq_iff intro: removePending_views(7) [where k = k and x = x])
qed simp

text \<open>An account without trades or orders leaves nothing else behind.\<close>

definition bare :: "trade_index \<Rightarrow> string \<Rightarrow> bool" where
  "bare x a \<longleftrightarrow> (\<forall>e. jm_get (ix_accounts x) a = Some e \<longrightarrow> ae_trades e = [] \<and> ae_pending e = [])"

lemma removeAccount_bare:
  "bare x a \<Longrightarrow> snd (removeAccount a x) = x\<lparr>ix_accounts := jm_del a (ix_accounts x)\<rparr> \<or> (jm_get (ix_accounts x) a = None \<and> snd (removeAccount a x) = x)"
  by (auto simp: removeAccount_def bare_def split: option.split)

lemma removeAccount_views:
  assumes "bare x a"
  defines "y \<equiv> snd (removeAccount a x)"
  shows "jm_get (ix_accounts y) b = (if b = a then None else jm_get (ix_accounts x) b)" "ix_by_id y = ix_by_id x" "ix_pending y = ix_pending x"
    and "ix_generation y = ix_generation x"
  using removeAccount_bare [OF assms(1)] by (auto simp: y_def jm.get_rem)

lemma removeAccounts_views:
  fixes as x
  assumes "\<forall>a\<in>set as. bare x a"
  defines "y \<equiv> fold (\<lambda>i x. snd (removeAccount i x)) as x"
  shows "(\<forall>b. jm_get (ix_accounts y) b = (if b \<in> set as then None else jm_get (ix_accounts x) b)) \<and> ix_by_id y = ix_by_id x \<and>
    ix_pending y = ix_pending x \<and> ix_generation y = ix_generation x"
  using assms(1) unfolding y_def
proof (induction as arbitrary: x)
  case (Cons a as)
  have a: "bare x a" using Cons.prems by simp
  have "\<forall>b\<in>set as. bare (snd (removeAccount a x)) b"
    using Cons.prems by (auto simp: bare_def removeAccount_views [OF a])
  then show ?case using Cons.IH [of "snd (removeAccount a x)"] by (auto simp: removeAccount_views [OF a])
qed simp

section \<open>The pass as a whole\<close>

text \<open>What the pass has built before it evicts: \<open>y\<close> from \<open>x\<close>.\<close>

definition loaded :: "int \<Rightarrow> index_row list \<Rightarrow> trade_row list \<Rightarrow> pending_row list \<Rightarrow> trade_index \<Rightarrow> trade_index \<Rightarrow> bool" where
  "loaded t as ts ps x y \<longleftrightarrow>
     ix_generation y = Suc (ix_generation x) \<and>
     (\<forall>k. k \<notin> tr_id ` set ts \<longrightarrow> jm_get (ix_by_id y) k = jm_get (ix_by_id x) k) \<and>
     (\<forall>r\<in>set ts. \<exists>e. jm_get (ix_by_id y) (tr_id r) = Some e \<and> entry_of t r e \<and> te_gen e = Suc (ix_generation x)) \<and>
     (\<forall>k. k \<notin> pr_id ` set ps \<longrightarrow> jm_get (ix_pending y) k = jm_get (ix_pending x) k) \<and>
     (\<forall>r\<in>set ps. \<exists>e. jm_get (ix_pending y) (pr_id r) = Some e \<and> order_of r e \<and> pe_gen e = Suc (ix_generation x)) \<and>
     (\<forall>a. stamp y a = (if a \<in> ir_id ` set as then Some (Suc (ix_generation x)) else stamp x a)) \<and>
     (\<forall>a\<in>ir_id ` set as. \<forall>k. lists_trade y a k \<longleftrightarrow> (\<exists>r\<in>set ts. a = tr_account r \<and> k = tr_id r)) \<and>
     (\<forall>a\<in>ir_id ` set as. \<forall>k. lists_order y a k \<longleftrightarrow> (\<exists>r\<in>set ps. a = pr_account r \<and> k = pr_id r))"

definition answered :: "index_row list \<Rightarrow> trade_row list \<Rightarrow> pending_row list \<Rightarrow> bool" where
  "answered as ts ps \<longleftrightarrow>
     (\<forall>r\<in>set as. ir_id r \<noteq> []) \<and>
     (\<forall>r\<in>set ts. tr_id r \<noteq> [] \<and> tr_instrument r \<noteq> [] \<and> tr_account r \<in> ir_id ` set as) \<and> distinct (map tr_id ts) \<and>
     (\<forall>r\<in>set ps. pr_id r \<noteq> [] \<and> pr_instrument r \<noteq> [] \<and> pr_account r \<in> ir_id ` set as) \<and> distinct (map pr_id ps)"

lemma clear_lists:
  assumes "stamp x a = Some (ix_generation x)"
  shows "lists_trade (clear_sets x) a k = False" "lists_order (clear_sets x) a k = False"
  using assms by (auto simp: clear_sets_def stamp_def lists_trade_def lists_order_def jm_get_map_vals)

lemma passes_load:
  assumes rows: "answered as ts ps"
    and x1: "load_accounts t as 0 (x\<lparr>ix_generation := Suc (ix_generation x)\<rparr>) = (d1, x1)"
    and x3: "load_trades t ts d1 (clear_sets (resolve_accounts l as x1)) = (d2, x3)"
    and x4: "load_pending t ps d2 x3 = (d3, x4)"
  shows "loaded t as ts ps x x4"
    and "(\<forall>r\<in>set as. stamp x (ir_id r) \<noteq> None) \<Longrightarrow> (\<forall>r\<in>set ts. jm_get (ix_by_id x) (tr_id r) \<noteq> None) \<Longrightarrow>
      (\<forall>r\<in>set ps. jm_get (ix_pending x) (pr_id r) \<noteq> None) \<Longrightarrow> d3 = 0"
proof -
  let ?x0 = "x\<lparr>ix_generation := Suc (ix_generation x)\<rparr>"
  have x0: "stamp ?x0 = stamp x" by (simp add: stamp_def fun_eq_iff)
  define x2 where "x2 = resolve_accounts l as x1"
  have r1: "\<forall>r\<in>set as. ir_id r \<noteq> []" and r2: "\<forall>r\<in>set ts. tr_id r \<noteq> [] \<and> tr_instrument r \<noteq> []" "distinct (map tr_id ts)"
    and r3: "\<forall>r\<in>set ps. pr_id r \<noteq> [] \<and> pr_instrument r \<noteq> []" "distinct (map pr_id ps)"
    using rows by (auto simp: answered_def)
  note v1 = load_accounts_views [OF r1, of t 0 ?x0, unfolded x1 snd_conv fst_conv x0, simplified]
  have v2: "same_shape x1 x2" by (simp add: x2_def same_shape_resolve_accounts)
  note v3 = load_trades_views [OF r2, where t = t and d = d1 and x = "clear_sets x2", unfolded x3 [folded x2_def] snd_conv fst_conv]
  note v4 = load_pending_views [OF r3, where t = t and d = d2 and x = x3, unfolded x4 snd_conv fst_conv]
  have gen: "ix_generation x2 = Suc (ix_generation x)" and st: "stamp x2 a = (if a \<in> ir_id ` set as then Some (Suc (ix_generation x)) else stamp x a)"
    and maps: "ix_by_id x2 = ix_by_id x" "ix_pending x2 = ix_pending x" for a
    using v1 v2 by (auto simp: same_shape_def)
  have cl: "a \<in> ir_id ` set as \<Longrightarrow> \<not> lists_trade (clear_sets x2) a k" "a \<in> ir_id ` set as \<Longrightarrow> \<not> lists_order (clear_sets x2) a k" for a k
    using clear_lists [of x2 a k] st gen by auto
  show "loaded t as ts ps x x4"
    unfolding loaded_def using v3 v4 gen st maps cl by (auto simp: clear_views)
  show "d3 = 0" if "\<forall>r\<in>set as. stamp x (ir_id r) \<noteq> None" "\<forall>r\<in>set ts. jm_get (ix_by_id x) (tr_id r) \<noteq> None"
    "\<forall>r\<in>set ps. jm_get (ix_pending x) (pr_id r) \<noteq> None"
    using that v1 v3 v4 maps by (simp add: clear_views)
qed

lemma loaded_shape: "loaded t as ts ps x y \<Longrightarrow> same_shape y z \<Longrightarrow> loaded t as ts ps x z"
  by (simp add: loaded_def same_shape_def)

text \<open>What the index is to be after the pass, in terms of the rows alone.\<close>

definition mirrors :: "int \<Rightarrow> index_row list \<Rightarrow> trade_row list \<Rightarrow> pending_row list \<Rightarrow> trade_index \<Rightarrow> bool" where
  "mirrors t as ts ps ix \<longleftrightarrow>
     (\<forall>k. jm_get (ix_by_id ix) k \<noteq> None \<longleftrightarrow> k \<in> tr_id ` set ts) \<and>
     (\<forall>r\<in>set ts. \<exists>e. jm_get (ix_by_id ix) (tr_id r) = Some e \<and> entry_of t r e) \<and>
     (\<forall>k. jm_get (ix_pending ix) k \<noteq> None \<longleftrightarrow> k \<in> pr_id ` set ps) \<and>
     (\<forall>r\<in>set ps. \<exists>e. jm_get (ix_pending ix) (pr_id r) = Some e \<and> order_of r e) \<and>
     (\<forall>a. jm_get (ix_accounts ix) a \<noteq> None \<longleftrightarrow> a \<in> ir_id ` set as) \<and>
     (\<forall>a k. lists_trade ix a k \<longleftrightarrow> (\<exists>r\<in>set ts. a = tr_account r \<and> k = tr_id r)) \<and>
     (\<forall>a k. lists_order ix a k \<longleftrightarrow> (\<exists>r\<in>set ps. a = pr_account r \<and> k = pr_id r))"

lemma filter_keys:
  "jm_wf m \<Longrightarrow> k \<in> set (map fst (filter (\<lambda>e. st (snd e)) m)) \<longleftrightarrow> (\<exists>e. jm_get m k = Some e \<and> st e)"
  by (auto simp: jm_get_mem image_iff)

lemma filter_none: "jm_wf m \<Longrightarrow> (\<forall>k e. jm_get m k = Some e \<longrightarrow> \<not> st e) \<Longrightarrow> length (filter (\<lambda>e. st (snd e)) m) = 0"
  by (auto simp: jm_get_mem filter_empty_conv)

lemma index_wf:
  "index_ok acct ix \<Longrightarrow> jm_wf (ix_by_id ix) \<and> jm_wf (ix_pending ix) \<and> jm_wf (ix_accounts ix)"
  by (simp add: index_ok_def agree_def)

lemma stamp_gen: "jm_get (ix_accounts x) a = Some e \<Longrightarrow> stamp x a = Some (ae_gen e)" "stamp x a = None \<longleftrightarrow> jm_get (ix_accounts x) a = None"
  by (simp_all add: stamp_def)

text \<open>Which entries of the loaded state are stale.\<close>

lemma stale_entries:
  assumes l: "loaded t as ts ps x z" and ok: "index_ok acct x"
  shows "jm_get (ix_by_id z) k = Some e \<Longrightarrow> te_gen e = ix_generation z \<longleftrightarrow> k \<in> tr_id ` set ts"
    and "jm_get (ix_pending z) k = Some f \<Longrightarrow> pe_gen f = ix_generation z \<longleftrightarrow> k \<in> pr_id ` set ps"
    and "stamp z a = Some g \<Longrightarrow> g = ix_generation z \<longleftrightarrow> a \<in> ir_id ` set as"
proof -
  have gz: "ix_generation z = Suc (ix_generation x)" using l by (simp add: loaded_def)
  have old: "jm_get (ix_by_id x) k = Some e \<Longrightarrow> te_gen e \<le> ix_generation x" "jm_get (ix_pending x) k = Some f \<Longrightarrow> pe_gen f \<le> ix_generation x"
    "stamp x a = Some g \<Longrightarrow> g \<le> ix_generation x" for k e f a g
    using ok by (auto simp: index_ok_def stamp_def)
  show "jm_get (ix_by_id z) k = Some e \<Longrightarrow> te_gen e = ix_generation z \<longleftrightarrow> k \<in> tr_id ` set ts"
    using l old(1) [of k e] by (cases "k \<in> tr_id ` set ts") (auto simp: loaded_def gz)
  show "jm_get (ix_pending z) k = Some f \<Longrightarrow> pe_gen f = ix_generation z \<longleftrightarrow> k \<in> pr_id ` set ps"
    using l old(2) [of k f] by (cases "k \<in> pr_id ` set ps") (auto simp: loaded_def gz)
  show "stamp z a = Some g \<Longrightarrow> g = ix_generation z \<longleftrightarrow> a \<in> ir_id ` set as"
    using l old(3) [of a g] by (cases "a \<in> ir_id ` set as") (auto simp: loaded_def gz)
qed

lemma entry_of_account: "entry_of t r e \<Longrightarrow> te_account e = tr_account r" "order_of q f \<Longrightarrow> pe_account f = pr_account q"
  by (auto simp: entry_of_def order_of_def buildTradeEntry_def buildPendingEntry_def)
    (metis trade_entry.select_convs(2) trade_entry.simps pending_entry.simps)+

lemma loaded_accounts:
  assumes "loaded t as ts ps x z" "index_ok acct z"
  shows "\<forall>r\<in>set ts. acct (tr_id r) = tr_account r" "\<forall>r\<in>set ps. acct (pr_id r) = pr_account r"
  using assms unfolding loaded_def index_ok_def by (metis entry_of_account)+

lemma evict_mirrors:
  assumes l: "loaded t as ts ps x z" and ok: "index_ok acct x" and okz: "index_ok acct z" and rows: "answered as ts ps"
  shows "mirrors t as ts ps (snd (evict_stale d z))"
proof -
  let ?st = "map fst (filter (\<lambda>e. te_gen (snd e) \<noteq> ix_generation z) (ix_by_id z))"
  define x1 where "x1 = fold (\<lambda>i x. snd (removeTrade i x)) ?st z"
  let ?sp = "map fst (filter (\<lambda>e. pe_gen (snd e) \<noteq> ix_generation z) (ix_pending x1))"
  define x2 where "x2 = fold (\<lambda>i x. snd (removePending i x)) ?sp x1"
  let ?sa = "map fst (filter (\<lambda>e. ae_gen (snd e) \<noteq> ix_generation z) (ix_accounts x2))"
  define x3 where "x3 = fold (\<lambda>i x. snd (removeAccount i x)) ?sa x2"
  have res: "snd (evict_stale d z) = x3"
    unfolding evict_stale_def Let_def evict_fold x1_def x2_def x3_def by simp
  note w = index_wf [OF okz] and se = stale_entries [OF l ok]
  note v1 = removeTrades_views [of ?st z, folded x1_def]
  have ids1: "jm_get (ix_by_id x1) k = (if k \<in> tr_id ` set ts then jm_get (ix_by_id z) k else None)" for k
    using v1 se(1) [of k] filter_keys [of "ix_by_id z" k "\<lambda>e. te_gen e \<noteq> ix_generation z"] w by (cases "jm_get (ix_by_id z) k") auto
  have ok1: "index_ok acct x1" unfolding x1_def by (rule index_ok_fold) (auto intro: index_ok_removeTrade okz)
  note w1 = index_wf [OF ok1] and v2 = removePendings_views [of ?sp x1, folded x2_def]
  have pids: "jm_get (ix_pending x2) k = (if k \<in> pr_id ` set ps then jm_get (ix_pending z) k else None)" for k
    using v1 v2 se(2) [of k] filter_keys [of "ix_pending x1" k "\<lambda>e. pe_gen e \<noteq> ix_generation z"] w1 by (cases "jm_get (ix_pending z) k") auto
  have ok2: "index_ok acct x2" unfolding x2_def by (rule index_ok_fold) (auto intro: index_ok_removePending ok1)
  note w2 = index_wf [OF ok2]
  have st2: "stamp x2 = stamp z" using v1 v2 by simp
  have acc: "k \<in> tr_id ` set ts \<Longrightarrow> acct k \<in> ir_id ` set as" "k \<in> pr_id ` set ps \<Longrightarrow> acct k \<in> ir_id ` set as" for k
    using loaded_accounts [OF l okz] rows by (auto simp: answered_def)
  have stale: "a \<in> set ?sa \<longleftrightarrow> stamp z a \<noteq> None \<and> a \<notin> ir_id ` set as" for a
    using se(3) [of a] filter_keys [of "ix_accounts x2" a "\<lambda>e. ae_gen e \<noteq> ix_generation z"] w2 st2 stamp_gen [of x2 a]
    by (cases "jm_get (ix_accounts x2) a") auto
  have bare: "\<forall>a\<in>set ?sa. bare x2 a"
  proof (intro ballI)
    fix a assume a: "a \<in> set ?sa"
    have "ae_trades e = [] \<and> ae_pending e = []" if "jm_get (ix_accounts x2) a = Some e" for e
    proof -
      have "k \<notin> set (ae_trades e) \<and> k \<notin> set (ae_pending e)" for k
        using that ok2 v2 ids1 pids acc [of k] stale [of a] a unfolding index_ok_def by (metis option.distinct(1))
      then show ?thesis by (metis list.set_intros(1) neq_Nil_conv)
    qed
    then show "bare x2 a" by (simp add: bare_def)
  qed
  note v3 = removeAccounts_views [OF bare, folded x3_def]
  have acc3: "jm_get (ix_accounts x3) a = (if a \<in> ir_id ` set as then jm_get (ix_accounts x2) a else None)" for a
    using v3 stale [of a] stamp_gen(2) [of x2 a] st2 by auto
  have known: "a \<in> ir_id ` set as \<Longrightarrow> jm_get (ix_accounts x2) a \<noteq> None" for a
    using l stamp_gen(2) [of x2 a] st2 by (auto simp: loaded_def)
  have lt: "lists_trade x3 a k \<longleftrightarrow> (\<exists>r\<in>set ts. a = tr_account r \<and> k = tr_id r)" for a k
  proof (cases "a \<in> ir_id ` set as")
    case True
    have "lists_trade x3 a k = lists_trade x2 a k" using True by (simp add: lists_trade_def acc3)
    then have "lists_trade x3 a k = lists_trade x1 a k" using v2 by simp
    moreover have "k \<in> tr_id ` set ts \<Longrightarrow> k \<notin> set ?st"
      using filter_keys [of "ix_by_id z" k "\<lambda>e. te_gen e \<noteq> ix_generation z"] w se(1) [of k] by blast
    moreover have "k \<notin> set ?st \<Longrightarrow> lists_trade x1 a k = lists_trade z a k" "lists_trade x1 a k \<Longrightarrow> lists_trade z a k" using v1 by blast+
    moreover have "lists_trade z a k \<longleftrightarrow> (\<exists>r\<in>set ts. a = tr_account r \<and> k = tr_id r)" using True l unfolding loaded_def by blast
    ultimately show ?thesis by blast
  next
    case False
    then show ?thesis using rows by (auto simp: lists_trade_def acc3 answered_def)
  qed
  have lo: "lists_order x3 a k \<longleftrightarrow> (\<exists>r\<in>set ps. a = pr_account r \<and> k = pr_id r)" for a k
  proof (cases "a \<in> ir_id ` set as")
    case True
    have "lists_order x3 a k = lists_order x2 a k" using True by (simp add: lists_order_def acc3)
    moreover have "k \<in> pr_id ` set ps \<Longrightarrow> k \<notin> set ?sp"
      using filter_keys [of "ix_pending x1" k "\<lambda>e. pe_gen e \<noteq> ix_generation z"] w1 v1 se(2) [of k] by auto
    moreover have "k \<notin> set ?sp \<Longrightarrow> lists_order x2 a k = lists_order z a k" "lists_order x2 a k \<Longrightarrow> lists_order z a k" using v1 v2 by metis+
    moreover have "lists_order z a k \<longleftrightarrow> (\<exists>r\<in>set ps. a = pr_account r \<and> k = pr_id r)" using True l unfolding loaded_def by blast
    ultimately show ?thesis by blast
  next
    case False
    then show ?thesis using rows by (auto simp: lists_order_def acc3 answered_def)
  qed
  have maps: "ix_by_id x3 = ix_by_id x1" "ix_pending x3 = ix_pending x2" using v2 v3 by simp_all
  have "jm_get (ix_by_id x3) k \<noteq> None \<longleftrightarrow> k \<in> tr_id ` set ts" "jm_get (ix_pending x3) k \<noteq> None \<longleftrightarrow> k \<in> pr_id ` set ps" for k
    using l by (auto simp: maps ids1 pids loaded_def)
  moreover have "\<forall>r\<in>set ts. \<exists>e. jm_get (ix_by_id x3) (tr_id r) = Some e \<and> entry_of t r e"
    "\<forall>r\<in>set ps. \<exists>e. jm_get (ix_pending x3) (pr_id r) = Some e \<and> order_of r e"
    using l by (auto simp: maps ids1 pids loaded_def)
  ultimately show ?thesis unfolding res mirrors_def using lt lo acc3 known by auto
qed

text \<open>Nothing is stale when everything the index knew is among the rows.\<close>

lemma evict_nothing:
  assumes l: "loaded t as ts ps x z" and ok: "index_ok acct x" and okz: "index_ok acct z"
    and all: "\<forall>k. jm_get (ix_by_id x) k \<noteq> None \<longrightarrow> k \<in> tr_id ` set ts" "\<forall>k. jm_get (ix_pending x) k \<noteq> None \<longrightarrow> k \<in> pr_id ` set ps"
      "\<forall>a. jm_get (ix_accounts x) a \<noteq> None \<longrightarrow> a \<in> ir_id ` set as"
  shows "fst (evict_stale d z) = d"
proof -
  note w = index_wf [OF okz] and se = stale_entries [OF l ok]
  have all': "jm_get (ix_by_id z) k \<noteq> None \<Longrightarrow> k \<in> tr_id ` set ts" "jm_get (ix_pending z) k \<noteq> None \<Longrightarrow> k \<in> pr_id ` set ps"
    "jm_get (ix_accounts z) a \<noteq> None \<Longrightarrow> a \<in> ir_id ` set as" for k a
    using l all unfolding loaded_def by (metis, metis, metis stamp_gen(2))
  have 1: "length (filter (\<lambda>e. te_gen (snd e) \<noteq> ix_generation z) (ix_by_id z)) = 0"
    by (rule filter_none) (use w se(1) all'(1) in auto)
  have 2: "length (filter (\<lambda>e. pe_gen (snd e) \<noteq> ix_generation z) (ix_pending z)) = 0"
    by (rule filter_none) (use w se(2) all'(2) in auto)
  have 3: "length (filter (\<lambda>e. ae_gen (snd e) \<noteq> ix_generation z) (ix_accounts z)) = 0"
    by (rule filter_none) (use w se(3) all'(3) stamp_gen(1) in \<open>auto, metis\<close>)
  show ?thesis using 1 2 3 unfolding evict_stale_def Let_def evict_fold by simp
qed

lemma reconcile_result:
  assumes ok: "index_ok acct x" and db: "dba_accounts db = Inr as" "dba_trades db = Inr ts" "dba_pending db = Inr ps"
    and total: "\<forall>is. \<exists>m. dba_realized db is = Inr m" and rows: "answered as ts ps" "answers_ok acct db"
  shows "\<exists>s y. fullReconcileFromDB t l db x = (Inr s, y) \<and> index_ok acct y \<and> mirrors t as ts ps y \<and>
    rc_trades s = getTradeCount y \<and> rc_pending s = getPendingCount y \<and> rc_accounts s = getAccountCount y \<and>
    ((\<exists>u. mirrors u as ts ps x) \<longrightarrow> rc_drift s = 0)"
proof -
  let ?x0 = "x\<lparr>ix_generation := Suc (ix_generation x)\<rparr>"
  obtain d1 x1 where x1: "load_accounts t as 0 ?x0 = (d1, x1)" by fastforce
  obtain d2 x3 where x3: "load_trades t ts d1 (clear_sets (resolve_accounts l as x1)) = (d2, x3)" by fastforce
  obtain d3 x4 where x4: "load_pending t ps d2 x3 = (d3, x4)" by fastforce
  define needs where "needs = needs_realized t x4"
  obtain m where m: "(if needs = [] then Inr [] else dba_realized db needs) = (Inr m :: string + num jsmap)"
    using total by (cases "needs = []") auto
  define z where "z = seed_realized t m needs x4"
  obtain d4 x5 where x5: "evict_stale d3 z = (d4, x5)" by fastforce
  define y where "y = x5\<lparr>ix_reconciled_at := t, ix_ready := True\<rparr>"
  have res: "fullReconcileFromDB t l db x =
      (Inr \<lparr>rc_trades = getTradeCount y, rc_pending = getPendingCount y, rc_accounts = getAccountCount y, rc_drift = d4\<rparr>, y)"
    using db x1 x3 x4 m x5 unfolding fullReconcileFromDB_def Let_def needs_def z_def y_def by simp
  have l4: "loaded t as ts ps x x4" by (rule passes_load(1) [OF rows(1) x1 x3 x4])
  have lz: "loaded t as ts ps x z" unfolding z_def by (rule loaded_shape [OF l4 same_shape_seed])
  have r2: "rows_ok acct ts" "prows_ok acct ps" using rows(2) db by (auto simp: answers_ok_def)
  have "index_ok acct x1" using index_ok_load_accounts [OF index_ok_next [OF ok], of t as 0] x1 by simp
  then have "index_ok acct (clear_sets (resolve_accounts l as x1))" by (intro index_ok_clear index_ok_resolve_accounts)
  then have "index_ok acct x3" using index_ok_load_trades [OF r2(1), of _ t d1] x3 by (metis snd_conv)
  then have "index_ok acct x4" using index_ok_load_pending [OF r2(2), of _ t d2] x4 by (metis snd_conv)
  then have okz: "index_ok acct z" unfolding z_def by (rule index_ok_seed)
  have ok5: "index_ok acct x5" using index_ok_evict_stale [OF okz, of d3] x5 by simp
  have my: "mirrors t as ts ps y"
    using evict_mirrors [OF lz ok okz rows(1), of d3] x5 by (simp add: y_def mirrors_def lists_trade_def lists_order_def)
  have "d4 = 0" if u: "mirrors u as ts ps x" for u
  proof -
    have "d3 = 0"
      by (rule passes_load(2) [OF rows(1) x1 x3 x4]) (use u in \<open>auto simp: mirrors_def stamp_gen(2)\<close>)
    moreover have "fst (evict_stale d3 z) = d3"
      by (rule evict_nothing [OF lz ok okz]) (use u in \<open>simp_all add: mirrors_def\<close>)
    ultimately show ?thesis using x5 by simp
  qed
  then show ?thesis using res my index_ok_flags [OF ok5] unfolding y_def by auto
qed

lemma mirrors_counts:
  assumes "index_ok acct y" "mirrors t as ts ps y" "answered as ts ps"
  shows "getTradeCount y = length ts" "getPendingCount y = length ps" "getAccountCount y = card (ir_id ` set as)"
proof -
  have len: "jm_wf m \<Longrightarrow> (\<forall>k. jm_get m k \<noteq> None \<longleftrightarrow> k \<in> K) \<Longrightarrow> length m = card K" for K and m :: "'v jsmap"
    by (metis distinct_card jm_keys_def jm_keys_get jm_wf_def length_map set_eqI)
  have card: "distinct (map f xs) \<Longrightarrow> card (f ` set xs) = length xs" for f :: "'a \<Rightarrow> string" and xs
    by (metis distinct_card length_map set_map)
  note w = index_wf [OF assms(1)]
  show "getTradeCount y = length ts" "getPendingCount y = length ps" "getAccountCount y = card (ir_id ` set as)"
    using w assms(2,3) len card unfolding getTradeCount_def getPendingCount_def getAccountCount_def mirrors_def answered_def
    by (metis, metis, metis)
qed

lemma index_ok_steps: "list_all (op_ok acct) ops \<Longrightarrow> index_ok acct (foldl (\<lambda>ix p. index_step p ix) index_reset ops)"
  by (induction ops rule: rev_induct) (simp_all add: index_ok_empty index_ok_step)

section \<open>Properties\<close>

text \<open>C22. Reconciliation makes the index a mirror of the database: from any state its operations can
  reach, once every query is answered the pass succeeds, and what it leaves behind are exactly the
  open trades, pending orders and active accounts of the rows, each entry built from its row and listed by its account,
  the counts it reports being those of the rows; entries the rows no longer have are gone.\<close>

theorem reconcile_mirrors_database:
  assumes "list_all (op_ok acct) ops" and "x = foldl (\<lambda>ix p. index_step p ix) index_reset ops"
    and "dba_accounts db = Inr as" "dba_trades db = Inr ts" "dba_pending db = Inr ps" "\<forall>is. \<exists>m. dba_realized db is = Inr m"
    and "answered as ts ps" "answers_ok acct db"
  shows "\<exists>s y. fullReconcileFromDB t l db x = (Inr s, y) \<and> mirrors t as ts ps y \<and>
    rc_trades s = length ts \<and> rc_pending s = length ps \<and> rc_accounts s = card (ir_id ` set as)"
proof -
  have ok: "index_ok acct x" unfolding assms(2) by (rule index_ok_steps [OF assms(1)])
  show ?thesis using reconcile_result [OF ok assms(3-8), of t l] mirrors_counts [OF _ _ assms(7)] by metis
qed

text \<open>Two states that list the same trades, orders and accounts, and list them under the same accounts.\<close>

definition same_listing :: "trade_index \<Rightarrow> trade_index \<Rightarrow> bool" where
  "same_listing x y \<longleftrightarrow>
     (\<forall>k. jm_get (ix_by_id y) k = None \<longleftrightarrow> jm_get (ix_by_id x) k = None) \<and>
     (\<forall>k. jm_get (ix_pending y) k = None \<longleftrightarrow> jm_get (ix_pending x) k = None) \<and>
     (\<forall>k. jm_get (ix_accounts y) k = None \<longleftrightarrow> jm_get (ix_accounts x) k = None) \<and>
     (\<forall>a k. lists_trade y a k \<longleftrightarrow> lists_trade x a k) \<and> (\<forall>a k. lists_order y a k \<longleftrightarrow> lists_order x a k)"

lemma mirrors_same: "mirrors t as ts ps x \<Longrightarrow> mirrors u as ts ps y \<Longrightarrow> same_listing x y"
  unfolding mirrors_def same_listing_def by metis

text \<open>C23. A second pass corrects nothing: reconciling again against the same answers, at any later
  time and with any settings of the models, reports no drift, adds and removes no trade, order or account,
  lists each under the account it was listed under, and leaves the index a mirror of the rows.\<close>

theorem second_pass_finds_no_drift:
  assumes "list_all (op_ok acct) ops" and "x = foldl (\<lambda>ix p. index_step p ix) index_reset ops"
    and "dba_accounts db = Inr as" "dba_trades db = Inr ts" "dba_pending db = Inr ps" "\<forall>is. \<exists>m. dba_realized db is = Inr m"
    and "answered as ts ps" "answers_ok acct db"
  shows "\<exists>s y. fullReconcileFromDB u m db (snd (fullReconcileFromDB t l db x)) = (Inr s, y) \<and> rc_drift s = 0 \<and>
    same_listing (snd (fullReconcileFromDB t l db x)) y \<and> mirrors u as ts ps y"
proof -
  have ok: "index_ok acct x" unfolding assms(2) by (rule index_ok_steps [OF assms(1)])
  obtain s y where y: "fullReconcileFromDB t l db x = (Inr s, y)" "index_ok acct y" "mirrors t as ts ps y"
    using reconcile_result [OF ok assms(3-8), of t l] by blast
  obtain s' z where z: "fullReconcileFromDB u m db y = (Inr s', z)" "mirrors u as ts ps z" "rc_drift s' = 0"
    using reconcile_result [OF y(2) assms(3-8), of u m] y(3) by auto
  show ?thesis using z mirrors_same [OF y(3) z(2)] y(1) by simp
qed

definition demo_order :: pending_row where
  "demo_order = \<lparr>pr_id = ''o1'', pr_account = ''a1'', pr_instrument = ''EURUSD'', pr_direction = ''buy'', pr_type = ''limit'',
     pr_price = JNumeric 1, pr_lots = JNumeric 1, pr_oco = None\<rparr>"

definition demo_answers :: db_answers where
  "demo_answers = \<lparr>dba_accounts = Inr [demo_index_row], dba_trades = Inr [demo_trade], dba_pending = Inr [demo_order],
     dba_realized = (\<lambda>_. Inr [])\<rparr>"

lemmas demo_answer_simps = demo_answers_def demo_index_row_def demo_trade_def demo_order_def answered_def answers_ok_def rows_ok_def prows_ok_def

theorem reconcile_mirrors_database_witness:
  "\<exists>s y. fullReconcileFromDB 0 (\<lambda>_. Inr None) demo_answers (foldl (\<lambda>ix p. index_step p ix) index_reset
       [Upsert 0 demo_index_row, AddTrade 0 (Some (demo_trade\<lparr>tr_id := ''t0''\<rparr>)) None]) = (Inr s, y) \<and>
     mirrors 0 [demo_index_row] [demo_trade] [demo_order] y \<and> rc_trades s = 1 \<and> rc_pending s = 1 \<and> rc_accounts s = 1"
  using reconcile_mirrors_database [where acct = "\<lambda>_. ''a1''" and ops = "[Upsert 0 demo_index_row, AddTrade 0 (Some (demo_trade\<lparr>tr_id := ''t0''\<rparr>)) None]"
      and db = demo_answers and as = "[demo_index_row]" and ts = "[demo_trade]" and ps = "[demo_order]" and t = 0 and l = "\<lambda>_. Inr None", OF _ refl]
  by (simp add: demo_answer_simps)

theorem second_pass_finds_no_drift_witness:
  "\<exists>s y. fullReconcileFromDB 5 (\<lambda>_. Inl ()) demo_answers (snd (fullReconcileFromDB 0 (\<lambda>_. Inr None) demo_answers index_reset)) = (Inr s, y) \<and> rc_drift s = 0 \<and>
     same_listing (snd (fullReconcileFromDB 0 (\<lambda>_. Inr None) demo_answers index_reset)) y \<and> mirrors 5 [demo_index_row] [demo_trade] [demo_order] y"
  using second_pass_finds_no_drift [where acct = "\<lambda>_. ''a1''" and ops = "[]" and x = index_reset
      and db = demo_answers and as = "[demo_index_row]" and ts = "[demo_trade]" and ps = "[demo_order]" and u = 5 and m = "\<lambda>_. Inl ()" and t = 0 and l = "\<lambda>_. Inr None"]
  by (simp add: demo_answer_simps)

end
