(* ===== verification/Ledger.thy ===== *)
theory Ledger
  imports Database
begin

text \<open>
  utils/balanceAdjustments.js and domain/drawdownAnchors.js: the ledger-backed balance mutation
  and the sanctioned writers of the drawdown anchors. The lemmas give the exact effect of each
  on whole-cent amounts, the errors, and how far a sub-cent amount lets the balance drift from
  the ledger.
\<close>

section \<open>Balance adjustments\<close>

record adj_result =
  adj_ledger_id :: int
  adj_account :: string
  adj_user :: "string option"
  adj_amount :: num
  adj_before :: num
  adj_after :: num
  adj_peak :: num

text \<open>The UPDATE: current_balance + $1, and peak_balance raised to it.\<close>

definition credit_stmt :: "string \<Rightarrow> num \<Rightarrow> db \<Rightarrow> string + account option \<times> db" where
  "credit_stmt i x t =
     (case get_account i t of
        None \<Rightarrow> Inr (None, t)
      | Some a \<Rightarrow>
          (case bind_num x of
             Inl e \<Rightarrow> Inl e
           | Inr q \<Rightarrow>
               (let b = of_int (current_balance a) / 100 + q in
                case numeric15_2 b of
                  Inl e \<Rightarrow> Inl e
                | Inr c \<Rightarrow>
                    (case numeric15_2 (max (of_int (peak_balance a) / 100) b) of
                       Inl e \<Rightarrow> Inl e
                     | Inr p \<Rightarrow>
                         Inr (Some (a\<lparr>current_balance := c, peak_balance := p\<rparr>),
                              put_account i (\<lambda>r. r\<lparr>current_balance := c, peak_balance := p\<rparr>) t)))))"

text \<open>The INSERT with its NUMERIC casts and the constraint amount <> 0.\<close>

definition ledger_stmt ::
  "ledger_row \<Rightarrow> num \<Rightarrow> num \<Rightarrow> num \<Rightarrow> db \<Rightarrow> string + int \<times> db" where
  "ledger_stmt r amt bef aft t =
     (case (bind_num amt, bind_num bef, bind_num aft) of
        (Inr qa, Inr qb, Inr qc) \<Rightarrow>
          (case (numeric15_2 qa, numeric15_2 qb, numeric15_2 qc) of
             (Inr ca, Inr cb, Inr cc) \<Rightarrow>
               (if ca = 0 then Inl ''23514''
                else let n = ledger_seq t + 1 in
                  Inr (n, t\<lparr>ledger := ledger t @ [r\<lparr>led_id := n, led_amount := ca, led_before := cb, led_after := cc\<rparr>],
                            ledger_seq := n\<rparr>))
           | _ \<Rightarrow> Inl ''22003'')
      | _ \<Rightarrow> Inl ''22003'')"

definition applyBalanceAdjustment ::
  "string \<Rightarrow> jsval \<Rightarrow> string \<Rightarrow> string \<Rightarrow> string \<Rightarrow> int option \<Rightarrow> int option \<Rightarrow> json_obj \<Rightarrow>
   (db, adj_result) tx" where
  "applyBalanceAdjustment accountId amount source reason createdBy competitionId entryId metadata =
     (let x = parse_float amount in
      if \<not> is_finite x \<or> x = Fin 0 then
        tx_throw (BalanceAdjustmentError ''A non-zero adjustment amount is required'' 400)
      else if accountId = [] then tx_throw (BalanceAdjustmentError ''accountId is required'' 400)
      else if source = [] then tx_throw (BalanceAdjustmentError ''source is required'' 400)
      else
        tx_bind (query (credit_stmt accountId x)) (\<lambda>ra.
          case ra of
            None \<Rightarrow> tx_throw (BalanceAdjustmentError ''Account not found'' 404)
          | Some a \<Rightarrow>
              (let balanceAfter = usd (current_balance a);
                   balanceBefore = round_cents (nsub balanceAfter x);
                   row = \<lparr>led_id = 0, led_account = acc_id a, led_user = acc_user a, led_source = source,
                          led_competition = competitionId, led_entry = entryId, led_amount = 0,
                          led_before = 0, led_after = 0, led_reason = reason,
                          led_created_by = createdBy, led_metadata = metadata\<rparr>
               in tx_bind (query (ledger_stmt row x balanceBefore balanceAfter)) (\<lambda>n.
                    tx_return
                      \<lparr>adj_ledger_id = n, adj_account = acc_id a, adj_user = acc_user a, adj_amount = x,
                       adj_before = balanceBefore, adj_after = balanceAfter,
                       adj_peak = usd (peak_balance a)\<rparr>))))"

section \<open>Drawdown anchors\<close>

definition anchor_base :: "account \<Rightarrow> int" where
  "anchor_base a = (case eod_peak_equity a of None \<Rightarrow> starting_balance a | Some p \<Rightarrow> p)"

record anchors =
  peak_equity :: "num option"
  locked_floor :: "num option"
  anchor_start :: num

definition readAnchors :: "string \<Rightarrow> (db, anchors) tx" where
  "readAnchors accountId =
     tx_bind (select (get_account accountId)) (\<lambda>r.
       case r of
         None \<Rightarrow> tx_throw (NotFound ''Account not found'')
       | Some a \<Rightarrow> tx_return \<lparr>peak_equity = map_option usd (eod_peak_equity a),
                              locked_floor = map_option usd (eod_trailing_floor a),
                              anchor_start = usd (starting_balance a)\<rparr>)"

definition shift_stmt :: "string \<Rightarrow> num \<Rightarrow> db \<Rightarrow> string + int option \<times> db" where
  "shift_stmt i x t =
     (case get_account i t of
        None \<Rightarrow> Inr (None, t)
      | Some a \<Rightarrow>
          (case bind_num x of
             Inl e \<Rightarrow> Inl e
           | Inr q \<Rightarrow>
               (case numeric15_2 (max (of_int (anchor_base a) / 100 + q) 0) of
                  Inl e \<Rightarrow> Inl e
                | Inr p \<Rightarrow> Inr (Some p, put_account i (\<lambda>r. r\<lparr>eod_peak_equity := Some p\<rparr>) t))))"

text \<open>The result is the pair of peakBefore and peakAfter, None being null.\<close>

definition shiftAnchors :: "string \<Rightarrow> num \<Rightarrow> (db, num option \<times> num option) tx" where
  "shiftAnchors accountId delta =
     (if \<not> is_finite delta then tx_throw (TypeErr ''shiftAnchors requires a finite delta'')
      else if delta = Fin 0 then
        tx_bind (readAnchors accountId) (\<lambda>cur. tx_return (peak_equity cur, peak_equity cur))
      else
        tx_bind (query (shift_stmt accountId delta)) (\<lambda>r.
          case r of
            None \<Rightarrow> tx_throw (NotFound ''Account not found'')
          | Some p \<Rightarrow> tx_return (None, Some (usd p))))"

definition rebase_stmt :: "string \<Rightarrow> num \<Rightarrow> db \<Rightarrow> string + int option \<times> db" where
  "rebase_stmt i x t =
     (case get_account i t of
        None \<Rightarrow> Inr (None, t)
      | Some a \<Rightarrow>
          (case bind_num x of
             Inl e \<Rightarrow> Inl e
           | Inr q \<Rightarrow>
               (case numeric15_2 q of
                  Inl e \<Rightarrow> Inl e
                | Inr p \<Rightarrow>
                    Inr (Some p,
                         put_account i (\<lambda>r. r\<lparr>eod_peak_equity := Some p, eod_trailing_floor := None\<rparr>) t))))"

definition rebaseAnchors :: "string \<Rightarrow> num \<Rightarrow> (db, num) tx" where
  "rebaseAnchors accountId equity =
     (if \<not> is_finite equity then tx_throw (TypeErr ''rebaseAnchors requires a finite equity'')
      else
        tx_bind (query (rebase_stmt accountId equity)) (\<lambda>r.
          case r of
            None \<Rightarrow> tx_throw (NotFound ''Account not found'')
          | Some p \<Rightarrow> tx_return (usd p)))"

section \<open>The statements on whole cents\<close>

lemma to_cents_cents_add [simp]: "to_cents (of_int a / 100 + of_int b / 100) = a + b"
  using to_cents_exact [of "a + b"] by (simp add: add_divide_distrib)

lemma to_cents_max [simp]:
  "to_cents (max (of_int a / 100) (of_int b / 100)) = max a b"
  by (simp add: max_def)

lemma cents_sum: "of_int a / 100 + of_int b / 100 = (of_int (a + b) / 100 :: rat)"
  by (simp add: add_divide_distrib)

lemma to_cents_max_sum [simp]:
  "to_cents (max (of_int p / 100) (of_int a / 100 + of_int b / 100)) = max p (a + b)"
  unfolding cents_sum by (rule to_cents_max)

lemma to_cents_max_sum_0 [simp]: "to_cents (max (of_int a / 100 + of_int b / 100) 0) = max (a + b) 0"
  using to_cents_max [of "a + b" 0] unfolding cents_sum by simp

lemma usd_finite [simp]: "cents_ok d \<Longrightarrow> is_finite (usd d)"
  by (simp add: usd_Fin)

lemma usd_is_0 [simp]: "cents_ok d \<Longrightarrow> usd d = Fin 0 \<longleftrightarrow> d = 0"
  using money_eq_iff [of d 0] by (simp add: usd_Fin)

lemma cents_ok_max: "cents_ok a \<Longrightarrow> cents_ok b \<Longrightarrow> cents_ok (max a b)"
  by (simp add: max_def)

lemma credit_stmt_usd:
  assumes "get_account i t = Some a" "cents_ok d" "cents_ok (current_balance a + d)" "cents_ok (peak_balance a)"
  shows "credit_stmt i (usd d) t =
    Inr (Some (a\<lparr>current_balance := current_balance a + d, peak_balance := max (peak_balance a) (current_balance a + d)\<rparr>),
         put_account i (\<lambda>r. r\<lparr>current_balance := current_balance a + d,
                              peak_balance := max (peak_balance a) (current_balance a + d)\<rparr>) t)"
  using assms by (simp add: credit_stmt_def numeric15_2_def Let_def cents_ok_max)

lemma ledger_stmt_usd:
  assumes "cents_ok d" "cents_ok b" "cents_ok c" "d \<noteq> 0"
  shows "ledger_stmt r (usd d) (usd b) (usd c) t =
    Inr (ledger_seq t + 1,
         t\<lparr>ledger := ledger t @ [r\<lparr>led_id := ledger_seq t + 1, led_amount := d, led_before := b, led_after := c\<rparr>],
           ledger_seq := ledger_seq t + 1\<rparr>)"
  using assms by (simp add: ledger_stmt_def Let_def)

lemma shift_stmt_usd:
  assumes "get_account i t = Some a" "cents_ok d" "cents_ok (max (anchor_base a + d) 0)"
  shows "shift_stmt i (usd d) t =
    Inr (Some (max (anchor_base a + d) 0),
         put_account i (\<lambda>r. r\<lparr>eod_peak_equity := Some (max (anchor_base a + d) 0)\<rparr>) t)"
  using assms by (simp add: shift_stmt_def numeric15_2_def Let_def)

text \<open>
  What an adjustment by \<open>d\<close> whole cents does: the balance moves by \<open>d\<close>, the peak follows it
  up, and one ledger row records the amount with the exact balances around it.
\<close>

definition credited :: "int \<Rightarrow> account \<Rightarrow> account" where
  "credited d a = a\<lparr>current_balance := current_balance a + d,
                    peak_balance := max (peak_balance a) (current_balance a + d)\<rparr>"

definition ledger_entry ::
  "account \<Rightarrow> int \<Rightarrow> int \<Rightarrow> string \<Rightarrow> string \<Rightarrow> string \<Rightarrow> int option \<Rightarrow> int option \<Rightarrow> json_obj \<Rightarrow> ledger_row" where
  "ledger_entry a n d source reason createdBy cid eid metadata =
     \<lparr>led_id = n, led_account = acc_id a, led_user = acc_user a, led_source = source,
      led_competition = cid, led_entry = eid, led_amount = d,
      led_before = current_balance a, led_after = current_balance a + d,
      led_reason = reason, led_created_by = createdBy, led_metadata = metadata\<rparr>"

definition book :: "string \<Rightarrow> account \<Rightarrow> ledger_row \<Rightarrow> db \<Rightarrow> db" where
  "book i a' r t = (put_account i (\<lambda>x. x\<lparr>current_balance := current_balance a', peak_balance := peak_balance a'\<rparr>) t)
                     \<lparr>ledger := ledger t @ [r], ledger_seq := ledger_seq t + 1\<rparr>"

lemma apply_whole_cents:
  assumes acc: "get_account i (tabs c) = Some a" and ok: "\<not> aborted c" "i \<noteq> []" "source \<noteq> []"
    and amt: "parse_float amount = usd d" "cents_ok d" "d \<noteq> 0"
    and typed: "account_typed a" "cents_ok (current_balance a + d)"
  shows "applyBalanceAdjustment i amount source reason createdBy cid eid metadata c =
    (Inr \<lparr>adj_ledger_id = ledger_seq (tabs c) + 1, adj_account = i, adj_user = acc_user a, adj_amount = usd d,
          adj_before = usd (current_balance a), adj_after = usd (current_balance a + d),
          adj_peak = usd (max (peak_balance a) (current_balance a + d))\<rparr>,
     c\<lparr>tabs := book i (credited d a)
                 (ledger_entry a (ledger_seq (tabs c) + 1) d source reason createdBy cid eid metadata) (tabs c)\<rparr>)"
proof -
  have t: "cents_ok (current_balance a)" "cents_ok (peak_balance a)" using typed(1) by (simp_all add: account_typed_def)
  have id: "acc_id a = i" using acc by (rule get_account_id)
  have bef: "round_cents (nsub (usd (current_balance a + d)) (usd d)) = usd (current_balance a)"
    using round_cents_diff [of "current_balance a + d" d] typed(2) amt(2) t(1) by simp
  have led: "ledger_stmt r (usd d) (usd (current_balance a)) (usd (current_balance a + d)) t' =
    Inr (ledger_seq t' + 1,
         t'\<lparr>ledger := ledger t' @ [r\<lparr>led_id := ledger_seq t' + 1, led_amount := d,
                                      led_before := current_balance a, led_after := current_balance a + d\<rparr>],
            ledger_seq := ledger_seq t' + 1\<rparr>)" for r t'
    using amt t typed(2) by (simp add: ledger_stmt_usd)
  show ?thesis
    using amt ok unfolding applyBalanceAdjustment_def Let_def
    by (simp add: tx_bind_def query_def credit_stmt_usd [OF acc amt(2) typed(2) t(2)] led bef id
        tx_return_app credited_def ledger_entry_def book_def)
qed

section \<open>What every call keeps\<close>

lemma framed_applyBalanceAdjustment [tx_frames]:
  "framed (applyBalanceAdjustment i amount source reason createdBy cid eid metadata)"
  by (auto simp: applyBalanceAdjustment_def Let_def intro!: tx_frames split: option.splits)

lemma framed_readAnchors [tx_frames]: "framed (readAnchors i)"
  by (auto simp: readAnchors_def intro!: tx_frames split: option.splits)

lemma framed_shiftAnchors [tx_frames]: "framed (shiftAnchors i x)"
  by (auto simp: shiftAnchors_def intro!: tx_frames split: option.splits)

lemma framed_rebaseAnchors [tx_frames]: "framed (rebaseAnchors i x)"
  by (auto simp: rebaseAnchors_def intro!: tx_frames split: option.splits)

lemma typed_credit_stmt: "accounts_typed t \<Longrightarrow> credit_stmt i x t = Inr (ra, t') \<Longrightarrow> accounts_typed t'"
  by (auto simp: credit_stmt_def Let_def numeric15_2_ok account_typed_def
      split: option.splits sum.splits intro!: accounts_typed_put dest: accounts_typedD)

lemma typed_shift_stmt: "accounts_typed t \<Longrightarrow> shift_stmt i x t = Inr (ra, t') \<Longrightarrow> accounts_typed t'"
  by (auto simp: shift_stmt_def Let_def numeric15_2_ok account_typed_def
      split: option.splits sum.splits intro!: accounts_typed_put dest: accounts_typedD)

lemma typed_rebase_stmt: "accounts_typed t \<Longrightarrow> rebase_stmt i x t = Inr (ra, t') \<Longrightarrow> accounts_typed t'"
  by (auto simp: rebase_stmt_def Let_def numeric15_2_ok account_typed_def
      split: option.splits sum.splits intro!: accounts_typed_put dest: accounts_typedD)

lemma typed_ledger_stmt: "accounts_typed t \<Longrightarrow> ledger_stmt r x y z t = Inr (n, t') \<Longrightarrow> accounts_typed t'"
  by (auto simp: ledger_stmt_def Let_def accounts_typed_def get_account_def split: sum.splits if_splits)

lemma preserves_applyBalanceAdjustment [tx_preserves]:
  "preserves accounts_typed (applyBalanceAdjustment i amount source reason createdBy cid eid metadata)"
  by (auto simp: applyBalanceAdjustment_def Let_def split: option.splits
      intro!: tx_preserves preserves_query intro: typed_credit_stmt typed_ledger_stmt)

lemma preserves_shiftAnchors [tx_preserves]: "preserves accounts_typed (shiftAnchors i x)"
  by (auto simp: shiftAnchors_def readAnchors_def split: option.splits
      intro!: tx_preserves preserves_query intro: typed_shift_stmt)

lemma preserves_rebaseAnchors [tx_preserves]: "preserves accounts_typed (rebaseAnchors i x)"
  by (auto simp: rebaseAnchors_def split: option.splits
      intro!: tx_preserves preserves_query intro: typed_rebase_stmt)

text \<open>A failed adjustment has changed nothing that its transaction could commit.\<close>

lemma apply_error_clean:
  assumes "applyBalanceAdjustment i amount source reason createdBy cid eid metadata c = (Inl e, c')" "in_tx c"
  shows "tabs c' = tabs c \<or> aborted c'"
  using assms
  by (auto simp: applyBalanceAdjustment_def Let_def tx_bind_fst tx_throw_def tx_return_def query_def credit_stmt_def
      split: if_splits sum.splits option.splits)

section \<open>The ledger invariant\<close>

text \<open>
  current_balance = starting_balance + realised trade profit + the ledger sum. Adjustments move
  the last term; trading, elsewhere, moves the middle one. \<open>residue\<close> is the difference of the two sides.
\<close>

definition ledger_sum :: "string \<Rightarrow> db \<Rightarrow> int" where
  "ledger_sum i t = sum_list (map led_amount (filter (\<lambda>r. led_account r = i) (ledger t)))"

definition trade_sum :: "string \<Rightarrow> db \<Rightarrow> int" where
  "trade_sum i t =
     sum_list (map (\<lambda>r. case demo_pnl r of None \<Rightarrow> 0 | Some p \<Rightarrow> p)
       (filter (\<lambda>r. trade_account r = Some i \<and> trade_status r = Some ''closed'') (trades t)))"

definition residue :: "string \<Rightarrow> db \<Rightarrow> int option" where
  "residue i t =
     map_option (\<lambda>a. current_balance a - starting_balance a - trade_sum i t - ledger_sum i t) (get_account i t)"

lemma get_account_book: 
  "get_account j (book i a' r t) =
     (if j = i then map_option (\<lambda>x. x\<lparr>current_balance := current_balance a', peak_balance := peak_balance a'\<rparr>) (get_account i t)
      else get_account j t)"
proof -
  have k: "keeps_acc_id (\<lambda>x. x\<lparr>current_balance := current_balance a', peak_balance := peak_balance a'\<rparr>)" by auto
  have "get_account j (book i a' r t) =
    get_account j (put_account i (\<lambda>x. x\<lparr>current_balance := current_balance a', peak_balance := peak_balance a'\<rparr>) t)"
    by (simp add: book_def get_account_def)
  then show ?thesis by (simp add: acct.lookup_modify [OF k])
qed

lemma ledger_sum_book: "ledger_sum j (book i a' r t) = ledger_sum j t + (if led_account r = j then led_amount r else 0)"
  by (simp add: ledger_sum_def book_def)

lemma trade_sum_book [simp]: "trade_sum j (book i a' r t) = trade_sum j t"
  by (simp add: trade_sum_def book_def put_account_def)

lemma residue_book:
  assumes "get_account i t = Some a" "led_account r = i" "led_amount r = current_balance a' - current_balance a"
  shows "residue j (book i a' r t) = residue j t"
  using assms by (auto simp: residue_def get_account_book ledger_sum_book)

text \<open>Rounding the balance and the ledger row separately makes them differ by a cent at most.\<close>

lemma to_cents_add_drift: "\<bar>to_cents (of_int a / 100 + q) - a - to_cents q\<bar> \<le> 1"
proof -
  have "\<bar>of_int (to_cents (of_int a / 100 + q)) - 100 * (of_int a / 100 + q)\<bar> \<le> 1 / 2"
    "\<bar>of_int (to_cents q) - 100 * q\<bar> \<le> (1 / 2 :: rat)" by (rule to_cents_near)+
  then have "\<bar>of_int (to_cents (of_int a / 100 + q) - a - to_cents q)\<bar> \<le> (1::rat)"
    unfolding of_int_diff distrib_left by linarith
  then show ?thesis by (metis of_int_abs of_int_le_1_iff)
qed

lemma credit_stmt_Some:
  "credit_stmt i x t = Inr (Some a', t') \<longleftrightarrow>
   (\<exists>a q. get_account i t = Some a \<and> bind_num x = Inr q \<and>
      cents_ok (to_cents (of_int (current_balance a) / 100 + q)) \<and>
      cents_ok (to_cents (max (of_int (peak_balance a) / 100) (of_int (current_balance a) / 100 + q))) \<and>
      a' = a\<lparr>current_balance := to_cents (of_int (current_balance a) / 100 + q),
              peak_balance := to_cents (max (of_int (peak_balance a) / 100) (of_int (current_balance a) / 100 + q))\<rparr> \<and>
      t' = put_account i (\<lambda>r. r\<lparr>current_balance := current_balance a', peak_balance := peak_balance a'\<rparr>) t)"
  by (auto simp: credit_stmt_def Let_def numeric15_2_def split: option.splits sum.splits)

lemma ledger_stmt_Inr:
  "ledger_stmt r x y z t = Inr (n, t') \<Longrightarrow>
   \<exists>q b d. bind_num x = Inr q \<and> to_cents q \<noteq> 0 \<and> cents_ok (to_cents q) \<and> n = ledger_seq t + 1 \<and>
     t' = t\<lparr>ledger := ledger t @ [r\<lparr>led_id := n, led_amount := to_cents q, led_before := b, led_after := d\<rparr>],
            ledger_seq := n\<rparr>"
  by (auto simp: ledger_stmt_def Let_def numeric15_2_ok split: sum.splits if_splits)

lemma apply_success:
  assumes "applyBalanceAdjustment i amount source reason createdBy cid eid metadata c = (Inr res, c')"
  obtains a a' q r where "get_account i (tabs c) = Some a" "bind_num (parse_float amount) = Inr q"
    "current_balance a' = to_cents (of_int (current_balance a) / 100 + q)" "starting_balance a' = starting_balance a"
    "tabs c' = book i a' r (tabs c)" "led_account r = i" "led_amount r = to_cents q" "led_amount r \<noteq> 0"
    "adj_after res = usd (current_balance a')" "adj_amount res = parse_float amount"
proof -
  let ?x = "parse_float amount"
  define row where "row a' = \<lparr>led_id = 0, led_account = acc_id a', led_user = acc_user a', led_source = source,
      led_competition = cid, led_entry = eid, led_amount = 0, led_before = 0, led_after = 0,
      led_reason = reason, led_created_by = createdBy, led_metadata = metadata\<rparr>" for a' :: account
  obtain a' c1 n where u: "query (credit_stmt i ?x) c = (Inr (Some a'), c1)"
    and v: "query (ledger_stmt (row a') ?x (round_cents (nsub (usd (current_balance a')) ?x)) (usd (current_balance a'))) c1
              = (Inr n, c')"
    and w: "adj_after res = usd (current_balance a')" "adj_amount res = ?x"
    using assms unfolding applyBalanceAdjustment_def Let_def row_def
    by (auto simp: tx_throw_def tx_return_def split: if_splits option.splits elim!: tx_bind_Inr_E)
  obtain t1 where t1: "credit_stmt i ?x (tabs c) = Inr (Some a', t1)" "tabs c1 = t1"
    using u by (auto simp: query_Inr)
  obtain a q where a: "get_account i (tabs c) = Some a" "bind_num ?x = Inr q"
    "current_balance a' = to_cents (of_int (current_balance a) / 100 + q)" "starting_balance a' = starting_balance a"
    "acc_id a' = i"
    "t1 = put_account i (\<lambda>r. r\<lparr>current_balance := current_balance a', peak_balance := peak_balance a'\<rparr>) (tabs c)"
    using t1(1) get_account_id unfolding credit_stmt_Some by fastforce
  obtain t2 where t2: "tabs c' = t2"
    "ledger_stmt (row a') ?x (round_cents (nsub (usd (current_balance a')) ?x)) (usd (current_balance a')) t1 = Inr (n, t2)"
    using v t1(2) by (auto simp: query_Inr)
  obtain b d where led: "to_cents q \<noteq> 0" "n = ledger_seq t1 + 1"
    "t2 = t1\<lparr>ledger := ledger t1 @ [(row a')\<lparr>led_id := n, led_amount := to_cents q, led_before := b, led_after := d\<rparr>],
            ledger_seq := n\<rparr>"
    using ledger_stmt_Inr [OF t2(2)] a(2) by auto
  have "tabs c' = book i a' ((row a')\<lparr>led_id := n, led_amount := to_cents q, led_before := b, led_after := d\<rparr>) (tabs c)"
    using led t2(1) by (simp add: a(6) book_def)
  from that [OF a(1-4) this] show ?thesis using a(5) w led by (simp add: row_def)
qed

lemma apply_residue:
  assumes "applyBalanceAdjustment i amount source reason createdBy cid eid metadata c = (Inr res, c')"
  obtains k where "\<bar>k\<bar> \<le> 1" "residue i (tabs c') = map_option (\<lambda>z. z + k) (residue i (tabs c))"
    "\<And>j. j \<noteq> i \<Longrightarrow> residue j (tabs c') = residue j (tabs c)"
proof -
  obtain a a' q r where *: "get_account i (tabs c) = Some a"
    "current_balance a' = to_cents (of_int (current_balance a) / 100 + q)"
    "tabs c' = book i a' r (tabs c)" "led_account r = i" "led_amount r = to_cents q"
    using assms by (rule apply_success)
  show ?thesis
    by (rule that [of "current_balance a' - current_balance a - to_cents q"])
      (use * to_cents_add_drift [of "current_balance a" q] in
        \<open>auto simp: residue_def get_account_book ledger_sum_book\<close>)
qed

text \<open>C9. However the amount is written, a successful adjustment moves the balance and the ledger
  of its account apart by one cent at most: the balance and the ledger row are rounded
  separately.\<close>

theorem adjustment_drift_bounded:
  assumes "applyBalanceAdjustment i amount source reason createdBy cid eid metadata c = (Inr res, c')"
  shows "\<exists>k. \<bar>k\<bar> \<le> 1 \<and> residue i (tabs c') = map_option (\<lambda>z. z + k) (residue i (tabs c)) \<and>
    (\<forall>j. j \<noteq> i \<longrightarrow> residue j (tabs c') = residue j (tabs c))"
  using apply_residue [OF assms] by metis

theorem adjustment_drift_bounded_witness:
  "\<exists>k. \<bar>k\<bar> \<le> 1 \<and>
    residue ''a1'' (tabs (snd (applyBalanceAdjustment ''a1'' (JText ''-0.005'') ''fix'' [] ''admin'' None None [] (conn_of demo_db)))) =
      map_option (\<lambda>z. z + k) (residue ''a1'' (tabs (conn_of demo_db))) \<and>
    (\<forall>j. j \<noteq> ''a1'' \<longrightarrow>
      residue j (tabs (snd (applyBalanceAdjustment ''a1'' (JText ''-0.005'') ''fix'' [] ''admin'' None None [] (conn_of demo_db)))) =
      residue j (tabs (conn_of demo_db)))"
  by (rule adjustment_drift_bounded, rule run_ok) code_simp

text \<open>The bound is reached: taking half a cent from a balance of whole cents leaves the balance as
  it was, and books a ledger row of one cent.\<close>

lemma half_cent_drifts:
  "map_option current_balance (get_account ''a1''
     (tabs (snd (applyBalanceAdjustment ''a1'' (JText ''-0.005'') ''fix'' [] ''admin'' None None [] (conn_of demo_db))))) =
     Some (current_balance demo_account)"
  "map led_amount (ledger
     (tabs (snd (applyBalanceAdjustment ''a1'' (JText ''-0.005'') ''fix'' [] ''admin'' None None [] (conn_of demo_db))))) = [- 1]"
  by code_simp+

end
