(* ===== verification/Eligibility.thy ===== *)
theory Eligibility
  imports Database
begin

text \<open>
  domain/payoutEligibility.js: the rules a withdrawal must satisfy and how much of a funded
  account's profit the consistency rule releases. The lemmas give the released amount as a
  whole number of cents between zero and the profit, its monotonicity, and the exact condition
  under which no blocker is reported.
\<close>

section \<open>Amounts\<close>

definition PROFIT_SHARE_FALLBACK_PCT :: num where
  "PROFIT_SHARE_FALLBACK_PCT = Fin 100"

definition toNum :: "jsval \<Rightarrow> num \<Rightarrow> num" where
  "toNum v fallback = (let n = parse_float v in if is_finite n then n else fallback)"

definition consistentWithdrawableProfit :: "jsval \<Rightarrow> jsval \<Rightarrow> jsval \<Rightarrow> num" where
  "consistentWithdrawableProfit totalProfit bestDayProfit capPct =
     (let total = toNum totalProfit (Fin 0);
          best = toNum bestDayProfit (Fin 0);
          cap = ndiv (toNum capPct (Fin 0)) (Fin 100)
      in if \<not> nlt (Fin 0) total \<or> \<not> nlt (Fin 0) cap then nmax (Fin 0) total
         else let allowed = nsub (nmul total (nadd (Fin 1) cap)) best
              in fixed 2 (nmax (Fin 0) (nmin total allowed)))"

section \<open>The rules\<close>

record consistency_check =
  cons_ok :: bool
  best_day_profit :: jsval
  best_day_pct :: jsval

record elig_input =
  in_account :: "account_row option"
  in_kyc :: "string option"
  open_count :: jsval
  pending_orders :: jsval
  pending_payouts :: jsval
  requested :: jsval
  min_request :: jsval
  share_pct :: jsval
  in_consistency :: "consistency_check option"
  cons_max_pct :: jsval

definition default_input :: "account_row option \<Rightarrow> elig_input" where
  "default_input a =
     \<lparr>in_account = a, in_kyc = None, open_count = JNum (Fin 0), pending_orders = JNum (Fin 0),
      pending_payouts = JNum (Fin 0), requested = JNull, min_request = JNum (Fin 50),
      share_pct = JNum PROFIT_SHARE_FALLBACK_PCT, in_consistency = None, cons_max_pct = JNum (Fin 0)\<rparr>"

datatype blocker_code = NOT_FUNDED | NOT_ACTIVE | KYC_NOT_APPROVED | OPEN_EXPOSURE | PENDING_PAYOUT
  | BELOW_MINIMUM | INSUFFICIENT_PROFIT | CONSISTENCY_HOLD

fun blocker_str :: "blocker_code \<Rightarrow> string" where
  "blocker_str NOT_FUNDED = ''not_funded''"
| "blocker_str NOT_ACTIVE = ''not_active''"
| "blocker_str KYC_NOT_APPROVED = ''kyc_not_approved''"
| "blocker_str OPEN_EXPOSURE = ''open_exposure''"
| "blocker_str PENDING_PAYOUT = ''pending_payout''"
| "blocker_str BELOW_MINIMUM = ''below_minimum''"
| "blocker_str INSUFFICIENT_PROFIT = ''insufficient_profit''"
| "blocker_str CONSISTENCY_HOLD = ''consistency_hold''"

type_synonym blocker = "blocker_code \<times> string"

record eligibility =
  blockers :: "blocker list"
  realized_profit :: num
  estimated_payable :: num
  withdrawable_now :: num

definition status_text :: "account_row option \<Rightarrow> string" where
  "status_text a = (case a of None \<Rightarrow> ''undefined''
     | Some r \<Rightarrow> (case row_status r of None \<Rightarrow> ''null'' | Some s \<Rightarrow> s))"

definition row_num :: "(account_row \<Rightarrow> jsval) \<Rightarrow> account_row option \<Rightarrow> num" where
  "row_num f a = toNum (case a of None \<Rightarrow> JUndef | Some r \<Rightarrow> f r) (Fin 0)"

definition row_text :: "(account_row \<Rightarrow> string option) \<Rightarrow> account_row option \<Rightarrow> string" where
  "row_text f a = to_lower (case a of None \<Rightarrow> [] | Some r \<Rightarrow> text_or_empty (f r))"

definition realizedProfit_of :: "account_row option \<Rightarrow> num" where
  "realizedProfit_of a = fixed 2 (nsub (row_num row_current a) (row_num row_starting a))"

text \<open>The blockers before the amount checks, in the order the code adds them.\<close>

definition state_blockers :: "elig_input \<Rightarrow> blocker list" where
  "state_blockers i =
     (if row_text row_type (in_account i) \<noteq> ''funded''
      then [(NOT_FUNDED, ''Only funded accounts can request payouts.'')] else []) @
     (if row_text row_status (in_account i) \<noteq> ''active''
      then [(NOT_ACTIVE, ''Account status is '' @ status_text (in_account i) @ ''.'')] else []) @
     (if to_lower (text_or_empty (in_kyc i)) \<noteq> ''approved''
      then [(KYC_NOT_APPROVED, ''KYC approval is still required.'')] else []) @
     (if nlt (Fin 0) (toNum (open_count i) (Fin 0)) \<or> nlt (Fin 0) (toNum (pending_orders i) (Fin 0))
      then [(OPEN_EXPOSURE, ''All open and pending trades must be closed before requesting a payout.'')] else []) @
     (if nlt (Fin 0) (toNum (pending_payouts i) (Fin 0))
      then [(PENDING_PAYOUT, ''There is already a pending payout request on this account.'')] else [])"

definition withdrawable_of :: "elig_input \<Rightarrow> num \<Rightarrow> num" where
  "withdrawable_of i profit =
     (case in_consistency i of
        Some k \<Rightarrow> (if nlt (Fin 0) (toNum (cons_max_pct i) (Fin 0))
                   then consistentWithdrawableProfit (JNum profit) (best_day_profit k) (JNum (toNum (cons_max_pct i) (Fin 0)))
                   else nmax (Fin 0) profit)
      | None \<Rightarrow> nmax (Fin 0) profit)"

definition consistency_blockers :: "elig_input \<Rightarrow> num \<Rightarrow> num \<Rightarrow> blocker list" where
  "consistency_blockers i profit w =
     (let capPct = toNum (cons_max_pct i) (Fin 0) in
      case in_consistency i of
        None \<Rightarrow> []
      | Some k \<Rightarrow>
          if \<not> cons_ok k \<and> nlt (Fin 0) capPct then
            (let held = fixed 2 (nmax (Fin 0) (nsub profit w));
                 pct = fixed_str 1 (toNum (best_day_pct k) (Fin 0)) in
             [(CONSISTENCY_HOLD,
               if nlt (Fin 0) w then
                 ''You can withdraw $'' @ fixed_str 2 w @ '' now. Your best single day is '' @ pct @
                 ''% of total profit against a '' @ num_str capPct @ ''% limit, so $'' @ fixed_str 2 held @
                 '' stays in the account and unlocks as your profit spreads across more days.''
               else
                 ''Your best single day is '' @ pct @ ''% of total profit, above this model's '' @ num_str capPct @
                 ''% limit. Profit spread across more days unlocks this automatically.'')])
          else [])"

definition amount_blockers :: "elig_input \<Rightarrow> num \<Rightarrow> num \<Rightarrow> num \<Rightarrow> bool \<Rightarrow> blocker list" where
  "amount_blockers i profit payable w held =
     (let minimum = toNum (min_request i) (Fin 50); req = toNum (requested i) (Fin 0) in
      if nullish (requested i) then
        (if nlt payable minimum then
           [(BELOW_MINIMUM, ''You need '' @ num_str (fixed 2 (nsub minimum payable)) @
              '' more payable profit to clear the minimum payout.'')]
         else [])
      else
        (if nlt req minimum then
           [(BELOW_MINIMUM, ''The minimum payout request is '' @ num_str minimum @ ''.'')] else []) @
        (if nlt profit req then [(INSUFFICIENT_PROFIT, ''Insufficient realized profit for payout'')]
         else if nlt w req \<and> \<not> held then
           [(CONSISTENCY_HOLD, ''You can withdraw up to $'' @ fixed_str 2 w @ '' on this account right now.'')]
         else []))"

definition evaluatePayoutEligibility :: "elig_input \<Rightarrow> eligibility" where
  "evaluatePayoutEligibility i =
     (let profit = realizedProfit_of (in_account i);
          shareRatio = ndiv (toNum (share_pct i) PROFIT_SHARE_FALLBACK_PCT) (Fin 100);
          payable = fixed 2 (nmul (nmax (Fin 0) profit) shareRatio);
          w = withdrawable_of i profit;
          cb = consistency_blockers i profit w
      in \<lparr>blockers = state_blockers i @ cb @
            amount_blockers i profit payable w (\<exists>b\<in>set (state_blockers i @ cb). fst b = CONSISTENCY_HOLD),
          realized_profit = profit, estimated_payable = payable, withdrawable_now = w\<rparr>)"

section \<open>The released profit\<close>

lemma toNum_JNum [simp]: "toNum (JNum (Fin q)) f = Fin q"
  by (simp add: toNum_def)

lemma toNum_finite: "is_finite f \<Longrightarrow> is_finite (toNum v f)"
  by (simp add: toNum_def Let_def)

lemma toNum_numeric [simp]: "cents_ok c \<Longrightarrow> toNum (numeric_val c) f = usd c"
  by (simp add: toNum_def usd_Fin)

lemma toNum_usd [simp]: "cents_ok c \<Longrightarrow> toNum (JNum (usd c)) f = usd c"
  by (simp add: usd_Fin)

text \<open>toFixed(2) of an amount between zero and a whole number of cents.\<close>

definition cents_of :: "rat \<Rightarrow> int" where
  "cents_of m = \<lfloor>100 * m + 1/2\<rfloor>"

lemma fixed2_between:
  assumes "0 \<le> m" "m \<le> money p" "cents_ok p"
  shows "fixed 2 (Fin m) = usd (cents_of m)" "0 \<le> cents_of m" "cents_of m \<le> p"
proof -
  have "money p \<le> of_int p / 100 + 1/900" using money_near [OF assms(3)] by linarith
  then have "\<bar>m\<bar> \<le> 10000000000001" using cents_okD [OF assms(3)] assms(1,2) by linarith
  then have "\<not> (10 ^ 21 :: rat) \<le> \<bar>m\<bar>" by simp
  then show "fixed 2 (Fin m) = usd (cents_of m)"
    using assms(1) by (simp add: usd_def cents_of_def fixed_digits_def mult.commute)
  show "0 \<le> cents_of m" using assms(1) by (simp add: cents_of_def)
  have "cents_of m \<le> \<lfloor>100 * money p + 1/2\<rfloor>"
    unfolding cents_of_def using assms(2) by (intro floor_mono) simp
  then show "cents_of m \<le> p" using money_recover [OF assms(3)] by simp
qed

lemma cents_of_mono: "m \<le> n \<Longrightarrow> cents_of m \<le> cents_of n"
  by (simp add: cents_of_def floor_mono)

lemma mk_mono: "p \<le> q \<Longrightarrow> nle (mk p) (mk q)"
  using fl_mono [of p q] max_double_nonneg by (auto simp: mk_def Let_def nle_def)

lemma mk_not_nan [simp]: "\<not> is_nan (mk q)"
  by (simp add: mk_def Let_def)

text \<open>The factor applied to a positive profit is a positive Number or overflows upwards.\<close>

lemma allowed_gross:
  assumes "0 < tot" "nlt (Fin 0) cap" 
  obtains "nmul (Fin tot) (nadd (Fin 1) cap) = PInf" | q where "nmul (Fin tot) (nadd (Fin 1) cap) = Fin q" "0 \<le> q"
proof -
  have mk_pos: "mk q = PInf \<or> (\<exists>r. mk q = Fin r \<and> 0 \<le> r)" if "0 \<le> q" for q
    using fl_nonneg [OF that] max_double_nonneg by (auto simp: mk_def Let_def)
  have "nadd (Fin 1) cap = PInf \<or> (\<exists>r. nadd (Fin 1) cap = Fin r \<and> 0 \<le> r \<and> 1 \<le> r)"
  proof (cases cap)
    case (Fin c)
    then have "0 < c" using assms(2) by simp
    then have "fl 1 \<le> fl (1 + c)" by (intro fl_mono) simp
    then have "1 \<le> fl (1 + c)" using fl_of_int [of 1] by simp
    then show ?thesis using Fin mk_pos [of "1 + c"] \<open>0 < c\<close> by (auto simp: mk_def Let_def split: if_splits)
  qed (use assms(2) in auto)
  then show ?thesis
  proof (elim disjE exE conjE)
    assume "nadd (Fin 1) cap = PInf"
    then show ?thesis using that(1) assms(1) by (simp add: inf_of_sign_def)
  next
    fix r assume "nadd (Fin 1) cap = Fin r" "0 \<le> r"
    then show ?thesis using that mk_pos [of "tot * r"] assms(1) by auto
  qed
qed

text \<open>
  For a profit of \<open>p\<close> cents the released amount is a whole number of cents \<open>k\<close> with
  \<open>0 \<le> k \<le> p\<close>, whatever the other two arguments are.
\<close>

definition release_cents :: "int \<Rightarrow> num \<Rightarrow> int" where
  "release_cents p allowed =
     (case allowed of Fin q \<Rightarrow> cents_of (max 0 (min (money p) q)) | PInf \<Rightarrow> p | _ \<Rightarrow> 0)"

lemma money_nonneg: "0 \<le> p \<Longrightarrow> 0 \<le> money p"
  by (simp add: money_def fl_nonneg)

lemma release_range: "cents_ok p \<Longrightarrow> 0 \<le> p \<Longrightarrow> 0 \<le> release_cents p x \<and> release_cents p x \<le> p"
proof (cases x)
  case (Fin q)
  assume p: "cents_ok p" "0 \<le> p"
  have *: "0 \<le> max 0 (min (money p) q)" "max 0 (min (money p) q) \<le> money p" using money_nonneg [OF p(2)] by auto
  show ?thesis using fixed2_between(2,3) [OF * p(1)] Fin by (simp add: release_cents_def)
qed (auto simp: release_cents_def)

lemma release_mono:
  assumes "cents_ok p" "0 \<le> p" "nle x y"
  shows "release_cents p x \<le> release_cents p y"
proof (cases x; cases y)
  fix q r
  assume a: "x = Fin q" "y = Fin r"
  then show "release_cents p x \<le> release_cents p y"
    using assms(3) by (simp add: release_cents_def) (intro cents_of_mono, auto)
qed (use assms release_range [OF assms(1,2), of x] release_range [OF assms(1,2), of y] in
  \<open>auto simp: nle_def release_cents_def\<close>)

definition allowed_of :: "int \<Rightarrow> num \<Rightarrow> num \<Rightarrow> num" where
  "allowed_of p best cap = nsub (nmul (usd p) (nadd (Fin 1) cap)) best"

lemma withdrawable_cents:
  assumes p: "cents_ok p"
  shows "consistentWithdrawableProfit (JNum (usd p)) b k =
    (if 0 < p \<and> nlt (Fin 0) (ndiv (toNum k (Fin 0)) (Fin 100))
     then usd (release_cents p (allowed_of p (toNum b (Fin 0)) (ndiv (toNum k (Fin 0)) (Fin 100))))
     else usd (max 0 p))"
proof -
  let ?best = "toNum b (Fin 0)" and ?cap = "ndiv (toNum k (Fin 0)) (Fin 100)"
  have t0: "nlt (Fin 0) (usd p) \<longleftrightarrow> 0 < p" using nlt_usd [of 0 p] p by simp
  have m0: "nmax (Fin 0) (usd p) = usd (max 0 p)"
    using p nlt_usd [of 0 p] by (auto simp: nmax_def usd_Fin)
  show ?thesis
  proof (cases "0 < p \<and> nlt (Fin 0) ?cap")
    case True
    have mp: "0 < money p" using True p by (metis cents_ok_0 money_0 money_less_iff)
    obtain best where best: "?best = Fin best" using toNum_finite [of "Fin 0" b] by (auto elim: finite_cases)
    have "nmul (usd p) (nadd (Fin 1) ?cap) = PInf \<or> (\<exists>q. nmul (usd p) (nadd (Fin 1) ?cap) = Fin q)"
      unfolding usd_Fin [OF p] using allowed_gross [OF mp, of ?cap] True by metis
    then have nn: "\<not> is_nan (allowed_of p ?best ?cap)"
      by (auto simp: allowed_of_def best nsub_def)
    have "fixed 2 (nmax (Fin 0) (nmin (usd p) x)) = usd (release_cents p x)" if "\<not> is_nan x" for x
    proof (cases x)
      case (Fin q)
      have *: "0 \<le> max 0 (min (money p) q)" "max 0 (min (money p) q) \<le> money p" using mp by auto
      show ?thesis using fixed2_between(1) [OF * p] Fin
        by (simp add: release_cents_def usd_Fin [OF p] del: fixed.simps)
    next
      case PInf
      then have "nmax (Fin 0) (nmin (usd p) x) = usd p"
        using mp by (simp add: usd_Fin [OF p] nmin_def)
      then show ?thesis using PInf p by (simp add: release_cents_def)
    next
      case NInf
      then have "nmax (Fin 0) (nmin (usd p) x) = usd 0"
        using mp by (simp add: usd_Fin [OF p] nmin_def nmax_def)
      then show ?thesis using NInf fixed2_usd [of 0] by (simp add: release_cents_def)
    qed (use that in simp)
    from this [OF nn] show ?thesis
      using True t0 by (simp add: consistentWithdrawableProfit_def Let_def p allowed_of_def)
  next
    case False
    then show ?thesis using t0 m0 by (auto simp: consistentWithdrawableProfit_def Let_def p)
  qed
qed

lemma nsub_mono:
  assumes "nle x y" "a \<le> b"
  shows "nle (nsub x (Fin b)) (nsub y (Fin a))"
  using assms mk_mono [of "(u::rat) - b" "v - a" for u v]
  by (cases x; cases y) (auto simp: nsub_def nle_def, auto simp: mk_def Let_def split: if_splits)

lemma nmul_mono_right:
  assumes "0 < a" "a \<le> b" "nlt (Fin 0) f"
  shows "nle (nmul (Fin a) f) (nmul (Fin b) f)"
proof (cases f)
  case (Fin q)
  then have "a * q \<le> b * q" using assms by (simp add: mult_right_mono)
  then show ?thesis using Fin mk_mono by simp
qed (use assms in \<open>auto simp: nle_def inf_of_sign_def\<close>)

lemma factor_pos: "nlt (Fin 0) cap \<Longrightarrow> nlt (Fin 0) (nadd (Fin 1) cap)"
proof (cases cap)
  case (Fin c)
  assume "nlt (Fin 0) cap"
  then have "fl 1 \<le> fl (1 + c)" using Fin by (intro fl_mono) simp
  then have "1 \<le> fl (1 + c)" using fl_of_int [of 1] by simp
  then show ?thesis using Fin by (auto simp: mk_def Let_def max_double_nonneg)
qed auto

lemma release_range2: "cents_ok p \<Longrightarrow> 0 \<le> p \<Longrightarrow> cents_ok (release_cents p x)"
  using release_range [of p x] by (simp add: cents_ok_def)

lemma release_mono_profit:
  assumes "cents_ok p" "cents_ok q" "0 \<le> p" "p \<le> q" "nle x y"
  shows "release_cents p x \<le> release_cents q y"
proof -
  have "release_cents p y \<le> release_cents q y"
    using assms money_mono [OF assms(4)]
    by (cases y) (auto simp: release_cents_def intro!: cents_of_mono max.mono min.mono)
  then show ?thesis using release_mono [OF assms(1,3,5)] by simp
qed

lemma withdrawable_le:
  assumes p: "cents_ok p" and q: "cents_ok q" and le: "p \<le> q"
    and best: "nle (toNum b' (Fin 0)) (toNum b (Fin 0))"
  shows "nle (consistentWithdrawableProfit (JNum (usd p)) b k) (consistentWithdrawableProfit (JNum (usd q)) b' k)"
proof -
  let ?cap = "ndiv (toNum k (Fin 0)) (Fin 100)"
  obtain x y where xy: "toNum b (Fin 0) = Fin x" "toNum b' (Fin 0) = Fin y"
    using toNum_finite [of "Fin 0"] by (metis finite_cases is_finite.simps(1))
  show ?thesis
  proof (cases "0 < p \<and> nlt (Fin 0) ?cap")
    case True
    then have q0: "0 < q" using le by simp
    have mp: "0 < money p" using True p by (metis cents_ok_0 money_0 money_less_iff)
    have "nle (nmul (usd p) (nadd (Fin 1) ?cap)) (nmul (usd q) (nadd (Fin 1) ?cap))"
      using nmul_mono_right [OF mp money_mono [OF le] factor_pos] True by (simp add: usd_Fin p q)
    then have "nle (allowed_of p (Fin x) ?cap) (allowed_of q (Fin y) ?cap)"
      unfolding allowed_of_def using best xy by (intro nsub_mono) simp_all
    then have "release_cents p (allowed_of p (Fin x) ?cap) \<le> release_cents q (allowed_of q (Fin y) ?cap)"
      using True le p q by (intro release_mono_profit) auto
    then show ?thesis
      using True q0 xy by (simp add: withdrawable_cents p q release_range2)
  next
    case False
    have m: "cents_ok (max 0 p)" "cents_ok (max 0 q)" using p q by (simp_all add: max_def)
    have "max 0 p \<le> release_cents q z" if "0 < q" "nlt (Fin 0) ?cap" for z
      using False release_range [OF q, of z] that by auto
    then have "max 0 p \<le> release_cents q (allowed_of q (toNum b' (Fin 0)) ?cap)" if "0 < q" "nlt (Fin 0) ?cap"
      using that by blast
    moreover have "max 0 p \<le> max 0 q" using le by auto
    ultimately show ?thesis
      using False m q unfolding withdrawable_cents [OF p] withdrawable_cents [OF q] if_not_P [OF False]
      by (simp add: release_range2 del: max_less_iff_conj max.bounded_iff)
  qed
qed

text \<open>C8. However the best day and the cap read, the consistency rule releases a whole number
  of cents between zero and the profit: never more than has been earned.\<close>

theorem released_profit_bounded:
  assumes "cents_ok p"
  shows "\<exists>r. consistentWithdrawableProfit (JNum (usd p)) b k = usd r \<and> 0 \<le> r \<and> r \<le> max 0 p"
  using withdrawable_cents [OF assms, of b k] release_range [OF assms] by (auto intro: exI [of _ "max 0 p"])

theorem released_profit_bounded_witness:
  "\<exists>r. consistentWithdrawableProfit (JNum (usd 1000000)) (JNum (usd 400000)) (JNum (Fin 15)) = usd r \<and>
       0 \<le> r \<and> r \<le> max 0 1000000"
  by (rule released_profit_bounded) (simp add: cents_ok_def)

text \<open>The released amount never grows with a better single day and never shrinks with more
  total profit, rounding of the Numbers included.\<close>

lemma released_profit_monotone:
  assumes "cents_ok p" "cents_ok q" "p \<le> q" "nle (toNum b' (Fin 0)) (toNum b (Fin 0))"
  shows "nle (consistentWithdrawableProfit (JNum (usd p)) b k) (consistentWithdrawableProfit (JNum (usd q)) b' k)"
  using assms by (rule withdrawable_le)

lemma released_profit_monotone_witness:
  "nle (consistentWithdrawableProfit (JNum (usd 1000000)) (JNum (Fin 4000)) (JNum (Fin 15)))
       (consistentWithdrawableProfit (JNum (usd 1200000)) (JNum (Fin 1500)) (JNum (Fin 15)))"
  by (rule released_profit_monotone) (simp_all add: cents_ok_def)

text \<open>The table in the comment of the function, and the excess it withholds.\<close>

lemma documented_examples:
  "consistentWithdrawableProfit (JNum (usd 1000000)) (JNum (Fin 1000)) (JNum (Fin 15)) = usd 1000000"
  "consistentWithdrawableProfit (JNum (usd 1000000)) (JNum (Fin 1500)) (JNum (Fin 15)) = usd 1000000"
  "consistentWithdrawableProfit (JNum (usd 1000000)) (JNum (Fin 4000)) (JNum (Fin 15)) = usd 750000"
  "consistentWithdrawableProfit (JNum (usd 1000000)) (JNum (Fin 10000)) (JNum (Fin 15)) = usd 150000"
  by code_simp+

section \<open>Exactly when nothing blocks\<close>

definition may_withdraw :: "elig_input \<Rightarrow> bool" where
  "may_withdraw i \<longleftrightarrow>
     (let profit = realizedProfit_of (in_account i); w = withdrawable_of i profit;
          req = toNum (requested i) (Fin 0) in
      row_text row_type (in_account i) = ''funded'' \<and> row_text row_status (in_account i) = ''active'' \<and>
      to_lower (text_or_empty (in_kyc i)) = ''approved'' \<and>
      \<not> nlt (Fin 0) (toNum (open_count i) (Fin 0)) \<and> \<not> nlt (Fin 0) (toNum (pending_orders i) (Fin 0)) \<and>
      \<not> nlt (Fin 0) (toNum (pending_payouts i) (Fin 0)) \<and>
      (\<forall>k. in_consistency i = Some k \<longrightarrow> cons_ok k \<or> \<not> nlt (Fin 0) (toNum (cons_max_pct i) (Fin 0))) \<and>
      \<not> nlt req (toNum (min_request i) (Fin 50)) \<and> \<not> nlt profit req \<and> \<not> nlt w req)"

lemma state_blockers_hold: "b \<in> set (state_blockers i) \<Longrightarrow> fst b \<noteq> CONSISTENCY_HOLD"
  by (auto simp: state_blockers_def split: if_splits)

lemma consistency_blockers_Nil:
  "consistency_blockers i p w = [] \<longleftrightarrow>
   (\<forall>k. in_consistency i = Some k \<longrightarrow> cons_ok k \<or> \<not> nlt (Fin 0) (toNum (cons_max_pct i) (Fin 0)))"
  by (auto simp: consistency_blockers_def Let_def split: option.splits)

lemma state_blockers_Nil:
  "state_blockers i = [] \<longleftrightarrow>
   row_text row_type (in_account i) = ''funded'' \<and> row_text row_status (in_account i) = ''active'' \<and>
   to_lower (text_or_empty (in_kyc i)) = ''approved'' \<and>
   \<not> nlt (Fin 0) (toNum (open_count i) (Fin 0)) \<and> \<not> nlt (Fin 0) (toNum (pending_orders i) (Fin 0)) \<and>
   \<not> nlt (Fin 0) (toNum (pending_payouts i) (Fin 0))"
  by (auto simp: state_blockers_def)

lemma blockers_Nil:
  assumes "\<not> nullish (requested i)"
  shows "blockers (evaluatePayoutEligibility i) = [] \<longleftrightarrow> may_withdraw i"
proof (cases "state_blockers i = [] \<and> consistency_blockers i (realizedProfit_of (in_account i))
                 (withdrawable_of i (realizedProfit_of (in_account i))) = []")
  case True
  then show ?thesis
    using assms unfolding state_blockers_Nil consistency_blockers_Nil
    by (simp add: evaluatePayoutEligibility_def Let_def amount_blockers_def may_withdraw_def True)
next
  case False
  then show ?thesis
    unfolding state_blockers_Nil consistency_blockers_Nil
    by (auto simp: evaluatePayoutEligibility_def Let_def may_withdraw_def state_blockers_Nil consistency_blockers_Nil)
qed

lemma realizedProfit_row:
  assumes "account_typed a" "cents_ok (current_balance a - starting_balance a)"
  shows "realizedProfit_of (Some (row_of a)) = usd (current_balance a - starting_balance a)"
  using assms fixed2_diff by (simp add: realizedProfit_of_def row_num_def row_of_def account_typed_def)

text \<open>C7. For a given amount, no blocker is reported exactly when the account is funded and active,
  the identity check is approved, there is no open trade, pending order or other pending payout,
  the consistency rule holds or is off, and the amount is at least the minimum and no more than
  both the realised profit and the part of it that may be withdrawn now.\<close>

theorem eligible_iff:
  assumes "\<not> nullish (requested i)"
  shows "blockers (evaluatePayoutEligibility i) = [] \<longleftrightarrow> may_withdraw i"
  using assms by (rule blockers_Nil)

theorem eligible_iff_witness:
  "blockers (evaluatePayoutEligibility ((default_input (Some (row_of demo_account)))\<lparr>requested := JNum (Fin 3000)\<rparr>)) = [] \<longleftrightarrow>
   may_withdraw ((default_input (Some (row_of demo_account)))\<lparr>requested := JNum (Fin 3000)\<rparr>)"
  by (rule eligible_iff) (simp add: default_input_def)

end
