(* ===== verification/Account.thy ===== *)
theory Account
  imports Ledger Eligibility
begin

text \<open>
  domain/account.js: the account aggregate. A command takes the cached row of the aggregate and
  returns it updated beside its result; the database effects go through the caller's
  transaction. The lemmas give the exact effect of a capital movement on balance, ledger and
  drawdown frame, that of a reset, and the table a change of status follows.
\<close>

section \<open>Loading\<close>

text \<open>A null key is bound as the text null, which the server refuses to read as a uuid.\<close>

definition loadForUpdate :: "string option \<Rightarrow> (db, account_row) tx" where
  "loadForUpdate accountId =
     (case accountId of
        None \<Rightarrow> query (\<lambda>t. Inl ''22P02'')
      | Some i \<Rightarrow>
          tx_bind (select (get_account i)) (\<lambda>r.
            case r of
              None \<Rightarrow> tx_throw (NotFound ''Account not found'')
            | Some a \<Rightarrow> tx_return (row_of a)))"

definition fromLockedRow :: "account_row option \<Rightarrow> (db, account_row) tx" where
  "fromLockedRow r =
     (case r of None \<Rightarrow> tx_throw (NotFound ''Account not found'') | Some row \<Rightarrow> tx_return row)"

definition row_status_lc :: "account_row \<Rightarrow> string" where
  "row_status_lc r = to_lower (text_or_empty (row_status r))"

definition row_realizedProfit :: "account_row \<Rightarrow> num" where
  "row_realizedProfit r = fixed 2 (nsub (parse_float (row_current r)) (parse_float (row_starting r)))"

section \<open>Capital movements\<close>

definition adjustBalance ::
  "account_row \<Rightarrow> jsval \<Rightarrow> string \<Rightarrow> string \<Rightarrow> string \<Rightarrow> int option \<Rightarrow> int option \<Rightarrow> json_obj \<Rightarrow> bool \<Rightarrow>
   (db, adj_result \<times> account_row) tx" where
  "adjustBalance row amount source reason createdBy cid eid metadata shiftDrawdownAnchors =
     tx_bind (applyBalanceAdjustment (row_id row) amount source reason createdBy cid eid metadata) (\<lambda>res.
       tx_bind (if shiftDrawdownAnchors
                then tx_bind (shiftAnchors (row_id row) (adj_amount res)) (\<lambda>_. tx_return ())
                else tx_return ()) (\<lambda>_.
         tx_return (res, row\<lparr>row_current := JNum (adj_after res), row_peak := JNum (adj_peak res)\<rparr>)))"

definition reset_peak_stmt :: "string \<Rightarrow> db \<Rightarrow> string + unit \<times> db" where
  "reset_peak_stmt i t = Inr ((), put_account i (\<lambda>a. a\<lparr>peak_balance := starting_balance a\<rparr>) t)"

definition reset_ledger :: "account_row \<Rightarrow> num \<Rightarrow> string \<Rightarrow> string \<Rightarrow> json_obj \<Rightarrow> (db, account_row) tx" where
  "reset_ledger row delta reason createdBy metadata =
     (if delta \<noteq> Fin 0
      then tx_bind (adjustBalance row (JNum delta) ''admin_reset'' reason createdBy None None metadata False)
             (\<lambda>(res, row'). tx_return row')
      else tx_return row)"

definition resetToStarting :: "account_row \<Rightarrow> string \<Rightarrow> string \<Rightarrow> json_obj \<Rightarrow> (db, num \<times> account_row) tx" where
  "resetToStarting row0 reason createdBy metadata =
     tx_bind (select (get_account (row_id row0))) (\<lambda>live.
       case live of
         None \<Rightarrow> tx_throw (NotFound ''Account not found'')
       | Some a \<Rightarrow>
           (let row = row0\<lparr>row_current := numeric_val (current_balance a),
                           row_starting := numeric_val (starting_balance a)\<rparr>;
                start = parse_float (row_starting row);
                delta = fixed 2 (nsub start (parse_float (row_current row)))
            in tx_bind (reset_ledger row delta reason createdBy metadata) (\<lambda>row'.
                 tx_bind (query (reset_peak_stmt (row_id row))) (\<lambda>_.
                   tx_bind (rebaseAnchors (row_id row) start) (\<lambda>_.
                     tx_return (delta, row'\<lparr>row_current := JNum start, row_peak := JNum start\<rparr>))))))"

section \<open>Lifecycle\<close>

definition LEGAL_TRANSITIONS :: "(string \<times> string list) list" where
  "LEGAL_TRANSITIONS =
     [(''active'', [''passed'', ''failed'', ''locked'', ''expired'', ''cancelled'', ''closed'']),
      (''passed'', [''active'', ''locked'', ''cancelled'', ''closed'']),
      (''failed'', [''active'', ''locked'', ''cancelled'', ''closed'']),
      (''locked'', [''active'', ''failed'', ''cancelled'', ''closed'']),
      (''expired'', [''active'', ''cancelled'', ''closed'']),
      (''cancelled'', [''active'']),
      (''closed'', [])]"

record status_change =
  sc_changed :: bool
  sc_status :: string
  sc_from :: "string option"

text \<open>\<open>extra\<close> assigns the extra columns, which are not among id and status.\<close>

definition status_stmt :: "string \<Rightarrow> string \<Rightarrow> (account \<Rightarrow> account) \<Rightarrow> db \<Rightarrow> string + account option \<times> db" where
  "status_stmt i target extra t =
     (case get_account i t of
        None \<Rightarrow> Inr (None, t)
      | Some a \<Rightarrow>
          if target \<in> set known_statuses
          then Inr (Some (extra (a\<lparr>acc_status := Some target\<rparr>)),
                    put_account i (\<lambda>r. extra (r\<lparr>acc_status := Some target\<rparr>)) t)
          else Inl ''23514'')"

definition changeStatus ::
  "account_row \<Rightarrow> string option \<Rightarrow> (account \<Rightarrow> account) \<Rightarrow> (db, status_change \<times> account_row) tx" where
  "changeStatus row next_status extra =
     (let target = to_lower (text_or_empty next_status); current = row_status_lc row in
      if target = [] then tx_throw (DomainError ''A target status is required'' 400)
      else if target = current then tx_return (\<lparr>sc_changed = False, sc_status = current, sc_from = None\<rparr>, row)
      else case map_of LEGAL_TRANSITIONS current of
             None \<Rightarrow> tx_throw (InvariantViolation (''Unknown account status \"'' @ current @ ''\"'') 409)
           | Some allowed \<Rightarrow>
               if target \<notin> set allowed then
                 tx_throw (InvariantViolation (''Cannot move an account from '' @ current @ '' to '' @ target) 409)
               else
                 tx_bind (query (status_stmt (row_id row) target extra)) (\<lambda>r.
                   case r of
                     None \<Rightarrow> tx_throw (NotFound ''Account not found'')
                   | Some _ \<Rightarrow>
                       tx_return (\<lparr>sc_changed = True, sc_status = target, sc_from = Some current\<rparr>,
                                  row\<lparr>row_status := Some target\<rparr>)))"

section \<open>Guards\<close>

definition assertCanRequestPayout :: "account_row \<Rightarrow> elig_input \<Rightarrow> js_error + bool" where
  "assertCanRequestPayout row ctx =
     (case blockers (evaluatePayoutEligibility (ctx\<lparr>in_account := Some row\<rparr>)) of
        [] \<Rightarrow> Inr True
      | b # _ \<Rightarrow> Inl (InvariantViolation (snd b) 403))"

definition assertCanOpenOrder :: "account_row \<Rightarrow> js_error + bool" where
  "assertCanOpenOrder row =
     (if row_status_lc row \<noteq> ''active''
      then Inl (InvariantViolation (''Account status is '' @ status_text (Some row) @ ''.'') 403)
      else Inr True)"

section \<open>Frames and types\<close>

lemma framed_loadForUpdate [tx_frames]: "framed (loadForUpdate i)"
  by (auto simp: loadForUpdate_def intro!: tx_frames split: option.splits)

lemma framed_adjustBalance [tx_frames]: "framed (adjustBalance row amount source reason by' cid eid meta sh)"
  by (auto simp: adjustBalance_def intro!: tx_frames)

lemma framed_resetToStarting [tx_frames]: "framed (resetToStarting row reason by' meta)"
  by (auto simp: resetToStarting_def reset_ledger_def Let_def intro!: tx_frames split: option.splits)

lemma framed_changeStatus [tx_frames]: "framed (changeStatus row nxt extra)"
  by (auto simp: changeStatus_def Let_def intro!: tx_frames split: option.splits)

lemma preserves_loadForUpdate [tx_preserves]: "preserves I (loadForUpdate i)"
  by (auto simp: loadForUpdate_def intro!: tx_preserves split: option.splits intro: preserves_query)

lemma preserves_adjustBalance [tx_preserves]:
  "preserves accounts_typed (adjustBalance row amount source reason by' cid eid meta sh)"
  by (auto simp: adjustBalance_def intro!: tx_preserves)

lemma typed_reset_peak: "accounts_typed t \<Longrightarrow> reset_peak_stmt i t = Inr (u, t') \<Longrightarrow> accounts_typed t'"
  by (auto simp: reset_peak_stmt_def account_typed_def intro!: accounts_typed_put dest: accounts_typedD)

lemma preserves_resetToStarting [tx_preserves]: "preserves accounts_typed (resetToStarting row reason by' meta)"
  by (auto simp: resetToStarting_def reset_ledger_def Let_def intro!: tx_preserves preserves_query split: option.splits
      intro: typed_reset_peak)

section \<open>The effect of a capital movement\<close>

lemma anchor_base_ok: "account_typed a \<Longrightarrow> cents_ok (anchor_base a)"
  by (auto simp: account_typed_def anchor_base_def split: option.splits)

definition anchored :: "string \<Rightarrow> int \<Rightarrow> db \<Rightarrow> db" where
  "anchored i p t = put_account i (\<lambda>r. r\<lparr>eod_peak_equity := Some p\<rparr>) t"

lemma get_account_anchored:
  "get_account j (anchored i p t) =
     (if j = i then map_option (\<lambda>r. r\<lparr>eod_peak_equity := Some p\<rparr>) (get_account i t) else get_account j t)"
proof -
  have k: "keeps_acc_id (\<lambda>r. r\<lparr>eod_peak_equity := Some p\<rparr>)" by auto
  show ?thesis by (simp add: anchored_def acct.lookup_modify [OF k])
qed

lemma adjust_whole_cents:
  assumes acc: "get_account (row_id row) (tabs c) = Some a" and ok: "\<not> aborted c" "row_id row \<noteq> []" "source \<noteq> []"
    and amt: "parse_float amount = usd d" "cents_ok d" "d \<noteq> 0"
    and typed: "account_typed a" "cents_ok (current_balance a + d)" "cents_ok (max (anchor_base a + d) 0)"
  shows "adjustBalance row amount source reason by' cid eid meta True c =
    (Inr (\<lparr>adj_ledger_id = ledger_seq (tabs c) + 1, adj_account = row_id row, adj_user = acc_user a, adj_amount = usd d,
           adj_before = usd (current_balance a), adj_after = usd (current_balance a + d),
           adj_peak = usd (max (peak_balance a) (current_balance a + d))\<rparr>,
          row\<lparr>row_current := JNum (usd (current_balance a + d)),
              row_peak := JNum (usd (max (peak_balance a) (current_balance a + d)))\<rparr>),
     c\<lparr>tabs := anchored (row_id row) (max (anchor_base a + d) 0)
       (book (row_id row) (credited d a)
          (ledger_entry a (ledger_seq (tabs c) + 1) d source reason by' cid eid meta) (tabs c))\<rparr>)"
proof -
  let ?i = "row_id row"
  let ?t = "book ?i (credited d a) (ledger_entry a (ledger_seq (tabs c) + 1) d source reason by' cid eid meta) (tabs c)"
  note app = apply_whole_cents [OF acc ok amt typed(1,2)]
  have acc': "get_account ?i ?t = Some (credited d a)"
    using acc by (simp add: get_account_book credited_def)
  have base: "anchor_base (credited d a) = anchor_base a"
    by (simp add: credited_def anchor_base_def split: option.split)
  have sh: "shiftAnchors ?i (usd d) (c\<lparr>tabs := ?t\<rparr>) =
    (Inr (None, Some (usd (max (anchor_base a + d) 0))), c\<lparr>tabs := anchored ?i (max (anchor_base a + d) 0) ?t\<rparr>)"
    using amt ok typed(3) shift_stmt_usd [OF acc' amt(2)]
    by (simp add: shiftAnchors_def tx_bind_def query_def tx_return_app base anchored_def)
  show ?thesis
    unfolding adjustBalance_def by (simp add: tx_bind_def app sh tx_return_app)
qed

lemma residue_anchored [simp]: "residue j (anchored i p t) = residue j t"
  by (auto simp: residue_def get_account_anchored ledger_sum_def trade_sum_def option.map_comp comp_def)
    (auto simp: anchored_def put_account_def)

definition drawdown_room :: "account \<Rightarrow> int" where
  "drawdown_room a = current_balance a - anchor_base a"

text \<open>C5. A capital movement of whole cents moves the balance, the ledger and the trailing anchor
  by the same amount: the distance between balance and anchor is unchanged unless the anchor
  is cut off at zero, the locked floor and every other account stay as they are, and the
  balance of every account stays reconstructable from its ledger.\<close>

theorem adjustBalance_moves_frame:
  assumes "get_account (row_id row) (tabs c) = Some a" "\<not> aborted c" "row_id row \<noteq> []" "source \<noteq> []"
    and "parse_float amount = usd d" "cents_ok d" "d \<noteq> 0"
    and "account_typed a" "cents_ok (current_balance a + d)" "cents_ok (max (anchor_base a + d) 0)"
  shows "\<exists>res row' c' a'. adjustBalance row amount source reason by' cid eid meta True c = (Inr (res, row'), c') \<and>
    get_account (row_id row) (tabs c') = Some a' \<and>
    current_balance a' = current_balance a + d \<and> eod_trailing_floor a' = eod_trailing_floor a \<and>
    (0 \<le> anchor_base a + d \<longrightarrow> drawdown_room a' = drawdown_room a) \<and>
    (\<forall>j. residue j (tabs c') = residue j (tabs c)) \<and>
    (\<forall>j. j \<noteq> row_id row \<longrightarrow> get_account j (tabs c') = get_account j (tabs c)) \<and>
    adj_before res = usd (current_balance a) \<and> adj_after res = usd (current_balance a')"
proof -
  note eq = adjust_whole_cents [OF assms, of reason by' cid eid meta]
  define r where "r = ledger_entry a (ledger_seq (tabs c) + 1) d source reason by' cid eid meta"
  have "led_account r = row_id row" "led_amount r = current_balance (credited d a) - current_balance a"
    using get_account_id [OF assms(1)] by (simp_all add: r_def ledger_entry_def credited_def)
  note res = residue_book [OF assms(1) this]
  show ?thesis
    unfolding eq r_def [symmetric]
    using assms(1) res
    by (auto simp: get_account_anchored get_account_book credited_def drawdown_room_def anchor_base_def)
qed

theorem adjustBalance_moves_frame_witness:
  "\<exists>res row' c' a'. adjustBalance (row_of demo_account) (JNum (usd (-300000))) ''payout'' [] ''admin'' None None [] True
      (conn_of demo_db) = (Inr (res, row'), c') \<and>
    get_account (row_id (row_of demo_account)) (tabs c') = Some a' \<and>
    current_balance a' = current_balance demo_account + -300000 \<and> eod_trailing_floor a' = eod_trailing_floor demo_account \<and>
    (0 \<le> anchor_base demo_account + -300000 \<longrightarrow> drawdown_room a' = drawdown_room demo_account) \<and>
    (\<forall>j. residue j (tabs c') = residue j (tabs (conn_of demo_db))) \<and>
    (\<forall>j. j \<noteq> row_id (row_of demo_account) \<longrightarrow> get_account j (tabs c') = get_account j (tabs (conn_of demo_db))) \<and>
    adj_before res = usd (current_balance demo_account) \<and> adj_after res = usd (current_balance a')"
  by (rule adjustBalance_moves_frame)
    (simp_all add: row_of_def demo_account_def [THEN arg_cong [of _ _ acc_id]] cents_ok_def anchor_base_def,
     simp_all add: demo_account_def)

section \<open>Reset\<close>

definition reset_account :: "account \<Rightarrow> account" where
  "reset_account a = a\<lparr>current_balance := starting_balance a, peak_balance := starting_balance a,
                       eod_peak_equity := Some (starting_balance a), eod_trailing_floor := None\<rparr>"

lemma adjust_no_shift:
  assumes acc: "get_account (row_id row) (tabs c) = Some a" and ok: "\<not> aborted c" "row_id row \<noteq> []" "source \<noteq> []"
    and amt: "parse_float amount = usd d" "cents_ok d" "d \<noteq> 0"
    and typed: "account_typed a" "cents_ok (current_balance a + d)"
  shows "\<exists>res row'. adjustBalance row amount source reason by' cid eid meta False c =
     (Inr (res, row'), c\<lparr>tabs := book (row_id row) (credited d a)
          (ledger_entry a (ledger_seq (tabs c) + 1) d source reason by' cid eid meta) (tabs c)\<rparr>) \<and>
     row_id row' = row_id row"
  unfolding adjustBalance_def
  by (simp add: tx_bind_def apply_whole_cents [OF assms] tx_return_app)

lemma rebase_stmt_usd:
  assumes "get_account i t = Some a" "cents_ok d"
  shows "rebase_stmt i (usd d) t =
    Inr (Some d, put_account i (\<lambda>r. r\<lparr>eod_peak_equity := Some d, eod_trailing_floor := None\<rparr>) t)"
  using assms by (simp add: rebase_stmt_def)

lemma put_account_residue:
  assumes "\<And>r. acc_id (f r) = acc_id r" "\<And>r. current_balance (f r) = current_balance r"
    "\<And>r. starting_balance (f r) = starting_balance r"
  shows "residue j (put_account i f t) = residue j t"
proof -
  have k: "keeps_acc_id f" using assms(1) by auto
  have "trade_sum j (put_account i f t) = trade_sum j t" "ledger_sum j (put_account i f t) = ledger_sum j t"
    by (simp_all add: trade_sum_def ledger_sum_def)
  then show ?thesis
    unfolding residue_def acct.lookup_modify [OF k]
    by (cases "get_account j t") (auto simp: assms)
qed

lemma get_account_put:
  assumes "\<And>r. acc_id (f r) = acc_id r"
  shows "get_account j (put_account i f t) = (if j = i then map_option f (get_account i t) else get_account j t)"
  using assms by (intro acct.lookup_modify) auto

text \<open>C6. A reset leaves the account exactly at its starting balance with a fresh drawdown frame,
  whatever stale balances the caller's cached row had; the movement goes through the ledger, so
  every balance stays reconstructable, and no other account changes.\<close>

theorem resetToStarting_exact:
  assumes "get_account (row_id row) (tabs c) = Some a" "\<not> aborted c" "row_id row \<noteq> []"
    and "account_typed a" "cents_ok (starting_balance a - current_balance a)"
  shows "\<exists>row' c'. resetToStarting row reason by' meta c = (Inr (usd (starting_balance a - current_balance a), row'), c') \<and>
    get_account (row_id row) (tabs c') = Some (reset_account a) \<and>
    (\<forall>j. residue j (tabs c') = residue j (tabs c)) \<and>
    ledger_sum (row_id row) (tabs c') = ledger_sum (row_id row) (tabs c) + (starting_balance a - current_balance a) \<and>
    (\<forall>j. j \<noteq> row_id row \<longrightarrow> get_account j (tabs c') = get_account j (tabs c))"
proof -
  let ?i = "row_id row" and ?d = "starting_balance a - current_balance a"
  let ?row = "row\<lparr>row_current := numeric_val (current_balance a), row_starting := numeric_val (starting_balance a)\<rparr>"
  define peak where "peak = put_account ?i (\<lambda>a. a\<lparr>peak_balance := starting_balance a\<rparr>)"
  define anch where "anch = put_account ?i (\<lambda>r. r\<lparr>eod_peak_equity := Some (starting_balance a), eod_trailing_floor := None\<rparr>)"
  have ty: "cents_ok (starting_balance a)" "cents_ok (current_balance a)" using assms(4) by (simp_all add: account_typed_def)
  have delta: "fixed 2 (nsub (usd (starting_balance a)) (usd (current_balance a))) = usd ?d"
    using fixed2_diff ty assms(5) by simp
  have fin: "is_finite (usd (starting_balance a))" using ty by simp
  define led where "led = (if ?d = 0 then tabs c else
     book ?i (credited ?d a) (ledger_entry a (ledger_seq (tabs c) + 1) ?d ''admin_reset'' reason by' None None meta) (tabs c))"
  have booked: "\<exists>row'. reset_ledger ?row (usd ?d) reason by' meta c = (Inr row', c\<lparr>tabs := led\<rparr>)"
  proof (cases "?d = 0")
    case True
    then show ?thesis using assms(5) by (simp add: reset_ledger_def tx_return_app led_def)
  next
    case False
    obtain res row' where "adjustBalance ?row (JNum (usd ?d)) ''admin_reset'' reason by' None None meta False c =
      (Inr (res, row'), c\<lparr>tabs := led\<rparr>)"
      using adjust_no_shift [of ?row c a "''admin_reset''" "JNum (usd ?d)" ?d reason by' None None meta] assms ty False
      by (auto simp: led_def)
    then show ?thesis using False assms(5) by (auto simp: reset_ledger_def tx_bind_def tx_return_app)
  qed
  then obtain row1 where row1: "reset_ledger ?row (usd ?d) reason by' meta c = (Inr row1, c\<lparr>tabs := led\<rparr>)" by blast
  have acc1: "get_account ?i led = Some (a\<lparr>current_balance := starting_balance a,
      peak_balance := (if ?d = 0 then peak_balance a else max (peak_balance a) (starting_balance a))\<rparr>)"
    using assms(1) by (auto simp: led_def get_account_book credited_def)
  have acc2: "get_account ?i (peak led) = Some (a\<lparr>current_balance := starting_balance a, peak_balance := starting_balance a\<rparr>)"
    unfolding peak_def by (subst get_account_put) (simp_all add: acc1)
  have reb: "rebaseAnchors ?i (usd (starting_balance a)) (c\<lparr>tabs := peak led\<rparr>) =
      (Inr (usd (starting_balance a)), c\<lparr>tabs := anch (peak led)\<rparr>)"
    using rebase_stmt_usd [OF acc2 ty(1)] assms(2) fin
    by (simp add: rebaseAnchors_def tx_bind_def query_def tx_return_app anch_def)
  have run: "resetToStarting row reason by' meta c =
      (Inr (usd ?d, row1\<lparr>row_current := JNum (usd (starting_balance a)), row_peak := JNum (usd (starting_balance a))\<rparr>),
       c\<lparr>tabs := anch (peak led)\<rparr>)"
    unfolding resetToStarting_def
    using assms(1,2) reb
    by (simp add: tx_bind_def row1 select_app Let_def delta query_def reset_peak_stmt_def tx_return_app peak_def)
  have res: "residue j (anch (peak led)) = residue j (tabs c)" for j
    unfolding anch_def peak_def
    by (simp add: put_account_residue led_def,
        intro impI residue_book [OF assms(1)]) 
      (use get_account_id [OF assms(1)] in \<open>simp_all add: ledger_entry_def credited_def\<close>)
  have led_sum: "ledger_sum ?i (anch (peak led)) = ledger_sum ?i (tabs c) + ?d"
    using get_account_id [OF assms(1)]
    by (simp add: anch_def peak_def ledger_sum_def put_account_others)
      (auto simp: led_def book_def ledger_entry_def)
  have same: "get_account ?i (anch (peak led)) = Some (reset_account a)"
    unfolding anch_def by (subst get_account_put) (simp_all add: acc2 reset_account_def)
  have other: "get_account j (anch (peak led)) = get_account j (tabs c)" if "j \<noteq> ?i" for j
    unfolding anch_def peak_def using that by (simp add: get_account_put led_def get_account_book)
  show ?thesis using run res led_sum same other by auto
qed

theorem resetToStarting_exact_witness:
  "\<exists>row' c'. resetToStarting (row_of demo_account) [] ''admin'' [] (conn_of demo_db) =
      (Inr (usd (starting_balance demo_account - current_balance demo_account), row'), c') \<and>
    get_account (row_id (row_of demo_account)) (tabs c') = Some (reset_account demo_account) \<and>
    (\<forall>j. residue j (tabs c') = residue j (tabs (conn_of demo_db))) \<and>
    ledger_sum (row_id (row_of demo_account)) (tabs c') =
      ledger_sum (row_id (row_of demo_account)) (tabs (conn_of demo_db)) +
      (starting_balance demo_account - current_balance demo_account) \<and>
    (\<forall>j. j \<noteq> row_id (row_of demo_account) \<longrightarrow> get_account j (tabs c') = get_account j (tabs (conn_of demo_db)))"
  by (rule resetToStarting_exact) (simp_all add: row_of_def demo_account_def [THEN arg_cong [of _ _ acc_id]] cents_ok_def,
     simp_all add: demo_account_def)

section \<open>The table of status changes\<close>

inductive lifecycle :: "string \<Rightarrow> string \<Rightarrow> bool" where
  legal: "map_of LEGAL_TRANSITIONS s = Some ts \<Longrightarrow> t \<in> set ts \<Longrightarrow> lifecycle s t"

inductive_cases lifecycle_closedE: "lifecycle ''closed'' t"

text \<open>A change of status either changes nothing or moves the account of the row along the table.\<close>

lemma changeStatus_tabs:
  assumes "changeStatus row nxt extra c = (r, c')"
  shows "tabs c' = tabs c \<or>
    (\<exists>target. lifecycle (row_status_lc row) target \<and> to_lower target = target \<and>
       tabs c' = put_account (row_id row) (\<lambda>a. extra (a\<lparr>acc_status := Some target\<rparr>)) (tabs c))"
  using assms
  by (auto simp: changeStatus_def Let_def tx_throw_def tx_return_def tx_bind_fst query_def status_stmt_def
      intro: lifecycle.legal split: if_splits option.splits sum.splits)

text \<open>Closed is final, and only an active account passes.\<close>

lemma closed_final: "lifecycle\<^sup>*\<^sup>* ''closed'' s \<Longrightarrow> s = ''closed''"
  by (induction rule: rtranclp_induct) (auto elim!: lifecycle.cases simp: LEGAL_TRANSITIONS_def)

lemma passed_from_active: "lifecycle s ''passed'' \<longleftrightarrow> s = ''active''"
  by (auto simp: lifecycle.simps LEGAL_TRANSITIONS_def split: if_splits)

end
