(* ===== verification/Certificates.thy ===== *)
theory Certificates
  imports Database JsDate
begin

text \<open>
  services/certificateService.js and utils/certificateSignature.js: issuing, superseding,
  revoking and verifying certificates. The hash functions, the random hex blocks of a public id
  and the process environment are parameters. The lemmas show that issuing is idempotent in the source
  key, that a freshly issued certificate of whole cents verifies, and what a sub-cent amount or a
  collision of public ids inside a transaction does.
\<close>

section \<open>Text of a certificate\<close>

text \<open>\<open>Number(v)\<close>; a text is read as a decimal literal.\<close>

definition full_decimal :: "string \<Rightarrow> bool" where
  "full_decimal s =
     (let (n, r) = split_sign s in
      r = ''Infinity'' \<or>
      (let ip = takeWhile is_digit r; (fp, r1) = frac_part (dropWhile is_digit r) in
       (ip \<noteq> [] \<or> fp \<noteq> []) \<and>
       (case r1 of [] \<Rightarrow> True
        | e # x \<Rightarrow> (e = CHR ''e'' \<or> e = CHR ''E'') \<and>
            (let (m, ds) = split_sign x in ds \<noteq> [] \<and> list_all is_digit ds))))"

fun to_number :: "jsval \<Rightarrow> num" where
  "to_number JUndef = NaN"
| "to_number JNull = Fin 0"
| "to_number (JBool b) = (if b then Fin 1 else Fin 0)"
| "to_number (JNum x) = x"
| "to_number (JNumeric q) = mk q"
| "to_number (JText s) =
     (let t = trim s in if t = [] then Fin 0 else if full_decimal t then parse_float_str t else NaN)"

text \<open>Grouping of an integer's digits by thousands, from the right.\<close>

fun group3 :: "string \<Rightarrow> string" where
  "group3 (a # b # c # d # r) = a # b # c # CHR '','' # group3 (d # r)"
| "group3 s = s"

definition locale_str :: "nat \<Rightarrow> rat \<Rightarrow> string" where
  "locale_str d q =
     (let s = pad_digits d (pos_str (fixed_digits d q)); m = length s - d in
      (if q < 0 then ''-'' else []) @ rev (group3 (rev (take m s))) @ (if d = 0 then [] else CHR ''.'' # drop m s))"

fun has_cents :: "num \<Rightarrow> bool" where
  "has_cents (Fin r) = (\<lfloor>r\<rfloor> mod 100 \<noteq> 0)"
| "has_cents _ = True"

definition formatAmountLabel :: "jsval \<Rightarrow> string \<Rightarrow> string" where
  "formatAmountLabel amount currency =
     (case to_number amount of
        Fin q \<Rightarrow>
          (let formatted = locale_str (if has_cents (math_round (nmul (Fin q) (Fin 100))) then 2 else 0) q in
           if currency \<noteq> [] \<and> currency \<noteq> ''USD'' then formatted @ '' '' @ currency else CHR ''$'' # formatted)
      | _ \<Rightarrow> [])"

definition PHASE_LABELS :: "(string \<times> string) list" where
  "PHASE_LABELS =
     [(''phase1'', ''Phase 1 Challenge''), (''phase2'', ''Phase 2 Challenge''),
      (''phase3'', ''Phase 3 Challenge''), (''funded'', ''Funded Trader'')]"

text \<open>The dash between phase and size is written in UTF-8.\<close>

definition buildCertificateTitle :: "string \<Rightarrow> string option \<Rightarrow> jsval \<Rightarrow> jsval \<Rightarrow> string \<Rightarrow> string" where
  "buildCertificateTitle kind accountType accountSize amount currency =
     (if kind = ''funded'' then formatAmountLabel accountSize currency @ '' Funded Trader''
      else if kind = ''phase_passed'' then
        (let label = (case map_of PHASE_LABELS (to_lower (text_or_empty accountType)) of
                        Some l \<Rightarrow> l | None \<Rightarrow> ''Challenge'');
             sz = formatAmountLabel accountSize currency
         in if sz \<noteq> [] then label @ [CHR '' '', CHR 0xE2, CHR 0x80, CHR 0x94, CHR '' ''] @ sz else label)
      else if kind = ''payout'' then formatAmountLabel amount currency @ '' Profit Payout''
      else ''Certificate of Achievement'')"

section \<open>Signatures\<close>

record crypto_env =
  sha256 :: "string \<Rightarrow> string"
  hmac_hex :: "string \<Rightarrow> string \<Rightarrow> string"
  signing_secret :: "string option"
  jwt_secret :: "string option"
  production :: bool

definition getSigningKey :: "crypto_env \<Rightarrow> js_error + string" where
  "getSigningKey e =
     (let secret = (if text_or_empty (signing_secret e) \<noteq> [] then text_or_empty (signing_secret e)
                    else if production e then [] else text_or_empty (jwt_secret e))
      in if secret = [] then Inl (PlainError ''Certificate signing secret is not configured'' None)
         else Inr (sha256 e secret))"

record cert_draft =
  d_public_id :: string
  d_user :: string
  d_kind :: string
  d_title :: string
  d_amount :: jsval
  d_issued_at :: int

definition amount_text :: "jsval \<Rightarrow> string" where
  "amount_text v = (if nullish v \<or> v = JText [] then [] else fixed_str 2 (to_number v))"

definition buildSignaturePayload :: "cert_draft \<Rightarrow> string" where
  "buildSignaturePayload d =
     d_public_id d @ ''|'' @ d_user d @ ''|'' @ d_kind d @ ''|'' @ d_title d @ ''|'' @
     amount_text (d_amount d) @ ''|'' @ iso_str (d_issued_at d)"

definition SIGNATURE_DISPLAY_LENGTH :: nat where
  "SIGNATURE_DISPLAY_LENGTH = 32"

definition signCertificate :: "crypto_env \<Rightarrow> cert_draft \<Rightarrow> js_error + string" where
  "signCertificate e d =
     (case getSigningKey e of
        Inl x \<Rightarrow> Inl x
      | Inr key \<Rightarrow> Inr (take SIGNATURE_DISPLAY_LENGTH (hmac_hex e key (buildSignaturePayload d))))"

text \<open>A stored row as the driver delivers it.\<close>

definition cert_view :: "certificate \<Rightarrow> cert_draft" where
  "cert_view r =
     \<lparr>d_public_id = public_id r, d_user = cert_user r, d_kind = cert_kind r, d_title = cert_title r,
      d_amount = (case cert_amount r of None \<Rightarrow> JNull | Some c \<Rightarrow> numeric_val c), d_issued_at = cert_issued_at r\<rparr>"

definition verifyCertificateSignature :: "crypto_env \<Rightarrow> certificate \<Rightarrow> bool" where
  "verifyCertificateSignature e r =
     (case signCertificate e (cert_view r) of Inl _ \<Rightarrow> False | Inr s \<Rightarrow> s = cert_signature r)"

record verdict =
  v_valid :: bool
  v_status :: string
  v_signature :: bool

definition describeVerification :: "crypto_env \<Rightarrow> certificate option \<Rightarrow> verdict" where
  "describeVerification e r =
     (case r of
        None \<Rightarrow> \<lparr>v_valid = False, v_status = ''not_found'', v_signature = False\<rparr>
      | Some x \<Rightarrow>
          (let ok = verifyCertificateSignature e x in
           \<lparr>v_valid = (ok \<and> cert_status x = ''active''),
            v_status = (if cert_status x = ''revoked'' then ''revoked'' else if ok then ''active'' else ''tampered''),
            v_signature = ok\<rparr>))"

section \<open>Issuing\<close>

definition CERTIFICATE_KINDS :: "string list" where
  "CERTIFICATE_KINDS = [''phase_passed'', ''funded'', ''payout'', ''custom'']"

text \<open>The active template of the kind, or else the active default one.\<close>

definition resolveTemplateForKind :: "string \<Rightarrow> db \<Rightarrow> template option" where
  "resolveTemplateForKind kind t =
     (case List.find (\<lambda>x. tpl_active x \<and> tpl_kind x = Some kind) (templates t) of
        Some x \<Rightarrow> Some x
      | None \<Rightarrow> List.find (\<lambda>x. tpl_active x \<and> tpl_kind x = None) (templates t))"

definition generatePublicId :: "int \<Rightarrow> string \<times> string \<Rightarrow> string" where
  "generatePublicId tm blocks =
     ''PF-'' @ int_str (full_year tm) @ ''-'' @ to_upper (fst blocks) @ ''-'' @ to_upper (snd blocks)"

text \<open>A value bound to a NUMERIC(15,2) column. A text that is not a NUMERIC one is refused.\<close>

fun sql_money :: "jsval \<Rightarrow> string + int option" where
  "sql_money JNull = Inr None"
| "sql_money JUndef = Inr None"
| "sql_money (JNumeric q) = (case numeric15_2 q of Inl e \<Rightarrow> Inl e | Inr c \<Rightarrow> Inr (Some c))"
| "sql_money (JNum x) =
     (case bind_num x of Inl e \<Rightarrow> Inl e
      | Inr q \<Rightarrow> (case numeric15_2 q of Inl e \<Rightarrow> Inl e | Inr c \<Rightarrow> Inr (Some c)))"
| "sql_money _ = Inl ''22P02''"

text \<open>The INSERT with ON CONFLICT (source_key) DO NOTHING; another duplicate public_id violates its constraint.\<close>

definition cert_insert :: "certificate \<Rightarrow> jsval \<Rightarrow> db \<Rightarrow> string + certificate option \<times> db" where
  "cert_insert r amount t =
     (case sql_money amount of
        Inl e \<Rightarrow> Inl e
      | Inr m \<Rightarrow>
          if cert_source_key r \<noteq> None \<and> (\<exists>x\<in>set (certificates t). cert_source_key x = cert_source_key r) then Inr (None, t)
          else if \<exists>x\<in>set (certificates t). public_id x = public_id r then Inl ''23505''
          else let x = r\<lparr>cert_id := cert_seq t + 1, cert_amount := m\<rparr> in
            Inr (Some x, t\<lparr>certificates := certificates t @ [x], cert_seq := cert_seq t + 1\<rparr>))"

record cert_input =
  ci_user :: string
  ci_account :: "string option"
  ci_kind :: string
  ci_title :: string
  ci_subtitle :: "string option"
  ci_recipient :: string
  ci_amount :: jsval
  ci_currency :: string
  ci_metadata :: json_obj
  ci_source_key :: "string option"
  ci_issued_by :: "string option"

definition find_source :: "string option \<Rightarrow> db \<Rightarrow> certificate option" where
  "find_source k t = (if k = None then None else List.find (\<lambda>x. cert_source_key x = k) (certificates t))"

definition issue_attempt ::
  "crypto_env \<Rightarrow> int \<Rightarrow> template option \<Rightarrow> string \<Rightarrow> cert_input \<Rightarrow> (db, certificate \<times> bool) tx" where
  "issue_attempt e tm tpl pid i =
     (let draft = \<lparr>d_public_id = pid, d_user = ci_user i, d_kind = ci_kind i, d_title = ci_title i,
                   d_amount = ci_amount i, d_issued_at = tm\<rparr> in
      case signCertificate e draft of
        Inl x \<Rightarrow> tx_throw x
      | Inr sig \<Rightarrow>
          (let row = \<lparr>cert_id = 0, public_id = pid, cert_user = ci_user i, cert_account = ci_account i,
                      cert_template = map_option tpl_id tpl, cert_kind = ci_kind i, cert_title = ci_title i,
                      cert_subtitle = ci_subtitle i,
                      cert_recipient = (if ci_recipient i = [] then ''Trader'' else ci_recipient i),
                      cert_amount = None, cert_currency = ci_currency i, cert_metadata = ci_metadata i,
                      cert_status = ''active'', cert_revoked_at = None, cert_revoked_reason = None,
                      cert_signature = sig, cert_issued_by = ci_issued_by i,
                      cert_source_key = ci_source_key i, cert_issued_at = tm\<rparr>
           in tx_bind (query (cert_insert row (ci_amount i))) (\<lambda>r.
                case r of
                  Some x \<Rightarrow> tx_return (x, True)
                | None \<Rightarrow>
                    tx_bind (select (find_source (ci_source_key i))) (\<lambda>x.
                      case x of
                        Some y \<Rightarrow> tx_return (y, False)
                      | None \<Rightarrow> tx_throw (PlainError ''Certificate insert conflicted but no existing row was found'' None)))))"

text \<open>The five attempts; \<open>blocks n\<close> are the random blocks of attempt \<open>n\<close>.\<close>

fun issue_loop ::
  "crypto_env \<Rightarrow> int \<Rightarrow> (nat \<Rightarrow> string \<times> string) \<Rightarrow> template option \<Rightarrow> cert_input \<Rightarrow> nat list \<Rightarrow> (db, certificate \<times> bool) tx" where
  "issue_loop e tm blocks tpl i [] = tx_throw (PlainError ''Could not allocate a unique certificate ID after 5 attempts'' None)"
| "issue_loop e tm blocks tpl i (n # ns) =
     tx_catch (issue_attempt e tm tpl (generatePublicId tm (blocks n)) i)
       (\<lambda>x. if x = DbError ''23505'' then issue_loop e tm blocks tpl i ns else tx_throw x)"

definition issueCertificate ::
  "crypto_env \<Rightarrow> int \<Rightarrow> (nat \<Rightarrow> string \<times> string) \<Rightarrow> cert_input \<Rightarrow> (db, certificate \<times> bool) tx" where
  "issueCertificate e tm blocks i =
     (if ci_user i = [] then tx_throw (PlainError ''issueCertificate requires a userId'' None)
      else if ci_kind i \<notin> set CERTIFICATE_KINDS then
        tx_throw (PlainError (''Unknown certificate kind: '' @ ci_kind i) None)
      else if ci_title i = [] then tx_throw (PlainError ''issueCertificate requires a title'' None)
      else tx_bind (select (resolveTemplateForKind (ci_kind i))) (\<lambda>tpl.
             issue_loop e tm blocks tpl i [0, 1, 2, 3, 4]))"

section \<open>Revoking and superseding\<close>

definition put_cert :: "int \<Rightarrow> (certificate \<Rightarrow> certificate) \<Rightarrow> db \<Rightarrow> db" where
  "put_cert i f t = t\<lparr>certificates := update_by cert_id i f (certificates t)\<rparr>"

definition revokeCertificate :: "int \<Rightarrow> string option \<Rightarrow> string option \<Rightarrow> (db, certificate option) tx" where
  "revokeCertificate i reason actor =
     query (\<lambda>t. case find_by cert_id i (certificates t) of
        None \<Rightarrow> Inr (None, t)
      | Some r \<Rightarrow>
          if cert_status r = ''revoked'' then Inr (None, t)
          else let f = (\<lambda>x. x\<lparr>cert_status := ''revoked'', cert_revoked_at := Some (now t), cert_revoked_reason := reason,
                             cert_issued_by := (if actor = None then cert_issued_by x else actor)\<rparr>)
            in Inr (Some (f r), put_cert i f t))"

definition reissueCertificate ::
  "crypto_env \<Rightarrow> int \<Rightarrow> (nat \<Rightarrow> string \<times> string) \<Rightarrow> int \<Rightarrow> string option \<Rightarrow>
   (db, certificate option) tx" where
  "reissueCertificate e tm blocks i actor =
     tx_bind (select (\<lambda>t. find_by cert_id i (certificates t))) (\<lambda>o0.
       case o0 of
         None \<Rightarrow> tx_return None
       | Some orig \<Rightarrow>
           tx_bind (issueCertificate e tm blocks
              \<lparr>ci_user = cert_user orig, ci_account = cert_account orig, ci_kind = cert_kind orig, ci_title = cert_title orig,
               ci_subtitle = cert_subtitle orig, ci_recipient = cert_recipient orig,
               ci_amount = d_amount (cert_view orig), ci_currency = cert_currency orig,
               ci_metadata = obj_put (cert_metadata orig) ''reissued_from'' (JText (public_id orig)), ci_source_key = None,
               ci_issued_by = actor\<rparr>) (\<lambda>issued.
             tx_bind (query (\<lambda>t. Inr ((), put_cert (cert_id orig)
                (\<lambda>x. x\<lparr>cert_status := ''revoked'', cert_revoked_at := Some (now t),
                      cert_revoked_reason := Some (''Superseded by '' @ public_id (fst issued))\<rparr>) t))) (\<lambda>_.
               tx_return (Some (fst issued)))))"

section \<open>What issuing does\<close>

lemma framed_issue_attempt [tx_frames]: "framed (issue_attempt e tm tpl pid i)"
  by (auto simp: issue_attempt_def Let_def intro!: tx_frames split: sum.splits option.splits)

lemma framed_issue_loop [tx_frames]: "framed (issue_loop e tm blocks tpl i ns)"
  by (induction ns) (auto intro!: tx_frames)

lemma framed_issueCertificate [tx_frames]: "framed (issueCertificate e tm blocks i)"
  by (auto simp: issueCertificate_def intro!: tx_frames)

lemma accounts_cert_insert: "cert_insert r m t = Inr (x, t') \<Longrightarrow> accounts t' = accounts t"
  by (auto simp: cert_insert_def Let_def split: sum.splits if_splits)

text \<open>A successful attempt: either the row is new, or the row with its source key was there.\<close>

definition stored :: "cert_input \<Rightarrow> certificate \<Rightarrow> db \<Rightarrow> bool" where
  "stored i x t \<longleftrightarrow> x \<in> set (certificates t) \<and> cert_source_key x = ci_source_key i \<and>
     (ci_source_key i \<noteq> None \<longrightarrow> find_source (ci_source_key i) t = Some x)"

lemma find_source_None:
  "k \<noteq> None \<Longrightarrow> find_source k t = None \<longleftrightarrow> \<not> (\<exists>x\<in>set (certificates t). cert_source_key x = k)"
  by (auto simp: find_source_def find_None_iff)

lemma find_append: "List.find P (xs @ ys) = (case List.find P xs of None \<Rightarrow> List.find P ys | Some x \<Rightarrow> Some x)"
  by (induction xs) auto

lemma find_source_append:
  "find_source k (t\<lparr>certificates := certificates t @ [x], cert_seq := n\<rparr>) =
   (case find_source k t of
      None \<Rightarrow> (if k \<noteq> None \<and> cert_source_key x = k then Some x else None)
    | Some y \<Rightarrow> Some y)"
  by (simp add: find_source_def find_append split: option.split)

lemma issue_attempt_success:
  assumes "issue_attempt e tm tpl pid i c = (Inr (x, b), c')"
  shows "\<not> aborted c' \<and> stored i x (tabs c') \<and> (\<exists>m. sql_money (ci_amount i) = Inr m \<and> (b \<longrightarrow> cert_amount x = m)) \<and>
    (\<exists>key. getSigningKey e = Inr key) \<and>
    (b \<longrightarrow> cert_status x = ''active'' \<and> cert_issued_at x = tm \<and> public_id x = pid \<and> cert_user x = ci_user i \<and>
          cert_kind x = ci_kind i \<and> cert_title x = ci_title i \<and>
          signCertificate e \<lparr>d_public_id = pid, d_user = ci_user i, d_kind = ci_kind i, d_title = ci_title i,
             d_amount = ci_amount i, d_issued_at = tm\<rparr> = Inr (cert_signature x))"
proof -
  obtain sig where sig: "signCertificate e \<lparr>d_public_id = pid, d_user = ci_user i, d_kind = ci_kind i, d_title = ci_title i,
     d_amount = ci_amount i, d_issued_at = tm\<rparr> = Inr sig"
    using assms by (auto simp: issue_attempt_def Let_def tx_throw_def split: sum.splits)
  then have key: "\<exists>key. getSigningKey e = Inr key" by (auto simp: signCertificate_def split: sum.splits)
  define row where "row = \<lparr>cert_id = 0, public_id = pid, cert_user = ci_user i, cert_account = ci_account i,
      cert_template = map_option tpl_id tpl, cert_kind = ci_kind i, cert_title = ci_title i,
      cert_subtitle = ci_subtitle i, cert_recipient = (if ci_recipient i = [] then ''Trader'' else ci_recipient i),
      cert_amount = None, cert_currency = ci_currency i, cert_metadata = ci_metadata i,
      cert_status = ''active'', cert_revoked_at = None, cert_revoked_reason = None,
      cert_signature = sig, cert_issued_by = ci_issued_by i,
      cert_source_key = ci_source_key i, cert_issued_at = tm\<rparr>"
  have run: "tx_bind (query (cert_insert row (ci_amount i))) (\<lambda>r.
      case r of Some x \<Rightarrow> tx_return (x, True)
      | None \<Rightarrow> tx_bind (select (find_source (ci_source_key i))) (\<lambda>x.
          case x of Some y \<Rightarrow> tx_return (y, False)
          | None \<Rightarrow> tx_throw (PlainError ''Certificate insert conflicted but no existing row was found'' None))) c =
      (Inr (x, b), c')"
    using assms by (simp add: issue_attempt_def Let_def sig row_def)
  obtain r c1 where q: "query (cert_insert row (ci_amount i)) c = (Inr r, c1)"
    and k: "(case r of Some x \<Rightarrow> tx_return (x, True)
      | None \<Rightarrow> tx_bind (select (find_source (ci_source_key i))) (\<lambda>x.
          case x of Some y \<Rightarrow> tx_return (y, False)
          | None \<Rightarrow> tx_throw (PlainError ''Certificate insert conflicted but no existing row was found'' None))) c1 = (Inr (x, b), c')"
    using run by (rule tx_bind_Inr_E)
  obtain t' where t': "\<not> aborted c" "cert_insert row (ci_amount i) (tabs c) = Inr (r, t')" "c1 = c\<lparr>tabs := t'\<rparr>"
    using q by (auto simp: query_Inr)
  obtain m where m: "sql_money (ci_amount i) = Inr m"
    using t'(2) by (auto simp: cert_insert_def split: sum.splits)
  show ?thesis
  proof (cases r)
    case None
    then have "tabs c1 = tabs c" using t' m by (auto simp: cert_insert_def Let_def split: if_splits)
    moreover obtain y where "find_source (ci_source_key i) (tabs c1) = Some y" "x = y" "\<not> b" "c' = c1"
      using k None by (auto simp: tx_return_def tx_throw_def select_Inr split: option.splits elim!: tx_bind_Inr_E)
    moreover from this have "y \<in> set (certificates (tabs c1))" "cert_source_key y = ci_source_key i"
      by (auto simp: find_source_def find_Some_iff split: if_splits)
    ultimately show ?thesis using m key t'(1,3) by (auto simp: stored_def)
  next
    case (Some y)
    then have "x = y" "b" "c' = c1" using k by (auto simp: tx_return_def)
    moreover have ins: "t' = (tabs c)\<lparr>certificates := certificates (tabs c) @ [y], cert_seq := cert_seq (tabs c) + 1\<rparr>"
      "y = row\<lparr>cert_id := cert_seq (tabs c) + 1, cert_amount := m\<rparr>"
      "cert_source_key row = None \<or> \<not> (\<exists>x\<in>set (certificates (tabs c)). cert_source_key x = cert_source_key row)"
      using t'(2) m Some by (auto simp: cert_insert_def Let_def split: if_splits)
    moreover have "find_source (ci_source_key i) t' = Some y" if "ci_source_key i \<noteq> None"
    proof -
      have "find_source (ci_source_key i) (tabs c) = None"
        using ins(3) that find_source_None by (simp add: row_def)
      then show ?thesis using ins(2) that by (simp add: ins(1) find_source_append row_def)
    qed
    ultimately show ?thesis using m key sig t'(1,3) by (auto simp: stored_def row_def)
  qed
qed

lemma issue_loop_success:
  assumes "issue_loop e tm blocks tpl i ns c = (Inr r, c')"
  shows "\<exists>n\<in>set ns. \<exists>c1. issue_attempt e tm tpl (generatePublicId tm (blocks n)) i c1 = (Inr r, c')"
  using assms
proof (induction ns arbitrary: c)
  case Nil then show ?case by (simp add: tx_throw_def)
next
  case (Cons n ns)
  then show ?case
    by (auto simp: tx_catch_def tx_throw_def split: prod.splits sum.splits if_splits)
qed

lemma issue_success:
  assumes "issueCertificate e tm blocks i c = (Inr r, c')"
  shows "ci_user i \<noteq> [] \<and> ci_kind i \<in> set CERTIFICATE_KINDS \<and> ci_title i \<noteq> [] \<and>
    (\<exists>tpl pid c1. issue_attempt e tm tpl pid i c1 = (Inr r, c'))"
  using assms
  by (auto simp: issueCertificate_def tx_throw_def simp del: issue_loop.simps
      split: if_splits elim!: tx_bind_Inr_E dest!: issue_loop_success)

lemma issue_again:
  assumes "ci_user i \<noteq> []" "ci_kind i \<in> set CERTIFICATE_KINDS" "ci_title i \<noteq> []" "\<not> aborted c"
    and "stored i x (tabs c)" "ci_source_key i \<noteq> None" "sql_money (ci_amount i) = Inr m" "getSigningKey e = Inr key"
  shows "issueCertificate e tm blocks i c = (Inr (x, False), c)"
proof -
  obtain sig where sig: "signCertificate e d = Inr (sig d)" for d
    using assms(8) by (simp add: signCertificate_def)
  have ins: "cert_insert r (ci_amount i) (tabs c) = Inr (None, tabs c)" if "cert_source_key r = ci_source_key i" for r
    using assms(5-7) that by (auto simp: cert_insert_def stored_def)
  have fnd: "find_source (ci_source_key i) (tabs c) = Some x" using assms(5,6) by (simp add: stored_def)
  have "issue_attempt e tm tpl pid i c = (Inr (x, False), c)" for tpl pid
    using assms(4) by (simp add: issue_attempt_def Let_def sig tx_bind_def query_def ins select_app tx_return_app fnd)
  then show ?thesis
    using assms(1-4) by (simp add: issueCertificate_def tx_bind_def select_app tx_catch_def)
qed

text \<open>C10. Issuing is idempotent in the source key: repeating a successful issue, at any later time and
  with any other random blocks, hands back the same certificate as not created and changes no table.\<close>

theorem issue_idempotent:
  assumes "issueCertificate e tm blocks i c = (Inr (x, b), c')" "ci_source_key i \<noteq> None"
  shows "issueCertificate e tm' blocks' i c' = (Inr (x, False), c')"
proof -
  obtain tpl pid c1 where *: "issue_attempt e tm tpl pid i c1 = (Inr (x, b), c')"
    "ci_user i \<noteq> []" "ci_kind i \<in> set CERTIFICATE_KINDS" "ci_title i \<noteq> []"
    using issue_success [OF assms(1)] by blast
  from issue_attempt_success [OF *(1)] show ?thesis
    using *(2-4) assms(2) by (auto intro!: issue_again)
qed

definition demo_env :: crypto_env where
  "demo_env = \<lparr>sha256 = (\<lambda>x. x), hmac_hex = (\<lambda>k p. rev p), signing_secret = Some ''s'', jwt_secret = None, production = True\<rparr>"

definition demo_cert :: "jsval \<Rightarrow> string option \<Rightarrow> cert_input" where
  "demo_cert amount key =
     \<lparr>ci_user = ''u1'', ci_account = Some ''a1'', ci_kind = ''payout'', ci_title = ''$3,000 Profit Payout'', ci_subtitle = None,
      ci_recipient = ''T'', ci_amount = amount, ci_currency = ''USD'', ci_metadata = [], ci_source_key = key, ci_issued_by = None\<rparr>"

definition demo_blocks :: "nat \<Rightarrow> string \<times> string" where
  "demo_blocks n = (if n = 0 then (''0a7c'', ''4e19'') else (''0a7d'', ''4e1a''))"

theorem issue_idempotent_witness:
  "issueCertificate demo_env 1000 (\<lambda>n. ([], [])) (demo_cert (numeric_val 300000) (Some ''payout:p1''))
     (snd (issueCertificate demo_env 0 demo_blocks (demo_cert (numeric_val 300000) (Some ''payout:p1'')) (conn_of demo_db))) =
   (Inr (fst (projr (fst (issueCertificate demo_env 0 demo_blocks (demo_cert (numeric_val 300000) (Some ''payout:p1'')) (conn_of demo_db)))),
         False),
    snd (issueCertificate demo_env 0 demo_blocks (demo_cert (numeric_val 300000) (Some ''payout:p1'')) (conn_of demo_db)))"
proof (rule issue_idempotent)
  let ?m = "issueCertificate demo_env 0 demo_blocks (demo_cert (numeric_val 300000) (Some ''payout:p1''))"
  have "\<not> isl (fst (?m (conn_of demo_db)))" by code_simp
  from run_ok [of ?m, OF this]
  show "?m (conn_of demo_db) = (Inr (fst (projr (fst (?m (conn_of demo_db)))), snd (projr (fst (?m (conn_of demo_db))))), snd (?m (conn_of demo_db)))"
    by simp
qed (simp add: demo_cert_def)

text \<open>Issuing touches the certificates only.\<close>

definition cert_only :: "db \<Rightarrow> db \<Rightarrow> bool" where
  "cert_only t t' \<longleftrightarrow> (\<exists>cs n. t' = t\<lparr>certificates := cs, cert_seq := n\<rparr>)"

lemma cert_onlyI: "cert_only t (t\<lparr>certificates := cs, cert_seq := n\<rparr>)"
  unfolding cert_only_def by (rule exI, rule exI, rule refl)

interpretation certs: effect cert_only
proof
  show "cert_only t t" for t
    unfolding cert_only_def by (rule exI [of _ "certificates t"], rule exI [of _ "cert_seq t"]) simp
  show "cert_only t v" if tu: "cert_only t u" and uv: "cert_only u v" for t u v
    using tu uv unfolding cert_only_def by clarsimp (rule exI, rule exI, rule refl)
qed

lemma cert_insert_only: "cert_insert r m t = Inr (x, t') \<Longrightarrow> cert_only t t'"
  by (auto simp: cert_insert_def Let_def certs.effect_refl cert_onlyI split: sum.splits if_splits)

lemma confined_issue_attempt: "confined cert_only (issue_attempt e tm tpl pid i)"
  by (auto simp: issue_attempt_def Let_def intro!: certs.confined_rules certs.confined_query
      intro: cert_insert_only split: sum.splits option.splits)

lemma confined_issue_loop: "confined cert_only (issue_loop e tm blocks tpl i ns)"
  by (induction ns) (auto intro!: certs.confined_rules confined_issue_attempt)

lemma confined_issueCertificate: "confined cert_only (issueCertificate e tm blocks i)"
  by (auto simp: issueCertificate_def simp del: issue_loop.simps intro!: certs.confined_rules confined_issue_loop)

lemma cert_only_keeps:
  assumes "cert_only t t'"
  shows "accounts t' = accounts t" "ledger t' = ledger t" "ledger_seq t' = ledger_seq t" "payouts t' = payouts t"
    "users t' = users t" "trades t' = trades t" "settings t' = settings t" "now t' = now t"
  using assms by (auto simp: cert_only_def)

section \<open>Verification\<close>

definition whole_cents :: "jsval \<Rightarrow> bool" where
  "whole_cents v \<longleftrightarrow> nullish v \<or> (\<exists>c. cents_ok c \<and> (v = numeric_val c \<or> v = JNum (usd c)))"

lemma amount_text_numeric [simp]: "amount_text (numeric_val c) = fixed_str 2 (usd c)"
  by (simp add: amount_text_def numeric_val_def usd_def)

lemma amount_text_roundtrip:
  assumes "whole_cents v" "sql_money v = Inr m"
  shows "amount_text (case m of None \<Rightarrow> JNull | Some c \<Rightarrow> numeric_val c) = amount_text v"
proof -
  consider "nullish v" | c where "cents_ok c" "v = numeric_val c" | c where "cents_ok c" "v = JNum (usd c)"
    using assms(1) by (auto simp: whole_cents_def)
  then show ?thesis
  proof cases
    case 1 then show ?thesis using assms(2) by (cases v) (auto simp: amount_text_def)
  next
    case 2 then show ?thesis using assms(2) by (simp add: numeric_val_def) (auto simp: numeric_val_def [symmetric])
  next
    case 3 then show ?thesis using assms(2) by (simp add: amount_text_numeric) (auto simp: amount_text_def numeric_val_def usd_def)
  qed
qed

text \<open>C11. A freshly issued certificate without an amount, or with one of whole cents whether it came as a
  column or as a Number, passes its own verification when it is read back from the database.\<close>

theorem fresh_certificate_verifies:
  assumes "issueCertificate e tm blocks i c = (Inr (x, True), c')" "whole_cents (ci_amount i)"
  shows "describeVerification e (Some x) = \<lparr>v_valid = True, v_status = ''active'', v_signature = True\<rparr>"
proof -
  obtain tpl pid c1 where "issue_attempt e tm tpl pid i c1 = (Inr (x, True), c')"
    using issue_success [OF assms(1)] by blast
  note * = issue_attempt_success [OF this]
  then have "sql_money (ci_amount i) = Inr (cert_amount x)" by auto
  from amount_text_roundtrip [OF assms(2) this] *
  have "buildSignaturePayload (cert_view x) = buildSignaturePayload \<lparr>d_public_id = pid, d_user = ci_user i, d_kind = ci_kind i,
      d_title = ci_title i, d_amount = ci_amount i, d_issued_at = tm\<rparr>"
    by (simp add: buildSignaturePayload_def cert_view_def)
  then have "signCertificate e (cert_view x) = signCertificate e \<lparr>d_public_id = pid, d_user = ci_user i, d_kind = ci_kind i,
      d_title = ci_title i, d_amount = ci_amount i, d_issued_at = tm\<rparr>"
    by (simp add: signCertificate_def split: sum.split)
  then have "signCertificate e (cert_view x) = Inr (cert_signature x)" using * by simp
  then show ?thesis using * by (simp add: describeVerification_def Let_def verifyCertificateSignature_def)
qed

theorem fresh_certificate_verifies_witness:
  "describeVerification demo_env (Some (fst (projr (fst
      (issueCertificate demo_env 0 demo_blocks (demo_cert (JNum (usd 10050)) None) (conn_of demo_db)))))) =
   \<lparr>v_valid = True, v_status = ''active'', v_signature = True\<rparr>"
proof (rule fresh_certificate_verifies)
  let ?m = "issueCertificate demo_env 0 demo_blocks (demo_cert (JNum (usd 10050)) None)"
  have "\<not> isl (fst (?m (conn_of demo_db))) \<and> snd (projr (fst (?m (conn_of demo_db))))" by code_simp
  then show "?m (conn_of demo_db) = (Inr (fst (projr (fst (?m (conn_of demo_db)))), True), snd (?m (conn_of demo_db)))"
    using run_ok [of ?m "conn_of demo_db"] by (metis prod.collapse)
  show "whole_cents (ci_amount (demo_cert (JNum (usd 10050)) None))"
    by (auto simp: whole_cents_def demo_cert_def cents_ok_def intro: exI [of _ 10050])
qed

text \<open>An award of half a cent more is signed as the Number prints and stored as the column rounds: it
  reads as tampered from the start.\<close>

lemma subcent_award_reads_as_tampered:
  "v_status (describeVerification demo_env (Some (fst (projr (fst
      (issueCertificate demo_env 0 demo_blocks (demo_cert (JNum (mk (1005 / 1000))) None) (conn_of demo_db))))))) = ''tampered''"
  by code_simp

text \<open>C12. Inside a transaction a collision of public ids is not retried: the failed insertion has
  aborted the transaction, so the second attempt is refused by the server and issuing fails, whatever
  the later random blocks are.\<close>

theorem collision_in_transaction_fails:
  assumes "in_tx c" "\<not> aborted c" "ci_user i \<noteq> []" "ci_kind i \<in> set CERTIFICATE_KINDS" "ci_title i \<noteq> []"
    and "getSigningKey e = Inr key" "sql_money (ci_amount i) = Inr m" "find_source (ci_source_key i) (tabs c) = None"
    and "x \<in> set (certificates (tabs c))" "public_id x = generatePublicId tm (blocks 0)"
  shows "\<exists>c'. issueCertificate e tm blocks i c = (Inl (DbError ''25P02''), c') \<and> aborted c' \<and> tabs c' = tabs c"
proof -
  obtain sig where sig: "signCertificate e d = Inr (sig d)" for d
    using assms(6) by (simp add: signCertificate_def)
  have ins: "cert_insert r (ci_amount i) (tabs c) = Inl ''23505''"
    if "cert_source_key r = ci_source_key i" "public_id r = generatePublicId tm (blocks 0)" for r
    using assms(7-10) that find_source_None [of "ci_source_key i" "tabs c"]
    by (auto simp: cert_insert_def)
  have first: "issue_attempt e tm tpl (generatePublicId tm (blocks 0)) i c = (Inl (DbError ''23505''), c\<lparr>aborted := True\<rparr>)" for tpl
    using assms(1,2) by (simp add: issue_attempt_def Let_def sig tx_bind_def query_def ins)
  have second: "issue_attempt e tm tpl pid i (c\<lparr>aborted := True\<rparr>) = (Inl (DbError ''25P02''), c\<lparr>aborted := True\<rparr>)" for tpl pid
    by (simp add: issue_attempt_def Let_def sig tx_bind_def query_def)
  have "issueCertificate e tm blocks i c = (Inl (DbError ''25P02''), c\<lparr>aborted := True\<rparr>)"
    using assms(2-5) by (simp add: issueCertificate_def tx_bind_def select_app tx_catch_def first second tx_throw_def)
  then show ?thesis by simp
qed

definition taken_db :: db where
  "taken_db = tabs (snd (issueCertificate demo_env 0 demo_blocks (demo_cert (numeric_val 300000) (Some ''payout:p0'')) (conn_of demo_db)))"

theorem collision_in_transaction_fails_witness:
  "\<exists>c'. issueCertificate demo_env 0 demo_blocks (demo_cert (numeric_val 300000) (Some ''payout:p1'')) (conn_of taken_db) =
        (Inl (DbError ''25P02''), c') \<and> aborted c' \<and> tabs c' = tabs (conn_of taken_db)"
  by (rule collision_in_transaction_fails
      [where key = "''s''" and m = "Some 300000" and x = "hd (certificates taken_db)"]) code_simp+

end
