(* ===== verification/Payout.thy ===== *)
theory Payout
  imports Account Certificates
begin

text \<open>
  domain/payout.js: the one approval path of payouts, with dual control above a threshold and the
  certificate minted under a savepoint; the request of routes/admin/payouts.js that runs it. decimal.js is a parameter: the operations the code calls,
  with the documented facts it relies on in \<open>decimal_laws\<close>.
\<close>

section \<open>The decimal package\<close>

text \<open>\<open>dec_new v\<close> is None when the constructor throws.\<close>

record 'd decimal_api =
  dec_new :: "jsval \<Rightarrow> 'd option"
  dec_is_finite :: "'d \<Rightarrow> bool"
  dec_lte :: "'d \<Rightarrow> num \<Rightarrow> bool"
  dec_gte :: "'d \<Rightarrow> num \<Rightarrow> bool"
  dec_negated :: "'d \<Rightarrow> 'd"
  dec_to_num :: "'d \<Rightarrow> num"

text \<open>
  Documented: a decimal text is taken exactly, null is refused, comparison with a finite Number is that
  with the decimal it prints as, negation is exact and toNumber gives the nearest Number.
\<close>

definition decimal_laws :: "'d decimal_api \<Rightarrow> bool" where
  "decimal_laws D \<longleftrightarrow>
     dec_new D JNull = None \<and>
     (\<forall>c. \<exists>d. dec_new D (numeric_val c) = Some d \<and> dec_to_num D (dec_negated D d) = mk (of_int (- c) / 100) \<and>
        (\<forall>x. dec_gte D d (Fin x) \<longleftrightarrow> dec_of x \<le> of_int c / 100))"

section \<open>Dual control threshold\<close>

definition resolveDualApprovalThreshold :: "'d decimal_api \<Rightarrow> (db, num option) tx" where
  "resolveDualApprovalThreshold D =
     tx_catch
       (tx_bind (select (\<lambda>t. map_of (settings t) ''payout_dual_approval_threshold'')) (\<lambda>raw.
          case raw of
            None \<Rightarrow> tx_return None
          | Some s \<Rightarrow>
              if trim s = [] then tx_return None
              else case dec_new D (JText (trim s)) of
                     None \<Rightarrow> tx_throw (PlainError ''[DecimalError] Invalid argument'' None)
                   | Some d \<Rightarrow>
                       if \<not> dec_is_finite D d \<or> dec_lte D d (Fin 0) then tx_return None
                       else tx_return (Some (dec_to_num D d))))
       (\<lambda>e. tx_return None)"

section \<open>The certificate of a payout\<close>

definition opt_text :: "string option \<Rightarrow> jsval" where
  "opt_text v = (case v of None \<Rightarrow> JNull | Some s \<Rightarrow> JText s)"

definition opt_money :: "int option \<Rightarrow> jsval" where
  "opt_money v = (case v of None \<Rightarrow> JNull | Some c \<Rightarrow> numeric_val c)"

definition payout_metadata :: "payout \<Rightarrow> json_obj" where
  "payout_metadata p = [(''payout_id'', JText (pay_id p)), (''payment_method'', opt_text (payment_method p))]"

definition payout_cert :: "payout \<Rightarrow> user \<Rightarrow> cert_input" where
  "payout_cert p u =
     \<lparr>ci_user = user_id u, ci_account = pay_account p, ci_kind = ''payout'',
      ci_title = buildCertificateTitle ''payout'' None JUndef (opt_money (amount_payable p)) ''USD'',
      ci_subtitle = None, ci_recipient = full_name u, ci_amount = opt_money (amount_payable p),
      ci_currency = ''USD'', ci_metadata = payout_metadata p,
      ci_source_key = Some (''payout:'' @ pay_id p), ci_issued_by = None\<rparr>"

record services =
  sv_crypto :: crypto_env
  sv_time :: int
  sv_blocks :: "nat \<Rightarrow> string \<times> string"

definition awardPayoutCertificate :: "services \<Rightarrow> payout \<Rightarrow> user \<Rightarrow> (db, certificate option \<times> bool) tx" where
  "awardPayoutCertificate sv p u =
     tx_bind (tx_catch (tx_bind (savepoint ''payout_certificate'') (\<lambda>_. tx_return True)) (\<lambda>_. tx_return False)) (\<lambda>savepointHeld.
       tx_catch
         (tx_bind (issueCertificate (sv_crypto sv) (sv_time sv) (sv_blocks sv) (payout_cert p u)) (\<lambda>r.
            tx_bind (if savepointHeld then release ''payout_certificate'' else tx_return ()) (\<lambda>_.
              tx_return (Some (fst r), snd r))))
         (\<lambda>e. tx_bind (if savepointHeld
                       then tx_catch (rollback_to ''payout_certificate'') (\<lambda>_. tx_return ())
                       else tx_return ()) (\<lambda>_.
                tx_return (None, False))))"

section \<open>Approval\<close>

record recipient =
  rc_user :: "string option"
  rc_email :: string
  rc_name :: string
  rc_amount :: "int option"
  rc_method :: "string option"

record approval =
  ap_payout :: payout
  ap_awaiting :: bool
  ap_first :: "string option"
  ap_threshold :: "num option"
  ap_certificate :: "certificate option"
  ap_created :: bool
  ap_recipient :: "recipient option"

text \<open>The locked payout joined with its user.\<close>

definition payout_with_user :: "string \<Rightarrow> db \<Rightarrow> (payout \<times> user) option" where
  "payout_with_user i t =
     (case get_payout i t of
        None \<Rightarrow> None
      | Some p \<Rightarrow>
          (case pay_user p of
             None \<Rightarrow> None
           | Some uid \<Rightarrow> map_option (\<lambda>u. (p, u)) (find_by user_id uid (users t))))"

definition count_trades :: "string option \<Rightarrow> string \<Rightarrow> db \<Rightarrow> nat" where
  "count_trades acc st t =
     (if acc = None then 0
      else length (filter (\<lambda>r. trade_account r = acc \<and> trade_status r = Some st) (trades t)))"

definition approval_input :: "account_row \<Rightarrow> payout \<Rightarrow> user \<Rightarrow> nat \<Rightarrow> nat \<Rightarrow> elig_input" where
  "approval_input row p u opens pends =
     (default_input (Some row))\<lparr>in_kyc := kyc_status u, open_count := JNum (Fin (of_nat opens)),
        pending_orders := JNum (Fin (of_nat pends)), requested := opt_money (amount_requested p)\<rparr>"

definition paid_stmt :: "string \<Rightarrow> string option \<Rightarrow> db \<Rightarrow> string + payout option \<times> db" where
  "paid_stmt i txid t =
     (let f = (\<lambda>p. p\<lparr>pay_status := Some ''paid'', paid_at := Some (now t),
                     transaction_id := (if txid = None then transaction_id p else txid)\<rparr>)
      in Inr (map_option f (get_payout i t), put_payout i f t))"

text \<open>The transaction id is taken as given when it is a non-empty text.\<close>

definition given_text :: "string option \<Rightarrow> string option" where
  "given_text v = (if v = Some [] then None else v)"

definition payout_reason :: "payout \<Rightarrow> string" where
  "payout_reason p = ''Payout '' @ pay_id p @ '' approved''"

definition pay_out :: "'d decimal_api \<Rightarrow> services \<Rightarrow> account_row \<Rightarrow> payout \<Rightarrow> user \<Rightarrow> 'd \<Rightarrow> string option \<Rightarrow> string \<Rightarrow> (db, approval) tx" where
  "pay_out D sv row p u amount transactionId actor =
     tx_bind (adjustBalance row (JNum (dec_to_num D (dec_negated D amount))) ''payout''
        (payout_reason p) actor None None (payout_metadata p) True) (\<lambda>_.
       tx_bind (query (paid_stmt (pay_id p) (given_text transactionId))) (\<lambda>updated.
         tx_bind (awardPayoutCertificate sv p u) (\<lambda>award.
           tx_return
             \<lparr>ap_payout = (case updated of None \<Rightarrow> p | Some q \<Rightarrow> q), ap_awaiting = False, ap_first = None,
              ap_threshold = None, ap_certificate = fst award, ap_created = snd award,
              ap_recipient = Some \<lparr>rc_user = pay_user p, rc_email = email u, rc_name = full_name u,
                rc_amount = amount_payable p, rc_method = payment_method p\<rparr>\<rparr>)))"

definition approvePayout :: "'d decimal_api \<Rightarrow> services \<Rightarrow> string \<Rightarrow> string option \<Rightarrow> string \<Rightarrow> (db, approval) tx" where
  "approvePayout D sv payoutId transactionId actor =
     tx_bind (select (payout_with_user payoutId)) (\<lambda>r.
       case r of
         None \<Rightarrow> tx_throw (NotFound ''Payout not found'')
       | Some (p, u) \<Rightarrow>
           if to_lower (text_or_empty (pay_status p)) \<noteq> ''pending'' then
             tx_throw (InvariantViolation ''Only pending payouts can be approved'' 400)
           else
             tx_bind (loadForUpdate (pay_account p)) (\<lambda>row.
             tx_bind (select (\<lambda>t. (count_trades (pay_account p) ''open'' t, count_trades (pay_account p) ''pending'' t))) (\<lambda>n.
               case blockers (evaluatePayoutEligibility (approval_input row p u (fst n) (snd n))) of
                 b # _ \<Rightarrow> tx_throw (InvariantViolation (snd b) 400)
               | [] \<Rightarrow>
                   tx_bind (resolveDualApprovalThreshold D) (\<lambda>threshold.
                     case dec_new D (opt_money (amount_requested p)) of
                       None \<Rightarrow> tx_throw (PlainError ''[DecimalError] Invalid argument'' None)
                     | Some amount \<Rightarrow>
                         (case threshold of
                            None \<Rightarrow> pay_out D sv row p u amount transactionId actor
                          | Some thr \<Rightarrow>
                              if \<not> dec_gte D amount thr then pay_out D sv row p u amount transactionId actor
                              else if text_or_empty (first_approver p) = [] then
                                tx_bind (query (\<lambda>t. Inr ((), put_payout (pay_id p)
                                    (\<lambda>x. x\<lparr>first_approver := Some actor, first_approved_at := Some (now t)\<rparr>) t))) (\<lambda>_.
                                  tx_return
                                    \<lparr>ap_payout = p\<lparr>pay_status := Some ''pending'', first_approver := Some actor\<rparr>,
                                     ap_awaiting = True, ap_first = Some actor, ap_threshold = Some thr,
                                     ap_certificate = None, ap_created = False, ap_recipient = None\<rparr>)
                              else if first_approver p = Some actor then
                                tx_throw (InvariantViolation
                                  (''Payouts of '' @ num_str thr @ '' or more need a second approver. You recorded the first approval on this request; '' @
                                   ''another admin must complete it.'') 409)
                              else
                                tx_bind (query (\<lambda>t. Inr ((), put_payout (pay_id p)
                                    (\<lambda>x. x\<lparr>second_approver := Some actor, second_approved_at := Some (now t)\<rparr>) t))) (\<lambda>_.
                                  pay_out D sv row p u amount transactionId actor))))))"

section \<open>The award never fails and touches certificates only\<close>

lemma award_only: "cert_only (tabs c) (tabs (snd (awardPayoutCertificate sv p u c)))"
  unfolding awardPayoutCertificate_def by (rule certs.guarded_work [OF confined_issueCertificate])

lemma tx_catch_total: "(\<And>e c. \<not> isl (fst (h e c))) \<Longrightarrow> \<not> isl (fst (tx_catch m h c))"
  by (simp add: tx_catch_fst split: sum.split)

lemma tx_bind_total: "(\<And>c. \<not> isl (fst (m c))) \<Longrightarrow> (\<And>a c. \<not> isl (fst (k a c))) \<Longrightarrow> \<not> isl (fst (tx_bind m k c))"
  by (simp add: tx_bind_fst split: sum.split) (metis sum.disc(1))

lemma tx_return_total: "\<not> isl (fst (tx_return a c))"
  by (simp add: tx_return_def)

lemma award_total: "\<not> isl (fst (awardPayoutCertificate sv p u c))"
  unfolding awardPayoutCertificate_def
  by (intro tx_bind_total tx_catch_total tx_return_total)
    (auto intro!: tx_bind_total tx_catch_total tx_return_total simp: tx_return_total)

text \<open>The savepoint does its work: after the award, failed or not, the transaction can go on.\<close>

lemma award_usable:
  assumes "in_tx c" "\<not> aborted c"
  shows "\<not> aborted (snd (awardPayoutCertificate sv p u c))"
proof -
  let ?w = "issueCertificate (sv_crypto sv) (sv_time sv) (sv_blocks sv) (payout_cert p u)"
  obtain r c2 where w: "?w (c\<lparr>saves := (''payout_certificate'', tabs c) # saves c\<rparr>) = (r, c2)"
    by (cases "?w (c\<lparr>saves := (''payout_certificate'', tabs c) # saves c\<rparr>)")
  have sv: "saves c2 = (''payout_certificate'', tabs c) # saves c"
    using confinedD [OF confined_issueCertificate w] by simp
  have "\<not> aborted c2" if "r = Inr x" for x
    using issue_success [of _ _ _ _ _ x c2] issue_attempt_success w that by (cases x) metis
  then show ?thesis
    using assms sv
    by (cases r) (auto simp: awardPayoutCertificate_def tx_bind_def tx_catch_def tx_return_def savepoint_def release_def rollback_to_def w)
qed

lemma framed_award [tx_frames]: "framed (awardPayoutCertificate sv p u)"
  by (auto simp: awardPayoutCertificate_def intro!: tx_frames)

lemma framed_threshold [tx_frames]: "framed (resolveDualApprovalThreshold D)"
  by (auto simp: resolveDualApprovalThreshold_def intro!: tx_frames split: option.splits)

lemma framed_pay_out [tx_frames]: "framed (pay_out D sv row p u amount txid actor)"
  by (auto simp: pay_out_def intro!: tx_frames)

lemma framed_approvePayout [tx_frames]: "framed (approvePayout D sv i txid actor)"
  unfolding approvePayout_def
  by (intro tx_frames) (auto intro!: tx_frames split: option.splits list.splits)

section \<open>What an approval has checked\<close>

lemma resolve_threshold_pure:
  assumes "resolveDualApprovalThreshold D c = (Inr thr, c')"
  shows "c' = c"
  using assms
  by (auto simp: resolveDualApprovalThreshold_def tx_catch_def tx_bind_def select_def query_def tx_return_def tx_throw_def
      split: if_splits sum.splits option.splits prod.splits)

definition threshold_in :: "'d decimal_api \<Rightarrow> db \<Rightarrow> num option" where
  "threshold_in D t =
     (case map_of (settings t) ''payout_dual_approval_threshold'' of
        None \<Rightarrow> None
      | Some s \<Rightarrow>
          if trim s = [] then None
          else case dec_new D (JText (trim s)) of
                 None \<Rightarrow> None
               | Some d \<Rightarrow> if \<not> dec_is_finite D d \<or> dec_lte D d (Fin 0) then None else Some (dec_to_num D d))"

lemma resolve_threshold:
  "\<not> aborted c \<Longrightarrow> resolveDualApprovalThreshold D c = (Inr (threshold_in D (tabs c)), c)"
  by (simp add: resolveDualApprovalThreshold_def threshold_in_def tx_catch_def tx_bind_def select_app tx_return_def tx_throw_def
      split: option.split)

text \<open>The state an approval starts from: the pending payout, its user, its account.\<close>

definition approvable :: "string \<Rightarrow> db \<Rightarrow> payout \<Rightarrow> user \<Rightarrow> string \<Rightarrow> account \<Rightarrow> bool" where
  "approvable i t p u k a \<longleftrightarrow>
     payout_with_user i t = Some (p, u) \<and> to_lower (text_or_empty (pay_status p)) = ''pending'' \<and>
     pay_account p = Some k \<and> get_account k t = Some a \<and>
     blockers (evaluatePayoutEligibility (approval_input (row_of a) p u
        (count_trades (Some k) ''open'' t) (count_trades (Some k) ''pending'' t))) = []"

definition mark_first :: "string \<Rightarrow> string \<Rightarrow> db \<Rightarrow> db" where
  "mark_first i actor t = put_payout i (\<lambda>x. x\<lparr>first_approver := Some actor, first_approved_at := Some (now t)\<rparr>) t"

definition mark_second :: "string \<Rightarrow> string \<Rightarrow> db \<Rightarrow> db" where
  "mark_second i actor t = put_payout i (\<lambda>x. x\<lparr>second_approver := Some actor, second_approved_at := Some (now t)\<rparr>) t"

lemma approve_success:
  assumes run: "approvePayout D sv i txid actor c = (Inr ap, c')"
  obtains p u k a d where "approvable i (tabs c) p u k a" "\<not> aborted c" "pay_id p = i"
    "dec_new D (opt_money (amount_requested p)) = Some d"
    "(\<exists>thr. threshold_in D (tabs c) = Some thr \<and> dec_gte D d thr \<and> text_or_empty (first_approver p) = [] \<and>
        ap_awaiting ap \<and> c' = c\<lparr>tabs := mark_first i actor (tabs c)\<rparr>) \<or>
     ((threshold_in D (tabs c) = None \<or> (\<exists>thr. threshold_in D (tabs c) = Some thr \<and> \<not> dec_gte D d thr)) \<and>
        pay_out D sv (row_of a) p u d txid actor c = (Inr ap, c')) \<or>
     (\<exists>thr f. threshold_in D (tabs c) = Some thr \<and> dec_gte D d thr \<and> first_approver p = Some f \<and> f \<noteq> [] \<and> f \<noteq> actor \<and>
        pay_out D sv (row_of a) p u d txid actor (c\<lparr>tabs := mark_second i actor (tabs c)\<rparr>) = (Inr ap, c'))"
proof -
  have na: "\<not> aborted c" and r: "\<exists>p u. payout_with_user i (tabs c) = Some (p, u)"
    using run by (auto simp: approvePayout_def select_Inr tx_throw_def split: option.splits elim!: tx_bind_Inr_E)
  obtain p u where pu: "payout_with_user i (tabs c) = Some (p, u)" using r by blast
  have st: "to_lower (text_or_empty (pay_status p)) = ''pending''"
    using run na pu by (auto simp: approvePayout_def tx_bind_def select_app tx_throw_def split: if_splits)
  obtain k a where ka: "pay_account p = Some k" "get_account k (tabs c) = Some a"
    using run na pu st
    by (auto simp: approvePayout_def tx_bind_def select_app loadForUpdate_def query_def tx_throw_def
        split: if_splits option.splits sum.splits prod.splits)
  have load: "loadForUpdate (Some k) c = (Inr (row_of a), c)"
    using ka na by (simp add: loadForUpdate_def tx_bind_def select_app tx_return_def)
  have noblock: "blockers (evaluatePayoutEligibility (approval_input (row_of a) p u
        (count_trades (Some k) ''open'' (tabs c)) (count_trades (Some k) ''pending'' (tabs c)))) = []"
    using run na pu st ka(1)
    by (auto simp: approvePayout_def tx_bind_def select_app load tx_throw_def split: list.splits)
  have id: "pay_id p = i"
    using pu by (auto simp: payout_with_user_def split: option.splits dest: get_payout_id)
  obtain d where d: "dec_new D (opt_money (amount_requested p)) = Some d"
    using run na pu st ka(1)
    by (auto simp: approvePayout_def tx_bind_def select_app load noblock resolve_threshold tx_throw_def split: option.splits)
  have "approvable i (tabs c) p u k a"
    using pu st ka noblock by (simp add: approvable_def)
  from that [OF this na id d] show ?thesis
    using run na pu st ka(1)
    by (auto simp: approvePayout_def tx_bind_def select_app load noblock resolve_threshold d tx_throw_def tx_return_def
        query_def id mark_first_def mark_second_def
        split: option.splits if_splits)
      (cases "first_approver p"; auto)
qed

section \<open>The money an approval moves\<close>

lemma cents_ok_between: "cents_ok a \<Longrightarrow> cents_ok b \<Longrightarrow> a \<le> x \<Longrightarrow> x \<le> b \<Longrightarrow> cents_ok x"
  by (auto simp: cents_ok_def)

lemma toNum_opt_money: "cents_ok m \<Longrightarrow> toNum (opt_money (Some m)) f = usd m"
  by (simp add: opt_money_def)

text \<open>An amount that passed the rules is at least the default minimum and at most the profit.\<close>

lemma approvable_amount:
  assumes "approvable i t p u k a" "amount_requested p = Some m" "cents_ok m"
    and "account_typed a" "cents_ok (current_balance a - starting_balance a)"
  shows "5000 \<le> m \<and> m \<le> current_balance a - starting_balance a"
proof -
  let ?in = "approval_input (row_of a) p u (count_trades (Some k) ''open'' t) (count_trades (Some k) ''pending'' t)"
  have req: "requested ?in = opt_money (Some m)" using assms(2) by (simp add: approval_input_def)
  have "\<not> nullish (requested ?in)" by (simp add: req opt_money_def numeric_val_def)
  then have "may_withdraw ?in" using blockers_Nil assms(1) by (simp add: approvable_def)
  then have "\<not> nlt (usd m) (toNum (min_request ?in) (Fin 50))" "\<not> nlt (realizedProfit_of (in_account ?in)) (usd m)"
    unfolding may_withdraw_def Let_def req toNum_opt_money [OF assms(3)] by blast+
  moreover have "toNum (min_request ?in) (Fin 50) = usd 5000"
    by (simp add: approval_input_def default_input_def usd_Fin cents_ok_def money_def) (simp add: fl_of_int [of 50, simplified])
  moreover have "realizedProfit_of (in_account ?in) = usd (current_balance a - starting_balance a)"
    using realizedProfit_row [OF assms(4,5)] by (simp add: approval_input_def default_input_def)
  moreover have "cents_ok 5000" by (simp add: cents_ok_def)
  ultimately show ?thesis using assms(3,5) by simp
qed

lemma get_payout_put:
  assumes "\<And>r. pay_id (f r) = pay_id r"
  shows "get_payout j (put_payout i f t) = (if j = i then map_option f (get_payout i t) else get_payout j t)"
  using assms by (intro pout.lookup_modify) auto

lemma cert_only_lookups:
  assumes "cert_only t t'"
  shows "get_account j t' = get_account j t" "get_payout j t' = get_payout j t" "ledger_sum j t' = ledger_sum j t"
    "trade_sum j t' = trade_sum j t" "residue j t' = residue j t"
  using cert_only_keeps [OF assms] by (simp_all add: get_account_def get_payout_def ledger_sum_def trade_sum_def residue_def)

lemma put_payout_lookups [simp]:
  "ledger_sum j (put_payout i f t) = ledger_sum j t" "trade_sum j (put_payout i f t) = trade_sum j t"
  "residue j (put_payout i f t) = residue j t"
  by (simp_all add: ledger_sum_def trade_sum_def residue_def get_account_def)

text \<open>The state after a payment, up to the certificates.\<close>

definition paid_state :: "string \<Rightarrow> string option \<Rightarrow> string \<Rightarrow> db \<Rightarrow> db" where
  "paid_state i txid k t =
     put_payout i (\<lambda>p. p\<lparr>pay_status := Some ''paid'', paid_at := Some (now t),
                        transaction_id := (if txid = None then transaction_id p else txid)\<rparr>) t"

lemma pay_out_runs:
  assumes laws: "decimal_laws D" and d: "dec_new D (opt_money (amount_requested p)) = Some d"
    and acc: "get_account k (tabs c) = Some a" "k \<noteq> []" "\<not> aborted c"
    and m: "amount_requested p = Some m" "cents_ok m" "0 < m" "m \<le> current_balance a - starting_balance a"
    and ty: "account_typed a"
  shows "\<exists>ap c'. pay_out D sv (row_of a) p u d txid actor c = (Inr ap, c') \<and> \<not> ap_awaiting ap \<and> (in_tx c \<longrightarrow> \<not> aborted c') \<and>
    (\<exists>r. cert_only (paid_state (pay_id p) (given_text txid) k
        (anchored k (max (anchor_base a - m) 0) (book k (credited (- m) a) r (tabs c)))) (tabs c') \<and>
      led_account r = k \<and> led_amount r = - m \<and> led_source r = ''payout'')"
proof -
  have id: "acc_id a = k" using acc(1) by (rule get_account_id)
  have row: "row_id (row_of a) = k" by (simp add: row_of_def id)
  have "dec_to_num D (dec_negated D d) = mk (of_int (- m) / 100)"
    using laws d unfolding decimal_laws_def opt_money_def m(1) by (metis option.inject option.simps(5))
  then have amt: "parse_float (JNum (dec_to_num D (dec_negated D d))) = usd (- m)" by (simp add: usd_def)
  have t: "cents_ok (current_balance a)" "cents_ok (starting_balance a)" using ty by (simp_all add: account_typed_def)
  have c1: "cents_ok (current_balance a + - m)"
    by (rule cents_ok_between [OF t(2,1)]) (use m in simp_all)
  have c2: "cents_ok (max (anchor_base a + - m) 0)"
    by (rule cents_ok_between [OF cents_ok_0 cents_ok_max [OF anchor_base_ok [OF ty] cents_ok_0]]) (use m in auto)
  note adj = adjust_whole_cents [where row = "row_of a", unfolded row, OF acc(1,3,2) _ amt _ _ ty c1 c2,
      of "''payout''" "payout_reason p" actor None None "payout_metadata p"]
  define r where "r = ledger_entry a (ledger_seq (tabs c) + 1) (- m) ''payout'' (payout_reason p) actor
      None None (payout_metadata p)"
  define t1 where "t1 = anchored k (max (anchor_base a - m) 0) (book k (credited (- m) a) r (tabs c))"
  obtain res row' where run1: "adjustBalance (row_of a) (JNum (dec_to_num D (dec_negated D d))) ''payout''
      (payout_reason p) actor None None (payout_metadata p) True c = (Inr (res, row'), c\<lparr>tabs := t1\<rparr>)"
    using adj m(2,3) by (auto simp: t1_def r_def)
  define t2 where "t2 = paid_state (pay_id p) (given_text txid) k t1"
  have paid: "query (paid_stmt (pay_id p) (given_text txid)) (c\<lparr>tabs := t1\<rparr>) =
      (Inr (get_payout (pay_id p) t2), c\<lparr>tabs := t2\<rparr>)"
    using acc(3) by (simp add: query_def paid_stmt_def Let_def t2_def paid_state_def get_payout_put)
  obtain aw c3 where aw: "awardPayoutCertificate sv p u (c\<lparr>tabs := t2\<rparr>) = (Inr aw, c3)"
    using award_total [of sv p u "c\<lparr>tabs := t2\<rparr>"] by (metis isl_def prod.collapse sum.collapse(2))
  have "in_tx c \<longrightarrow> \<not> aborted c3" using award_usable [of "c\<lparr>tabs := t2\<rparr>" sv p u] aw acc(3) by simp
  moreover have "cert_only t2 (tabs c3)" using award_only [of "c\<lparr>tabs := t2\<rparr>" sv p u] aw by simp
  moreover obtain ap where "pay_out D sv (row_of a) p u d txid actor c = (Inr ap, c3)" "\<not> ap_awaiting ap"
    by (simp add: pay_out_def tx_bind_def run1 paid aw tx_return_def)
  ultimately show ?thesis
    using id by (auto simp: t2_def t1_def r_def ledger_entry_def)
qed

lemma pay_out_success:
  assumes "decimal_laws D" "dec_new D (opt_money (amount_requested p)) = Some d"
    and run: "pay_out D sv (row_of a) p u d txid actor c = (Inr ap, c')"
    and "get_account k (tabs c) = Some a" "k \<noteq> []" "\<not> aborted c"
    and "amount_requested p = Some m" "cents_ok m" "0 < m" "m \<le> current_balance a - starting_balance a"
    and "account_typed a"
  shows "\<not> ap_awaiting ap \<and>
    (\<exists>r. cert_only (paid_state (pay_id p) (given_text txid) k
        (anchored k (max (anchor_base a - m) 0) (book k (credited (- m) a) r (tabs c)))) (tabs c') \<and>
      led_account r = k \<and> led_amount r = - m \<and> led_source r = ''payout'')"
  using pay_out_runs [OF assms(1,2,4-11), of sv u txid actor] run by auto

lemma pay_out_not_awaiting: "pay_out D sv row p u d txid actor c = (Inr ap, c') \<Longrightarrow> \<not> ap_awaiting ap"
  by (auto simp: pay_out_def tx_return_def elim!: tx_bind_Inr_E)

lemma pays_exactly:
  assumes "decimal_laws D" "approvePayout D sv i txid actor c = (Inr ap, c')" "\<not> ap_awaiting ap"
    and "get_payout i (tabs c) = Some p" "amount_requested p = Some m" "cents_ok m"
    and "pay_account p = Some k" "k \<noteq> []" "get_account k (tabs c) = Some a" "account_typed a"
    and "cents_ok (current_balance a - starting_balance a)"
  shows "\<exists>a' p'. get_account k (tabs c') = Some a' \<and> get_payout i (tabs c') = Some p' \<and>
    current_balance a' = current_balance a - m \<and> starting_balance a' \<le> current_balance a' \<and>
    eod_peak_equity a' = Some (max (anchor_base a - m) 0) \<and> eod_trailing_floor a' = eod_trailing_floor a \<and>
    pay_status p' = Some ''paid'' \<and> ledger_sum k (tabs c') = ledger_sum k (tabs c) - m \<and>
    (\<forall>j. residue j (tabs c') = residue j (tabs c)) \<and>
    (\<forall>j. j \<noteq> k \<longrightarrow> get_account j (tabs c') = get_account j (tabs c))"
proof -
  obtain q u k' a' d where s: "approvable i (tabs c) q u k' a'" "\<not> aborted c" "pay_id q = i"
    "dec_new D (opt_money (amount_requested q)) = Some d"
    and cases: "(\<exists>thr. ap_awaiting ap) \<or> pay_out D sv (row_of a') q u d txid actor c = (Inr ap, c') \<or>
      pay_out D sv (row_of a') q u d txid actor (c\<lparr>tabs := mark_second i actor (tabs c)\<rparr>) = (Inr ap, c')"
    using assms(2) by (rule approve_success) auto
  have q: "q = p" "k' = k" "a' = a"
    using s(1) assms(4,7,9) by (auto simp: approvable_def payout_with_user_def split: option.splits)
  obtain c0 where run: "pay_out D sv (row_of a) p u d txid actor c0 = (Inr ap, c')"
    and c0: "c0 = c \<or> c0 = c\<lparr>tabs := mark_second i actor (tabs c)\<rparr>"
    using cases assms(3) q by auto
  have same: "get_account j (tabs c0) = get_account j (tabs c)" "ledger_sum j (tabs c0) = ledger_sum j (tabs c)"
    "residue j (tabs c0) = residue j (tabs c)" for j
    using c0 by (auto simp: mark_second_def)
  have pay0: "\<exists>p0. get_payout i (tabs c0) = Some p0"
    using c0 assms(4) by (auto simp: mark_second_def get_payout_put)
  have amt: "5000 \<le> m" "m \<le> current_balance a - starting_balance a"
    using approvable_amount [OF s(1)] q assms(5,6,10,11) by auto
  obtain r where r: "cert_only (paid_state i (given_text txid) k
        (anchored k (max (anchor_base a - m) 0) (book k (credited (- m) a) r (tabs c0)))) (tabs c')"
    "led_account r = k" "led_amount r = - m"
    using pay_out_success [OF assms(1) s(4) [unfolded q] run _ assms(8) _ assms(5,6) _ amt(2) assms(10)]
      same c0 s(2,3) amt(1) assms(9) q by auto
  note look = cert_only_lookups [OF r(1)]
  have "residue j (book k (credited (- m) a) r (tabs c0)) = residue j (tabs c0)" for j
    using r(2,3) same assms(9) by (intro residue_book) (auto simp: credited_def)
  moreover have "ledger_sum k (anchored k x t) = ledger_sum k t" for x t
    by (simp add: anchored_def ledger_sum_def)
  moreover have "get_payout i (anchored k x (book k b r t)) = get_payout i t" for x b t
    by (simp add: anchored_def book_def get_payout_def)
  moreover obtain p0 where "get_payout i (tabs c0) = Some p0" using pay0 by blast
  ultimately show ?thesis
    using amt r(2,3) assms(9) same
    by (simp add: look paid_state_def get_account_anchored get_account_book credited_def get_payout_put ledger_sum_book)
qed

text \<open>C2. An approval that pays debits exactly the requested amount from the account's profit: the
  balance stays at or above the starting balance, the drawdown anchor moves down with it, one
  ledger row records it, the payout is paid, no other account changes, and every balance
  stays reconstructable; the outcome of the certificate plays no part.\<close>

theorem payout_pays_exactly:
  assumes "decimal_laws D" "approvePayout D sv i txid actor c = (Inr ap, c')" "\<not> ap_awaiting ap"
    and "get_payout i (tabs c) = Some p" "amount_requested p = Some m" "cents_ok m"
    and "pay_account p = Some k" "k \<noteq> []" "get_account k (tabs c) = Some a" "account_typed a"
    and "cents_ok (current_balance a - starting_balance a)"
  shows "\<exists>a' p'. get_account k (tabs c') = Some a' \<and> get_payout i (tabs c') = Some p' \<and>
    current_balance a' = current_balance a - m \<and> starting_balance a' \<le> current_balance a' \<and>
    eod_peak_equity a' = Some (max (anchor_base a - m) 0) \<and> eod_trailing_floor a' = eod_trailing_floor a \<and>
    pay_status p' = Some ''paid'' \<and> ledger_sum k (tabs c') = ledger_sum k (tabs c) - m \<and>
    (\<forall>j. residue j (tabs c') = residue j (tabs c)) \<and>
    (\<forall>j. j \<noteq> k \<longrightarrow> get_account j (tabs c') = get_account j (tabs c))"
  using assms by (rule pays_exactly)

definition rat_decimal :: "rat decimal_api" where
  "rat_decimal =
     \<lparr>dec_new = (\<lambda>v. case v of JNumeric q \<Rightarrow> Some q
                | JText s \<Rightarrow> (if list_all is_digit s \<and> s \<noteq> [] then Some (of_int (dig_val s)) else None)
                | _ \<Rightarrow> None),
      dec_is_finite = (\<lambda>_. True), dec_lte = (\<lambda>d x. case x of Fin q \<Rightarrow> d \<le> dec_of q | _ \<Rightarrow> True),
      dec_gte = (\<lambda>d x. case x of Fin q \<Rightarrow> dec_of q \<le> d | _ \<Rightarrow> False),
      dec_negated = (\<lambda>d. - d), dec_to_num = mk\<rparr>"

lemma rat_decimal_laws: "decimal_laws rat_decimal"
  unfolding decimal_laws_def
proof (intro conjI allI)
  show "\<exists>d. dec_new rat_decimal (numeric_val c) = Some d \<and>
      dec_to_num rat_decimal (dec_negated rat_decimal d) = mk (of_int (- c) / 100) \<and>
      (\<forall>x. dec_gte rat_decimal d (Fin x) \<longleftrightarrow> dec_of x \<le> of_int c / 100)" for c
    by (rule exI [of _ "of_int c / 100"]) (simp add: rat_decimal_def numeric_val_def)
qed (simp add: rat_decimal_def)

definition demo_services :: services where
  "demo_services = \<lparr>sv_crypto = demo_env, sv_time = 0, sv_blocks = demo_blocks\<rparr>"

definition demo_payout :: payout where
  "demo_payout = hd (payouts demo_db)"

text \<open>The demonstration state after a first approval, by another admin.\<close>

definition first_approved_db :: db where
  "first_approved_db = put_payout ''p1'' (\<lambda>p. p\<lparr>first_approver := Some ''finance:anna'', first_approved_at := Some 0\<rparr>) demo_db"

theorem payout_pays_exactly_witness:
  "\<exists>a' p'. get_account ''a1'' (tabs (snd (approvePayout rat_decimal demo_services ''p1'' None ''finance:bob'' (conn_of first_approved_db)))) = Some a' \<and>
    get_payout ''p1'' (tabs (snd (approvePayout rat_decimal demo_services ''p1'' None ''finance:bob'' (conn_of first_approved_db)))) = Some p' \<and>
    current_balance a' = current_balance demo_account - 300000 \<and> starting_balance a' \<le> current_balance a' \<and>
    eod_peak_equity a' = Some (max (anchor_base demo_account - 300000) 0) \<and> eod_trailing_floor a' = eod_trailing_floor demo_account \<and>
    pay_status p' = Some ''paid'' \<and>
    ledger_sum ''a1'' (tabs (snd (approvePayout rat_decimal demo_services ''p1'' None ''finance:bob'' (conn_of first_approved_db)))) =
      ledger_sum ''a1'' (tabs (conn_of first_approved_db)) - 300000 \<and>
    (\<forall>j. residue j (tabs (snd (approvePayout rat_decimal demo_services ''p1'' None ''finance:bob'' (conn_of first_approved_db)))) =
      residue j (tabs (conn_of first_approved_db))) \<and>
    (\<forall>j. j \<noteq> ''a1'' \<longrightarrow>
      get_account j (tabs (snd (approvePayout rat_decimal demo_services ''p1'' None ''finance:bob'' (conn_of first_approved_db)))) =
      get_account j (tabs (conn_of first_approved_db)))"
proof (rule payout_pays_exactly [where D = rat_decimal and sv = demo_services and txid = None and actor = "''finance:bob''"])
  let ?m = "approvePayout rat_decimal demo_services ''p1'' None ''finance:bob''"
  have "\<not> isl (fst (?m (conn_of first_approved_db)))" by code_simp
  from run_ok [of ?m, OF this]
  show "?m (conn_of first_approved_db) = (Inr (projr (fst (?m (conn_of first_approved_db)))), snd (?m (conn_of first_approved_db)))" .
  show "\<not> ap_awaiting (projr (fst (?m (conn_of first_approved_db))))" by code_simp
  show "get_payout ''p1'' (tabs (conn_of first_approved_db)) =
      Some (demo_payout\<lparr>first_approver := Some ''finance:anna'', first_approved_at := Some 0\<rparr>)"
    by (simp add: first_approved_db_def get_payout_put demo_payout_def) (simp add: demo_db_def get_payout_def find_by_def)
  show "get_account ''a1'' (tabs (conn_of first_approved_db)) = Some demo_account"
    by (simp add: first_approved_db_def)
qed (simp_all add: rat_decimal_laws demo_payout_def demo_db_def cents_ok_def, simp add: demo_account_def)

section \<open>The request\<close>

text \<open>
  POST /payouts/approve (routes/admin/payouts.js): BEGIN, the approval, COMMIT, and ROLLBACK in the
  handler of every error. An error with a status code of its own is answered with it and its
  message, any other with 500. The audit, the events and the mail after COMMIT are not modelled.
\<close>

fun error_message :: "js_error \<Rightarrow> string" where
  "error_message (DomainError m s) = m"
| "error_message (InvariantViolation m s) = m"
| "error_message (NotFound m) = m"
| "error_message (BalanceAdjustmentError m s) = m"
| "error_message (TypeErr m) = m"
| "error_message (PlainError m s) = m"
| "error_message (DbError m) = m"

definition approve_refusal :: "js_error \<Rightarrow> nat \<times> string" where
  "approve_refusal e =
     (case status_code e of
        Some s \<Rightarrow> if s = 0 then (500, ''Could not update payout'') else (s, error_message e)
      | None \<Rightarrow> (500, ''Could not update payout''))"

definition approve_reply :: "approval \<Rightarrow> nat \<times> string" where
  "approve_reply ap =
     (200, if ap_awaiting ap then ''First approval recorded. A second admin must approve this payout before it is paid.''
           else ''Payout marked as paid and user notified'')"

definition post_payouts_approve ::
  "'d decimal_api \<Rightarrow> services \<Rightarrow> string \<Rightarrow> string option \<Rightarrow> string \<Rightarrow> db conn \<Rightarrow> (nat \<times> string) \<times> db conn" where
  "post_payouts_approve D sv payoutId transactionId actor c =
     (case approvePayout D sv payoutId transactionId actor (begin_tx c) of
        (Inr ap, c1) \<Rightarrow> (approve_reply ap, commit_tx c1)
      | (Inl e, c1) \<Rightarrow> (approve_refusal e, rollback_tx c1))"

lemma post_is_transaction:
  "snd (post_payouts_approve D sv i txid actor c) = snd (withTransaction (approvePayout D sv i txid actor) c)"
  by (simp add: post_payouts_approve_def withTransaction_def split: prod.split sum.split)

section \<open>Runs of approval requests\<close>

text \<open>Requests of admins on one payout, one after the other.\<close>

primrec run_approvals ::
  "'d decimal_api \<Rightarrow> services \<Rightarrow> string \<Rightarrow> (string \<times> string option) list \<Rightarrow> db conn \<Rightarrow> db conn" where
  "run_approvals D sv i [] c = c"
| "run_approvals D sv i (r # rs) c =
     run_approvals D sv i rs (snd (post_payouts_approve D sv i (snd r) (fst r) c))"

lemma approve_committed:
  assumes "withTransaction (approvePayout D sv i txid actor) c = (r, c')"
  shows "tabs c' = tabs c \<or> (\<exists>ap c2. approvePayout D sv i txid actor (begin_tx c) = (Inr ap, c2) \<and> tabs c' = tabs c2)"
proof (cases r)
  case (Inl e)
  then show ?thesis using assms withTransaction_undoes [OF framed_approvePayout] by blast
next
  case (Inr ap)
  then obtain c2 where c2: "approvePayout D sv i txid actor (begin_tx c) = (Inr ap, c2)" "c' = commit_tx c2"
    using assms by (auto simp: withTransaction_def split: prod.splits sum.splits)
  have "base c2 = tabs c" using framedD [OF framed_approvePayout c2(1)] by (simp add: begin_tx_def)
  then show ?thesis using c2 by (cases "aborted c2") (auto simp: commit_tx_def rollback_tx_def)
qed

section \<open>An eligible payout can be paid\<close>

lemma threshold_in_settings: "settings t = settings t' \<Longrightarrow> threshold_in D t = threshold_in D t'"
  by (simp add: threshold_in_def)

definition needs_second :: "num \<Rightarrow> js_error" where
  "needs_second thr = InvariantViolation
     (''Payouts of '' @ num_str thr @ '' or more need a second approver. You recorded the first approval on this request; '' @
      ''another admin must complete it.'') 409"

lemma approve_above:
  assumes s: "approvable i (tabs c) p u k a" "\<not> aborted c" and d: "dec_new D (opt_money (amount_requested p)) = Some d"
    and thr: "threshold_in D (tabs c) = Some thr" "dec_gte D d thr"
  shows "text_or_empty (first_approver p) = [] \<Longrightarrow>
      \<exists>ap. approvePayout D sv i txid actor c = (Inr ap, c\<lparr>tabs := mark_first i actor (tabs c)\<rparr>) \<and> ap_awaiting ap"
    and "first_approver p = Some actor \<Longrightarrow> actor \<noteq> [] \<Longrightarrow> approvePayout D sv i txid actor c = (Inl (needs_second thr), c)"
    and "first_approver p = Some f \<Longrightarrow> f \<noteq> [] \<Longrightarrow> f \<noteq> actor \<Longrightarrow> approvePayout D sv i txid actor c =
      pay_out D sv (row_of a) p u d txid actor (c\<lparr>tabs := mark_second i actor (tabs c)\<rparr>)"
proof -
  have k: "pay_account p = Some k" and st: "to_lower (text_or_empty (pay_status p)) = ''pending''"
    and pu: "payout_with_user i (tabs c) = Some (p, u)"
    and noblock: "blockers (evaluatePayoutEligibility (approval_input (row_of a) p u
        (count_trades (Some k) ''open'' (tabs c)) (count_trades (Some k) ''pending'' (tabs c)))) = []"
    using s(1) by (simp_all add: approvable_def)
  have load: "loadForUpdate (Some k) c = (Inr (row_of a), c)"
    using s by (simp add: approvable_def loadForUpdate_def tx_bind_def select_app tx_return_def)
  have id: "pay_id p = i"
    using pu by (auto simp: payout_with_user_def split: option.splits dest: get_payout_id)
  note run = approvePayout_def tx_bind_def select_app s(2) pu st k load noblock resolve_threshold thr d query_def id
  show "\<exists>ap. approvePayout D sv i txid actor c = (Inr ap, c\<lparr>tabs := mark_first i actor (tabs c)\<rparr>) \<and> ap_awaiting ap"
    if "text_or_empty (first_approver p) = []"
    using that by (simp add: run mark_first_def tx_return_def)
  show "approvePayout D sv i txid actor c = (Inl (needs_second thr), c)" if "first_approver p = Some actor" "actor \<noteq> []"
    using that by (simp add: run needs_second_def tx_throw_def)
  show "approvePayout D sv i txid actor c = pay_out D sv (row_of a) p u d txid actor (c\<lparr>tabs := mark_second i actor (tabs c)\<rparr>)"
    if "first_approver p = Some f" "f \<noteq> []" "f \<noteq> actor"
    using that by (simp add: run mark_second_def)
qed

lemma approvable_first:
  assumes "approvable i t p u k a"
  shows "\<exists>q. approvable i (mark_first i f t) q u k a \<and> first_approver q = Some f \<and> amount_requested q = amount_requested p"
proof -
  have look: "get_payout i t = Some p" using assms by (auto simp: approvable_def payout_with_user_def split: option.splits)
  have "approval_input r (p\<lparr>first_approver := x, first_approved_at := y\<rparr>) u m n = approval_input r p u m n" for r x y m n
    by (simp add: approval_input_def)
  moreover have "count_trades x y (put_payout i g t) = count_trades x y t" for x y g by (simp add: count_trades_def)
  ultimately show ?thesis
    using assms look by (auto simp: approvable_def payout_with_user_def mark_first_def get_payout_put get_account_def split: option.splits)
qed

text \<open>C4. Dual control does not lock money up: when a payout at or above the threshold is eligible and nobody has
  approved it yet, the first admin's request is recorded without moving money, the same admin's second
  request is refused with 409 and leaves no trace, and another admin's request then pays the amount,
  whether or not the certificate of the payout can be issued.\<close>

theorem two_approvers_pay:
  assumes "decimal_laws D" "approvable i (tabs c) p u k a" "k \<noteq> []" "amount_requested p = Some m" "cents_ok m"
    and "account_typed a" "cents_ok (current_balance a - starting_balance a)" "text_or_empty (first_approver p) = []"
    and "threshold_in D (tabs c) = Some thr" "dec_new D (opt_money (Some m)) = Some d" "dec_gte D d thr" "f \<noteq> []" "f \<noteq> g"
  shows "\<exists>c1 c2 c3 p'. post_payouts_approve D sv i txid f c = ((200, ''First approval recorded. A second admin must approve this payout before it is paid.''), c1) \<and>
    accounts (tabs c1) = accounts (tabs c) \<and> ledger (tabs c1) = ledger (tabs c) \<and>
    post_payouts_approve D sv i txid' f c1 = (approve_refusal (needs_second thr), c2) \<and> tabs c2 = tabs c1 \<and>
    post_payouts_approve D sv i txid'' g c2 = ((200, ''Payout marked as paid and user notified''), c3) \<and>
    get_payout i (tabs c3) = Some p' \<and> pay_status p' = Some ''paid'' \<and>
    ledger_sum k (tabs c3) = ledger_sum k (tabs c) - m"
proof -
  define c1 where "c1 = commit_tx ((begin_tx c)\<lparr>tabs := mark_first i f (tabs c)\<rparr>)"
  define c2 where "c2 = rollback_tx (begin_tx c1)"
  have t: "tabs c1 = mark_first i f (tabs c)" "tabs c2 = tabs c1" by (simp_all add: c1_def c2_def commit_tx_def begin_tx_def rollback_tx_def)
  have begins: "tabs (begin_tx x) = tabs x" "\<not> aborted (begin_tx x)" for x :: "db conn" by (simp_all add: begin_tx_def)
  obtain q where q: "approvable i (tabs c1) q u k a" "first_approver q = Some f" "amount_requested q = Some m"
    using approvable_first [OF assms(2)] assms(4) unfolding t by metis
  have th: "threshold_in D (tabs c1) = Some thr"
    using assms(9) threshold_in_settings [of "tabs c1" "tabs c" D] by (simp add: t(1) mark_first_def)
  have one: "post_payouts_approve D sv i txid f c = ((200, ''First approval recorded. A second admin must approve this payout before it is paid.''), c1)"
    using approve_above(1) [of i "begin_tx c" p u k a D d thr sv txid f] assms begins
    by (auto simp: post_payouts_approve_def approve_reply_def c1_def)
  have two: "post_payouts_approve D sv i txid' f c1 = (approve_refusal (needs_second thr), c2)"
    using approve_above(2) [of i "begin_tx c1" q u k a D d thr f sv txid'] assms(10-12) q th begins
    by (simp add: post_payouts_approve_def c2_def)
  define b where "b = (begin_tx c2)\<lparr>tabs := mark_second i g (tabs c2)\<rparr>"
  have amt: "5000 \<le> m" "m \<le> current_balance a - starting_balance a"
    using approvable_amount [OF assms(2,4-7)] by auto
  have acc: "get_account k (tabs b) = Some a" using q(1) t(2) by (simp add: b_def approvable_def mark_second_def)
  obtain ap c' r where pay: "pay_out D sv (row_of a) q u d txid'' g b = (Inr ap, c')" "\<not> ap_awaiting ap" "\<not> aborted c'"
    "cert_only (paid_state (pay_id q) (given_text txid'') k (anchored k (max (anchor_base a - m) 0) (book k (credited (- m) a) r (tabs b)))) (tabs c')"
    "led_account r = k" "led_amount r = - m"
    using pay_out_runs [OF assms(1) _ acc assms(3) _ q(3) assms(5) _ amt(2) assms(6), of d sv u txid'' g] q(3) assms(10) amt(1)
    by (auto simp: b_def begin_tx_def)
  have id: "pay_id q = i" using q(1) by (auto simp: approvable_def payout_with_user_def split: option.splits dest: get_payout_id)
  have run: "approvePayout D sv i txid'' g (begin_tx c2) = (Inr ap, c')"
    using approve_above(3) [of i "begin_tx c2" q u k a D d thr f g sv txid''] assms(10-13) q th begins pay(1) t(2) by (simp add: b_def)
  note look = cert_only_lookups [OF pay(4)]
  define c3 where "c3 = commit_tx c'"
  have three: "post_payouts_approve D sv i txid'' g c2 = ((200, ''Payout marked as paid and user notified''), c3)" "tabs c3 = tabs c'"
    using run pay(2,3) by (simp_all add: post_payouts_approve_def approve_reply_def c3_def commit_tx_def)
  have "get_payout i (tabs b) \<noteq> None"
    using q(1) t(2) by (auto simp: approvable_def payout_with_user_def b_def mark_second_def get_payout_put split: option.splits)
  moreover have "get_payout i (anchored k x (book k y r v)) = get_payout i v" for x y v
    by (simp add: anchored_def book_def get_payout_def)
  ultimately obtain p' where p': "get_payout i (tabs c3) = Some p'" "pay_status p' = Some ''paid''"
    by (auto simp: three(2) look paid_state_def get_payout_put id)
  have "ledger_sum k (anchored k x v) = ledger_sum k v" for x v
    by (simp add: anchored_def ledger_sum_def)
  then have "ledger_sum k (tabs c3) = ledger_sum k (tabs b) - m"
    using pay(5,6) by (simp add: three(2) look paid_state_def ledger_sum_book)
  moreover have "ledger_sum k (tabs b) = ledger_sum k (tabs c)" by (simp add: b_def t mark_first_def mark_second_def)
  ultimately show ?thesis using one two three(1) p' t by (auto simp: mark_first_def)
qed

theorem two_approvers_pay_witness:
  "\<exists>c1 c2 c3 p'. post_payouts_approve rat_decimal demo_services ''p1'' None ''anna'' (conn_of demo_db) =
      ((200, ''First approval recorded. A second admin must approve this payout before it is paid.''), c1) \<and>
    accounts (tabs c1) = accounts (tabs (conn_of demo_db)) \<and> ledger (tabs c1) = ledger (tabs (conn_of demo_db)) \<and>
    post_payouts_approve rat_decimal demo_services ''p1'' None ''anna'' c1 = (approve_refusal (needs_second (Fin 2500)), c2) \<and>
    tabs c2 = tabs c1 \<and>
    post_payouts_approve rat_decimal demo_services ''p1'' (Some ''tx1'') ''bob'' c2 = ((200, ''Payout marked as paid and user notified''), c3) \<and>
    get_payout ''p1'' (tabs c3) = Some p' \<and> pay_status p' = Some ''paid'' \<and>
    ledger_sum ''a1'' (tabs c3) = ledger_sum ''a1'' (tabs (conn_of demo_db)) - 300000"
proof (rule two_approvers_pay [where p = demo_payout and a = demo_account and d = 3000])
  show "approvable ''p1'' (tabs (conn_of demo_db)) demo_payout (hd (users demo_db)) ''a1'' demo_account" by code_simp
  show "threshold_in rat_decimal (tabs (conn_of demo_db)) = Some (Fin 2500)" by code_simp
  show "dec_gte rat_decimal 3000 (Fin 2500)" by code_simp
  show "dec_new rat_decimal (opt_money (Some 300000)) = Some 3000" by code_simp
qed (simp_all add: rat_decimal_laws cents_ok_def, simp_all add: demo_payout_def demo_db_def, simp_all add: demo_account_def)

definition dual_inv :: "'d decimal_api \<Rightarrow> string \<Rightarrow> db \<Rightarrow> payout \<Rightarrow> string set \<Rightarrow> db \<Rightarrow> bool" where
  "dual_inv D i t0 p0 A t \<longleftrightarrow>
     (\<exists>f\<in>A. \<exists>g\<in>A. f \<noteq> g) \<or>
     (settings t = settings t0 \<and> accounts t = accounts t0 \<and> ledger t = ledger t0 \<and>
      (\<exists>p. get_payout i t = Some p \<and> amount_requested p = amount_requested p0 \<and>
         (text_or_empty (first_approver p) = [] \<or> (\<exists>f\<in>A. first_approver p = Some f))))"

lemma dual_inv_step:
  assumes thr: "threshold_in D t0 = Some thr" "dec_new D (opt_money (amount_requested p0)) = Some d" "dec_gte D d thr"
    and inv: "dual_inv D i t0 p0 A (tabs c)"
    and run: "approvePayout D sv i txid actor c = (Inr ap, c')"
  shows "dual_inv D i t0 p0 (insert actor A) (tabs c')"
proof (cases "\<exists>f\<in>A. \<exists>g\<in>A. f \<noteq> g")
  case True
  then show ?thesis unfolding dual_inv_def by blast
next
  case False
  then obtain p where p: "settings (tabs c) = settings t0" "accounts (tabs c) = accounts t0" "ledger (tabs c) = ledger t0"
    "get_payout i (tabs c) = Some p" "amount_requested p = amount_requested p0"
    "text_or_empty (first_approver p) = [] \<or> (\<exists>f\<in>A. first_approver p = Some f)"
    using inv unfolding dual_inv_def by blast
  have th: "threshold_in D (tabs c) = Some thr" using threshold_in_settings [OF p(1), of D] thr(1) by simp
  obtain q u k a d' where s: "approvable i (tabs c) q u k a" "dec_new D (opt_money (amount_requested q)) = Some d'"
    and cs: "(\<exists>thr. threshold_in D (tabs c) = Some thr \<and> dec_gte D d' thr \<and> text_or_empty (first_approver q) = [] \<and>
        ap_awaiting ap \<and> c' = c\<lparr>tabs := mark_first i actor (tabs c)\<rparr>) \<or>
     (threshold_in D (tabs c) = None \<or> (\<exists>thr. threshold_in D (tabs c) = Some thr \<and> \<not> dec_gte D d' thr)) \<or>
     (\<exists>f. first_approver q = Some f \<and> f \<noteq> [] \<and> f \<noteq> actor)"
    using run by (rule approve_success) blast
  have q: "q = p" using s(1) p(4) by (auto simp: approvable_def payout_with_user_def split: option.splits)
  have d: "d' = d" using s(2) thr(2) q p(5) by simp
  consider (first) "c' = c\<lparr>tabs := mark_first i actor (tabs c)\<rparr>" | (second) f where "first_approver p = Some f" "f \<noteq> []" "f \<noteq> actor"
    using cs q d th thr(3) by auto
  then show ?thesis
  proof cases
    case first
    then show ?thesis using p by (auto simp: dual_inv_def mark_first_def get_payout_put)
  next
    case second
    then have "f \<in> A" using p(6) by auto
    then show ?thesis using second(3) unfolding dual_inv_def by blast
  qed
qed

lemma dual_inv_run:
  assumes thr: "threshold_in D t0 = Some thr" "dec_new D (opt_money (amount_requested p0)) = Some d" "dec_gte D d thr"
  shows "dual_inv D i t0 p0 A (tabs c) \<Longrightarrow> dual_inv D i t0 p0 (A \<union> set (map fst reqs)) (tabs (run_approvals D sv i reqs c))"
proof (induction reqs arbitrary: A c)
  case (Cons r rs)
  obtain x c1 where w: "withTransaction (approvePayout D sv i (snd r) (fst r)) c = (x, c1)"
    by (cases "withTransaction (approvePayout D sv i (snd r) (fst r)) c")
  have "dual_inv D i t0 p0 (insert (fst r) A) (tabs c1)"
    using approve_committed [OF w]
  proof
    assume "tabs c1 = tabs c"
    then show ?thesis using Cons.prems unfolding dual_inv_def by auto
  next
    assume "\<exists>ap c2. approvePayout D sv i (snd r) (fst r) (begin_tx c) = (Inr ap, c2) \<and> tabs c1 = tabs c2"
    then obtain ap c2 where "approvePayout D sv i (snd r) (fst r) (begin_tx c) = (Inr ap, c2)" "tabs c1 = tabs c2" by blast
    moreover have "dual_inv D i t0 p0 A (tabs (begin_tx c))" using Cons.prems by (simp add: begin_tx_def)
    ultimately show ?thesis using dual_inv_step [OF thr] by metis
  qed
  from Cons.IH [OF this] show ?case using w by (simp add: post_is_transaction)
qed simp

text \<open>C1. Dual control: whatever requests are made on a payout at or above the threshold that nobody
  has approved yet, no balance and no ledger row changes before two different admins have approved it.\<close>

theorem large_payout_needs_two_approvers:
  assumes "threshold_in D (tabs c) = Some thr" "get_payout i (tabs c) = Some p"
    and "dec_new D (opt_money (amount_requested p)) = Some d" "dec_gte D d thr" "text_or_empty (first_approver p) = []"
    and "accounts (tabs (run_approvals D sv i reqs c)) \<noteq> accounts (tabs c) \<or>
         ledger (tabs (run_approvals D sv i reqs c)) \<noteq> ledger (tabs c)"
  shows "\<exists>f\<in>set (map fst reqs). \<exists>g\<in>set (map fst reqs). f \<noteq> g"
proof -
  have "dual_inv D i (tabs c) p {} (tabs c)" using assms(2,5) by (auto simp: dual_inv_def)
  from dual_inv_run [OF assms(1,3,4) this, of reqs sv] assms(6) show ?thesis by (auto simp: dual_inv_def)
qed

theorem large_payout_needs_two_approvers_witness:
  "\<exists>f\<in>set (map fst [(''anna'', None), (''anna'', None), (''bob'', Some ''tx1'')]).
     \<exists>g\<in>set (map fst [(''anna'', None), (''anna'', None), (''bob'', Some ''tx1'' :: string option)]). f \<noteq> g"
proof (rule large_payout_needs_two_approvers
    [where D = rat_decimal and sv = demo_services and i = "''p1''" and c = "conn_of demo_db" and p = demo_payout and d = 3000 and thr = "Fin 2500"])
  have "map led_amount (ledger (tabs (run_approvals rat_decimal demo_services ''p1''
      [(''anna'', None), (''anna'', None), (''bob'', Some ''tx1'')] (conn_of demo_db)))) = [- 300000]" by code_simp
  moreover have "ledger (tabs (conn_of demo_db)) = []" by (simp add: demo_db_def)
  ultimately show "accounts (tabs (run_approvals rat_decimal demo_services ''p1'' [(''anna'', None), (''anna'', None), (''bob'', Some ''tx1'')]
      (conn_of demo_db))) \<noteq> accounts (tabs (conn_of demo_db)) \<or>
    ledger (tabs (run_approvals rat_decimal demo_services ''p1'' [(''anna'', None), (''anna'', None), (''bob'', Some ''tx1'')]
      (conn_of demo_db))) \<noteq> ledger (tabs (conn_of demo_db))" by auto
  show "threshold_in rat_decimal (tabs (conn_of demo_db)) = Some (Fin 2500)" by code_simp
  show "dec_new rat_decimal (opt_money (amount_requested demo_payout)) = Some 3000" by code_simp
  show "dec_gte rat_decimal 3000 (Fin 2500)" by code_simp
  show "get_payout ''p1'' (tabs (conn_of demo_db)) = Some demo_payout"
    by (simp add: demo_payout_def demo_db_def get_payout_def find_by_def)
  show "text_or_empty (first_approver demo_payout) = []" by (simp add: demo_payout_def demo_db_def)
qed

definition once_inv :: "string \<Rightarrow> string \<Rightarrow> int \<Rightarrow> account \<Rightarrow> db \<Rightarrow> db \<Rightarrow> bool" where
  "once_inv i k m a t0 t \<longleftrightarrow>
     (\<exists>p. get_payout i t = Some p \<and>
        (pay_status p = Some ''paid'' \<and> ledger_sum k t = ledger_sum k t0 - m \<or>
         amount_requested p = Some m \<and> pay_account p = Some k \<and> get_account k t = Some a \<and>
         ledger_sum k t = ledger_sum k t0))"

lemma paid_not_pending: "to_lower (text_or_empty (Some ''paid'')) \<noteq> ''pending''"
  by (simp add: to_lower_def lower_char_def)

lemma once_inv_step:
  assumes laws: "decimal_laws D" and m: "cents_ok m" and k: "k \<noteq> []" and a: "account_typed a"
    and diff: "cents_ok (current_balance a - starting_balance a)"
    and inv: "once_inv i k m a t0 (tabs c)" and run: "approvePayout D sv i txid actor c = (Inr ap, c')"
  shows "once_inv i k m a t0 (tabs c')"
proof -
  obtain q u k' a' d where s: "approvable i (tabs c) q u k' a'"
    and cs: "c' = c\<lparr>tabs := mark_first i actor (tabs c)\<rparr> \<or> \<not> ap_awaiting ap"
    using run
  proof (rule approve_success, goal_cases)
    case (1 p u k a d)
    show ?case
      using 1(1) [OF 1(2)] 1(6) pay_out_not_awaiting [of D sv "row_of a" p u d txid actor _ ap c'] by auto
  qed
  obtain p where p: "get_payout i (tabs c) = Some p"
    "pay_status p = Some ''paid'' \<and> ledger_sum k (tabs c) = ledger_sum k t0 - m \<or>
     amount_requested p = Some m \<and> pay_account p = Some k \<and> get_account k (tabs c) = Some a \<and>
     ledger_sum k (tabs c) = ledger_sum k t0"
    using inv by (auto simp: once_inv_def)
  have "q = p" "to_lower (text_or_empty (pay_status p)) = ''pending''"
    using s p(1) by (auto simp: approvable_def payout_with_user_def split: option.splits)
  then have open': "amount_requested p = Some m" "pay_account p = Some k" "get_account k (tabs c) = Some a"
    "ledger_sum k (tabs c) = ledger_sum k t0"
    using p(2) paid_not_pending by auto
  from cs show ?thesis
  proof
    assume "c' = c\<lparr>tabs := mark_first i actor (tabs c)\<rparr>"
    then show ?thesis using p(1) open' by (auto simp: once_inv_def mark_first_def get_payout_put)
  next
    assume "\<not> ap_awaiting ap"
    from pays_exactly [OF laws run this p(1) open'(1) m open'(2) k open'(3) a diff]
    show ?thesis using open'(4) by (auto simp: once_inv_def)
  qed
qed

text \<open>C3. However often and by whomever a payout is approved, it is paid at most once: the ledger of the
  account is either as it was or smaller by exactly the requested amount, and then the payout is paid.\<close>

theorem payout_paid_at_most_once:
  assumes "decimal_laws D" "get_payout i (tabs c) = Some p" "amount_requested p = Some m" "cents_ok m"
    and "pay_account p = Some k" "k \<noteq> []" "get_account k (tabs c) = Some a" "account_typed a"
    and "cents_ok (current_balance a - starting_balance a)"
  shows "\<exists>p'. get_payout i (tabs (run_approvals D sv i reqs c)) = Some p' \<and>
    (ledger_sum k (tabs (run_approvals D sv i reqs c)) = ledger_sum k (tabs c) \<or>
     pay_status p' = Some ''paid'' \<and>
     ledger_sum k (tabs (run_approvals D sv i reqs c)) = ledger_sum k (tabs c) - m)"
proof -
  have "once_inv i k m a t0 (tabs (run_approvals D sv i reqs c))" if "once_inv i k m a t0 (tabs c)" for t0
    using that
  proof (induction reqs arbitrary: c)
    case (Cons r rs)
    obtain x c1 where w: "withTransaction (approvePayout D sv i (snd r) (fst r)) c = (x, c1)"
      by (cases "withTransaction (approvePayout D sv i (snd r) (fst r)) c")
    have "once_inv i k m a t0 (tabs (begin_tx c))" using Cons.prems by (simp add: begin_tx_def)
    then have "once_inv i k m a t0 (tabs c1)"
      using approve_committed [OF w] Cons.prems once_inv_step [OF assms(1,4,6,8,9)] by metis
    from Cons.IH [OF this] show ?case using w by (simp add: post_is_transaction)
  qed simp
  from this [of "tabs c"] show ?thesis using assms by (auto simp: once_inv_def)
qed

theorem payout_paid_at_most_once_witness:
  "\<exists>p'. get_payout ''p1'' (tabs (run_approvals rat_decimal demo_services ''p1'' [(''anna'', None), (''bob'', None), (''eve'', None)] (conn_of demo_db))) = Some p' \<and>
    (ledger_sum ''a1'' (tabs (run_approvals rat_decimal demo_services ''p1'' [(''anna'', None), (''bob'', None), (''eve'', None)] (conn_of demo_db))) =
       ledger_sum ''a1'' (tabs (conn_of demo_db)) \<or>
     pay_status p' = Some ''paid'' \<and>
     ledger_sum ''a1'' (tabs (run_approvals rat_decimal demo_services ''p1'' [(''anna'', None), (''bob'', None), (''eve'', None)] (conn_of demo_db))) =
       ledger_sum ''a1'' (tabs (conn_of demo_db)) - 300000)"
  by (rule payout_paid_at_most_once [where p = demo_payout and a = demo_account])
    (simp_all add: rat_decimal_laws cents_ok_def,
     simp_all add: demo_payout_def demo_db_def get_payout_def find_by_def, simp add: demo_account_def)

end
