(* ===== verification/Progression.thy ===== *)
theory Progression
  imports Payout Instruments
begin

text \<open>
  Promotion of passed accounts: services/promotionTarget.js (what an account is promoted into),
  utils/accountIds.ts (its readable id), the promotion reviews of services/tenantMonthlyQuotaService.js and
  the promotion itself in services/progressionService.js. The rows of challenge_models come from a
  lookup, a parameter; a review and the promotion run on the caller's connection.
\<close>

section \<open>The target of a promotion\<close>

record step_model =
  sm_id :: int
  sm_slug :: string
  sm_name :: string
  sm_steps :: int
  sm_profit_targets :: "jsval list"
  sm_time_limits :: "jsval list"
  sm_consistency_by_phase :: "jsval list option"
  sm_consistency :: rat
  sm_max_dd :: rat
  sm_daily_dd :: rat
  sm_dd_type :: string
  sm_min_days :: int
  sm_min_daily_profit :: rat
  sm_funded_max_dd :: rat
  sm_funded_daily_dd :: rat
  sm_funded_locks_at :: "rat option"
  sm_funded_min_days :: "int option"
  sm_funded_consistency :: "rat option"
  sm_scaling_enabled :: bool
  sm_scaling_target :: rat
  sm_scaling_multiplier :: rat
  sm_scaling_max_size :: int
  sm_scaling_increase :: "rat option"

type_synonym model_lookup = "string \<Rightarrow> step_model option"

text \<open>The account object a caller passes in: a row of accounts, or an object with some of its fields.\<close>

record passed_account =
  pa_id :: string
  pa_user :: "string option"
  pa_type :: string
  pa_size :: jsval
  pa_slug :: "string option"
  pa_step :: "int option"

definition passed_row :: "account \<Rightarrow> passed_account" where
  "passed_row a = \<lparr>pa_id = acc_id a, pa_user = acc_user a, pa_type = acc_type a, pa_size = numeric_val (acc_size a),
     pa_slug = challenge_model_slug a, pa_step = step_number a\<rparr>"

record promotion_target =
  pt_type :: string
  pt_next :: "int option"
  pt_model :: "step_model option"
  pt_final :: bool

definition phase_name :: "int \<Rightarrow> string" where
  "phase_name n = ''phase'' @ int_str n"

definition LEGACY_LADDER :: "(string \<times> string) list" where
  "LEGACY_LADDER = [(''phase1'', ''phase2''), (''phase2'', ''funded''), (''phase3'', ''funded'')]"

text \<open>\<open>parseInt(x || 1, 10)\<close> of an INTEGER column.\<close>

definition int_or_one :: "int option \<Rightarrow> int" where
  "int_or_one x = (case x of None \<Rightarrow> 1 | Some n \<Rightarrow> if n = 0 then 1 else n)"

definition legacy_target :: "string \<Rightarrow> promotion_target option" where
  "legacy_target accountType =
     (case map_of LEGACY_LADDER accountType of
        None \<Rightarrow> None
      | Some target \<Rightarrow> Some \<lparr>pt_type = target, pt_next = (if target = ''funded'' then None else Some 2), pt_model = None,
                            pt_final = (target = ''funded'')\<rparr>)"

definition resolvePromotionTarget :: "model_lookup \<Rightarrow> passed_account \<Rightarrow> promotion_target option" where
  "resolvePromotionTarget loadStepModel acc =
     (let accountType = to_lower (pa_type acc) in
      if accountType = [] then None
      else case (case given (pa_slug acc) of None \<Rightarrow> None | Some slug \<Rightarrow> loadStepModel slug) of
             None \<Rightarrow> legacy_target accountType
           | Some stepModel \<Rightarrow>
               if accountType = ''funded'' then None
               else let nextStep = int_or_one (pa_step acc) + 1 in
                 if nextStep \<le> int_or_one (Some (sm_steps stepModel))
                 then Some \<lparr>pt_type = phase_name nextStep, pt_next = Some nextStep, pt_model = Some stepModel, pt_final = False\<rparr>
                 else Some \<lparr>pt_type = ''funded'', pt_next = None, pt_model = Some stepModel, pt_final = True\<rparr>)"

definition hasPromotionPath :: "model_lookup \<Rightarrow> passed_account \<Rightarrow> bool" where
  "hasPromotionPath loadStepModel acc \<longleftrightarrow> resolvePromotionTarget loadStepModel acc \<noteq> None"

section \<open>Readable account ids\<close>

definition stepsForModelSlug :: "string option \<Rightarrow> int" where
  "stepsForModelSlug slug = (if slug = Some ''1-step'' then 1 else if slug = Some ''3-step'' then 3 else 2)"

text \<open>\<open>replace\<close> takes out the first occurrence; the phase is what parseInt reads, or one.\<close>

fun drop_first :: "string \<Rightarrow> string \<Rightarrow> string" where
  "drop_first p [] = []"
| "drop_first p (c # s) = (if take (length p) (c # s) = p then drop (length p) (c # s) else c # drop_first p s)"

definition phase_of :: "string \<Rightarrow> num" where
  "phase_of t = (let n = parse_int_str (drop_first ''phase'' t) in if truthy (JNum n) then n else Fin 1)"

definition resolveAccountIdCategory :: "string option \<Rightarrow> string option \<Rightarrow> string \<times> string" where
  "resolveAccountIdCategory accountType slug =
     (let t = to_lower (text_or_empty accountType); steps = stepsForModelSlug slug in
      if t = ''competition'' then (''competition'', ''C'')
      else if t = ''funded'' then (''funded_'' @ int_str steps @ ''step'', ''F'' @ int_str steps @ ''-'')
      else if steps = 1 then (''1step'', ''1S'')
      else (int_str steps @ ''step_phase'' @ num_str (phase_of t), int_str steps @ ''SP'' @ num_str (phase_of t)))"

definition seq_stmt :: "string \<Rightarrow> db \<Rightarrow> string + int \<times> db" where
  "seq_stmt category t =
     (let v = (case map_of (uid_seqs t) category of None \<Rightarrow> 1 | Some n \<Rightarrow> n + 1)
      in Inr (v, t\<lparr>uid_seqs := (category, v) # filter (\<lambda>e. fst e \<noteq> category) (uid_seqs t)\<rparr>))"

definition nextAccountIdSequence :: "string \<Rightarrow> (db, int) tx" where
  "nextAccountIdSequence category = query (seq_stmt category)"

definition ACCOUNT_UID_PAD :: nat where
  "ACCOUNT_UID_PAD = 5"

definition account_uid :: "string \<Rightarrow> int \<Rightarrow> string" where
  "account_uid prefix n = prefix @ pad_int ACCOUNT_UID_PAD n"

definition generateAccountUid :: "string option \<Rightarrow> string option \<Rightarrow> (db, string) tx" where
  "generateAccountUid accountType slug =
     (let cp = resolveAccountIdCategory accountType slug in
      tx_bind (nextAccountIdSequence (fst cp)) (\<lambda>n. tx_return (account_uid (snd cp) n)))"

section \<open>Promotion reviews\<close>

text \<open>A value bound to a NUMERIC column without precision.\<close>

fun sql_numeric :: "jsval \<Rightarrow> string + rat option" where
  "sql_numeric JNull = Inr None"
| "sql_numeric JUndef = Inr None"
| "sql_numeric (JNumeric q) = Inr (Some q)"
| "sql_numeric (JNum x) = (case bind_num x of Inl e \<Rightarrow> Inl e | Inr q \<Rightarrow> Inr (Some q))"
| "sql_numeric _ = Inl ''22P02''"

definition json_merge :: "json_obj \<Rightarrow> json_obj \<Rightarrow> json_obj" where
  "json_merge old new = fold (\<lambda>(k, v) m. obj_put m k v) new old"

definition put_review :: "int \<Rightarrow> (review \<Rightarrow> review) \<Rightarrow> db \<Rightarrow> db" where
  "put_review i f t = t\<lparr>reviews := update_by rev_id i f (reviews t)\<rparr>"

definition pending_review :: "string \<Rightarrow> db \<Rightarrow> review option" where
  "pending_review source t = List.find (\<lambda>r. rev_source r = source \<and> rev_status r = ''pending'') (reviews t)"

text \<open>INSERT ... ON CONFLICT (source_account_id) WHERE status = 'pending' DO UPDATE; either way the sequence advances.\<close>

definition review_stmt :: "review \<Rightarrow> jsval \<Rightarrow> db \<Rightarrow> string + review \<times> db" where
  "review_stmt r0 sz t =
     (case sql_numeric sz of
        Inl e \<Rightarrow> Inl e
      | Inr q \<Rightarrow>
          let t1 = t\<lparr>review_seq := review_seq t + 1\<rparr> in
          (case pending_review (rev_source r0) t of
             None \<Rightarrow>
               let r = r0\<lparr>rev_id := review_seq t + 1, rev_size := q, rev_created_at := now t\<rparr>
               in Inr (r, t1\<lparr>reviews := reviews t @ [r]\<rparr>)
           | Some old \<Rightarrow>
               let f = (\<lambda>r. r\<lparr>rev_triggered := rev_triggered r0,
                              rev_reason := (if rev_reason r0 = None then rev_reason r else rev_reason r0),
                              rev_payload := json_merge (rev_payload r) (rev_payload r0)\<rparr>)
               in Inr (f old, put_review (rev_id old) f t1)))"

definition createPromotionReview ::
  "model_lookup \<Rightarrow> passed_account \<Rightarrow> string \<Rightarrow> string option \<Rightarrow> string option \<Rightarrow> json_obj \<Rightarrow> (db, review option) tx" where
  "createPromotionReview lookup acc triggeredBy reason requestedBy payload =
     (case resolvePromotionTarget lookup acc of
        None \<Rightarrow> tx_return None
      | Some target \<Rightarrow>
          tx_bind (query (review_stmt
            \<lparr>rev_id = 0, rev_source = pa_id acc, rev_user = (case pa_user acc of None \<Rightarrow> ''null'' | Some u \<Rightarrow> u),
             rev_from = pa_type acc, rev_target = pt_type target, rev_size = None, rev_status = ''pending'',
             rev_triggered = Some triggeredBy, rev_reason = reason, rev_requested_by = given requestedBy, rev_decided_by = None,
             rev_note = None, rev_created_account = None, rev_payload = payload, rev_decided_at = None, rev_created_at = 0\<rparr>
            (pa_size acc))) (\<lambda>r. tx_return (Some r)))"

definition getPromotionReviewForUpdate :: "int \<Rightarrow> (db, (review \<times> account) option) tx" where
  "getPromotionReviewForUpdate i =
     select (\<lambda>t. case find_by rev_id i (reviews t) of
        None \<Rightarrow> None
      | Some r \<Rightarrow> (case get_account (rev_source r) t of None \<Rightarrow> None | Some a \<Rightarrow> Some (r, a)))"

definition decide_stmt :: "string \<Rightarrow> int \<Rightarrow> string option \<Rightarrow> string option \<Rightarrow> (review \<Rightarrow> review) \<Rightarrow> db \<Rightarrow> string + review option \<times> db" where
  "decide_stmt st i admin note g t =
     (let f = (\<lambda>r. g (r\<lparr>rev_status := st, rev_decided_by := given admin, rev_note := note, rev_decided_at := Some (now t)\<rparr>))
      in Inr (map_option f (find_by rev_id i (reviews t)), put_review i f t))"

definition markPromotionReviewApproved :: "int \<Rightarrow> string option \<Rightarrow> string option \<Rightarrow> string option \<Rightarrow> (db, review option) tx" where
  "markPromotionReviewApproved i admin note created =
     query (decide_stmt ''approved'' i admin note (\<lambda>r. r\<lparr>rev_created_account := given created\<rparr>))"

definition markPromotionReviewRejected :: "int \<Rightarrow> string option \<Rightarrow> string option \<Rightarrow> (db, review option) tx" where
  "markPromotionReviewRejected i admin note = query (decide_stmt ''rejected'' i admin note (\<lambda>r. r))"

section \<open>Settings of the legacy ladder\<close>

record progression_settings =
  ps_phase2_target :: num
  ps_phase2_max_dd :: num
  ps_phase2_days :: num
  ps_funded_max_dd :: num
  ps_phase1_dd_type :: string
  ps_phase2_dd_type :: string
  ps_funded_dd_type :: string

definition clamp :: "num \<Rightarrow> num \<Rightarrow> num \<Rightarrow> num" where
  "clamp lo hi x = nmax lo (nmin hi x)"

definition setting :: "(string \<Rightarrow> string option) \<Rightarrow> string \<Rightarrow> string \<Rightarrow> string" where
  "setting s key fallback = (case given (s key) of None \<Rightarrow> fallback | Some v \<Rightarrow> v)"

definition normalizeProgressionSettings :: "(string \<Rightarrow> string option) \<Rightarrow> progression_settings" where
  "normalizeProgressionSettings s =
     \<lparr>ps_phase2_target = clamp (mk (1/10)) (Fin 100) (parse_float_str (setting s ''phase2_profit_target_pct'' ''5'')),
      ps_phase2_max_dd = clamp (mk (1/10)) (Fin 100) (parse_float_str (setting s ''phase2_max_drawdown_pct'' ''10'')),
      ps_phase2_days = clamp (Fin 1) (Fin 365) (parse_int_str (setting s ''phase2_day_limit'' ''30'')),
      ps_funded_max_dd = clamp (mk (1/10)) (Fin 100) (parse_float_str (setting s ''funded_max_drawdown_pct'' ''5'')),
      ps_phase1_dd_type = setting s ''phase1_drawdown_type'' ''trailing'',
      ps_phase2_dd_type = setting s ''phase2_drawdown_type'' ''trailing'',
      ps_funded_dd_type = setting s ''funded_drawdown_type'' ''trailing''\<rparr>"

section \<open>What is inserted\<close>

text \<open>
  The values of the INSERT into accounts; the columns a statement leaves out have the defaults of the
  schema. An end date that is not a date is refused by the server, and so is a percentage that
  is not a number (the arrays of a model are as long as its steps).
\<close>

record plan =
  pl_user :: "string option"
  pl_type :: string
  pl_size :: jsval
  pl_target :: jsval
  pl_max_dd :: jsval
  pl_end :: "string + int option"
  pl_uid :: string
  pl_model :: "(int \<times> string) option"
  pl_step :: "int option"
  pl_daily :: jsval
  pl_dd_type :: "string option"
  pl_consistency :: jsval
  pl_min_days :: "int option"
  pl_min_daily :: jsval
  pl_eod_peak :: jsval
  pl_parent :: "string option"
  pl_funded :: bool
  pl_event :: string
  pl_message :: string

definition phase_end_date :: "int \<Rightarrow> num \<Rightarrow> string + int option" where
  "phase_end_date t days =
     (case days of
        Fin d \<Rightarrow> Inr (Some ((day_of t + \<lfloor>d\<rfloor>) * ms_per_day + ms_per_day - 1))
      | _ \<Rightarrow> Inl ''22007'')"

definition target_amount :: "jsval \<Rightarrow> num \<Rightarrow> num" where
  "target_amount sz pct = fixed 2 (nmul (parse_float sz) (ndiv pct (Fin 100)))"

definition buildPhase2InsertArgs :: "int \<Rightarrow> passed_account \<Rightarrow> progression_settings \<Rightarrow> (db, plan) tx" where
  "buildPhase2InsertArgs t acc cfg =
     tx_bind (generateAccountUid (Some ''phase2'') None) (\<lambda>uid. tx_return
       \<lparr>pl_user = pa_user acc, pl_type = ''phase2'', pl_size = pa_size acc,
        pl_target = JNum (target_amount (pa_size acc) (ps_phase2_target cfg)),
        pl_max_dd = JNum (ps_phase2_max_dd cfg), pl_end = phase_end_date t (ps_phase2_days cfg), pl_uid = uid,
        pl_model = None, pl_step = Some 1, pl_daily = JNull, pl_dd_type = Some ''eod_trailing'', pl_consistency = JNull,
        pl_min_days = Some 5, pl_min_daily = JNumeric (1/2), pl_eod_peak = JNull, pl_parent = None, pl_funded = False,
        pl_event = ''phase1_passed'',
        pl_message = ''Phase 1 PASSED! Your Phase 2 challenge is now active. Target: '' @ num_str (ps_phase2_target cfg) @ ''%''\<rparr>)"

definition buildFundedInsertArgs :: "passed_account \<Rightarrow> progression_settings \<Rightarrow> (db, plan) tx" where
  "buildFundedInsertArgs acc cfg =
     tx_bind (generateAccountUid (Some ''funded'') None) (\<lambda>uid. tx_return
       \<lparr>pl_user = pa_user acc, pl_type = ''funded'', pl_size = pa_size acc, pl_target = JNumeric 0,
        pl_max_dd = JNum (ps_funded_max_dd cfg), pl_end = Inr None, pl_uid = uid, pl_model = None, pl_step = Some 1,
        pl_daily = JNull, pl_dd_type = Some ''eod_trailing'', pl_consistency = JNull, pl_min_days = Some 5,
        pl_min_daily = JNumeric (1/2), pl_eod_peak = JNull, pl_parent = None, pl_funded = True,
        pl_event = ''phase2_passed'',
        pl_message = ''Phase 2 PASSED! You are now a Funded Trader. Welcome to the team!''\<rparr>)"

text \<open>An array read at an index, undefined beyond its end.\<close>

definition js_at :: "jsval list \<Rightarrow> int \<Rightarrow> jsval" where
  "js_at xs i = (if 0 \<le> i \<and> nat i < length xs then xs ! nat i else JUndef)"

definition buildNextPhaseStepModelPlan :: "int \<Rightarrow> passed_account \<Rightarrow> step_model \<Rightarrow> promotion_target \<Rightarrow> (db, plan) tx" where
  "buildNextPhaseStepModelPlan t acc m target =
     (let currentStep = int_or_one (pa_step acc); nextStep = currentStep + 1;
          phaseName = (if 1 < length (sm_profit_targets m) then ''Phase '' @ int_str currentStep else sm_name m)
      in tx_bind (generateAccountUid (Some (pt_type target)) (Some (sm_slug m))) (\<lambda>uid.
           if \<not> pt_final target then
             (let i = nextStep - 1; pct = parse_float (js_at (sm_profit_targets m) i);
                  days = parse_int (js_at (sm_time_limits m) i);
                  cons = (case sm_consistency_by_phase m of
                            Some xs \<Rightarrow> parse_float (js_at xs i)
                          | None \<Rightarrow> parse_float (JNumeric (sm_consistency m)))
              in tx_return
               \<lparr>pl_user = pa_user acc, pl_type = pt_type target, pl_size = pa_size acc,
                pl_target = JNum (target_amount (pa_size acc) pct), pl_max_dd = JNumeric (sm_max_dd m),
                pl_end = phase_end_date t days, pl_uid = uid, pl_model = Some (sm_id m, sm_slug m), pl_step = Some nextStep,
                pl_daily = JNumeric (sm_daily_dd m), pl_dd_type = Some (sm_dd_type m), pl_consistency = JNum cons,
                pl_min_days = Some (sm_min_days m), pl_min_daily = JNumeric (sm_min_daily_profit m), pl_eod_peak = pa_size acc,
                pl_parent = Some (pa_id acc), pl_funded = False,
                pl_event = ''phase'' @ int_str currentStep @ ''_passed'',
                pl_message = phaseName @ '' PASSED! Your Phase '' @ int_str nextStep @ '' challenge is now active. Target: '' @
                  num_str pct @ ''%''\<rparr>)
           else tx_return
               \<lparr>pl_user = pa_user acc, pl_type = ''funded'', pl_size = pa_size acc, pl_target = JNumeric 0,
                pl_max_dd = JNumeric (sm_funded_max_dd m), pl_end = Inr None, pl_uid = uid,
                pl_model = Some (sm_id m, sm_slug m), pl_step = None, pl_daily = JNumeric (sm_funded_daily_dd m),
                pl_dd_type = Some (sm_dd_type m),
                pl_consistency = (case sm_funded_consistency m of None \<Rightarrow> JNull | Some q \<Rightarrow> JNumeric q),
                pl_min_days = sm_funded_min_days m, pl_min_daily = JNumeric (sm_min_daily_profit m), pl_eod_peak = pa_size acc,
                pl_parent = Some (pa_id acc), pl_funded = True,
                pl_event = ''phase'' @ int_str currentStep @ ''_passed'',
                pl_message = phaseName @ '' PASSED! You are now a Funded Trader. Welcome to the team!''\<rparr>))"

definition buildPromotionPlan :: "model_lookup \<Rightarrow> int \<Rightarrow> passed_account \<Rightarrow> progression_settings \<Rightarrow> (db, plan option) tx" where
  "buildPromotionPlan lookup t acc cfg =
     (case resolvePromotionTarget lookup acc of
        None \<Rightarrow> tx_return None
      | Some target \<Rightarrow>
          (case pt_model target of
             Some m \<Rightarrow> tx_bind (buildNextPhaseStepModelPlan t acc m target) (\<lambda>p. tx_return (Some p))
           | None \<Rightarrow>
               if pt_type target = ''phase2'' then tx_bind (buildPhase2InsertArgs t acc cfg) (\<lambda>p. tx_return (Some p))
               else if pt_type target = ''funded'' then tx_bind (buildFundedInsertArgs acc cfg) (\<lambda>p. tx_return (Some p))
               else tx_return None))"

section \<open>The promotion\<close>

definition sum_bind :: "'e + 'a \<Rightarrow> ('a \<Rightarrow> 'e + 'b) \<Rightarrow> 'e + 'b" where
  "sum_bind m k = (case m of Inl e \<Rightarrow> Inl e | Inr a \<Rightarrow> k a)"

lemma sum_bind_simps [simp]: "sum_bind (Inl e) k = Inl e" "sum_bind (Inr a) k = k a"
  by (simp_all add: sum_bind_def)

lemma sum_bind_Inr: "sum_bind m k = Inr b \<longleftrightarrow> (\<exists>a. m = Inr a \<and> k a = Inr b)"
  by (cases m) simp_all

text \<open>Assignment to a NUMERIC(5,2) percentage.\<close>

definition numeric5_2 :: "rat \<Rightarrow> string + int" where
  "numeric5_2 q = (let c = to_cents q in if \<bar>c\<bar> < 10 ^ 5 then Inr c else Inl ''22003'')"

definition sql_pct :: "jsval \<Rightarrow> string + int option" where
  "sql_pct v = sum_bind (sql_numeric v) (\<lambda>x. case x of None \<Rightarrow> Inr None | Some q \<Rightarrow> sum_bind (numeric5_2 q) (\<lambda>c. Inr (Some c)))"

definition not_null :: "string + 'a option \<Rightarrow> string + 'a" where
  "not_null m = sum_bind m (\<lambda>x. case x of None \<Rightarrow> Inl ''23502'' | Some a \<Rightarrow> Inr a)"

definition plan_row :: "string \<Rightarrow> int \<Rightarrow> plan \<Rightarrow> string + account" where
  "plan_row i t p =
     sum_bind (not_null (sql_money (pl_size p))) (\<lambda>sz.
     sum_bind (not_null (sql_money (pl_target p))) (\<lambda>target.
     sum_bind (not_null (sql_pct (pl_max_dd p))) (\<lambda>maxdd.
     sum_bind (pl_end p) (\<lambda>phaseEnd.
     sum_bind (sql_pct (pl_daily p)) (\<lambda>daily.
     sum_bind (sql_pct (pl_consistency p)) (\<lambda>cons.
     sum_bind (sql_pct (pl_min_daily p)) (\<lambda>mindaily.
     sum_bind (sql_money (pl_eod_peak p)) (\<lambda>peak.
       Inr \<lparr>acc_id = i, acc_uid = Some (pl_uid p), acc_user = pl_user p, acc_type = pl_type p, acc_size = sz,
            current_balance = sz, starting_balance = sz, peak_balance = sz, profit_target = target, max_drawdown_pct = maxdd,
            acc_status = Some ''active'', phase_start = Some t, phase_end = phaseEnd, review_flagged = False,
            review_flag_reason = None, eod_peak_equity = peak, eod_trailing_floor = None,
            challenge_model_slug = map_option snd (pl_model p), challenge_model_id = map_option fst (pl_model p),
            step_number = pl_step p, daily_drawdown_pct = daily, drawdown_type = pl_dd_type p, consistency_max_day_pct = cons,
            min_trading_days = pl_min_days p, min_daily_profit_pct = mindaily, parent_account = pl_parent p,
            created_at = Some t, scaling_multiplier = 1, scaling_claimed = 0\<rparr>))))))))"

text \<open>The INSERT; the id is the server's, a duplicate id or readable id and an unknown user violate their constraints.\<close>

definition insert_account :: "string \<Rightarrow> plan \<Rightarrow> db \<Rightarrow> string + string \<times> db" where
  "insert_account i p t =
     sum_bind (plan_row i (now t) p) (\<lambda>a.
       if get_account i t \<noteq> None \<or> (\<exists>x\<in>set (accounts t). acc_uid x = acc_uid a) then Inl ''23505''
       else if (case acc_user a of None \<Rightarrow> False | Some u \<Rightarrow> find_by user_id u (users t) = None) then Inl ''23503''
       else Inr (i, t\<lparr>accounts := accounts t @ [a]\<rparr>))"

definition bump_day :: "(day_count \<Rightarrow> day_count) \<Rightarrow> db \<Rightarrow> db" where
  "bump_day f t =
     (let d = day_of (now t) in
      if find_by day_date d (day_counts t) = None
      then t\<lparr>day_counts := day_counts t @ [f \<lparr>day_date = d, day_passed = 0, day_failed = 0, day_expired = 0, day_funded = 0\<rparr>]\<rparr>
      else t\<lparr>day_counts := update_by day_date d f (day_counts t)\<rparr>)"

definition count_promotion :: "bool \<Rightarrow> day_count \<Rightarrow> day_count" where
  "count_promotion funded d = (if funded then d\<lparr>day_funded := day_funded d + 1\<rparr> else d\<lparr>day_passed := day_passed d + 1\<rparr>)"

definition promotion_cert :: "passed_account \<Rightarrow> plan \<Rightarrow> string \<Rightarrow> user \<Rightarrow> cert_input" where
  "promotion_cert acc p newId u =
     (let kind = (if pl_type p = ''funded'' then ''funded'' else ''phase_passed'') in
      \<lparr>ci_user = text_or_empty (pa_user acc), ci_account = Some newId, ci_kind = kind,
       ci_title = buildCertificateTitle kind (Some (pa_type acc)) (pa_size acc) JUndef ''USD'', ci_subtitle = None,
       ci_recipient = full_name u, ci_amount = pa_size acc, ci_currency = ''USD'',
       ci_metadata = [(''source_account_id'', JText (pa_id acc)), (''target_account_type'', JText (pl_type p))],
       ci_source_key = Some (''promotion:'' @ newId), ci_issued_by = None\<rparr>)"

record award =
  aw_cert :: "certificate option"
  aw_created :: bool
  aw_email :: "string option"

definition no_award :: award where
  "no_award = \<lparr>aw_cert = None, aw_created = False, aw_email = None\<rparr>"

definition trader_of :: "passed_account \<Rightarrow> db \<Rightarrow> user option" where
  "trader_of acc t = (case pa_user acc of None \<Rightarrow> None | Some u \<Rightarrow> find_by user_id u (users t))"

definition kyc_missing :: "passed_account \<Rightarrow> db \<Rightarrow> bool" where
  "kyc_missing acc t =
     (to_lower (text_or_empty (case trader_of acc t of None \<Rightarrow> None | Some u \<Rightarrow> kyc_status u)) \<noteq> ''approved'')"

definition awardPromotionCertificate :: "services \<Rightarrow> passed_account \<Rightarrow> plan \<Rightarrow> string \<Rightarrow> (db, award) tx" where
  "awardPromotionCertificate sv acc p newId =
     tx_bind (tx_catch (tx_bind (savepoint ''certificate_award'') (\<lambda>_. tx_return True)) (\<lambda>_. tx_return False)) (\<lambda>savepointHeld.
       tx_catch
         (tx_bind (select (trader_of acc)) (\<lambda>recipient.
            case recipient of
              None \<Rightarrow> tx_bind (if savepointHeld then rollback_to ''certificate_award'' else tx_return ()) (\<lambda>_. tx_return no_award)
            | Some u \<Rightarrow>
                tx_bind (issueCertificate (sv_crypto sv) (sv_time sv) (sv_blocks sv) (promotion_cert acc p newId u)) (\<lambda>r.
                tx_bind (if savepointHeld then release ''certificate_award'' else tx_return ()) (\<lambda>_.
                  tx_return \<lparr>aw_cert = Some (fst r), aw_created = snd r, aw_email = Some (email u)\<rparr>))))
         (\<lambda>e. tx_bind (if savepointHeld
                       then tx_catch (rollback_to ''certificate_award'') (\<lambda>_. tx_return ()) else tx_return ()) (\<lambda>_.
                tx_return no_award)))"

record promotion =
  pm_account :: string
  pm_event :: string
  pm_message :: string
  pm_kyc :: bool
  pm_award :: award

definition execute_plan :: "services \<Rightarrow> string \<Rightarrow> passed_account \<Rightarrow> plan \<Rightarrow> (db, promotion) tx" where
  "execute_plan sv newId acc p =
     tx_bind (query (insert_account newId p)) (\<lambda>i.
     tx_bind (query (\<lambda>t. Inr ((), bump_day (count_promotion (pl_funded p)) t))) (\<lambda>_.
     tx_bind (awardPromotionCertificate sv acc p i) (\<lambda>award.
     tx_bind (if pl_type p = ''funded'' then
select (kyc_missing acc) else tx_return False) (\<lambda>kycRequired.
       tx_return
         \<lparr>pm_account = i, pm_event = pl_event p,
          pm_message = pl_message p @ (if kycRequired
            then '' One step left: verify your identity to unlock trading on your funded account.'' else []),
          pm_kyc = kycRequired, pm_award = award\<rparr>))))"

text \<open>\<open>isPool\<close>: the caller passed the pool, and the promotion opens a transaction of its own.\<close>

definition promotePassedAccount ::
  "services \<Rightarrow> model_lookup \<Rightarrow> string \<Rightarrow> bool \<Rightarrow> passed_account \<Rightarrow> progression_settings \<Rightarrow> (db, promotion option) tx" where
  "promotePassedAccount sv lookup newId isPool acc cfg =
     tx_bind (buildPromotionPlan lookup (sv_time sv) acc cfg) (\<lambda>p.
       case p of
         None \<Rightarrow> tx_return None
       | Some p \<Rightarrow> tx_bind (if isPool then withTransaction (execute_plan sv newId acc p) else execute_plan sv newId acc p)
                    (\<lambda>r. tx_return (Some r)))"

record approved =
  ar_promotion :: promotion
  ar_review :: "review option"
  ar_source :: account

definition approvePromotionReview ::
  "services \<Rightarrow> model_lookup \<Rightarrow> string \<Rightarrow> review option \<Rightarrow> progression_settings \<Rightarrow> string option \<Rightarrow> string option \<Rightarrow> (db, approved) tx" where
  "approvePromotionReview sv lookup newId review cfg adminId note =
     (case review of
        None \<Rightarrow> tx_throw (PlainError ''Promotion review is not pending'' (Some 400))
      | Some r \<Rightarrow>
          if to_lower (rev_status r) \<noteq> ''pending'' then tx_throw (PlainError ''Promotion review is not pending'' (Some 400))
          else tx_bind (select (get_account (rev_source r))) (\<lambda>source.
            case source of
              None \<Rightarrow> tx_throw (PlainError ''Source account not found'' (Some 404))
            | Some a \<Rightarrow>
                if to_lower (text_or_empty (acc_status a)) \<noteq> ''passed'' then
                  tx_throw (PlainError ''Source account must be passed before approval'' (Some 400))
                else tx_bind (promotePassedAccount sv lookup newId False (passed_row a) cfg) (\<lambda>promoted.
                  case promoted of
                    None \<Rightarrow> tx_throw (PlainError ''No promotion path exists for this account'' (Some 400))
                  | Some p \<Rightarrow>
                      tx_bind (markPromotionReviewApproved (rev_id r) (given adminId) (given note) (Some (pm_account p))) (\<lambda>rev.
                        tx_return \<lparr>ar_promotion = p, ar_review = rev, ar_source = a\<rparr>))))"

text \<open>
  routes/admin/promotionReviews.js: deciding a review. Each request runs in a transaction; \<open>audit\<close> appends to the
  audit log.
\<close>

definition approve_body ::
  "services \<Rightarrow> model_lookup \<Rightarrow> progression_settings \<Rightarrow> (review \<Rightarrow> string option \<Rightarrow> (db, unit) tx) \<Rightarrow> string \<Rightarrow> int \<Rightarrow>
   string option \<Rightarrow> string \<Rightarrow> (db, approved) tx" where
  "approve_body sv lookup cfg audit newId reviewId adminId note =
     tx_bind (getPromotionReviewForUpdate reviewId) (\<lambda>found.
       case found of
         None \<Rightarrow> tx_throw (PlainError ''Promotion review not found'' (Some 404))
       | Some (r, _) \<Rightarrow>
           tx_bind (approvePromotionReview sv lookup newId (Some r) cfg adminId (given (Some (trim note)))) (\<lambda>res.
           tx_bind (audit r (Some (pm_account (ar_promotion res)))) (\<lambda>_. tx_return res)))"

definition approve_request ::
  "services \<Rightarrow> model_lookup \<Rightarrow> progression_settings \<Rightarrow> (review \<Rightarrow> string option \<Rightarrow> (db, unit) tx) \<Rightarrow> string \<Rightarrow> int \<Rightarrow>
   string option \<Rightarrow> string \<Rightarrow> (db, approved) tx" where
  "approve_request sv lookup cfg audit newId reviewId adminId note =
     withTransaction (approve_body sv lookup cfg audit newId reviewId adminId note)"

definition reject_body ::
  "(review \<Rightarrow> string option \<Rightarrow> (db, unit) tx) \<Rightarrow> int \<Rightarrow> string option \<Rightarrow> string \<Rightarrow> (db, review option) tx" where
  "reject_body audit reviewId adminId note =
     tx_bind (getPromotionReviewForUpdate reviewId) (\<lambda>found.
        case found of
          None \<Rightarrow> tx_throw (PlainError ''Promotion review not found'' (Some 404))
        | Some (r, _) \<Rightarrow>
            if to_lower (rev_status r) \<noteq> ''pending'' then tx_throw (PlainError ''Promotion review is not pending'' (Some 400))
            else tx_bind (markPromotionReviewRejected reviewId adminId (Some note)) (\<lambda>rejected.
                 tx_bind (audit r None) (\<lambda>_. tx_return rejected)))"

definition reject_request ::
  "(review \<Rightarrow> string option \<Rightarrow> (db, unit) tx) \<Rightarrow> int \<Rightarrow> string option \<Rightarrow> string \<Rightarrow> (db, review option) tx" where
  "reject_request audit reviewId adminId note =
     (if length (trim note) < 5 then tx_throw (PlainError ''A clear rejection reason is required'' (Some 400))
      else withTransaction (reject_body audit reviewId adminId (trim note)))"

section \<open>The award neither fails nor reaches beyond the certificates\<close>

lemma award_effect:
  fixes sv acc p newId c
  defines "w \<equiv> awardPromotionCertificate sv acc p newId c"
  shows "cert_only (tabs c) (tabs (snd w))" "\<not> isl (fst w)" "in_tx c \<Longrightarrow> \<not> aborted c \<Longrightarrow> \<not> aborted (snd w)"
proof -
  define work where "work = (\<lambda>x. issueCertificate (sv_crypto sv) (sv_time sv) (sv_blocks sv) (promotion_cert acc p newId x))"
  let ?n = "''certificate_award''" and ?c = "c\<lparr>saves := (''certificate_award'', tabs c) # saves c\<rparr>"
  have conf: "confined cert_only (work x)" for x by (simp add: work_def confined_issueCertificate)
  note defs = w_def awardPromotionCertificate_def tx_bind_def tx_catch_def tx_return_def savepoint_def release_def rollback_to_def
    select_def query_def
  have "cert_only (tabs c) (tabs (snd w)) \<and> \<not> isl (fst w) \<and> (in_tx c \<longrightarrow> \<not> aborted c \<longrightarrow> \<not> aborted (snd w))"
  proof (cases "trader_of acc (tabs c)")
    case None
    then show ?thesis by (auto simp: defs certs.effect_refl split: if_splits)
  next
    case (Some x)
    obtain r c1 where w: "work x c = (r, c1)" by (cases "work x c")
    obtain r2 c2 where w2: "work x ?c = (r2, c2)" by (cases "work x ?c")
    have "cert_only (tabs c) (tabs c1)" "cert_only (tabs c) (tabs c2)" "saves c2 = (?n, tabs c) # saves c"
      using confinedD [OF conf w] confinedD [OF conf w2] by simp_all
    then show ?thesis
      using Some by (cases r; cases r2) (auto simp: defs w [unfolded work_def] w2 [unfolded work_def] certs.effect_refl split: if_splits)
  qed
  then show "cert_only (tabs c) (tabs (snd w))" "\<not> isl (fst w)" "in_tx c \<Longrightarrow> \<not> aborted c \<Longrightarrow> \<not> aborted (snd w)" by blast+
qed

section \<open>What a promotion creates\<close>

lemma plan_target:
  assumes "buildPromotionPlan lookup t acc cfg c = (Inr (Some p), c')"
  obtains target where "resolvePromotionTarget lookup acc = Some target" "pl_type p = pt_type target" "pl_user p = pa_user acc"
    "pl_size p = pa_size acc" "pl_parent p = (case pt_model target of None \<Rightarrow> None | Some m \<Rightarrow> Some (pa_id acc))"
    "pl_step p = (case pt_model target of None \<Rightarrow> Some 1 | Some m \<Rightarrow> pt_next target)"
    "pl_model p = map_option (\<lambda>m. (sm_id m, sm_slug m)) (pt_model target)" "pl_funded p = pt_final target"
proof -
  obtain target where t: "resolvePromotionTarget lookup acc = Some target"
    using assms by (cases "resolvePromotionTarget lookup acc") (auto simp: buildPromotionPlan_def tx_return_def)
  have shape: "pt_model target \<noteq> None \<Longrightarrow> pt_final target \<longleftrightarrow> pt_type target = ''funded''"
    "pt_model target \<noteq> None \<Longrightarrow> \<not> pt_final target \<Longrightarrow> pt_next target = Some (int_or_one (pa_step acc) + 1)"
    "pt_final target \<Longrightarrow> pt_next target = None" "pt_model target = None \<Longrightarrow> pt_final target \<longleftrightarrow> pt_type target = ''funded''"
    using t by (auto simp: resolvePromotionTarget_def legacy_target_def Let_def phase_name_def split: if_splits option.splits)
  show ?thesis
  proof (rule that [OF t])
  qed (use assms t shape in \<open>auto simp: buildPromotionPlan_def buildNextPhaseStepModelPlan_def buildPhase2InsertArgs_def buildFundedInsertArgs_def
      Let_def tx_return_def elim!: tx_bind_Inr_E split: option.splits if_splits\<close>)
qed

lemma plan_row_fields:
  assumes "plan_row i t p = Inr a"
  shows "acc_id a = i" "acc_type a = pl_type p" "acc_user a = pl_user p" "acc_status a = Some ''active''"
    "step_number a = pl_step p" "challenge_model_slug a = map_option snd (pl_model p)" "parent_account a = pl_parent p"
    "current_balance a = acc_size a" "starting_balance a = acc_size a" "peak_balance a = acc_size a"
    "sql_money (pl_size p) = Inr (Some (acc_size a))"
  using assms by (auto simp: plan_row_def not_null_def sum_bind_Inr split: option.splits)

lemma insert_account_Inr:
  assumes "insert_account i p t = Inr (j, t')"
  obtains a where "j = i" "plan_row i (now t) p = Inr a" "get_account i t = None" "t' = t\<lparr>accounts := accounts t @ [a]\<rparr>"
  using assms by (auto simp: insert_account_def sum_bind_Inr split: if_splits)

lemma get_account_append: "get_account i (t\<lparr>accounts := accounts t @ [a]\<rparr>) =
  (case get_account i t of Some x \<Rightarrow> Some x | None \<Rightarrow> if acc_id a = i then Some a else None)"
  by (auto simp: get_account_def find_by_append find_by_Cons find_by_Nil split: option.split)

lemma bump_day_keeps [simp]:
  "accounts (bump_day f t) = accounts t" "reviews (bump_day f t) = reviews t" "users (bump_day f t) = users t" "now (bump_day f t) = now t"
  "trades (bump_day f t) = trades t" "review_seq (bump_day f t) = review_seq t" "ledger (bump_day f t) = ledger t"
  "certificates (bump_day f t) = certificates t"
  by (simp_all add: bump_day_def Let_def)

lemma cert_only_reviews: "cert_only t t' \<Longrightarrow> reviews t' = reviews t"
  by (auto simp: cert_only_def)

lemma kyc_users: "users t = users t' \<Longrightarrow> kyc_missing acc t = kyc_missing acc t'"
  by (simp only: kyc_missing_def trader_of_def)

lemma execute_plan_Inr:
  assumes "execute_plan sv i acc p c = (Inr r, c')"
  obtains a where "pm_account r = i" "plan_row i (now (tabs c)) p = Inr a" "get_account i (tabs c) = None"
    "accounts (tabs c') = accounts (tabs c) @ [a]" "reviews (tabs c') = reviews (tabs c)"
    "pm_kyc r = (pl_type p = ''funded'' \<and> kyc_missing acc (tabs c))"
proof -
  from assms obtain j t1 c3 w k where ins: "insert_account i p (tabs c) = Inr (j, t1)"
    and aw: "awardPromotionCertificate sv acc p j (c\<lparr>tabs := bump_day (count_promotion (pl_funded p)) t1\<rparr>) = (Inr w, c3)"
    and k: "(if pl_type p = ''funded'' then select (kyc_missing acc) else tx_return False) c3 = (Inr k, c')"
    and r: "pm_account r = j" "pm_kyc r = k"
    unfolding execute_plan_def by (auto simp: query_Inr tx_return_app elim!: tx_bind_Inr_E)
  obtain a where a: "j = i" "plan_row i (now (tabs c)) p = Inr a" "get_account i (tabs c) = None" "t1 = (tabs c)\<lparr>accounts := accounts (tabs c) @ [a]\<rparr>"
    using ins by (rule insert_account_Inr)
  have only: "cert_only (bump_day (count_promotion (pl_funded p)) t1) (tabs c3)"
    using award_effect(1) [of "c\<lparr>tabs := bump_day (count_promotion (pl_funded p)) t1\<rparr>" sv acc p j] aw by simp
  have k: "tabs c' = tabs c3" "k = (pl_type p = ''funded'' \<and> kyc_missing acc (tabs c3))"
    using k by (auto simp: tx_return_def select_Inr split: if_splits)
  have kyc: "kyc_missing acc (tabs c3) = kyc_missing acc (tabs c)"
    by (rule kyc_users) (use cert_only_keeps(5) [OF only] a(4) in simp)
  show ?thesis
    by (rule that [OF _ a(2,3)]) (use r k kyc a(1,4) cert_only_keeps [OF only] cert_only_reviews [OF only] in auto)
qed

lemma promote_Inr:
  assumes "promotePassedAccount sv lookup i False acc cfg c = (Inr (Some r), c')"
  obtains p c1 a where "buildPromotionPlan lookup (sv_time sv) acc cfg c = (Inr (Some p), c1)" "pm_account r = i"
    "plan_row i (now (tabs c1)) p = Inr a" "get_account i (tabs c1) = None"
    "accounts (tabs c') = accounts (tabs c1) @ [a]" "reviews (tabs c') = reviews (tabs c1)"
    "pm_kyc r = (pl_type p = ''funded'' \<and> kyc_missing acc (tabs c1))"
proof -
  from assms obtain p c1 where p: "buildPromotionPlan lookup (sv_time sv) acc cfg c = (Inr (Some p), c1)"
    "execute_plan sv i acc p c1 = (Inr r, c')"
    unfolding promotePassedAccount_def by (auto simp: tx_return_app elim!: tx_bind_Inr_E split: option.splits)
  from p(2) show ?thesis by (rule execute_plan_Inr) (rule that [OF p(1)])
qed

definition seqs_only :: "db \<Rightarrow> db \<Rightarrow> bool" where
  "seqs_only t t' \<longleftrightarrow> (\<exists>s. t' = t\<lparr>uid_seqs := s\<rparr>)"

lemma seqs_refl: "seqs_only t t"
  unfolding seqs_only_def by (rule exI [of _ "uid_seqs t"]) simp

interpretation seqs: effect seqs_only
proof
  show "seqs_only t v" if tu: "seqs_only t u" and uv: "seqs_only u v" for t u v
    using tu uv unfolding seqs_only_def by clarsimp (rule exI, rule refl)
qed (rule seqs_refl)

lemma seq_stmt_only: "seq_stmt k t = Inr (a, t') \<Longrightarrow> seqs_only t t'"
  by (auto simp: seq_stmt_def Let_def seqs_only_def)

lemma confined_uid: "confined seqs_only (generateAccountUid a b)"
  unfolding generateAccountUid_def nextAccountIdSequence_def Let_def
  by (intro seqs.confined_rules seqs.confined_query) (rule seq_stmt_only)

lemma confined_plan: "confined seqs_only (buildPromotionPlan lookup t acc cfg)"
  unfolding buildPromotionPlan_def buildNextPhaseStepModelPlan_def buildPhase2InsertArgs_def buildFundedInsertArgs_def Let_def
  by (auto intro!: seqs.confined_rules confined_uid split: option.split)

lemma seqs_only_keeps:
  assumes "seqs_only t t'"
  shows "accounts t' = accounts t" "reviews t' = reviews t" "users t' = users t" "now t' = now t" "get_account i t' = get_account i t"
    "trades t' = trades t" "ledger t' = ledger t" "certificates t' = certificates t"
  using assms by (auto simp: seqs_only_def get_account_def)

lemma put_review_keeps [simp]: "accounts (put_review i f t) = accounts t" "get_account j (put_review i f t) = get_account j t"
  by (simp_all add: put_review_def get_account_def)

lemma find_review: "(\<And>r. rev_id (f r) = rev_id r) \<Longrightarrow>
  find_by rev_id j (reviews (put_review i f t)) = (if j = i then map_option f (find_by rev_id i (reviews t)) else find_by rev_id j (reviews t))"
  by (simp add: put_review_def find_update_same find_update_other)

lemma approve_Inr:
  assumes "approvePromotionReview sv lookup i (Some r) cfg adm note c = (Inr x, c')"
  obtains src target a where "to_lower (rev_status r) = ''pending''" "get_account (rev_source r) (tabs c) = Some src"
    "to_lower (text_or_empty (acc_status src)) = ''passed''"
    "resolvePromotionTarget lookup (passed_row src) = Some target"
    "get_account i (tabs c) = None" "accounts (tabs c') = accounts (tabs c) @ [a]"
    "acc_id a = i" "acc_type a = pt_type target" "acc_user a = acc_user src" "acc_status a = Some ''active''"
    "sql_money (numeric_val (acc_size src)) = Inr (Some (acc_size a))" "current_balance a = acc_size a" "starting_balance a = acc_size a"
    "peak_balance a = acc_size a" "pm_account (ar_promotion x) = i"
    "step_number a = (case pt_model target of None \<Rightarrow> Some 1 | Some m \<Rightarrow> pt_next target)"
    "challenge_model_slug a = map_option sm_slug (pt_model target)"
    "\<not> aborted c'" "reviews (tabs c') = update_by rev_id (rev_id r) (\<lambda>q. q\<lparr>rev_status := ''approved'', rev_decided_by := given (given adm), rev_note := given note,
       rev_decided_at := Some (now (tabs c')), rev_created_account := given (Some i)\<rparr>) (reviews (tabs c))"
proof -
  from assms obtain src pm c1 where g: "to_lower (rev_status r) = ''pending''" "get_account (rev_source r) (tabs c) = Some src"
    "to_lower (text_or_empty (acc_status src)) = ''passed''"
    and pm: "promotePassedAccount sv lookup i False (passed_row src) cfg c = (Inr (Some pm), c1)"
    and mk: "tabs c' = put_review (rev_id r) (\<lambda>q. q\<lparr>rev_status := ''approved'', rev_decided_by := given (given adm), rev_note := given note,
       rev_decided_at := Some (now (tabs c1)), rev_created_account := given (Some (pm_account pm))\<rparr>) (tabs c1)"
      "ar_promotion x = pm" "\<not> aborted c'"
    unfolding approvePromotionReview_def
    by (auto simp: tx_return_app tx_throw_app select_Inr query_Inr markPromotionReviewApproved_def decide_stmt_def Let_def
        elim!: tx_bind_Inr_E split: option.splits if_splits)
  from pm obtain p c0 a where p: "buildPromotionPlan lookup (sv_time sv) (passed_row src) cfg c = (Inr (Some p), c0)" "pm_account pm = i"
    "plan_row i (now (tabs c0)) p = Inr a" "get_account i (tabs c0) = None"
    "accounts (tabs c1) = accounts (tabs c0) @ [a]" "reviews (tabs c1) = reviews (tabs c0)"
    by (rule promote_Inr)
  from p(1) obtain target where t: "resolvePromotionTarget lookup (passed_row src) = Some target" "pl_type p = pt_type target"
    "pl_user p = pa_user (passed_row src)" "pl_size p = pa_size (passed_row src)"
    "pl_step p = (case pt_model target of None \<Rightarrow> Some 1 | Some m \<Rightarrow> pt_next target)"
    "pl_model p = map_option (\<lambda>m. (sm_id m, sm_slug m)) (pt_model target)"
    by (rule plan_target)
  have k: "seqs_only (tabs c) (tabs c0)" using confinedD [OF confined_plan p(1)] by simp
  show ?thesis
    by (rule that [OF g t(1)])
      (use p t mk plan_row_fields [OF p(3)] seqs_only_keeps [OF k] in
        \<open>auto simp: passed_row_def put_review_def option.map_comp o_def\<close>)
qed

end
