(* ===== verification/ProgressionProps.thy ===== *)
theory ProgressionProps
  imports Progression
begin

text \<open>
  What holds of promotions: the ladder of a step model ends at the funded account after as many
  promotions as it has steps, the account an approval creates is the one the review showed,
  a review is approved at most once, and the settings of the legacy ladder stay within their bounds.
\<close>

section \<open>The ladder\<close>

text \<open>The account a promotion creates, as far as the next promotion looks at it.\<close>

definition promoted_to :: "model_lookup \<Rightarrow> passed_account \<Rightarrow> passed_account" where
  "promoted_to lookup acc =
     (case resolvePromotionTarget lookup acc of
        None \<Rightarrow> acc
      | Some target \<Rightarrow> acc\<lparr>pa_type := pt_type target, pa_step := pt_next target\<rparr>)"

lemma phase_name_plain [simp]: "to_lower (phase_name n) \<noteq> []" "to_lower (phase_name n) \<noteq> ''funded''"
  by (simp_all add: phase_name_def to_lower_def lower_char_def)

lemma resolve_model:
  assumes "given (pa_slug acc) = Some slug" "lookup slug = Some m" "pa_type acc \<noteq> []" "to_lower (pa_type acc) \<noteq> ''funded''"
  shows "resolvePromotionTarget lookup acc =
    (let k = int_or_one (pa_step acc) + 1 in
     if k \<le> int_or_one (Some (sm_steps m)) then Some \<lparr>pt_type = phase_name k, pt_next = Some k, pt_model = Some m, pt_final = False\<rparr>
     else Some \<lparr>pt_type = ''funded'', pt_next = None, pt_model = Some m, pt_final = True\<rparr>)"
  using assms by (simp add: resolvePromotionTarget_def Let_def to_lower_def)

lemma climb:
  assumes "given (pa_slug acc) = Some slug" "lookup slug = Some m" "pa_type acc \<noteq> []" "to_lower (pa_type acc) \<noteq> ''funded''"
    and "1 \<le> int_or_one (pa_step acc)" "int_or_one (pa_step acc) + int j \<le> int_or_one (Some (sm_steps m))"
  shows "0 < j \<Longrightarrow> (promoted_to lookup ^^ j) acc = acc\<lparr>pa_type := phase_name (int_or_one (pa_step acc) + int j), pa_step := Some (int_or_one (pa_step acc) + int j)\<rparr>"
  using assms(6)
proof (induction j)
  case (Suc j)
  show ?case
  proof (cases j)
    case 0
    then show ?thesis using Suc.prems assms(1-5) by (simp add: promoted_to_def resolve_model [of acc slug lookup m, OF assms(1-4)] Let_def)
  next
    case (Suc i)
    define b where "b = acc\<lparr>pa_type := phase_name (int_or_one (pa_step acc) + int j), pa_step := Some (int_or_one (pa_step acc) + int j)\<rparr>"
    have b: "(promoted_to lookup ^^ j) acc = b" unfolding b_def using Suc.IH Suc.prems Suc by simp
    have "given (pa_slug b) = Some slug" "pa_type b \<noteq> []" "to_lower (pa_type b) \<noteq> ''funded''"
      using assms(1) by (simp_all add: b_def) (metis phase_name_plain(1) to_lower_Nil)
    note r = resolve_model [of b slug lookup m, OF this(1) assms(2) this(2,3)]
    have "int_or_one (pa_step b) = int_or_one (pa_step acc) + int j" using assms(5) by (simp add: b_def int_or_one_def)
    then have "promoted_to lookup b = acc\<lparr>pa_type := phase_name (int_or_one (pa_step acc) + int (Suc j)), pa_step := Some (int_or_one (pa_step acc) + int (Suc j))\<rparr>"
      using r Suc.prems by (simp add: promoted_to_def Let_def b_def algebra_simps)
    then show ?thesis using b by simp
  qed
qed simp

text \<open>C26. The ladder of a step model is climbed one phase at a time and ends: from a phase account at step s
  of a model with n steps, the first n - s promotions lead through the phases s+1 to n in order, the next one leads to
  the funded account, and from there nothing promotes any further.\<close>

theorem ladder_ends_funded:
  assumes "given (pa_slug acc) = Some slug" "lookup slug = Some m" "pa_type acc \<noteq> []" "to_lower (pa_type acc) \<noteq> ''funded''"
    and "1 \<le> int_or_one (pa_step acc)" "n = nat (int_or_one (Some (sm_steps m)) - int_or_one (pa_step acc))"
  shows "(\<forall>j. 0 < j \<longrightarrow> j \<le> n \<longrightarrow> pa_type ((promoted_to lookup ^^ j) acc) = phase_name (int_or_one (pa_step acc) + int j)) \<and>
    pa_type ((promoted_to lookup ^^ Suc n) acc) = ''funded'' \<and>
    \<not> hasPromotionPath lookup ((promoted_to lookup ^^ Suc n) acc)"
proof -
  define b where "b = (promoted_to lookup ^^ n) acc"
  have le: "int_or_one (pa_step acc) + int j \<le> int_or_one (Some (sm_steps m))" if "0 < j" "j \<le> n" for j
    using that assms(6) by linarith
  have b: "given (pa_slug b) = Some slug" "pa_type b \<noteq> []" "to_lower (pa_type b) \<noteq> ''funded''"
    "int_or_one (Some (sm_steps m)) < int_or_one (pa_step b) + 1"
  proof -
    have "given (pa_slug b) = Some slug \<and> pa_type b \<noteq> [] \<and> to_lower (pa_type b) \<noteq> ''funded'' \<and>
      int_or_one (Some (sm_steps m)) < int_or_one (pa_step b) + 1"
    proof (cases "n = 0")
      case True
      then show ?thesis using assms by (simp add: b_def)
    next
      case False
      then have "b = acc\<lparr>pa_type := phase_name (int_or_one (pa_step acc) + int n), pa_step := Some (int_or_one (pa_step acc) + int n)\<rparr>"
        unfolding b_def using climb [of acc slug lookup m n, OF assms(1-5) le [of n]] by simp
      then show ?thesis using assms(1,5,6) False
        by (simp add: int_or_one_def) (metis phase_name_plain(1) to_lower_Nil)
    qed
    then show "given (pa_slug b) = Some slug" "pa_type b \<noteq> []" "to_lower (pa_type b) \<noteq> ''funded''"
      "int_or_one (Some (sm_steps m)) < int_or_one (pa_step b) + 1" by blast+
  qed
  have f: "promoted_to lookup b = b\<lparr>pa_type := ''funded'', pa_step := None\<rparr>"
    using b by (simp add: promoted_to_def resolve_model [of b slug lookup m, OF b(1) assms(2) b(2,3)] Let_def)
  have "\<not> hasPromotionPath lookup (b\<lparr>pa_type := ''funded'', pa_step := None\<rparr>)"
    using b(1) assms(2) by (simp add: hasPromotionPath_def resolvePromotionTarget_def Let_def to_lower_def lower_char_def)
  then show ?thesis
    using f climb [of acc slug lookup m, OF assms(1-5)] le unfolding b_def by simp
qed

definition demo_model :: "string \<Rightarrow> int \<Rightarrow> step_model" where
  "demo_model slug n =
     \<lparr>sm_id = 1, sm_slug = slug, sm_name = ''Demo'', sm_steps = n, sm_profit_targets = replicate (nat n) (JNum (Fin 8)),
      sm_time_limits = replicate (nat n) (JNum (Fin 45)), sm_consistency_by_phase = None, sm_consistency = 15, sm_max_dd = 4,
      sm_daily_dd = 2, sm_dd_type = ''trailing'', sm_min_days = 5, sm_min_daily_profit = 3/4, sm_funded_max_dd = 4,
      sm_funded_daily_dd = 2, sm_funded_locks_at = Some 2, sm_funded_min_days = Some 10, sm_funded_consistency = Some 15,
      sm_scaling_enabled = True, sm_scaling_target = 6, sm_scaling_multiplier = 2, sm_scaling_max_size = 30000000,
      sm_scaling_increase = Some 25\<rparr>"

lemma demo_steps [simp]: "sm_steps (demo_model s n) = n"
  by (simp add: demo_model_def)

definition demo_models :: model_lookup where
  "demo_models slug = map_of [(''1-step'', demo_model slug 1), (''2-step'', demo_model slug 2), (''3-step'', demo_model slug 3)] slug"

definition demo_passed :: passed_account where
  "demo_passed = \<lparr>pa_id = ''a1'', pa_user = Some ''u1'', pa_type = ''phase1'', pa_size = numeric_val 10000000,
     pa_slug = Some ''3-step'', pa_step = Some 1\<rparr>"

theorem ladder_ends_funded_witness:
  "pa_type ((promoted_to demo_models ^^ 1) demo_passed) = ''phase2'' \<and> pa_type ((promoted_to demo_models ^^ 3) demo_passed) = ''funded'' \<and>
   \<not> hasPromotionPath demo_models ((promoted_to demo_models ^^ 3) demo_passed)"
proof -
  have p: "phase_name 2 = ''phase2''" by code_simp
  have "demo_models ''3-step'' = Some (demo_model ''3-step'' 3)" by (simp add: demo_models_def)
  then have "(\<forall>j. 0 < j \<longrightarrow> j \<le> 2 \<longrightarrow> pa_type ((promoted_to demo_models ^^ j) demo_passed) = phase_name (int_or_one (pa_step demo_passed) + int j)) \<and>
    pa_type ((promoted_to demo_models ^^ Suc 2) demo_passed) = ''funded'' \<and> \<not> hasPromotionPath demo_models ((promoted_to demo_models ^^ Suc 2) demo_passed)"
    by (intro ladder_ends_funded [where slug = "''3-step''" and m = "demo_model ''3-step'' 3"]) (simp_all add: demo_passed_def given_def to_lower_def lower_char_def int_or_one_def)
  then show ?thesis using p by (auto simp: demo_passed_def int_or_one_def numeral_3_eq_3 dest: spec [of _ 1])
qed

section \<open>Reviews\<close>

lemma withTransaction_Inr:
  assumes "withTransaction f c = (Inr x, c')"
  obtains c1 where "f (begin_tx c) = (Inr x, c1)" "tabs c' = (if aborted c1 then base c1 else tabs c1)"
  using assms by (auto simp: withTransaction_def commit_tx_def rollback_tx_def split: prod.splits sum.splits)

text \<open>What the audit log is relied on for: it leaves accounts and reviews alone and does not abort the transaction.\<close>

definition audit_ok :: "(review \<Rightarrow> string option \<Rightarrow> (db, unit) tx) \<Rightarrow> bool" where
  "audit_ok audit \<longleftrightarrow> (\<forall>r k c c'. audit r k c = (Inr (), c') \<longrightarrow>
     accounts (tabs c') = accounts (tabs c) \<and> reviews (tabs c') = reviews (tabs c) \<and> (aborted c' \<longrightarrow> aborted c))"

text \<open>The audit log neither opens nor closes a transaction.\<close>

definition audit_framed :: "(review \<Rightarrow> string option \<Rightarrow> (db, unit) tx) \<Rightarrow> bool" where
  "audit_framed audit \<longleftrightarrow> (\<forall>r k. framed (audit r k))"

lemma fresh_review:
  assumes "createPromotionReview lookup (passed_row a) trig reason req payload c = (Inr (Some rv), c')" "pending_review (acc_id a) (tabs c) = None"
  obtains target where "resolvePromotionTarget lookup (passed_row a) = Some target" "rev_target rv = pt_type target"
    "rev_source rv = acc_id a" "rev_status rv = ''pending''"
  using assms
  by (auto simp: createPromotionReview_def tx_return_app query_Inr review_stmt_def Let_def passed_row_def
      elim!: tx_bind_Inr_E split: option.splits sum.splits)

lemma approve_request_Inr:
  assumes "approve_request sv lookup cfg audit i rid adm note c = (Inr x, c')" "audit_ok audit"
  obtains r src target a where "find_by rev_id rid (reviews (tabs c)) = Some r" "to_lower (rev_status r) = ''pending''"
    "get_account (rev_source r) (tabs c) = Some src"
    "to_lower (text_or_empty (acc_status src)) = ''passed''" "resolvePromotionTarget lookup (passed_row src) = Some target"
    "get_account i (tabs c) = None" "accounts (tabs c') = accounts (tabs c) @ [a]"
    "acc_id a = i" "acc_type a = pt_type target" "acc_user a = acc_user src" "acc_status a = Some ''active''"
    "acc_size a = acc_size src" "current_balance a = acc_size a" "starting_balance a = acc_size a" "peak_balance a = acc_size a"
    "\<exists>q. find_by rev_id rid (reviews (tabs c')) = Some q \<and> rev_status q = ''approved'' \<and> rev_created_account q = given (Some i)"
    "\<And>j. j \<noteq> rid \<Longrightarrow> find_by rev_id j (reviews (tabs c')) = find_by rev_id j (reviews (tabs c))"
proof -
  obtain c1 where c1: "approve_body sv lookup cfg audit i rid adm note (begin_tx c) = (Inr x, c1)"
    and commit: "tabs c' = (if aborted c1 then base c1 else tabs c1)"
    using assms(1) unfolding approve_request_def by (rule withTransaction_Inr)
  from c1 obtain r c2 where r: "find_by rev_id rid (reviews (tabs c)) = Some r"
    and ap: "approvePromotionReview sv lookup i (Some r) cfg adm (given (Some (trim note))) (begin_tx c) = (Inr x, c2)"
    and au: "audit r (Some (pm_account (ar_promotion x))) c2 = (Inr (), c1)"
    by (auto simp: approve_body_def getPromotionReviewForUpdate_def select_Inr tx_return_app tx_throw_app begin_tx_def
        elim!: tx_bind_Inr_E split: option.splits)
  have b: "tabs (begin_tx c) = tabs c" by (simp add: begin_tx_def)
  have id: "rev_id r = rid" using find_by_key [OF r] by simp
  have sz: "sql_money (numeric_val s) = Inr (Some q) \<Longrightarrow> q = s" for s q
    by (auto simp: numeric_val_def numeric15_2_def Let_def split: sum.splits if_splits)
  show ?thesis
  proof (rule approve_Inr [OF ap], goal_cases)
    case (1 src target a)
    have t: "accounts (tabs c') = accounts (tabs c2)" "reviews (tabs c') = reviews (tabs c2)"
    proof -
      have "accounts (tabs c1) = accounts (tabs c2) \<and> reviews (tabs c1) = reviews (tabs c2) \<and> (aborted c1 \<longrightarrow> aborted c2)"
        using assms(2) au unfolding audit_ok_def by blast
      then show "accounts (tabs c') = accounts (tabs c2)" "reviews (tabs c') = reviews (tabs c2)" using commit 1(18) by auto
    qed
    have rr: "\<And>q. rev_id (q\<lparr>rev_status := ''approved'', rev_decided_by := given (given adm), rev_note := given (given (Some (trim note))),
       rev_decided_at := Some (now (tabs c2)), rev_created_account := given (Some i)\<rparr>) = rev_id q" by simp
    show ?thesis
      by (rule that [OF r 1(1-2) [unfolded b] 1(3-4) 1(5) [unfolded b], of a])
        (use t 1(6-15) sz [OF 1(11)] in \<open>simp_all add: b 1(6) [unfolded b] 1(19) find_update_same [where key = rev_id, OF rr] find_update_other [where key = rev_id, OF rr] id r\<close>)
  qed
qed

lemma resolve_cong:
  assumes "pa_type a = pa_type b" "pa_slug a = pa_slug b" "pa_step a = pa_step b"
  shows "resolvePromotionTarget lookup a = resolvePromotionTarget lookup b"
  by (simp only: resolvePromotionTarget_def assms)

text \<open>C25. What the admin approves is what is created: when an account that has passed raises a review and
  later, its type, model and step unchanged, that review is approved, the new account is of the type the review
  announced, active, owned by the same user, of the same size, and starts with that size as its balance.\<close>

theorem approved_is_what_was_shown:
  assumes "createPromotionReview lookup (passed_row a) trig reason req payload c0 = (Inr (Some rv), c1)"
    and "pending_review (acc_id a) (tabs c0) = None"
    and "approve_request sv lookup cfg audit i (rev_id rv) adm note c2 = (Inr x, c3)" "audit_ok audit"
    and "find_by rev_id (rev_id rv) (reviews (tabs c2)) = Some r" "rev_source r = rev_source rv"
    and "get_account (acc_id a) (tabs c2) = Some b" "acc_type b = acc_type a" "step_number b = step_number a"
      "challenge_model_slug b = challenge_model_slug a"
  shows "\<exists>n. get_account i (tabs c3) = Some n \<and> acc_type n = rev_target rv \<and> acc_status n = Some ''active'' \<and>
    acc_user n = acc_user b \<and> acc_size n = acc_size b \<and> current_balance n = acc_size b \<and> starting_balance n = acc_size b"
proof -
  obtain target where t: "resolvePromotionTarget lookup (passed_row a) = Some target" "rev_target rv = pt_type target" "rev_source rv = acc_id a"
    using assms(1,2) by (rule fresh_review)
  have same: "resolvePromotionTarget lookup (passed_row b) = resolvePromotionTarget lookup (passed_row a)"
    using assms(8-10) by (intro resolve_cong) (simp_all add: passed_row_def)
  show ?thesis
  proof (rule approve_request_Inr [OF assms(3,4)], goal_cases)
    case (1 r' src target' n)
    have "src = b" using 1(1,3) assms(5-7) t(3) by simp
    moreover have "get_account i (tabs c3) = Some n"
      using 1(6-8) by (simp add: get_account_def find_by_append find_by_Cons find_by_Nil)
    ultimately show ?thesis using 1 same t by (intro exI [of _ n]) simp
  qed
qed

definition passed_db :: db where
  "passed_db = put_account ''a1'' (\<lambda>a. a\<lparr>acc_type := ''phase1'', acc_status := Some ''passed'', challenge_model_slug := Some ''3-step'',
     step_number := Some 1\<rparr>) demo_db"

definition passed_demo :: account where
  "passed_demo = the (get_account ''a1'' passed_db)"

definition review_made :: "(js_error + review option) \<times> db conn" where
  "review_made = createPromotionReview demo_models (passed_row passed_demo) ''engine'' None None [] (conn_of passed_db)"

definition quiet :: "review \<Rightarrow> string option \<Rightarrow> (db, unit) tx" where
  "quiet r k = tx_return ()"

lemma quiet_ok: "audit_ok quiet" "audit_framed quiet"
  by (auto simp: audit_ok_def audit_framed_def quiet_def tx_return_app intro!: tx_frames)

definition demo_approval :: "(js_error + approved) \<times> db conn" where
  "demo_approval = approve_request demo_services demo_models (normalizeProgressionSettings (\<lambda>_. None)) quiet ''a2'' 1 (Some ''anna'') []
     (conn_of (tabs (snd review_made)))"

theorem approved_is_what_was_shown_witness:
  "\<exists>n. get_account ''a2'' (tabs (snd demo_approval)) = Some n \<and> acc_type n = ''phase2'' \<and> acc_status n = Some ''active'' \<and>
     acc_user n = Some ''u1'' \<and> acc_size n = 10000000 \<and> current_balance n = 10000000 \<and> starting_balance n = 10000000"
proof -
  define rv where "rv = the (projr (fst review_made))"
  have ok: "\<not> isl (fst review_made) \<and> projr (fst review_made) \<noteq> None \<and> rev_id (the (projr (fst review_made))) = 1 \<and>
    rev_source (the (projr (fst review_made))) = ''a1'' \<and> rev_target (the (projr (fst review_made))) = ''phase2''" by code_simp
  then have made: "createPromotionReview demo_models (passed_row passed_demo) ''engine'' None None [] (conn_of passed_db) =
      (Inr (Some rv), snd review_made)"
    unfolding rv_def review_made_def [symmetric] by (cases review_made; cases "fst review_made") (auto simp: prod_eq_iff)
  have ap: "approve_request demo_services demo_models (normalizeProgressionSettings (\<lambda>_. None)) quiet ''a2'' (rev_id rv) (Some ''anna'') []
      (conn_of (tabs (snd review_made))) = (Inr (projr (fst demo_approval)), snd demo_approval)"
  proof -
    have "\<not> isl (fst demo_approval)" by code_simp
    then have "demo_approval = (Inr (projr (fst demo_approval)), snd demo_approval)"
      by (cases demo_approval; cases "fst demo_approval") (auto simp: prod_eq_iff)
    then show ?thesis using ok unfolding rv_def demo_approval_def by metis
  qed
  have st: "find_by rev_id 1 (reviews (tabs (snd review_made))) = Some rv \<and> get_account ''a1'' (tabs (snd review_made)) = Some passed_demo \<and>
    pending_review ''a1'' passed_db = None \<and> acc_id passed_demo = ''a1'' \<and> acc_user passed_demo = Some ''u1'' \<and> acc_size passed_demo = 10000000"
    unfolding rv_def by code_simp
  show ?thesis
    using approved_is_what_was_shown [OF made _ ap quiet_ok(1), of rv passed_demo] ok st by (simp add: rv_def)
qed

section \<open>At most one approval\<close>

datatype review_op =
    Approve string int "string option" string
  | Reject int "string option" string

text \<open>The reviews whose approval succeeded, in the order of the requests.\<close>

fun approvals ::
  "services \<Rightarrow> model_lookup \<Rightarrow> progression_settings \<Rightarrow> (review \<Rightarrow> string option \<Rightarrow> (db, unit) tx) \<Rightarrow> review_op list \<Rightarrow> db conn \<Rightarrow> int list" where
  "approvals sv lookup cfg audit [] c = []"
| "approvals sv lookup cfg audit (Approve i rid adm note # ops) c =
     (case approve_request sv lookup cfg audit i rid adm note c of
        (Inr _, c') \<Rightarrow> rid # approvals sv lookup cfg audit ops c'
      | (Inl _, c') \<Rightarrow> approvals sv lookup cfg audit ops c')"
| "approvals sv lookup cfg audit (Reject rid adm note # ops) c =
     approvals sv lookup cfg audit ops (snd (reject_request audit rid adm note c))"

definition decided :: "int \<Rightarrow> db \<Rightarrow> bool" where
  "decided rid t \<longleftrightarrow> (\<forall>r. find_by rev_id rid (reviews t) = Some r \<longrightarrow> to_lower (rev_status r) \<noteq> ''pending'')"

lemma framed_execute_plan [tx_frames]: "framed (execute_plan sv i acc p)"
  by (auto simp: execute_plan_def awardPromotionCertificate_def intro!: tx_frames split: option.splits)

lemma framed_uid [tx_frames]: "framed (generateAccountUid a b)"
  by (auto simp: generateAccountUid_def nextAccountIdSequence_def Let_def intro!: tx_frames)

lemma framed_plan [tx_frames]: "framed (buildPromotionPlan lookup t acc cfg)"
  unfolding buildPromotionPlan_def buildNextPhaseStepModelPlan_def buildPhase2InsertArgs_def buildFundedInsertArgs_def Let_def
  by (auto intro!: tx_frames split: option.splits)

lemma framed_approve: "audit_framed audit \<Longrightarrow> framed (approve_body sv lookup cfg audit i rid adm note)"
  unfolding approve_body_def getPromotionReviewForUpdate_def approvePromotionReview_def promotePassedAccount_def
    markPromotionReviewApproved_def audit_framed_def
  by (auto intro!: tx_frames split: option.splits)

lemma framed_reject: "audit_framed audit \<Longrightarrow> framed (reject_body audit rid adm note)"
  unfolding reject_body_def getPromotionReviewForUpdate_def markPromotionReviewRejected_def audit_framed_def
  by (auto intro!: tx_frames split: option.splits)

definition rejection :: "string option \<Rightarrow> string \<Rightarrow> int \<Rightarrow> review \<Rightarrow> review" where
  "rejection adm note t r = r\<lparr>rev_status := ''rejected'', rev_decided_by := given adm, rev_note := Some note, rev_decided_at := Some t\<rparr>"

lemma rejection_keeps: "rev_id (rejection adm note t r) = rev_id r" "to_lower (rev_status (rejection adm note t r)) \<noteq> ''pending''"
  by (simp_all add: rejection_def to_lower_def lower_char_def)

lemma reject_body_Inr:
  assumes "reject_body audit rid adm note c = (Inr x, c1)"
  obtains r0 c2 where "tabs c2 = put_review rid (rejection adm note (now (tabs c))) (tabs c)" "audit r0 None c2 = (Inr (), c1)"
proof -
  from assms obtain r0 v c2 where q: "query (decide_stmt ''rejected'' rid adm (Some note) (\<lambda>r. r)) c = (Inr v, c2)"
    and au: "audit r0 None c2 = (Inr (), c1)"
    by (auto simp: reject_body_def getPromotionReviewForUpdate_def markPromotionReviewRejected_def select_Inr tx_return_app tx_throw_app
        elim!: tx_bind_Inr_E split: option.splits if_splits)
  from q have "tabs c2 = put_review rid (rejection adm note (now (tabs c))) (tabs c)"
    by (auto simp: query_Inr decide_stmt_def Let_def rejection_def [abs_def])
  then show ?thesis using au by (rule that)
qed

lemma reject_request_reviews:
  assumes "reject_request audit rid adm note c = (r, c')" "audit_ok audit" "audit_framed audit" "decided j (tabs c)"
  shows "decided j (tabs c')"
proof (cases r)
  case (Inl e)
  have "tabs c' = tabs c"
  proof (cases "length (trim note) < 5")
    case True
    then show ?thesis using assms(1) by (simp add: reject_request_def tx_throw_app)
  next
    case False
    then have "withTransaction (reject_body audit rid adm (trim note)) c = (Inl e, c')" using assms(1) Inl by (simp add: reject_request_def)
    then show ?thesis by (rule withTransaction_undoes [OF framed_reject [OF assms(3)]])
  qed
  then show ?thesis using assms(4) by simp
next
  case (Inr x)
  then have w: "withTransaction (reject_body audit rid adm (trim note)) c = (Inr x, c')"
    using assms(1) by (simp add: reject_request_def tx_throw_app split: if_splits)
  obtain c1 where c1: "reject_body audit rid adm (trim note) (begin_tx c) = (Inr x, c1)" "tabs c' = (if aborted c1 then base c1 else tabs c1)"
    using w by (rule withTransaction_Inr)
  have base: "base c1 = tabs c" using framedD [OF framed_reject [OF assms(3)] c1(1)] by (simp add: begin_tx_def)
  obtain r0 c2 where f: "tabs c2 = put_review rid (rejection adm (trim note) (now (tabs c))) (tabs c)"
    and au: "audit r0 None c2 = (Inr (), c1)"
    using c1(1) by (rule reject_body_Inr) (simp add: begin_tx_def)
  have "reviews (tabs c1) = reviews (tabs c2)" using assms(2) au unfolding audit_ok_def by blast
  then have "decided j (tabs c1)"
    using assms(4) by (auto simp: decided_def f find_review rejection_keeps split: if_splits)
  then show ?thesis using c1(2) base assms(4) by simp
qed

lemma approve_request_decided:
  assumes "approve_request sv lookup cfg audit i rid adm note c = (r, c')" "audit_ok audit" "audit_framed audit"
  shows "decided j (tabs c) \<Longrightarrow> decided j (tabs c')" "\<not> isl r \<Longrightarrow> decided rid (tabs c') \<and> \<not> decided rid (tabs c)"
proof -
  have "(decided j (tabs c) \<longrightarrow> decided j (tabs c')) \<and> (\<not> isl r \<longrightarrow> decided rid (tabs c') \<and> \<not> decided rid (tabs c))"
  proof (cases r)
    case (Inl e)
    have "tabs c' = tabs c"
      using assms(1) Inl withTransaction_undoes [OF framed_approve [OF assms(3)]] unfolding approve_request_def by blast
    then show ?thesis using Inl by simp
  next
    case (Inr x)
    show ?thesis
    proof (rule approve_request_Inr [OF assms(1) [unfolded Inr] assms(2)], goal_cases)
      case (1 q src target a)
      from 1(16) obtain q' where q': "find_by rev_id rid (reviews (tabs c')) = Some q'" "rev_status q' = ''approved''" by blast
      have "to_lower ''approved'' \<noteq> ''pending''" by code_simp
      then show ?thesis using 1(1,2) 1(17) [of j] q' by (cases "j = rid") (auto simp: decided_def)
    qed
  qed
  then show "decided j (tabs c) \<Longrightarrow> decided j (tabs c')" "\<not> isl r \<Longrightarrow> decided rid (tabs c') \<and> \<not> decided rid (tabs c)" by blast+
qed

lemma decided_never_approved:
  assumes "audit_ok audit" "audit_framed audit"
  shows "decided rid (tabs c) \<Longrightarrow> rid \<notin> set (approvals sv lookup cfg audit ops c)"
proof (induction ops arbitrary: c)
  case (Cons p ops)
  show ?case
  proof (cases p)
    case (Approve i k adm msg)
    obtain r c' where r: "approve_request sv lookup cfg audit i k adm msg c = (r, c')" by fastforce
    note d = approve_request_decided [OF r assms]
    show ?thesis using Cons d(1) [of rid] d(2) Approve r by (cases r) auto
  next
    case (Reject k adm msg)
    obtain r c' where r: "reject_request audit k adm msg c = (r, c')" by fastforce
    show ?thesis using Cons reject_request_reviews [OF r assms] Reject r by simp
  qed
qed simp

text \<open>C24. A review creates at most one account: over any sequence of approvals and rejections, whatever their order,
  no review is approved twice.\<close>

theorem review_approved_at_most_once:
  assumes "audit_ok audit" "audit_framed audit"
  shows "distinct (approvals sv lookup cfg audit ops c)"
proof (induction ops arbitrary: c)
  case (Cons p ops)
  show ?case
  proof (cases p)
    case (Approve i k adm msg)
    obtain r c' where r: "approve_request sv lookup cfg audit i k adm msg c = (r, c')" by fastforce
    have "\<not> isl r \<Longrightarrow> k \<notin> set (approvals sv lookup cfg audit ops c')"
      using approve_request_decided(2) [OF r assms] decided_never_approved [OF assms] by blast
    then show ?thesis using Cons Approve r by (cases r) simp_all
  qed (use Cons in \<open>simp\<close>)
qed simp

definition twice_approved :: "review_op list" where
  "twice_approved = [Approve ''a2'' 1 (Some ''anna'') [], Approve ''a3'' 1 (Some ''bob'') [], Reject 1 None ''too late'']"

theorem review_approved_at_most_once_witness:
  "approvals demo_services demo_models (normalizeProgressionSettings (\<lambda>_. None)) quiet twice_approved (conn_of (tabs (snd review_made))) = [1] \<and>
   distinct (approvals demo_services demo_models (normalizeProgressionSettings (\<lambda>_. None)) quiet twice_approved (conn_of (tabs (snd review_made))))"
  using review_approved_at_most_once [OF quiet_ok] by (intro conjI) code_simp

end
