(* ===== verification/TradeShared.thy ===== *)
theory TradeShared
  imports Progression
begin

text \<open>
  What the engine shares with the trading routes: services/tradeShared.ts (the trading rules of the
  administrator, the market's hours, the R multiple, margins) and services/tradingDaysService.ts (sums and
  counts over the closed trades of an account). The settings arrive as the answer of the settings service. Dashes outside ASCII in messages are written as hyphens.
\<close>

section \<open>Trading rules\<close>

record trading_rules =
  ru_min_hold :: num
  ru_forex_lots :: num
  ru_commodity_lots :: num
  ru_min_lot :: num
  ru_trades_per_1k :: num
  ru_max_open :: num
  ru_max_daily :: num
  ru_max_notional :: num
  ru_commission :: num
  ru_commission_json :: "string option"
  ru_slippage_on :: bool
  ru_slippage_max :: num
  ru_slippage_json :: "string option"
  ru_weekend :: bool

definition FOREX_LOTS_PER_1K :: num where
  "FOREX_LOTS_PER_1K = mk (1/10)"

definition COMMODITY_LOTS_PER_1K :: num where
  "COMMODITY_LOTS_PER_1K = mk (2/100)"

definition MAX_OPEN_POSITIONS :: num where
  "MAX_OPEN_POSITIONS = Fin 10"

definition TRADING_RULES_TTL :: int where
  "TRADING_RULES_TTL = 30 * 1000"

definition DEFAULT_TRADING_RULES :: trading_rules where
  "DEFAULT_TRADING_RULES =
     \<lparr>ru_min_hold = Fin 60, ru_forex_lots = FOREX_LOTS_PER_1K, ru_commodity_lots = COMMODITY_LOTS_PER_1K,
      ru_min_lot = mk (1/100), ru_trades_per_1k = Fin 1, ru_max_open = MAX_OPEN_POSITIONS, ru_max_daily = Fin 20,
      ru_max_notional = Fin 500, ru_commission = Fin 3, ru_commission_json = None, ru_slippage_on = False,
      ru_slippage_max = Fin 0, ru_slippage_json = None, ru_weekend = True\<rparr>"

definition finiteOr :: "num option \<Rightarrow> num \<Rightarrow> num" where
  "finiteOr v fallback = (case v of None \<Rightarrow> fallback | Some x \<Rightarrow> if is_finite x then x else fallback)"

text \<open>A numeric setting: parseFloat of its text, undefined when the key is absent.\<close>

definition rule_num :: "(string \<times> string) list \<Rightarrow> string \<Rightarrow> num option" where
  "rule_num s key = map_option parse_float_str (map_of s key)"

definition rule_flag :: "(string \<times> string) list \<Rightarrow> string \<Rightarrow> bool \<Rightarrow> bool" where
  "rule_flag s key fallback = (case map_of s key of None \<Rightarrow> fallback | Some v \<Rightarrow> v = ''true'')"

definition rule_json :: "(string \<times> string) list \<Rightarrow> string \<Rightarrow> string option" where
  "rule_json s key = Some (case map_of s key of None \<Rightarrow> ''{}'' | Some v \<Rightarrow> v)"

definition resolve_rules :: "(string \<times> string) list \<Rightarrow> trading_rules" where
  "resolve_rules s =
     \<lparr>ru_min_hold = finiteOr (rule_num s ''min_hold_seconds'') (ru_min_hold DEFAULT_TRADING_RULES),
      ru_forex_lots = finiteOr (rule_num s ''forex_lots_per_1k'') (ru_forex_lots DEFAULT_TRADING_RULES),
      ru_commodity_lots = finiteOr (rule_num s ''commodity_lots_per_1k'') (ru_commodity_lots DEFAULT_TRADING_RULES),
      ru_min_lot = finiteOr (rule_num s ''min_lot_size'') (ru_min_lot DEFAULT_TRADING_RULES),
      ru_trades_per_1k = finiteOr (rule_num s ''max_trades_per_1k'') (ru_trades_per_1k DEFAULT_TRADING_RULES),
      ru_max_open = finiteOr (rule_num s ''max_open_positions'') (ru_max_open DEFAULT_TRADING_RULES),
      ru_max_daily = finiteOr (rule_num s ''max_daily_trades'') (ru_max_daily DEFAULT_TRADING_RULES),
      ru_max_notional = finiteOr (rule_num s ''max_notional_multiple'') (ru_max_notional DEFAULT_TRADING_RULES),
      ru_commission = finiteOr (rule_num s ''dynamic_commission_per_lot'') (ru_commission DEFAULT_TRADING_RULES),
      ru_commission_json = rule_json s ''commission_per_lot_json'',
      ru_slippage_on = rule_flag s ''slippage_simulator_enabled'' (ru_slippage_on DEFAULT_TRADING_RULES),
      ru_slippage_max = finiteOr (rule_num s ''slippage_max_pips_adverse'') (ru_slippage_max DEFAULT_TRADING_RULES),
      ru_slippage_json = rule_json s ''slippage_max_pips_adverse_json'',
      ru_weekend = rule_flag s ''weekend_holding_enabled'' (ru_weekend DEFAULT_TRADING_RULES)\<rparr>"

text \<open>The cache is the last resolved rules with their time; \<open>outcome\<close> is None when the settings cannot be read.\<close>

type_synonym rules_cache = "(trading_rules \<times> int) option"

definition getTradingRules :: "int \<Rightarrow> (string \<times> string) list option \<Rightarrow> rules_cache \<Rightarrow> trading_rules \<times> rules_cache" where
  "getTradingRules t outcome cache =
     (case (case cache of None \<Rightarrow> None | Some (v, at_ms) \<Rightarrow> if t - at_ms < TRADING_RULES_TTL then Some v else None) of
        Some v \<Rightarrow> (v, cache)
      | None \<Rightarrow>
          (case outcome of
             None \<Rightarrow> (DEFAULT_TRADING_RULES, cache)
           | Some s \<Rightarrow> let r = resolve_rules s in (r, Some (r, t))))"

definition invalidateTradingRulesCache :: "rules_cache \<Rightarrow> rules_cache" where
  "invalidateTradingRulesCache cache = None"

section \<open>R multiple and margin\<close>

record r_trade =
  rt_sl :: jsval
  rt_open :: jsval
  rt_lots :: jsval
  rt_pnl :: jsval
  rt_instrument :: string

text \<open>parseFloat(String(x ?? '')).\<close>

definition js_float :: "jsval \<Rightarrow> num" where
  "js_float v = parse_float v"

definition computeRMultiple :: "r_trade \<Rightarrow> num option" where
  "computeRMultiple tr =
     (let stopLoss = js_float (rt_sl tr); openPrice = js_float (rt_open tr); lots = js_float (rt_lots tr); pnl = js_float (rt_pnl tr) in
      if \<not> is_finite stopLoss \<or> \<not> is_finite openPrice \<or> \<not> is_finite lots \<or> \<not> is_finite pnl then None
      else case CONTRACT_SIZES (rt_instrument tr) of
             None \<Rightarrow> None
           | Some csize \<Rightarrow>
               if \<not> truthy (JNum csize) then None
               else let riskAmount = nmul (nmul (math_abs (nsub openPrice stopLoss)) lots) csize in
                 if nle riskAmount (Fin 0) then None else Some (fixed 2 (ndiv pnl riskAmount)))"

definition calculateMargin :: "string \<Rightarrow> num \<Rightarrow> num" where
  "calculateMargin i lots = Fin 0"

section \<open>Market hours\<close>

definition utc_day :: "int \<Rightarrow> int" where
  "utc_day t = (day_of t + 4) mod 7"

definition utc_minutes :: "int \<Rightarrow> int" where
  "utc_minutes t = (t mod ms_per_day) div 60000"

definition getMarketStatus :: "string \<Rightarrow> int \<Rightarrow> bool \<times> string" where
  "getMarketStatus purpose t =
     (let day = utc_day t; totalMins = utc_minutes t in
      if day = 6 then (False, ''Market is closed for the weekend. Opens Sunday 22:00 UTC.'')
      else if purpose = ''open'' \<and> day = 5 \<and> 21 * 60 \<le> totalMins then
        (False, ''New trades are disabled after Friday 21:00 UTC to avoid weekend gap risk.'')
      else if day = 5 \<and> 22 * 60 \<le> totalMins then (False, ''Market is closed for the weekend. Opens Sunday 22:00 UTC.'')
      else if day = 0 \<and> totalMins < 22 * 60 then
        (let minsUntil = 22 * 60 - totalMins in
         (False, ''Market opens Sunday 22:00 UTC (in '' @ int_str (minsUntil div 60) @ ''h '' @ int_str (minsUntil mod 60) @ ''m).''))
      else let inRollover = (21 * 60 + 55 \<le> totalMins \<and> totalMins < 22 * 60 + 5) in
        if (purpose = ''open'' \<and> 1 \<le> day \<and> day \<le> 4 \<and> inRollover) \<or> (purpose = ''close'' \<and> 1 \<le> day \<and> day \<le> 5 \<and> inRollover)
        then (False, ''Market is in daily rollover (21:55-22:05 UTC). Try again in a few minutes.'')
        else (True, []))"

section \<open>Trading days\<close>

definition utcDayStart :: "int \<Rightarrow> int" where
  "utcDayStart t = day_of t * ms_per_day"

definition closed_trades :: "string \<Rightarrow> db \<Rightarrow> trade list" where
  "closed_trades i t = filter (\<lambda>r. trade_account r = Some i \<and> trade_status r = Some ''closed'') (trades t)"

text \<open>COALESCE(SUM(demo_pnl), 0), in cents; a NULL is left out of the sum.\<close>

definition pnl_sum :: "trade list \<Rightarrow> int" where
  "pnl_sum rs = (\<Sum>r\<leftarrow>rs. case demo_pnl r of None \<Rightarrow> 0 | Some c \<Rightarrow> c)"

text \<open>The answer of the query as the Map the function returns, empty for an account without a row.\<close>

definition todayRealizedPnl :: "int \<Rightarrow> string list \<Rightarrow> db \<Rightarrow> string \<Rightarrow> num option" where
  "todayRealizedPnl t ids d i =
     (let rs = filter (\<lambda>r. case trade_close_time r of None \<Rightarrow> False | Some x \<Rightarrow> utcDayStart t \<le> x) (closed_trades i d)
      in if i \<in> set ids \<and> rs \<noteq> [] then Some (parse_float (numeric_val (pnl_sum rs))) else None)"

text \<open>The days on which trades closed, each once; a closed trade without a time is no day.\<close>

definition trading_days :: "string \<Rightarrow> db \<Rightarrow> int list" where
  "trading_days i d = remdups (List.map_filter (\<lambda>r. map_option day_of (trade_close_time r)) (closed_trades i d))"

definition countTradingDays :: "string \<Rightarrow> db \<Rightarrow> num" where
  "countTradingDays i d = Fin (of_nat (length (trading_days i d)))"

text \<open>GROUP BY the day; the trades without a time form a group of their own.\<close>

definition day_sums :: "string \<Rightarrow> db \<Rightarrow> int option list" where
  "day_sums i d =
     (let rs = closed_trades i d;
          key = (\<lambda>r. map_option day_of (trade_close_time r));
          sum_of = (\<lambda>k. let vs = List.map_filter demo_pnl (filter (\<lambda>r. key r = k) rs) in if vs = [] then None else Some (sum_list vs))
      in map sum_of (remdups (map key rs)))"

definition countQualifyingTradingDays :: "string \<Rightarrow> jsval \<Rightarrow> jsval \<Rightarrow> (db, num) tx" where
  "countQualifyingTradingDays i startingBalance minDailyProfitPct =
     (let balance = parse_float startingBalance; threshold = parse_float minDailyProfitPct in
      if \<not> nlt (Fin 0) balance \<or> \<not> is_finite threshold \<or> nle threshold (Fin 0)
      then select (countTradingDays i)
      else query (\<lambda>d. case (bind_num balance, bind_num threshold) of
             (Inr b, Inr q) \<Rightarrow>
               Inr (Fin (of_nat (length (filter (\<lambda>s. case s of None \<Rightarrow> False | Some c \<Rightarrow> q \<le> of_int c / 100 / b * 100) (day_sums i d)))), d)
           | _ \<Rightarrow> Inl ''22003''))"

definition getBestDayProfit :: "string \<Rightarrow> db \<Rightarrow> num" where
  "getBestDayProfit i d =
     (let gains = filter (\<lambda>c. 0 < c) (List.map_filter (\<lambda>s. s) (day_sums i d))
      in parse_float (numeric_val (if gains = [] then 0 else Max (set gains))))"

record consistency_result =
  cr_ok :: bool
  cr_best :: num
  cr_total :: num
  cr_best_pct :: num

definition checkConsistencyRule :: "string \<Rightarrow> num \<Rightarrow> num \<Rightarrow> db \<Rightarrow> consistency_result" where
  "checkConsistencyRule i totalProfit consistencyPct d =
     (if \<not> is_finite consistencyPct \<or> nle consistencyPct (Fin 0) \<or> nle totalProfit (Fin 0)
      then \<lparr>cr_ok = True, cr_best = Fin 0, cr_total = totalProfit, cr_best_pct = Fin 0\<rparr>
      else let best = getBestDayProfit i d; pct = nmul (ndiv best totalProfit) (Fin 100)
        in \<lparr>cr_ok = nle pct consistencyPct, cr_best = best, cr_total = totalProfit, cr_best_pct = pct\<rparr>)"

section \<open>Properties\<close>

text \<open>The numeric rules.\<close>

definition rule_values :: "trading_rules \<Rightarrow> num list" where
  "rule_values r =
     [ru_min_hold r, ru_forex_lots r, ru_commodity_lots r, ru_min_lot r, ru_trades_per_1k r, ru_max_open r, ru_max_daily r,
      ru_max_notional r, ru_commission r, ru_slippage_max r]"

datatype rules_call = AskRules int "(string \<times> string) list option" | ForgetRules

fun rules_run :: "rules_call list \<Rightarrow> rules_cache \<Rightarrow> trading_rules list" where
  "rules_run [] cache = []"
| "rules_run (AskRules t outcome # cs) cache =
     (let (r, cache') = getTradingRules t outcome cache in r # rules_run cs cache')"
| "rules_run (ForgetRules # cs) cache = rules_run cs (invalidateTradingRulesCache cache)"

lemma finite_finiteOr: "is_finite d \<Longrightarrow> is_finite (finiteOr v d)"
  by (auto simp: finiteOr_def split: option.split)

lemma default_rules_finite: "list_all is_finite (rule_values DEFAULT_TRADING_RULES)"
  by (simp add: rule_values_def DEFAULT_TRADING_RULES_def FOREX_LOTS_PER_1K_def COMMODITY_LOTS_PER_1K_def MAX_OPEN_POSITIONS_def mk_small)

lemma resolved_rules_finite: "list_all is_finite (rule_values (resolve_rules s))"
  using default_rules_finite by (simp add: rule_values_def resolve_rules_def finite_finiteOr)

text \<open>C27. No text in the settings can switch a trading rule off: whatever the settings hold and however
  often they are read, cached, found unreadable or invalidated, every numeric rule handed out is a finite number, never the NaN
  that every comparison against it would fail.\<close>

theorem rules_always_finite:
  "list_all (\<lambda>r. list_all is_finite (rule_values r)) (rules_run calls None)"
proof -
  have "(case cache of None \<Rightarrow> True | Some (v, _) \<Rightarrow> list_all is_finite (rule_values v)) \<Longrightarrow>
    list_all (\<lambda>r. list_all is_finite (rule_values r)) (rules_run calls cache)" for cache
    by (induction calls cache rule: rules_run.induct)
      (auto simp: getTradingRules_def invalidateTradingRulesCache_def Let_def default_rules_finite resolved_rules_finite
        split: option.splits prod.splits if_splits)
  then show ?thesis by simp
qed

text \<open>The minute of the week, from Sunday midnight UTC.\<close>

definition week_minute :: "int \<Rightarrow> int" where
  "week_minute t = (t div 60000 + 4 * 1440) mod 10080"

definition rollover :: "int \<Rightarrow> int \<Rightarrow> bool" where
  "rollover n m \<longleftrightarrow> (\<exists>d\<in>{1..n}. d * 1440 + 1315 \<le> m \<and> m < d * 1440 + 1325)"

lemma week_minute_split: "week_minute t = utc_day t * 1440 + utc_minutes t" "0 \<le> utc_day t" "utc_day t \<le> 6" "0 \<le> utc_minutes t" "utc_minutes t < 1440"
proof -
  define q where "q = t div 60000"
  have d: "t div 86400000 = q div 1440" unfolding q_def by (simp add: zdiv_zmult2_eq [symmetric])
  have m: "(t mod 86400000) div 60000 = q mod 1440"
  proof -
    have "t mod 86400000 = t mod (60000 * 1440)" by simp
    also have "\<dots> = 60000 * (t div 60000 mod 1440) + t mod 60000" by (rule zmod_zmult2_eq) simp
    finally have "t mod 86400000 = t mod 60000 + (q mod 1440) * 60000" by (simp add: q_def)
    then show ?thesis by simp
  qed
  have b: "0 \<le> q mod 1440" "q mod 1440 < 1440" "0 \<le> (q div 1440 + 4) mod 7" "(q div 1440 + 4) mod 7 \<le> 6"
    using pos_mod_bound [of 7 "q div 1440 + 4"] by simp_all
  have "(q + 4 * 1440) mod 10080 = ((q div 1440 + 4) * 1440 + q mod 1440) mod (1440 * 7)" by (simp add: algebra_simps)
  also have "\<dots> = 1440 * (((q div 1440 + 4) * 1440 + q mod 1440) div 1440 mod 7) + ((q div 1440 + 4) * 1440 + q mod 1440) mod 1440"
    by (rule zmod_zmult2_eq) simp
  also have "\<dots> = ((q div 1440 + 4) mod 7) * 1440 + q mod 1440"
  proof -
    have "((q div 1440 + 4) * 1440 + q mod 1440) div 1440 = q div 1440 + 4" "((q div 1440 + 4) * 1440 + q mod 1440) mod 1440 = q mod 1440"
      by (simp_all only: div_mult_self3 mod_mult_self3 mod_div_trivial mod_mod_trivial)
    then show ?thesis by simp
  qed
  finally have "(q + 4 * 1440) mod 10080 = ((q div 1440 + 4) mod 7) * 1440 + q mod 1440" .
  then show "week_minute t = utc_day t * 1440 + utc_minutes t" "0 \<le> utc_day t" "utc_day t \<le> 6" "0 \<le> utc_minutes t" "utc_minutes t < 1440"
    using b unfolding week_minute_def utc_day_def utc_minutes_def day_of_def ms_per_day_def d m q_def [symmetric] by simp_all
qed

lemma rollover_day:
  assumes "m = d * 1440 + x" "0 \<le> d" "0 \<le> x" "x < 1440"
  shows "rollover n m \<longleftrightarrow> 1 \<le> d \<and> d \<le> n \<and> 1315 \<le> x \<and> x < 1325"
proof
  assume "rollover n m"
  then obtain e where "1 \<le> e" "e \<le> n" "e * 1440 + 1315 \<le> m" "m < e * 1440 + 1325" by (auto simp: rollover_def)
  moreover from this have "e = d" using assms by linarith
  ultimately show "1 \<le> d \<and> d \<le> n \<and> 1315 \<le> x \<and> x < 1325" using assms(1) by simp
next
  assume "1 \<le> d \<and> d \<le> n \<and> 1315 \<le> x \<and> x < 1325"
  then show "rollover n m" unfolding rollover_def using assms(1) by (intro bexI [of _ d]) auto
qed

text \<open>C28. The trading week: positions may be opened exactly from Sunday 22:00 to Friday 21:00 UTC except from 21:55 to
  22:05 on Monday to Thursday, and closed exactly from Sunday 22:00 to Friday 22:00 except in the same ten minutes
  of Monday to Friday; so whenever a position may be opened it may also be closed.\<close>

theorem trading_week:
  fixes t :: int
  defines "m \<equiv> week_minute t"
  shows "(fst (getMarketStatus ''open'' t) \<longleftrightarrow> 1320 \<le> m \<and> m < 5 * 1440 + 1260 \<and> \<not> rollover 4 m) \<and>
    (fst (getMarketStatus ''close'' t) \<longleftrightarrow> 1320 \<le> m \<and> m < 5 * 1440 + 1320 \<and> \<not> rollover 5 m) \<and>
    (fst (getMarketStatus ''open'' t) \<longrightarrow> fst (getMarketStatus ''close'' t))"
proof -
  define d x where "d = utc_day t" and "x = utc_minutes t"
  have s: "m = d * 1440 + x" "0 \<le> d" "d \<le> 6" "0 \<le> x" "x < 1440"
    using week_minute_split [of t] by (simp_all add: m_def d_def x_def)
  have d: "d = 0 \<or> d = 1 \<or> d = 2 \<or> d = 3 \<or> d = 4 \<or> d = 5 \<or> d = 6" using s(2,3) by arith
  show ?thesis
    unfolding getMarketStatus_def Let_def d_def [symmetric] x_def [symmetric] rollover_day [OF s(1,2,4,5)]
    using d s(4,5) unfolding s(1) by (elim disjE) auto
qed

theorem trading_week_witness:
  "fst (getMarketStatus ''open'' 1785794700000) \<and> fst (getMarketStatus ''close'' 1785794700000) \<and>
   \<not> fst (getMarketStatus ''open'' 1786136400000) \<and> fst (getMarketStatus ''close'' 1786136400000)"
proof -
  have "fst (getMarketStatus ''open'' 1785794700000) \<and> \<not> fst (getMarketStatus ''open'' 1786136400000) \<and>
    fst (getMarketStatus ''close'' 1786136400000)" by code_simp
  then show ?thesis using trading_week [of 1785794700000] by blast
qed

end
