(* ===== verification/Engine.thy ===== *)
theory Engine
  imports TradeShared TradeIndex Drawdown
begin

text \<open>
  services/tradeEngine.ts, the interval engine: closing triggered trades, filling pending orders, failing and
  passing accounts. A pass runs without interleaving at its awaits, so the flags against overlapping
  passes are never found set; the rows of a query come in the order of the table. Decimals, quotes of the tenant, the
  trading rules and the step models are arguments, collected in \<open>market\<close>. What the engine emits is kept as the
  list of events with their data; the texts of messages and the violation log are left out.
\<close>

section \<open>State\<close>

text \<open>The further operations of the decimal package that the engine uses; \<open>da_from\<close> constructs from a Number.\<close>

record 'd engine_arith = "'d decimal_arith" +
  da_from :: "num \<Rightarrow> 'd"
  da_plus :: "'d \<Rightarrow> 'd \<Rightarrow> 'd"
  da_div :: "'d \<Rightarrow> 'd \<Rightarrow> 'd"
  da_abs :: "'d \<Rightarrow> 'd"
  da_le :: "'d \<Rightarrow> 'd \<Rightarrow> bool"
  da_negative :: "'d \<Rightarrow> bool"

record 'd market =
  mt_arith :: "'d engine_arith"
  mt_env :: env
  mt_cache :: price_cache
  mt_time :: int
  mt_tenant :: "string \<Rightarrow> quote option"
  mt_rules :: trading_rules
  mt_models :: model_lookup

datatype engine_event =
    TradeClosed "string option" string num
  | OrderFilled "string option" string num
  | AccountFailed string num
  | AccountPassed string num int string

record dirty_peak =
  dp_peak :: "num option"
  dp_floor :: "num option"

record engine =
  en_db :: db
  en_index :: trade_index
  en_dirty :: "dirty_peak jsmap"
  en_events :: "engine_event list"

definition pool_conn :: "'t \<Rightarrow> 't conn" where
  "pool_conn t = \<lparr>tabs = t, in_tx = False, aborted = False, saves = [], base = t\<rparr>"

text \<open>A body between BEGIN and COMMIT on a connection of the pool, and a single statement on the pool.\<close>

definition in_transaction :: "(db, 'a) tx \<Rightarrow> engine \<Rightarrow> (js_error + 'a) \<times> engine" where
  "in_transaction body e =
     (case withTransaction body (pool_conn (en_db e)) of (r, c) \<Rightarrow> (r, e\<lparr>en_db := tabs c\<rparr>))"

definition on_pool :: "(db, 'a) tx \<Rightarrow> engine \<Rightarrow> (js_error + 'a) \<times> engine" where
  "on_pool m e = (case m (pool_conn (en_db e)) of (r, c) \<Rightarrow> (r, e\<lparr>en_db := tabs c\<rparr>))"

definition getLivePriceMap :: "'d market \<Rightarrow> string \<Rightarrow> quote option" where
  "getLivePriceMap m =
     (if \<not> isStale (mt_cache m) (mt_time m) \<and> hasPrices (mt_cache m) then getPrice (mt_cache m) else mt_tenant m)"

section \<open>Statements\<close>

definition get_trade :: "string \<Rightarrow> db \<Rightarrow> trade option" where
  "get_trade i t = find_by trade_id i (trades t)"

text \<open>Assignment to a NUMERIC(p,s) column.\<close>

definition numeric_scaled :: "nat \<Rightarrow> nat \<Rightarrow> rat \<Rightarrow> string + rat" where
  "numeric_scaled p s q =
     (let n = (if q < 0 then - \<lfloor>- q * 10 ^ s + 1/2\<rfloor> else \<lfloor>q * 10 ^ s + 1/2\<rfloor>)
      in if \<bar>n\<bar> < 10 ^ p then Inr (of_int n / 10 ^ s) else Inl ''22003'')"

fun each :: "('a \<Rightarrow> 'e + 'b) \<Rightarrow> 'a list \<Rightarrow> 'e + 'b list" where
  "each f [] = Inr []"
| "each f (x # xs) = sum_bind (f x) (\<lambda>y. sum_bind (each f xs) (\<lambda>ys. Inr (y # ys)))"

text \<open>The bulk UPDATE ... FROM unnest: a row takes the values listed under its id when its guard holds.\<close>

record closing =
  cl_trade :: string
  cl_price :: num
  cl_pnl :: num
  cl_reason :: string

definition bind_closing :: "closing \<Rightarrow> string + string \<times> rat \<times> rat \<times> string" where
  "bind_closing c =
     sum_bind (bind_num (cl_price c)) (\<lambda>p. sum_bind (bind_num (cl_pnl c)) (\<lambda>q. Inr (cl_trade c, p, q, cl_reason c)))"

definition close_row :: "int \<Rightarrow> rat \<Rightarrow> rat \<Rightarrow> string \<Rightarrow> trade \<Rightarrow> string + trade" where
  "close_row t price pnl reason r =
     sum_bind (numeric_scaled 15 5 price) (\<lambda>p. sum_bind (numeric15_2 pnl) (\<lambda>c.
       Inr (r\<lparr>trade_status := Some ''closed'', trade_close_price := Some p, trade_close_time := Some t, demo_pnl := Some c,
              trade_reason := Some reason\<rparr>)))"

definition clear_deferred :: "trade \<Rightarrow> trade" where
  "clear_deferred r = r\<lparr>trade_deferred_price := None, trade_deferred_reason := None, trade_deferred_at := None\<rparr>"

definition close_stmt :: "(trade \<Rightarrow> bool) \<Rightarrow> (trade \<Rightarrow> trade) \<Rightarrow> closing list \<Rightarrow> db \<Rightarrow> string + unit \<times> db" where
  "close_stmt guard post cls t =
     sum_bind (each bind_closing cls) (\<lambda>vs.
     sum_bind (each (\<lambda>r. case List.find (\<lambda>v. fst v = trade_id r) vs of
         None \<Rightarrow> Inr r
       | Some (_, p, q, reason) \<Rightarrow>
           if guard r then sum_bind (close_row (now t) p q reason r) (\<lambda>r'. Inr (post r')) else Inr r) (trades t)) (\<lambda>rs.
       Inr ((), t\<lparr>trades := rs\<rparr>)))"

definition cancel_stmt :: "(trade \<Rightarrow> bool) \<Rightarrow> string \<Rightarrow> db \<Rightarrow> string + string list \<times> db" where
  "cancel_stmt guard reason t =
     Inr (map trade_id (filter guard (trades t)),
          t\<lparr>trades := map (\<lambda>r. if guard r
              then r\<lparr>trade_status := Some ''cancelled'', trade_close_time := Some (now t), trade_reason := Some reason\<rparr> else r) (trades t)\<rparr>)"

text \<open>A level crossed inside the hold window is recorded once, on an open trade without one.\<close>

definition defer_stmt :: "(string \<times> num \<times> string) list \<Rightarrow> db \<Rightarrow> string + string list \<times> db" where
  "defer_stmt ds t =
     sum_bind (each (\<lambda>(i, level, reason). sum_bind (bind_num level) (\<lambda>q. Inr (i, q, reason))) ds) (\<lambda>vs.
       let hit = (\<lambda>r. List.find (\<lambda>v. fst v = trade_id r) vs \<noteq> None \<and> trade_status r = Some ''open'' \<and> trade_deferred_price r = None)
       in Inr (map trade_id (filter hit (trades t)),
               t\<lparr>trades := map (\<lambda>r. case List.find (\<lambda>v. fst v = trade_id r) vs of
                    None \<Rightarrow> r
                  | Some (_, q, reason) \<Rightarrow>
                      if hit r then r\<lparr>trade_deferred_price := Some q, trade_deferred_reason := Some reason, trade_deferred_at := Some (now t)\<rparr>
                      else r) (trades t)\<rparr>))"

definition open_trades_of :: "string \<Rightarrow> db \<Rightarrow> trade list" where
  "open_trades_of i t = filter (\<lambda>r. trade_account r = Some i \<and> trade_status r = Some ''open'') (trades t)"

definition active_account :: "string \<Rightarrow> db \<Rightarrow> account option" where
  "active_account i t =
     (case get_account i t of None \<Rightarrow> None | Some a \<Rightarrow> if acc_status a = Some ''active'' then Some a else None)"

definition status_stmt_to :: "string \<Rightarrow> string \<Rightarrow> db \<Rightarrow> string + unit \<times> db" where
  "status_stmt_to i s t = Inr ((), put_account i (\<lambda>a. a\<lparr>acc_status := Some s\<rparr>) t)"

definition count_failure :: "day_count \<Rightarrow> day_count" where
  "count_failure d = d\<lparr>day_failed := day_failed d + 1\<rparr>"

section \<open>Settlement\<close>

definition opt_numeric :: "rat option \<Rightarrow> jsval" where
  "opt_numeric v = (case v of None \<Rightarrow> JNull | Some q \<Rightarrow> JNumeric q)"

definition pnl_js_error :: "pnl_error \<Rightarrow> js_error" where
  "pnl_js_error e = (case e of PnlFx x \<Rightarrow> PlainError (fx_message x) None | PnlDecimal \<Rightarrow> PlainError ''[DecimalError] Invalid argument'' None)"

text \<open>calculatePnL on the columns of a row, valued at a price.\<close>

definition row_pnl :: "'d market \<Rightarrow> trade \<Rightarrow> num \<Rightarrow> num option \<Rightarrow> pnl_error + num" where
  "row_pnl m r price usdRate =
     calculatePnL (mt_arith m) (mt_env m) (mt_cache m) (trade_direction r) (JNum (parse_float (opt_numeric (trade_open_price r)))) (JNum price)
       (JNum (parse_float (JNumeric (trade_lots r)))) (trade_instrument r)
       (JNum (parse_float (js_or (opt_money (trade_commission r)) (JNum (Fin 0))))) usdRate"

definition market_side :: "trade \<Rightarrow> quote \<Rightarrow> num" where
  "market_side r q = (if trade_direction r = ''buy'' then q_bid q else q_ask q)"

record settlement =
  st_price :: num
  st_pnl :: num
  st_priceless :: bool

definition settlementFor :: "'d market \<Rightarrow> trade \<Rightarrow> quote option \<Rightarrow> pnl_error + settlement" where
  "settlementFor m r priceData =
     (case priceData of
        None \<Rightarrow> Inr \<lparr>st_price = parse_float (opt_numeric (trade_open_price r)), st_pnl = Fin 0, st_priceless = True\<rparr>
      | Some q \<Rightarrow>
          sum_bind (row_pnl m r (market_side r q) None) (\<lambda>pnl.
            Inr \<lparr>st_price = market_side r q, st_pnl = pnl, st_priceless = False\<rparr>))"

definition bulkCloseTrades :: "closing list \<Rightarrow> (db, unit) tx" where
  "bulkCloseTrades settlements =
     (if settlements = [] then tx_return () else query (close_stmt (\<lambda>_. True) (\<lambda>r. r) settlements))"

text \<open>The loop of both auto-close paths: the settlements and their total, rounded to cents.\<close>

definition settle_rows :: "'d market \<Rightarrow> (string \<Rightarrow> quote option) \<Rightarrow> string \<Rightarrow> trade list \<Rightarrow> js_error + closing list \<times> num" where
  "settle_rows m prices reason rows =
     (case each (\<lambda>r. sum_bind (settlementFor m r (prices (trade_instrument r))) (\<lambda>s.
              Inr \<lparr>cl_trade = trade_id r, cl_price = st_price s, cl_pnl = st_pnl s, cl_reason = reason\<rparr>)) rows of
        Inl e \<Rightarrow> Inl (pnl_js_error e)
      | Inr cls \<Rightarrow>
          (let D = mt_arith m;
               total_dec = foldl (\<lambda>d c. da_plus D d (da_from D (cl_pnl c))) (da_from D (Fin 0)) cls
           in Inr (cls, da_num D (da_cents D total_dec))))"

definition lift_sum :: "js_error + 'a \<Rightarrow> ('t, 'a) tx" where
  "lift_sum x = (case x of Inl e \<Rightarrow> tx_throw e | Inr a \<Rightarrow> tx_return a)"

section \<open>Failing and passing an account\<close>

record engine_account =
  eg_id :: string
  eg_user :: "string option"
  eg_balance :: num
  eg_starting :: num
  eg_peak :: num
  eg_max_dd :: num
  eg_type :: string
  eg_size :: num
  eg_target :: num
  eg_eod_peak :: jsval
  eg_eod_floor :: jsval
  eg_slug :: "string option"
  eg_daily :: "num option"

definition pct_val :: "int \<Rightarrow> jsval" where
  "pct_val c = JNumeric (of_int c / 100)"

definition engine_account_of :: "account \<Rightarrow> engine_account" where
  "engine_account_of a =
     \<lparr>eg_id = acc_id a, eg_user = acc_user a, eg_balance = parse_float (numeric_val (current_balance a)),
      eg_starting = parse_float (numeric_val (starting_balance a)), eg_peak = parse_float (numeric_val (peak_balance a)),
      eg_max_dd = parse_float (pct_val (max_drawdown_pct a)), eg_type = acc_type a,
      eg_size = parse_float (numeric_val (acc_size a)), eg_target = parse_float (numeric_val (profit_target a)),
      eg_eod_peak = opt_money (eod_peak_equity a), eg_eod_floor = opt_money (eod_trailing_floor a),
      eg_slug = challenge_model_slug a, eg_daily = map_option (\<lambda>c. parse_float (pct_val c)) (daily_drawdown_pct a)\<rparr>"

text \<open>The result is None when the account is no longer active, else the total and the cancelled orders.\<close>

definition fail_body :: "'d market \<Rightarrow> (string \<Rightarrow> quote option) \<Rightarrow> string \<Rightarrow> (db, (num \<times> string list) option) tx" where
  "fail_body m prices i =
     tx_bind (select (active_account i)) (\<lambda>locked.
       if locked = None then tx_return None
       else tx_bind (select (open_trades_of i)) (\<lambda>rows.
            tx_bind (lift_sum (settle_rows m prices ''Account Failed'' rows)) (\<lambda>(cls, totalPnl).
            tx_bind (bulkCloseTrades cls) (\<lambda>_.
            tx_bind (if totalPnl \<noteq> Fin 0 then tx_bind (query (credit_stmt i totalPnl)) (\<lambda>_. tx_return ()) else tx_return ()) (\<lambda>_.
            tx_bind (query (cancel_stmt (\<lambda>r. trade_account r = Some i \<and> trade_status r = Some ''pending'') ''Account Failed'')) (\<lambda>cancelled.
            tx_bind (query (status_stmt_to i ''failed'')) (\<lambda>_.
            tx_bind (query (\<lambda>t. Inr ((), bump_day count_failure t))) (\<lambda>_.
              tx_return (Some (totalPnl, cancelled))))))))))"

definition drop_account :: "string \<Rightarrow> string list \<Rightarrow> trade_index \<Rightarrow> trade_index" where
  "drop_account i cancelled ix = snd (removeAccount i (fold (\<lambda>k x. snd (removePending k x)) cancelled ix))"

definition emit :: "engine_event \<Rightarrow> engine \<Rightarrow> engine" where
  "emit ev e = e\<lparr>en_events := en_events e @ [ev]\<rparr>"

definition autoCloseAndFail :: "'d market \<Rightarrow> engine_account \<Rightarrow> (string \<Rightarrow> quote option) option \<Rightarrow> engine \<Rightarrow> engine" where
  "autoCloseAndFail m acc sharedPriceMap e =
     (let priceMap = (case sharedPriceMap of None \<Rightarrow> mt_tenant m | Some p \<Rightarrow> p) in
      case in_transaction (fail_body m priceMap (eg_id acc)) e of
        (Inr (Some (totalPnl, cancelled)), e') \<Rightarrow>
          emit (AccountFailed (eg_id acc) totalPnl) (e'\<lparr>en_index := drop_account (eg_id acc) cancelled (en_index e')\<rparr>)
      | (_, e') \<Rightarrow> e')"

definition pass_stmt :: "string \<Rightarrow> num \<Rightarrow> db \<Rightarrow> string + unit \<times> db" where
  "pass_stmt i x t = sum_bind (credit_stmt i x t) (\<lambda>(_, t'). status_stmt_to i ''passed'' t')"

text \<open>The account object handed to the review has neither a step nor the text of the size.\<close>

definition passed_engine_account :: "engine_account \<Rightarrow> passed_account" where
  "passed_engine_account acc =
     \<lparr>pa_id = eg_id acc, pa_user = eg_user acc, pa_type = eg_type acc, pa_size = JNum (eg_size acc), pa_slug = eg_slug acc, pa_step = None\<rparr>"

definition pass_body :: "'d market \<Rightarrow> (string \<Rightarrow> quote option) \<Rightarrow> engine_account \<Rightarrow> (db, (num \<times> string list \<times> review) option) tx" where
  "pass_body m prices acc =
     (let i = eg_id acc; closeReason = (if eg_type acc = ''phase1'' then ''Phase 1 Passed'' else ''Phase 2 Passed'') in
      tx_bind (select (active_account i)) (\<lambda>locked.
       if locked = None then tx_return None
       else tx_bind (select (open_trades_of i)) (\<lambda>rows.
            tx_bind (lift_sum (settle_rows m prices closeReason rows)) (\<lambda>(cls, totalPnl).
            tx_bind (bulkCloseTrades cls) (\<lambda>_.
            tx_bind (query (pass_stmt i totalPnl)) (\<lambda>_.
            tx_bind (query (cancel_stmt (\<lambda>r. trade_account r = Some i \<and> trade_status r = Some ''pending'') closeReason)) (\<lambda>cancelled.
            tx_bind (createPromotionReview (mt_models m) (passed_engine_account acc) ''auto_pass'' (Some ''Floating profit target reached'') None
                [(''source'', JText ''tradeEngine''), (''account_type'', JText (eg_type acc)), (''account_size'', JNum (eg_size acc))]) (\<lambda>review.
              case review of
                None \<Rightarrow> tx_throw (PlainError ''Failed to raise promotion review for passed account'' None)
              | Some rv \<Rightarrow> tx_return (Some (totalPnl, cancelled, rv))))))))))"

definition autoCloseAndPass :: "'d market \<Rightarrow> engine_account \<Rightarrow> (string \<Rightarrow> quote option) option \<Rightarrow> engine \<Rightarrow> engine" where
  "autoCloseAndPass m acc sharedPriceMap e =
     (let priceMap = (case sharedPriceMap of None \<Rightarrow> mt_tenant m | Some p \<Rightarrow> p) in
      case in_transaction (pass_body m priceMap acc) e of
        (Inr (Some (totalPnl, cancelled, rv)), e') \<Rightarrow>
          emit (AccountPassed (eg_id acc) totalPnl (rev_id rv) (rev_target rv))
            (e'\<lparr>en_index := drop_account (eg_id acc) cancelled (en_index e')\<rparr>)
      | (_, e') \<Rightarrow> e')"

end
