(* ===== verification/Violations.thy ===== *)
theory Violations
  imports Database Instruments
begin

text \<open>
  services/violationEngine.ts: the log of rule violations, in which a repeated violation raises the count of its
  row, the log of enforcement events, and the two enforcement actions on an account. The inputs are records of the
  fields the callers pass, None being absent; the payloads, which nothing reads back, and the broadcasts
  to the admin screen are left out.
\<close>

section \<open>Tables\<close>

record violation =
  vi_id :: int
  vi_key :: string
  vi_type :: string
  vi_severity :: string
  vi_status :: string
  vi_account :: "string option"
  vi_user :: "string option"
  vi_trade :: "string option"
  vi_instrument :: "string option"
  vi_source :: string
  vi_message :: string
  vi_hits :: int
  vi_first :: int
  vi_last :: int
  vi_resolved_at :: "int option"
  vi_note :: "string option"
  vi_resolution :: string

record enforcement =
  ee_id :: int
  ee_rule :: "int option"
  ee_account :: "string option"
  ee_user :: "string option"
  ee_action :: string
  ee_status :: string
  ee_message :: string
  ee_at :: int

text \<open>The shared tables with the two logs.\<close>

record vdb =
  vd_main :: db
  vd_violations :: "violation list"
  vd_violation_seq :: int
  vd_events :: "enforcement list"
  vd_event_seq :: int

section \<open>Keys\<close>

text \<open>\<open>replace(/\s+/g, '_')\<close>.\<close>

fun squeeze_ws :: "string \<Rightarrow> string" where
  "squeeze_ws [] = []"
| "squeeze_ws [c] = (if is_ws c then ''_'' else [c])"
| "squeeze_ws (c # d # s) =
     (if is_ws c then if is_ws d then squeeze_ws (d # s) else CHR ''_'' # squeeze_ws (d # s) else c # squeeze_ws (d # s))"

definition normalizeKeyPart :: "string option \<Rightarrow> string" where
  "normalizeKeyPart value = squeeze_ws (to_lower (trim (text_or_empty value)))"

fun joined_by :: "string \<Rightarrow> string list \<Rightarrow> string" where
  "joined_by sep [] = []"
| "joined_by sep [x] = x"
| "joined_by sep (x # y # xs) = x @ sep @ joined_by sep (y # xs)"

definition buildViolationKey :: "string option list \<Rightarrow> string" where
  "buildViolationKey parts = joined_by ''|'' (map normalizeKeyPart parts)"

section \<open>Recording\<close>

record violation_input =
  in_type :: "string option"
  in_dedupe :: "string option"
  in_severity :: "string option"
  in_account :: "string option"
  in_user :: "string option"
  in_trade :: "string option"
  in_instrument :: "string option"
  in_source :: "string option"
  in_message :: "string option"

definition or_text :: "string option \<Rightarrow> string \<Rightarrow> string" where
  "or_text x d = (case given x of None \<Rightarrow> d | Some s \<Rightarrow> s)"

definition violation_key :: "violation_input \<Rightarrow> string" where
  "violation_key p =
     buildViolationKey [(case given (in_dedupe p) of None \<Rightarrow> in_type p | Some d \<Rightarrow> Some d), in_account p, in_user p, in_trade p, in_instrument p]"

text \<open>What a detection sets on a row that exists; how it was once resolved is kept.\<close>

definition redetect :: "violation_input \<Rightarrow> int \<Rightarrow> violation \<Rightarrow> violation" where
  "redetect p t r =
     r\<lparr>vi_severity := or_text (in_severity p) ''medium'', vi_status := ''open'', vi_source := or_text (in_source p) ''system'',
       vi_message := text_or_empty (in_message p), vi_hits := vi_hits r + 1, vi_last := t, vi_resolved_at := None, vi_note := None\<rparr>"

text \<open>INSERT ... ON CONFLICT (violation_key) DO UPDATE; either way the sequence advances.\<close>

definition violation_stmt :: "violation_input \<Rightarrow> vdb \<Rightarrow> string + violation \<times> vdb" where
  "violation_stmt p t =
     (let k = violation_key p; n = vd_violation_seq t + 1; t1 = t\<lparr>vd_violation_seq := n\<rparr> in
      case find_by vi_key k (vd_violations t) of
        None \<Rightarrow>
          (let r = \<lparr>vi_id = n, vi_key = k, vi_type = or_text (in_type p) ''unknown_violation'', vi_severity = or_text (in_severity p) ''medium'',
                    vi_status = ''open'', vi_account = given (in_account p), vi_user = given (in_user p), vi_trade = given (in_trade p),
                    vi_instrument = given (in_instrument p), vi_source = or_text (in_source p) ''system'',
                    vi_message = text_or_empty (in_message p), vi_hits = 1, vi_first = now (vd_main t), vi_last = now (vd_main t),
                    vi_resolved_at = None, vi_note = None, vi_resolution = ''resolved''\<rparr>
           in Inr (r, t1\<lparr>vd_violations := vd_violations t @ [r]\<rparr>))
      | Some old \<Rightarrow>
          Inr (redetect p (now (vd_main t)) old,
               t1\<lparr>vd_violations := update_by vi_key k (redetect p (now (vd_main t))) (vd_violations t)\<rparr>))"

definition recordViolation :: "violation_input \<Rightarrow> (vdb, violation) tx" where
  "recordViolation input = query (violation_stmt input)"

record enforcement_input =
  ei_rule :: "string option"
  ei_account :: "string option"
  ei_user :: "string option"
  ei_action :: "string option"
  ei_status :: "string option"
  ei_message :: "string option"

definition int_or_null :: "string option \<Rightarrow> int option" where
  "int_or_null x = (case parse_int_str (text_or_empty x) of Fin q \<Rightarrow> Some \<lfloor>q\<rfloor> | _ \<Rightarrow> None)"

definition enforcement_stmt :: "enforcement_input \<Rightarrow> vdb \<Rightarrow> string + enforcement \<times> vdb" where
  "enforcement_stmt p t =
     (let n = vd_event_seq t + 1;
          r = \<lparr>ee_id = n, ee_rule = int_or_null (ei_rule p), ee_account = given (ei_account p), ee_user = given (ei_user p),
               ee_action = or_text (ei_action p) ''unknown_action'', ee_status = or_text (ei_status p) ''applied'',
               ee_message = text_or_empty (ei_message p), ee_at = now (vd_main t)\<rparr>
      in Inr (r, t\<lparr>vd_events := vd_events t @ [r], vd_event_seq := n\<rparr>))"

definition recordEnforcementEvent :: "enforcement_input \<Rightarrow> (vdb, enforcement) tx" where
  "recordEnforcementEvent p = query (enforcement_stmt p)"

section \<open>Enforcing\<close>

record enforce_input =
  ef_rule :: "string option"
  ef_account :: string
  ef_action :: string
  ef_reason :: string

definition main_stmt :: "(db \<Rightarrow> db) \<Rightarrow> vdb \<Rightarrow> string + unit \<times> vdb" where
  "main_stmt f t = Inr ((), t\<lparr>vd_main := f (vd_main t)\<rparr>)"

definition lock_row :: "string \<Rightarrow> account \<Rightarrow> account" where
  "lock_row reason a =
     a\<lparr>acc_status := (if acc_status a = Some ''active'' then Some ''locked'' else acc_status a), review_flagged := True,
       review_flag_reason := Some (if reason = [] then ''Locked by automation'' else reason)\<rparr>"

definition flag_row :: "string option \<Rightarrow> string \<Rightarrow> account \<Rightarrow> account" where
  "flag_row current reason a =
     (let why = (if reason = [] then ''Flagged by automation'' else reason) in
      a\<lparr>review_flagged := True,
        review_flag_reason := Some (case given current of None \<Rightarrow> why | Some old \<Rightarrow> old @ '' | '' @ why)\<rparr>)"

definition enforce_body :: "enforce_input \<Rightarrow> (vdb, enforcement) tx" where
  "enforce_body p =
     tx_bind (select (\<lambda>t. get_account (ef_account p) (vd_main t))) (\<lambda>found.
       case found of
         None \<Rightarrow> tx_throw (PlainError ''Account not found'' None)
       | Some account \<Rightarrow>
           tx_bind
             (if ef_action p = ''lock_account'' then
                tx_bind (query (main_stmt (put_account (acc_id account) (lock_row (ef_reason p))))) (\<lambda>_. tx_return ''Account locked by automation'')
              else if ef_action p = ''flag_for_review'' then
                tx_bind (query (main_stmt (put_account (acc_id account) (flag_row (review_flag_reason account) (ef_reason p)))))
                  (\<lambda>_. tx_return ''Account flagged for review by automation'')
              else tx_throw (PlainError (''Unsupported enforcement action: '' @ ef_action p) None)) (\<lambda>message.
           recordEnforcementEvent
             \<lparr>ei_rule = ef_rule p, ei_account = Some (acc_id account), ei_user = acc_user account, ei_action = Some (ef_action p),
              ei_status = Some ''applied'', ei_message = Some message\<rparr>))"

definition applyAccountEnforcement :: "enforce_input \<Rightarrow> (vdb, enforcement) tx" where
  "applyAccountEnforcement input = withTransaction (enforce_body input)"

section \<open>The log counts detections\<close>

text \<open>The abstract log: how often a key was detected, zero for a key that has no row.\<close>

definition hits_of :: "string \<Rightarrow> vdb \<Rightarrow> int" where
  "hits_of k t = (case find_by vi_key k (vd_violations t) of None \<Rightarrow> 0 | Some r \<Rightarrow> vi_hits r)"

definition open_at :: "string \<Rightarrow> vdb \<Rightarrow> bool" where
  "open_at k t \<longleftrightarrow> (\<exists>r. find_by vi_key k (vd_violations t) = Some r \<and> vi_status r = ''open'' \<and> vi_resolved_at r = None)"

definition record_all :: "violation_input list \<Rightarrow> vdb conn \<Rightarrow> vdb conn" where
  "record_all ps c = fold (\<lambda>p c. snd (recordViolation p c)) ps c"

lemma record_one:
  assumes "\<not> aborted c"
  obtains r u where "recordViolation p c = (Inr r, c\<lparr>tabs := u\<rparr>)"
    "\<And>k. hits_of k u = hits_of k (tabs c) + (if violation_key p = k then 1 else 0)"
    "open_at (violation_key p) u" "\<And>k. open_at k (tabs c) \<Longrightarrow> open_at k u"
    "distinct (map vi_key (vd_violations (tabs c))) \<Longrightarrow> distinct (map vi_key (vd_violations u))"
proof (cases "find_by vi_key (violation_key p) (vd_violations (tabs c))")
  case None
  then obtain r where st: "violation_stmt p (tabs c) = Inr (r, (tabs c)\<lparr>vd_violation_seq := vd_violation_seq (tabs c) + 1, vd_violations := vd_violations (tabs c) @ [r]\<rparr>)"
    and r: "vi_key r = violation_key p" "vi_hits r = 1" "vi_status r = ''open''" "vi_resolved_at r = None"
    by (simp add: violation_stmt_def Let_def)
  have nn: "violation_key p \<notin> vi_key ` set (vd_violations (tabs c))" using None by (metis find_by_None image_iff)
  have f: "find_by vi_key k (vd_violations (tabs c) @ [r]) = (if k = violation_key p then Some r else find_by vi_key k (vd_violations (tabs c)))" for k
    using None r(1) by (auto simp: find_by_append table_simps split: option.split)
  let ?u = "(tabs c)\<lparr>vd_violation_seq := vd_violation_seq (tabs c) + 1, vd_violations := vd_violations (tabs c) @ [r]\<rparr>"
  show ?thesis
  proof (rule that)
    show "recordViolation p c = (Inr r, c\<lparr>tabs := ?u\<rparr>)" using st assms by (simp add: recordViolation_def query_def)
    show "hits_of k ?u = hits_of k (tabs c) + (if violation_key p = k then 1 else 0)" for k
      using r(2) None by (cases "violation_key p = k") (auto simp: hits_of_def f)
    show "open_at (violation_key p) ?u" using r by (simp add: open_at_def f)
    show "open_at k ?u" if "open_at k (tabs c)" for k using that None by (auto simp: open_at_def f)
    show "distinct (map vi_key (vd_violations ?u))" if "distinct (map vi_key (vd_violations (tabs c)))" using that nn r(1) by simp
  qed
next
  case (Some old)
  let ?f = "redetect p (now (vd_main (tabs c)))"
  let ?u = "(tabs c)\<lparr>vd_violation_seq := vd_violation_seq (tabs c) + 1, vd_violations := update_by vi_key (violation_key p) ?f (vd_violations (tabs c))\<rparr>"
  have st: "violation_stmt p (tabs c) = Inr (?f old, ?u)" using Some by (simp add: violation_stmt_def Let_def)
  have key: "vi_key (?f r) = vi_key r" for r by (simp add: redetect_def)
  have f: "find_by vi_key k (vd_violations ?u) = (if k = violation_key p then Some (?f old) else find_by vi_key k (vd_violations (tabs c)))" for k
    using find_update_same [of vi_key ?f, OF key] find_update_other [of vi_key ?f, OF key] Some by simp
  have keys: "map vi_key (vd_violations ?u) = map vi_key (vd_violations (tabs c))" by (simp add: update_by_def key)
  show ?thesis
  proof (rule that)
    show "recordViolation p c = (Inr (?f old), c\<lparr>tabs := ?u\<rparr>)" using st assms by (simp add: recordViolation_def query_def)
    show "hits_of k ?u = hits_of k (tabs c) + (if violation_key p = k then 1 else 0)" for k
      unfolding hits_of_def f using Some by (cases "violation_key p = k") (auto simp: redetect_def)
    show "open_at (violation_key p) ?u" unfolding open_at_def f by (simp add: redetect_def)
    show "open_at k ?u" if "open_at k (tabs c)" for k using that unfolding open_at_def f by (auto simp: redetect_def)
    show "distinct (map vi_key (vd_violations ?u))" if "distinct (map vi_key (vd_violations (tabs c)))" using that by (simp only: keys)
  qed
qed

text \<open>C31. The log counts detections: recording any sequence of violations never gives a key a second row, raises the count of a key
  by exactly the number of times it was detected, and leaves every detected violation open, also one an admin had
  resolved before.\<close>

theorem log_counts_detections:
  assumes "\<not> aborted c" "distinct (map vi_key (vd_violations (tabs c)))"
  shows "distinct (map vi_key (vd_violations (tabs (record_all ps c)))) \<and>
    hits_of k (tabs (record_all ps c)) = hits_of k (tabs c) + int (length (filter (\<lambda>p. violation_key p = k) ps)) \<and>
    (k \<in> violation_key ` set ps \<or> open_at k (tabs c) \<longrightarrow> open_at k (tabs (record_all ps c)))"
  using assms
proof (induction ps arbitrary: c)
  case (Cons p ps)
  obtain r u where one: "recordViolation p c = (Inr r, c\<lparr>tabs := u\<rparr>)"
    "hits_of k u = hits_of k (tabs c) + (if violation_key p = k then 1 else 0)" "open_at (violation_key p) u"
    "open_at k (tabs c) \<Longrightarrow> open_at k u" "distinct (map vi_key (vd_violations u))"
    using record_one [OF Cons.prems(1), of p] Cons.prems(2) by metis
  have "record_all (p # ps) c = record_all ps (c\<lparr>tabs := u\<rparr>)" by (simp add: record_all_def one(1))
  then show ?case using Cons.IH [of "c\<lparr>tabs := u\<rparr>"] Cons.prems(1) one(2-5) by auto
qed (simp add: record_all_def)

definition demo_vdb :: vdb where
  "demo_vdb = \<lparr>vd_main = demo_db, vd_violations = [], vd_violation_seq = 0, vd_events = [], vd_event_seq = 0\<rparr>"

definition demo_detection :: violation_input where
  "demo_detection = \<lparr>in_type = Some ''drawdown_breach'', in_dedupe = None, in_severity = None, in_account = Some ''a1'', in_user = Some ''u1'',
     in_trade = None, in_instrument = None, in_source = None, in_message = None\<rparr>"

theorem log_counts_detections_witness:
  "hits_of ''drawdown_breach|a1|u1||'' (tabs (record_all [demo_detection, demo_detection] (conn_of demo_vdb))) = 2"
proof -
  have 1: "\<not> aborted (conn_of demo_vdb)" "distinct (map vi_key (vd_violations (tabs (conn_of demo_vdb))))"
    by (simp_all add: conn_of_def begin_tx_def demo_vdb_def)
  have 2: "violation_key demo_detection = ''drawdown_breach|a1|u1||''" by code_simp
  have "hits_of ''drawdown_breach|a1|u1||'' (tabs (conn_of demo_vdb)) = 0" by code_simp
  then show ?thesis using log_counts_detections [OF 1, of "[demo_detection, demo_detection]" "''drawdown_breach|a1|u1||''"] 2 by simp
qed

end
