(* ===== verification/Challenge.thy ===== *)
theory Challenge
  imports Engine Violations
begin

text \<open>
  challengeEngine.ts: the scheduled sweep over all active accounts. It expires, fails and passes accounts on their
  realised balance, grants the milestones of the scaling plan, and locks accounts that trade against each other. The
  accounts are taken one after the other and an operation runs without interleaving at its awaits, so a lock is
  never found taken. Decimals, quotes of the tenant and step models are arguments as in \<open>market\<close>; emails,
  notifications, logging and the texts of socket messages are left out.
\<close>

section \<open>State\<close>

datatype challenge_event =
    AccountExpired string
  | SweepFailed string string
  | DrawdownWarning string int
  | PromotionPending string int string
  | TradingDaysHold string num
  | ConsistencyHold string
  | ScalingUpgrade string num
  | OpposingLocked "string option" string "string list"

text \<open>The tables and the caches of the module: the level of the last warning and of the last holds, per account.\<close>

record sweep =
  sw_vdb :: vdb
  sw_warned :: "int jsmap"
  sw_consistency :: "bool jsmap"
  sw_days :: "num jsmap"
  sw_events :: "challenge_event list"

abbreviation sw_db :: "sweep \<Rightarrow> db" where
  "sw_db s \<equiv> vd_main (sw_vdb s)"

definition put_db :: "sweep \<Rightarrow> db \<Rightarrow> sweep" where
  "put_db s t = s\<lparr>sw_vdb := (sw_vdb s)\<lparr>vd_main := t\<rparr>\<rparr>"

text \<open>\<open>Math.pow\<close> is implementation-approximated, so it is a parameter, as are the Date of the pass and the settings.\<close>

record 'd sweep_market = "'d market" +
  sk_pow :: "num \<Rightarrow> num \<Rightarrow> num"
  sk_io :: bool

record platform =
  pf_funded_max :: num
  pf_inactive :: bool
  pf_inactive_days :: num

definition sweep_emit :: "'d sweep_market \<Rightarrow> challenge_event \<Rightarrow> sweep \<Rightarrow> sweep" where
  "sweep_emit m ev s = (if sk_io m then s\<lparr>sw_events := sw_events s @ [ev]\<rparr> else s)"

text \<open>A body between BEGIN and COMMIT, in which None stands for an early ROLLBACK; and statements on the pool.\<close>

definition or_rollback :: "(db, 'a option) tx \<Rightarrow> (db, 'a option) tx" where
  "or_rollback body c =
     (case body (begin_tx c) of
        (Inr (Some a), c') \<Rightarrow> (Inr (Some a), commit_tx c')
      | (r, c') \<Rightarrow> (r, rollback_tx c'))"

definition swept :: "(db, 'a option) tx \<Rightarrow> sweep \<Rightarrow> 'a option \<times> sweep" where
  "swept body s =
     (case or_rollback body (pool_conn (sw_db s)) of
        (Inr r, c) \<Rightarrow> (r, put_db s (tabs c))
      | (Inl _, c) \<Rightarrow> (None, put_db s (tabs c)))"

definition pooled :: "(db, 'a) tx \<Rightarrow> sweep \<Rightarrow> (js_error + 'a) \<times> sweep" where
  "pooled q s = (case q (pool_conn (sw_db s)) of (r, c) \<Rightarrow> (r, put_db s (tabs c)))"

definition on_logs :: "(vdb, 'a) tx \<Rightarrow> sweep \<Rightarrow> sweep" where
  "on_logs q s = s\<lparr>sw_vdb := tabs (snd (q (pool_conn (sw_vdb s))))\<rparr>"

section \<open>Settings and activity\<close>

definition fetchChallengeAutomationSettings :: "(string \<Rightarrow> string option) \<Rightarrow> bool \<times> num" where
  "fetchChallengeAutomationSettings sts =
     (sts ''inactivity_auto_fail_enabled'' \<noteq> Some ''false'', parse_int_str (setting sts ''inactivity_fail_days'' ''30''))"

definition platform_of :: "progression_settings \<Rightarrow> bool \<times> num \<Rightarrow> platform" where
  "platform_of cfg auto = \<lparr>pf_funded_max = ps_funded_max_dd cfg, pf_inactive = fst auto, pf_inactive_days = snd auto\<rparr>"

text \<open>The last time a trade of the account was opened or closed.\<close>

definition getLastTradeActivityAt :: "string \<Rightarrow> int option \<Rightarrow> db \<Rightarrow> int option" where
  "getLastTradeActivityAt i fallbackDate t =
     (let rs = filter (\<lambda>r. trade_account r = Some i) (trades t);
          times = List.map_filter trade_open_time rs @ List.map_filter trade_close_time rs
      in if times = [] then fallbackDate else Some (Max (set times)))"

definition count_expiry :: "day_count \<Rightarrow> day_count" where
  "count_expiry d = d\<lparr>day_expired := day_expired d + 1\<rparr>"

definition incrementBbookMetric :: "string \<Rightarrow> (db, unit) tx" where
  "incrementBbookMetric column =
     (let bump = (\<lambda>f. query (\<lambda>t. Inr ((), bump_day f t))) in
      if column = ''accounts_expired'' then bump count_expiry
      else if column = ''accounts_failed'' then bump count_failure
      else if column = ''accounts_passed'' then bump (\<lambda>d. d\<lparr>day_passed := day_passed d + 1\<rparr>)
      else if column = ''new_funded'' then bump (\<lambda>d. d\<lparr>day_funded := day_funded d + 1\<rparr>)
      else tx_throw (PlainError (''Unsupported bbook metric: '' @ column) None))"

section \<open>Closing the positions of an account\<close>

text \<open>The price a closed row gets: a quote, the price it was opened at, or what it has.\<close>

datatype exit_price = AtQuote num | AtOpen | AsBefore

definition exit_row :: "int \<Rightarrow> exit_price \<Rightarrow> num \<Rightarrow> string \<Rightarrow> trade \<Rightarrow> string + trade" where
  "exit_row t p pnl reason r =
     sum_bind (case p of
         AtQuote x \<Rightarrow> sum_bind (bind_num x) (\<lambda>q. sum_bind (numeric_scaled 15 5 q) (\<lambda>c. Inr (Some c)))
       | AtOpen \<Rightarrow> Inr (trade_open_price r)
       | AsBefore \<Rightarrow> Inr (trade_close_price r)) (\<lambda>price.
     sum_bind (bind_num pnl) (\<lambda>q. sum_bind (numeric15_2 q) (\<lambda>c.
       Inr (r\<lparr>trade_status := Some ''closed'', trade_close_price := price, trade_close_time := Some t, demo_pnl := Some c,
              trade_reason := Some reason\<rparr>))))"

definition exit_stmt :: "string \<Rightarrow> exit_price \<Rightarrow> num \<Rightarrow> string \<Rightarrow> db \<Rightarrow> string + unit \<times> db" where
  "exit_stmt i p pnl reason t =
     (case get_trade i t of
        None \<Rightarrow> Inr ((), t)
      | Some r \<Rightarrow> sum_bind (exit_row (now t) p pnl reason r) (\<lambda>r'. Inr ((), t\<lparr>trades := update_by trade_id i (\<lambda>_. r') (trades t)\<rparr>)))"

text \<open>On expiry an error of one trade is caught and the loop goes on.\<close>

definition expire_trade :: "'d sweep_market \<Rightarrow> trade \<Rightarrow> 'd \<Rightarrow> (db, 'd) tx" where
  "expire_trade m r summed =
     (case mt_tenant m (trade_instrument r) of
        None \<Rightarrow>
          tx_bind (tx_catch (query (exit_stmt (trade_id r) AsBefore (Fin 0) ''Account Expired'')) (\<lambda>_. tx_return ())) (\<lambda>_. tx_return summed)
      | Some q \<Rightarrow>
          (case row_pnl (market.truncate m) r (market_side r q) None of
             Inl _ \<Rightarrow> tx_return summed
           | Inr pnl \<Rightarrow>
               tx_bind (tx_catch (query (exit_stmt (trade_id r) (AtQuote (market_side r q)) pnl ''Account Expired'')) (\<lambda>_. tx_return ()))
                 (\<lambda>_. tx_return (da_plus (mt_arith m) summed (da_from (mt_arith m) pnl)))))"

fun each_trade :: "(trade \<Rightarrow> 'd \<Rightarrow> (db, 'd) tx) \<Rightarrow> trade list \<Rightarrow> 'd \<Rightarrow> (db, 'd) tx" where
  "each_trade f [] summed = tx_return summed"
| "each_trade f (r # rs) summed = tx_bind (f r summed) (each_trade f rs)"

definition fail_trade :: "'d sweep_market \<Rightarrow> string \<Rightarrow> trade \<Rightarrow> 'd \<Rightarrow> (db, 'd) tx" where
  "fail_trade m closeReason r summed =
     tx_catch
       (case mt_tenant m (trade_instrument r) of
          None \<Rightarrow> tx_bind (query (exit_stmt (trade_id r) AtOpen (Fin 0) closeReason)) (\<lambda>_. tx_return summed)
        | Some q \<Rightarrow>
            (case row_pnl (market.truncate m) r (market_side r q) None of
               Inl e \<Rightarrow> tx_throw (pnl_js_error e)
             | Inr pnl \<Rightarrow>
                 tx_bind (query (exit_stmt (trade_id r) (AtQuote (market_side r q)) pnl closeReason))
                   (\<lambda>_. tx_return (da_plus (mt_arith m) summed (da_from (mt_arith m) pnl)))))
       (\<lambda>_. tx_throw (PlainError (''Failed to close trade '' @ trade_id r @ '' while failing account'') None))"

text \<open>The rounded total is credited unless it is zero.\<close>

definition credit_total :: "'d sweep_market \<Rightarrow> string \<Rightarrow> 'd \<Rightarrow> (db, unit) tx" where
  "credit_total m i summed =
     (let D = mt_arith m; totalPnl = da_num D (da_cents D summed) in
      if totalPnl \<noteq> Fin 0 then tx_bind (query (credit_stmt i totalPnl)) (\<lambda>_. tx_return ()) else tx_return ())"

definition cancel_pending :: "string \<Rightarrow> string \<Rightarrow> (db, string list) tx" where
  "cancel_pending i reason = query (cancel_stmt (\<lambda>r. trade_account r = Some i \<and> trade_status r = Some ''pending'') reason)"

section \<open>Expiring an account\<close>

definition expire_body :: "'d sweep_market \<Rightarrow> string \<Rightarrow> (db, unit option) tx" where
  "expire_body m i =
     tx_bind (select (active_account i)) (\<lambda>locked.
       if locked = None then tx_return None
       else
         tx_bind (query (status_stmt_to i ''expired'')) (\<lambda>_.
         tx_bind (select (open_trades_of i)) (\<lambda>rows.
         tx_bind (each_trade (expire_trade m) rows (da_from (mt_arith m) (Fin 0))) (\<lambda>summed.
         tx_bind (credit_total m i summed) (\<lambda>_.
         tx_bind (cancel_pending i ''Account Expired'') (\<lambda>_.
         tx_bind (incrementBbookMetric ''accounts_expired'') (\<lambda>_. tx_return (Some ()))))))))"

definition expireAccount :: "'d sweep_market \<Rightarrow> account \<Rightarrow> sweep \<Rightarrow> sweep" where
  "expireAccount m acc s =
     (case swept (expire_body m (acc_id acc)) s of
        (Some _, s') \<Rightarrow> sweep_emit m (AccountExpired (acc_id acc)) s'
      | (None, s') \<Rightarrow> s')"

section \<open>Failing an account\<close>

record fail_options =
  fo_reason :: string
  fo_skip :: bool
  fo_violation :: string
  fo_action :: string

definition default_fail :: fail_options where
  "default_fail = \<lparr>fo_reason = ''Account Failed'', fo_skip = False, fo_violation = ''drawdown_breach'', fo_action = ''auto_fail_account''\<rparr>"

text \<open>\<open>new Decimal\<close> of the text of a column.\<close>

definition dec_of_col :: "'d engine_arith \<Rightarrow> jsval \<Rightarrow> js_error + 'd" where
  "dec_of_col D v = (case da_new D v of None \<Rightarrow> Inl (PlainError ''[DecimalError] Invalid argument'' None) | Some d \<Rightarrow> Inr d)"

definition account_drawdown :: "account \<Rightarrow> drawdown_account" where
  "account_drawdown a =
     \<lparr>dd_starting = numeric_val (starting_balance a), dd_peak = opt_money (eod_peak_equity a), dd_floor = opt_money (eod_trailing_floor a),
      dd_type = acc_type a\<rparr>"

definition account_model :: "model_lookup \<Rightarrow> account \<Rightarrow> step_model option" where
  "account_model lookup acc =
     (if acc_type acc = ''funded'' then (case given (challenge_model_slug acc) of None \<Rightarrow> None | Some slug \<Rightarrow> lookup slug) else None)"

definition locks_at :: "step_model option \<Rightarrow> num option" where
  "locks_at model = (case model of None \<Rightarrow> None | Some sm \<Rightarrow> map_option (\<lambda>q. parse_float (JNumeric q)) (sm_funded_locks_at sm))"

text \<open>The recheck under the lock: false when the drawdown does not justify the failure.\<close>

definition recheck :: "'d sweep_market \<Rightarrow> account \<Rightarrow> 'd \<Rightarrow> (db, bool) tx" where
  "recheck m acc balance =
     (let D = mt_arith m; model = account_model (mt_models m) acc in
      tx_bind (lift_sum (dec_of_col D (case model of None \<Rightarrow> pct_val (max_drawdown_pct acc) | Some sm \<Rightarrow> JNumeric (sm_funded_max_dd sm)))) (\<lambda>maxDd.
        if da_le D maxDd (da_from D (Fin 0)) then tx_return False
        else
          tx_bind (getEffectiveDrawdownFloor (acc_id acc) (account_drawdown acc) (da_num D balance) (da_num D maxDd) (locks_at model)) (\<lambda>flr.
            tx_return (\<not> da_le D (da_from D flr) balance))))"

definition failing_body :: "'d sweep_market \<Rightarrow> fail_options \<Rightarrow> string \<Rightarrow> (db, account option) tx" where
  "failing_body m opts i =
     tx_bind (select (active_account i)) (\<lambda>locked.
       case locked of
         None \<Rightarrow> tx_return None
       | Some acc \<Rightarrow>
           tx_bind (lift_sum (dec_of_col (mt_arith m) (numeric_val (current_balance acc)))) (\<lambda>balance.
           tx_bind (if fo_skip opts then tx_return True else recheck m acc balance) (\<lambda>justified.
             if \<not> justified then tx_return None
             else
               tx_bind (select (open_trades_of i)) (\<lambda>rows.
               tx_bind (each_trade (fail_trade m (fo_reason opts)) rows (da_from (mt_arith m) (Fin 0))) (\<lambda>summed.
               tx_bind (credit_total m i summed) (\<lambda>_.
               tx_bind (cancel_pending i (fo_reason opts)) (\<lambda>_.
               tx_bind (query (status_stmt_to i ''failed'')) (\<lambda>_.
               tx_bind (incrementBbookMetric ''accounts_failed'') (\<lambda>_. tx_return (Some acc))))))))))"

definition failAccount :: "'d sweep_market \<Rightarrow> account \<Rightarrow> string \<Rightarrow> fail_options \<Rightarrow> sweep \<Rightarrow> sweep" where
  "failAccount m acc0 reason opts s =
     (case swept (failing_body m opts (acc_id acc0)) s of
        (None, s') \<Rightarrow> s'
      | (Some acc, s') \<Rightarrow>
          sweep_emit m (SweepFailed (acc_id acc) reason)
            (on_logs (recordEnforcementEvent
               \<lparr>ei_rule = None, ei_account = Some (acc_id acc), ei_user = acc_user acc, ei_action = Some (fo_action opts),
                ei_status = Some ''applied'', ei_message = Some (''Account failed automatically: '' @ reason)\<rparr>)
             (on_logs (recordViolation
               \<lparr>in_type = Some (fo_violation opts), in_dedupe = None, in_severity = Some ''critical'', in_account = Some (acc_id acc),
                in_user = acc_user acc, in_trade = None, in_instrument = None, in_source = Some ''challenge_engine'',
                in_message = Some reason\<rparr>) s')))"

section \<open>Passing an account\<close>

definition profit_target_of :: "'d engine_arith \<Rightarrow> account \<Rightarrow> 'd \<Rightarrow> js_error + 'd" where
  "profit_target_of D acc starting =
     sum_bind (dec_of_col D (numeric_val (profit_target acc))) (\<lambda>target.
       Inr (if da_le D target (da_from D (Fin 0)) then da_times D starting (da_from D (mk (1/10))) else target))"

definition passing_body :: "'d sweep_market \<Rightarrow> string \<Rightarrow> (db, review option) tx" where
  "passing_body m i =
     (let D = mt_arith m in
      tx_bind (select (active_account i)) (\<lambda>locked.
        case locked of
          None \<Rightarrow> tx_return None
        | Some acc \<Rightarrow>
            tx_bind (lift_sum (dec_of_col D (numeric_val (starting_balance acc)))) (\<lambda>starting.
            tx_bind (lift_sum (profit_target_of D acc starting)) (\<lambda>target.
            tx_bind (lift_sum (dec_of_col D (numeric_val (current_balance acc)))) (\<lambda>balance.
              if \<not> da_le D target (da_minus D balance starting) then tx_return None
              else
                tx_bind (select (open_trades_of i)) (\<lambda>rows.
                  if rows \<noteq> [] then tx_return None
                  else
                    tx_bind (query (status_stmt_to i ''passed'')) (\<lambda>_.
                    tx_bind (createPromotionReview (mt_models m) (passed_row acc) ''auto_pass'' (Some ''Profit target reached'') None
                      [(''source'', JText ''challengeEngine''), (''account_type'', JText (acc_type acc)),
                       (''account_size'', numeric_val (acc_size acc))]) (\<lambda>rv.
                      case rv of
                        None \<Rightarrow> tx_throw (PlainError ''Failed to raise promotion review for passed account'' None)
                      | Some r \<Rightarrow> tx_return (Some r)))))))))"

definition passAccount :: "'d sweep_market \<Rightarrow> account \<Rightarrow> sweep \<Rightarrow> sweep" where
  "passAccount m acc s =
     (case swept (passing_body m (acc_id acc)) s of
        (None, s') \<Rightarrow> s'
      | (Some rv, s') \<Rightarrow> sweep_emit m (PromotionPending (acc_id acc) (rev_id rv) (rev_target rv)) s')"

end
