(* ===== verification/ChallengeSweep.thy ===== *)
theory ChallengeSweep
  imports Challenge
begin

text \<open>
  challengeEngine.ts continued: the scaling plan, the evaluation of one account, the detection of opposing trades
  and the sweep. The reasons of failures are cut to their constant beginning; distinct values of an aggregate come in
  the order of the table.
\<close>

section \<open>The scaling plan\<close>

record 'd grant_terms =
  gt_account :: string
  gt_per :: 'd
  gt_max :: num
  gt_step :: num
  gt_slug :: string

text \<open>The milestones from the last one claimed to the one reached; a Number of milestones is finite.\<close>

definition milestone_numbers :: "int \<Rightarrow> num \<Rightarrow> int list" where
  "milestone_numbers prev reached = (case reached of Fin q \<Rightarrow> [prev + 1..\<lfloor>q\<rfloor>] | _ \<Rightarrow> [])"

definition SCALING_SOURCE :: string where
  "SCALING_SOURCE = ''scaling_capital_increase''"

definition grant_one :: "'d engine_arith \<Rightarrow> 'd grant_terms \<Rightarrow> int \<Rightarrow> (db, adj_result) tx" where
  "grant_one D g k =
     applyBalanceAdjustment (gt_account g) (JNum (da_num D (gt_per g))) SCALING_SOURCE
       (''Scaling milestone '' @ int_str k @ '' reached ('' @ num_str (gt_step g) @ ''% net trading profit increments)'')
       ''system'' None None [(''milestone'', JNum (Fin (of_int k))), (''model_slug'', JText (gt_slug g))]"

text \<open>Stops once a whole milestone no longer fits below the largest account.\<close>

fun grant_milestones :: "'d engine_arith \<Rightarrow> 'd grant_terms \<Rightarrow> int list \<Rightarrow> 'd \<Rightarrow> 'd \<Rightarrow> (db, 'd \<times> 'd) tx" where
  "grant_milestones D g [] latest injected = tx_return (latest, injected)"
| "grant_milestones D g (k # ks) latest injected =
     (if nlt (Fin 0) (gt_max g) \<and> \<not> da_le D (da_plus D latest (gt_per g)) (da_from D (gt_max g)) then tx_return (latest, injected)
      else tx_bind (grant_one D g k) (\<lambda>adjustment.
        grant_milestones D g ks (da_from D (adj_after adjustment)) (da_plus D injected (gt_per g))))"

definition claim_row :: "rat \<Rightarrow> int \<Rightarrow> account \<Rightarrow> account" where
  "claim_row mult n a = a\<lparr>scaling_multiplier := mult, scaling_claimed := n\<rparr>"

text \<open>The guarded UPDATE; the columns are NUMERIC and INTEGER.\<close>

definition claim_stmt :: "string \<Rightarrow> num \<Rightarrow> num \<Rightarrow> db \<Rightarrow> string + account option \<times> db" where
  "claim_stmt i mult reached t =
     sum_bind (bind_num mult) (\<lambda>x. sum_bind (bind_num reached) (\<lambda>q.
       if of_int \<lfloor>q\<rfloor> \<noteq> q \<or> 2147483647 < \<bar>q\<bar> then Inl ''22003''
       else case get_account i t of
              None \<Rightarrow> Inr (None, t)
            | Some a \<Rightarrow>
                if scaling_claimed a < \<lfloor>q\<rfloor> then Inr (Some (claim_row x \<lfloor>q\<rfloor> a), put_account i (claim_row x \<lfloor>q\<rfloor>) t)
                else Inr (None, t)))"

record scaling_terms =
  sc_milestone :: num
  sc_factor :: num
  sc_max_size :: num
  sc_increase :: num
  sc_slug :: string

definition scaling_terms_of :: "step_model \<Rightarrow> string \<Rightarrow> scaling_terms" where
  "scaling_terms_of model slug =
     \<lparr>sc_milestone = parse_float (JNumeric (sm_scaling_target model)), sc_factor = parse_float (JNumeric (sm_scaling_multiplier model)),
      sc_max_size = Fin (of_int (sm_scaling_max_size model)),
      sc_increase = (case sm_scaling_increase model of None \<Rightarrow> Fin 0 | Some q \<Rightarrow> parse_float (JNumeric q)), sc_slug = slug\<rparr>"

text \<open>The trading profit in percent: the balance less the starting balance and everything the ledger has added.\<close>

definition net_profit_pct :: "account \<Rightarrow> num \<Rightarrow> num" where
  "net_profit_pct locked injected =
     (let starting = parse_float (numeric_val (starting_balance locked)) in
      nmul (ndiv (nsub (nsub (parse_float (numeric_val (current_balance locked))) starting) injected) starting) (Fin 100))"

definition scaling_body :: "'d sweep_market \<Rightarrow> scaling_terms \<Rightarrow> string \<Rightarrow> (db, (num \<times> int) option) tx" where
  "scaling_body m sc i =
     (let D = mt_arith m in
      tx_bind (select (get_account i)) (\<lambda>found.
        case found of
          None \<Rightarrow> tx_return None
        | Some locked \<Rightarrow>
            (let starting = parse_float (numeric_val (starting_balance locked)) in
             if \<not> nlt (Fin 0) starting then tx_return None
             else
               tx_bind (select (ledger_sum i)) (\<lambda>added.
                 let pct = net_profit_pct locked (parse_float (numeric_val added));
                     reached = math_floor (ndiv pct (sc_milestone sc));
                     prev = scaling_claimed locked
                 in if nle pct (Fin 0) then tx_return None
                    else if nle reached (Fin (of_int prev)) then tx_return None
                    else
                      (let raw = sk_pow m (sc_factor sc) reached;
                           cap = (if nlt (Fin 0) (sc_max_size sc) then ndiv (sc_max_size sc) starting else raw);
                           terms = \<lparr>gt_account = i, gt_per = da_div D (da_times D (da_from D starting) (da_from D (sc_increase sc))) (da_from D (Fin 100)),
                                    gt_max = sc_max_size sc, gt_step = sc_milestone sc, gt_slug = sc_slug sc\<rparr>
                       in tx_bind
                            (if nlt (Fin 0) (sc_increase sc)
                             then tx_bind (grant_milestones D terms (milestone_numbers prev reached)
                                    (da_from D (parse_float (numeric_val (current_balance locked)))) (da_from D (Fin 0))) (\<lambda>_. tx_return ())
                             else tx_return ()) (\<lambda>_.
                          tx_bind (query (claim_stmt i (nmin raw cap) reached)) (\<lambda>claimed.
                            case claimed of
                              None \<Rightarrow> tx_return None
                            | Some a \<Rightarrow> tx_return (Some (nmin raw cap, scaling_claimed a)))))))))"

definition evaluateScalingPlan :: "'d sweep_market \<Rightarrow> account \<Rightarrow> sweep \<Rightarrow> sweep" where
  "evaluateScalingPlan m acc s =
     (case given (challenge_model_slug acc) of
        None \<Rightarrow> s
      | Some slug \<Rightarrow>
          (case mt_models m slug of
             None \<Rightarrow> s
           | Some model \<Rightarrow>
               (let sc = scaling_terms_of model slug in
                if \<not> sm_scaling_enabled model \<or> \<not> nlt (Fin 0) (sc_milestone sc) \<or> \<not> nlt (Fin 1) (sc_factor sc) then s
                else case swept (scaling_body m sc (acc_id acc)) s of
                       (None, s') \<Rightarrow> s'
                     | (Some (mult, _), s') \<Rightarrow> sweep_emit m (ScalingUpgrade (acc_id acc) mult) s')))"

section \<open>One account\<close>

definition phase_over :: "int \<Rightarrow> account \<Rightarrow> bool" where
  "phase_over t acc \<longleftrightarrow> acc_type acc \<noteq> ''funded'' \<and> (case phase_end acc of None \<Rightarrow> False | Some x \<Rightarrow> x \<le> t)"

definition inactive :: "'d sweep_market \<Rightarrow> platform \<Rightarrow> account \<Rightarrow> db \<Rightarrow> bool" where
  "inactive m cfg acc t =
     (if acc_type acc \<noteq> ''funded'' \<and> pf_inactive cfg \<and> nlt (Fin 0) (pf_inactive_days cfg) then
        (let fallback = (case phase_start acc of Some x \<Rightarrow> x | None \<Rightarrow> (case created_at acc of Some x \<Rightarrow> x | None \<Rightarrow> mt_time m));
             days = pf_inactive_days cfg
         in case getLastTradeActivityAt (acc_id acc) (Some fallback) t of
              None \<Rightarrow> False
            | Some x \<Rightarrow> nle (nmul (nmul (nmul (nmul days (Fin 24)) (Fin 60)) (Fin 60)) (Fin 1000)) (Fin (of_int (mt_time m - x))))
      else False)"

definition inactivity_fail :: fail_options where
  "inactivity_fail = \<lparr>fo_reason = ''Inactivity Auto-Fail'', fo_skip = True, fo_violation = ''inactivity_auto_fail'',
     fo_action = ''auto_fail_inactive_account''\<rparr>"

definition daily_fail :: fail_options where
  "daily_fail = \<lparr>fo_reason = ''Daily Loss Limit Breach'', fo_skip = False, fo_violation = ''daily_loss_limit_breach'',
     fo_action = ''auto_fail_daily_loss_limit''\<rparr>"

text \<open>The limits of the account: the drawdown, the daily loss and where the floor locks.\<close>

definition sweep_limits :: "'d sweep_market \<Rightarrow> platform \<Rightarrow> account \<Rightarrow> js_error + 'd \<times> num option \<times> num option" where
  "sweep_limits m cfg acc =
     (let D = mt_arith m in
      sum_bind (if acc_type acc = ''funded'' then Inr (da_from D (pf_funded_max cfg)) else dec_of_col D (pct_val (max_drawdown_pct acc))) (\<lambda>own.
        case account_model (mt_models m) acc of
          None \<Rightarrow> Inr (own, map_option (\<lambda>c. parse_float (pct_val c)) (daily_drawdown_pct acc), None)
        | Some model \<Rightarrow>
            sum_bind (dec_of_col D (JNumeric (sm_funded_max_dd model))) (\<lambda>mx.
              Inr (mx, Some (parse_float (JNumeric (sm_funded_daily_dd model))), locks_at (Some model)))))"

definition warning_level :: "num \<Rightarrow> int option" where
  "warning_level p =
     (if nle (Fin 90) p \<and> nlt p (Fin 100) then Some 90
      else if nle (Fin 75) p \<and> nlt p (Fin 90) then Some 75
      else if nle (Fin 50) p \<and> nlt p (Fin 75) then Some 50
      else if nle (Fin 25) p \<and> nlt p (Fin 50) then Some 25
      else None)"

definition warn_drawdown :: "'d sweep_market \<Rightarrow> account \<Rightarrow> 'd \<Rightarrow> 'd \<Rightarrow> 'd \<Rightarrow> sweep \<Rightarrow> sweep" where
  "warn_drawdown m acc starting balance maxDd s =
     (let D = mt_arith m; used = da_times D (da_div D (da_minus D starting balance) starting) (da_from D (Fin 100)) in
      if \<not> sk_io m \<or> da_le D used (da_from D (Fin 0)) then s
      else case warning_level (da_num D (da_times D (da_div D used maxDd) (da_from D (Fin 100)))) of
             None \<Rightarrow> s
           | Some level \<Rightarrow>
               if jm_get (sw_warned s) (acc_id acc) = Some level then s
               else sweep_emit m (DrawdownWarning (acc_id acc) level) (s\<lparr>sw_warned := jm_set (acc_id acc) level (sw_warned s)\<rparr>))"

text \<open>Whether the loss of the day has reached its limit.\<close>

definition daily_limit_hit :: "'d sweep_market \<Rightarrow> account \<Rightarrow> 'd \<Rightarrow> num option \<Rightarrow> db \<Rightarrow> bool" where
  "daily_limit_hit m acc starting daily t =
     (let D = mt_arith m in
      case daily of
        None \<Rightarrow> False
      | Some limit \<Rightarrow>
          (if nlt (Fin 0) limit \<and> \<not> da_le D starting (da_from D (Fin 0)) then
             (let today = da_from D (case todayRealizedPnl (mt_time m) [acc_id acc] t (acc_id acc) of None \<Rightarrow> Fin 0 | Some x \<Rightarrow> x) in
              da_negative D today \<and>
              da_le D (da_from D limit) (da_times D (da_div D (da_abs D today) starting) (da_from D (Fin 100))))
           else False))"

text \<open>The holds on an account that has reached its target: True when it may pass now.\<close>

definition trading_days_hold :: "'d sweep_market \<Rightarrow> account \<Rightarrow> sweep \<Rightarrow> (js_error + bool) \<times> sweep" where
  "trading_days_hold m acc s =
     (let need = (case min_trading_days acc of None \<Rightarrow> 0 | Some n \<Rightarrow> n) in
      if need \<le> 0 then (Inr True, s)
      else case pooled (countQualifyingTradingDays (acc_id acc) (numeric_val (starting_balance acc))
                  (case min_daily_profit_pct acc of None \<Rightarrow> JNull | Some c \<Rightarrow> pct_val c)) s of
             (Inl e, s') \<Rightarrow> (Inl e, s')
           | (Inr days, s') \<Rightarrow>
               if nlt days (Fin (of_int need)) then
                 (let remaining = nsub (Fin (of_int need)) days in
                  (Inr False,
                   if sk_io m \<and> jm_get (sw_days s') (acc_id acc) \<noteq> Some remaining
                   then sweep_emit m (TradingDaysHold (acc_id acc) remaining) (s'\<lparr>sw_days := jm_set (acc_id acc) remaining (sw_days s')\<rparr>)
                   else s'))
               else (Inr True, s'\<lparr>sw_days := jm_del (acc_id acc) (sw_days s')\<rparr>))"

definition consistency_hold :: "'d sweep_market \<Rightarrow> account \<Rightarrow> num \<Rightarrow> sweep \<Rightarrow> bool \<times> sweep" where
  "consistency_hold m acc profit s =
     (case consistency_max_day_pct acc of
        None \<Rightarrow> (True, s)
      | Some c \<Rightarrow>
          (if \<not> nlt (Fin 0) (parse_float (pct_val c)) then (True, s)
           else if \<not> cr_ok (checkConsistencyRule (acc_id acc) profit (parse_float (pct_val c)) (sw_db s)) then
             (False,
              if sk_io m \<and> jm_get (sw_consistency s) (acc_id acc) \<noteq> Some True
              then sweep_emit m (ConsistencyHold (acc_id acc)) (s\<lparr>sw_consistency := jm_set (acc_id acc) True (sw_consistency s)\<rparr>)
              else s)
           else (True, s\<lparr>sw_consistency := jm_del (acc_id acc) (sw_consistency s)\<rparr>)))"

definition try_pass :: "'d sweep_market \<Rightarrow> account \<Rightarrow> 'd \<Rightarrow> 'd \<Rightarrow> sweep \<Rightarrow> sweep" where
  "try_pass m acc starting balance s =
     (let D = mt_arith m; profit = da_minus D balance starting in
      case profit_target_of D acc starting of
        Inl _ \<Rightarrow> s
      | Inr target \<Rightarrow>
          if \<not> da_le D target profit then s
          else if open_trades_of (acc_id acc) (sw_db s) \<noteq> [] then s
          else case trading_days_hold m acc s of
                 (Inr True, s1) \<Rightarrow>
                   (case consistency_hold m acc (da_num D profit) s1 of
                      (True, s2) \<Rightarrow> passAccount m acc s2
                    | (False, s2) \<Rightarrow> s2)
               | (_, s1) \<Rightarrow> s1)"

text \<open>Whether the balance has reached the floor; the anchors are raised on the pool.\<close>

definition floor_reached :: "'d sweep_market \<Rightarrow> account \<Rightarrow> 'd \<Rightarrow> 'd \<Rightarrow> num option \<Rightarrow> sweep \<Rightarrow> (js_error + bool) \<times> sweep" where
  "floor_reached m acc balance maxDd locks s =
     (let D = mt_arith m in
      case pooled (getEffectiveDrawdownFloor (acc_id acc) (account_drawdown acc) (da_num D balance) (da_num D maxDd) locks) s of
        (Inl e, s') \<Rightarrow> (Inl e, s')
      | (Inr flr, s') \<Rightarrow> (Inr (da_le D balance (da_from D flr)), s'))"

text \<open>From the daily loss on.\<close>

definition process_rest :: "'d sweep_market \<Rightarrow> account \<Rightarrow> 'd \<Rightarrow> 'd \<Rightarrow> num option \<Rightarrow> sweep \<Rightarrow> sweep" where
  "process_rest m acc starting balance daily s =
     (if daily_limit_hit m acc starting daily (sw_db s) then failAccount m acc ''daily loss limit breach'' daily_fail s
      else if acc_type acc = ''funded'' then evaluateScalingPlan m acc s
      else try_pass m acc starting balance s)"

definition processAccount :: "'d sweep_market \<Rightarrow> platform \<Rightarrow> account \<Rightarrow> sweep \<Rightarrow> sweep" where
  "processAccount m cfg acc s =
     (let D = mt_arith m in
      if phase_over (mt_time m) acc then expireAccount m acc s
      else if inactive m cfg acc (sw_db s) then failAccount m acc ''no trade activity'' inactivity_fail s
      else case (dec_of_col D (numeric_val (current_balance acc)), dec_of_col D (numeric_val (starting_balance acc)), sweep_limits m cfg acc) of
             (Inr balance, Inr starting, Inr (maxDd, daily, locks)) \<Rightarrow>
               if da_le D starting (da_from D (Fin 0)) then process_rest m acc starting balance daily s
               else
                 (case floor_reached m acc balance maxDd locks (warn_drawdown m acc starting balance maxDd s) of
                    (Inl _, s') \<Rightarrow> s'
                  | (Inr True, s') \<Rightarrow> failAccount m acc ''trailing drawdown breach'' default_fail s'
                  | (Inr False, s') \<Rightarrow> process_rest m acc starting balance daily s')
           | _ \<Rightarrow> s)"

end
