(* ===== verification/EnginePasses.thy ===== *)
theory EnginePasses
  imports Engine
begin

text \<open>
  services/tradeEngine.ts, the three passes of the interval engine: checkSLTP closes or defers triggered trades,
  checkPendingOrders fills or cancels pending orders, checkFloatingDrawdown fails and passes accounts on their
  floating equity and raises the drawdown anchors.
\<close>

section \<open>Stops and targets\<close>

datatype sltp_action = NoTrigger | DeferTo num string | CloseAt num string

text \<open>The trading time of a trade in seconds is below the minimum.\<close>

definition within_hold :: "trading_rules \<Rightarrow> int \<Rightarrow> int option \<Rightarrow> bool" where
  "within_hold rules t opened =
     (case opened of None \<Rightarrow> False | Some x \<Rightarrow> nlt (ndiv (Fin (of_int (t - x))) (Fin 1000)) (ru_min_hold rules))"

definition crossed :: "string \<Rightarrow> bool \<Rightarrow> num \<Rightarrow> num \<Rightarrow> bool" where
  "crossed direction stop currentPrice level =
     (if direction = ''buy'' then (if stop then nle currentPrice level else nle level currentPrice)
      else if direction = ''sell'' then (if stop then nle level currentPrice else nle currentPrice level) else False)"

definition live_trigger :: "trade \<Rightarrow> num \<Rightarrow> (num \<times> string) option" where
  "live_trigger r currentPrice =
     (case map_option (\<lambda>q. parse_float (JNumeric q)) (trade_sl r) of
        Some sl \<Rightarrow> if crossed (trade_direction r) True currentPrice sl then Some (sl, ''Stop Loss'') else None
      | None \<Rightarrow> None)"

definition live_target :: "trade \<Rightarrow> num \<Rightarrow> (num \<times> string) option" where
  "live_target r currentPrice =
     (case map_option (\<lambda>q. parse_float (JNumeric q)) (trade_tp r) of
        Some tp \<Rightarrow> if crossed (trade_direction r) False currentPrice tp then Some (tp, ''Take Profit'') else None
      | None \<Rightarrow> None)"

definition sltp_decide :: "trading_rules \<Rightarrow> int \<Rightarrow> trade \<Rightarrow> quote \<Rightarrow> sltp_action" where
  "sltp_decide rules t r price =
     (let currentPrice = market_side r price; held = within_hold rules t (trade_open_time r) in
      if \<not> held \<and> trade_deferred_price r \<noteq> None then
        CloseAt (parse_float (opt_numeric (trade_deferred_price r)))
          (case given (trade_deferred_reason r) of None \<Rightarrow> ''Stop Loss'' | Some x \<Rightarrow> x)
      else case (case live_trigger r currentPrice of Some x \<Rightarrow> Some x | None \<Rightarrow> live_target r currentPrice) of
             None \<Rightarrow> NoTrigger
           | Some (level, reason) \<Rightarrow> if held then DeferTo level reason else CloseAt currentPrice reason)"

text \<open>None when the trade is no longer open, else its result.\<close>

definition close_trade_body :: "'d market \<Rightarrow> trade \<Rightarrow> num \<Rightarrow> string \<Rightarrow> (db, num option) tx" where
  "close_trade_body m r fillPrice closeReason =
     tx_bind (select (get_trade (trade_id r))) (\<lambda>locked.
       if (case locked of None \<Rightarrow> True | Some x \<Rightarrow> trade_status x \<noteq> Some ''open'') then tx_return None
       else tx_bind (lift_sum (case row_pnl m r fillPrice None of Inl e \<Rightarrow> Inl (pnl_js_error e) | Inr p \<Rightarrow> Inr p)) (\<lambda>pnl.
            tx_bind (query (close_stmt (\<lambda>_. True) clear_deferred
               [\<lparr>cl_trade = trade_id r, cl_price = fillPrice, cl_pnl = pnl, cl_reason = closeReason\<rparr>])) (\<lambda>_.
            tx_bind (query (credit_stmt (text_or_empty (trade_account r)) pnl)) (\<lambda>_. tx_return (Some pnl)))))"

definition close_trade :: "'d market \<Rightarrow> trade \<Rightarrow> string option \<Rightarrow> num \<Rightarrow> string \<Rightarrow> engine \<Rightarrow> engine" where
  "close_trade m r user fillPrice closeReason e =
     (case in_transaction (close_trade_body m r fillPrice closeReason) e of
        (Inr (Some pnl), e') \<Rightarrow>
          emit (TradeClosed user closeReason pnl)
            (e'\<lparr>en_index := applyRealizedPnl (mt_time m) (text_or_empty (trade_account r)) (JNum pnl) (snd (removeTrade (trade_id r) (en_index e')))\<rparr>)
      | (_, e') \<Rightarrow> e')"

definition sltp_step :: "'d market \<Rightarrow> trade \<times> account \<Rightarrow> engine \<Rightarrow> engine" where
  "sltp_step m ra e =
     (let (r, a) = ra in
      case getLivePriceMap m (trade_instrument r) of
        None \<Rightarrow> e
      | Some price \<Rightarrow>
          (case sltp_decide (mt_rules m) (mt_time m) r price of
             NoTrigger \<Rightarrow> e
           | DeferTo level reason \<Rightarrow> snd (on_pool (query (defer_stmt [(trade_id r, level, reason)])) e)
           | CloseAt price reason \<Rightarrow> close_trade m r (acc_user a) price reason e))"

text \<open>The trades joined with their accounts.\<close>

definition joined :: "(trade \<Rightarrow> account \<Rightarrow> bool) \<Rightarrow> db \<Rightarrow> (trade \<times> account) list" where
  "joined sel t =
     List.map_filter (\<lambda>r. case trade_account r of
         None \<Rightarrow> None
       | Some i \<Rightarrow> (case get_account i t of None \<Rightarrow> None | Some a \<Rightarrow> if sel r a then Some (r, a) else None)) (trades t)"

definition sltp_rows :: "db \<Rightarrow> (trade \<times> account) list" where
  "sltp_rows =
     joined (\<lambda>r a. trade_status r = Some ''open'' \<and> acc_status a = Some ''active'' \<and>
       (trade_sl r \<noteq> None \<or> trade_tp r \<noteq> None \<or> trade_deferred_price r \<noteq> None))"

definition checkSLTP :: "'d market \<Rightarrow> engine \<Rightarrow> engine" where
  "checkSLTP m e = fold (sltp_step m) (sltp_rows (en_db e)) e"

section \<open>Pending orders\<close>

record pending_order =
  po_id :: string
  po_account :: string
  po_user :: "string option"
  po_instrument :: string
  po_direction :: string
  po_lots :: jsval
  po_type :: string
  po_oco :: "string option"

definition cancelPendingOrder :: "string \<Rightarrow> string \<Rightarrow> engine \<Rightarrow> engine" where
  "cancelPendingOrder orderId reason e =
     (case on_pool (query (cancel_stmt (\<lambda>r. trade_id r = orderId) reason)) e of
        (_, e') \<Rightarrow> e'\<lparr>en_index := snd (removePending orderId (en_index e'))\<rparr>)"

text \<open>None when the order may be filled, else why not.\<close>

definition validatePendingTrigger :: "trading_rules \<Rightarrow> pending_order \<Rightarrow> db \<Rightarrow> string option" where
  "validatePendingTrigger rules order t =
     (let lotsNum = parse_float (po_lots order) in
      if is_nan lotsNum \<or> nle lotsNum (Fin 0) then Some ''Invalid lot size on pending order''
      else if get_account (po_account order) t = None then Some ''Account not found during pending order trigger''
      else
        (let currentOpenCount = length (filter (\<lambda>r. trade_account r = Some (po_account order) \<and>
               (trade_status r = Some ''open'' \<or> trade_status r = Some ''pending'') \<and> trade_id r \<noteq> po_id order) (trades t))
         in if nlt (ru_max_open rules) (Fin (of_nat currentOpenCount + 1))
            then Some (''Pending order exceeds max open trades ('' @ num_str (ru_max_open rules) @ '')'') else None))"

definition open_stmt :: "string \<Rightarrow> num \<Rightarrow> db \<Rightarrow> string + trade option \<times> db" where
  "open_stmt i price t =
     sum_bind (bind_num price) (\<lambda>q. sum_bind (numeric_scaled 15 5 q) (\<lambda>p.
       let f = (\<lambda>r. r\<lparr>trade_status := Some ''open'', trade_open_price := Some p, trade_open_time := Some (now t), trade_reason := None\<rparr>)
       in Inr (map_option f (get_trade i t), t\<lparr>trades := update_by trade_id i f (trades t)\<rparr>)))"

definition index_trade_row :: "trade \<Rightarrow> trade_row" where
  "index_trade_row r =
     \<lparr>tr_id = trade_id r, tr_account = text_or_empty (trade_account r), tr_instrument = trade_instrument r, tr_direction = trade_direction r,
      tr_lots = JNumeric (trade_lots r), tr_open = opt_numeric (trade_open_price r), tr_sl = opt_numeric (trade_sl r),
      tr_tp = opt_numeric (trade_tp r), tr_commission = opt_money (trade_commission r), tr_open_time = trade_open_time r,
      tr_pending_close = JUndef, tr_pending_reason = None\<rparr>"

datatype fill_result = NotPending | Refused string | Filled "trade option" "string list"

definition fill_body :: "trading_rules \<Rightarrow> pending_order \<Rightarrow> num \<Rightarrow> (db, fill_result) tx" where
  "fill_body rules order open_price =
     tx_bind (select (get_trade (po_id order))) (\<lambda>locked.
       if (case locked of None \<Rightarrow> True | Some x \<Rightarrow> trade_status x \<noteq> Some ''pending'') then tx_return NotPending
       else tx_bind (select (validatePendingTrigger rules order)) (\<lambda>limitError.
         case limitError of
           Some reason \<Rightarrow> tx_bind (query (cancel_stmt (\<lambda>r. trade_id r = po_id order) reason)) (\<lambda>_. tx_return (Refused reason))
         | None \<Rightarrow>
             tx_bind (query (open_stmt (po_id order) open_price)) (\<lambda>activated.
             tx_bind (case given (po_oco order) of
                 None \<Rightarrow> tx_return []
               | Some g \<Rightarrow> query (cancel_stmt (\<lambda>r. trade_oco r = Some g \<and> trade_id r \<noteq> po_id order \<and> trade_status r = Some ''pending'')
                                    ''OCO sibling triggered'')) (\<lambda>siblings.
               tx_return (Filled activated siblings)))))"

definition fillPendingOrder :: "'d market \<Rightarrow> pending_order \<Rightarrow> quote \<Rightarrow> engine \<Rightarrow> engine" where
  "fillPendingOrder m order price e =
     (let open_price = (if po_direction order = ''buy'' then q_ask price else q_bid price) in
      case in_transaction (fill_body (mt_rules m) order open_price) e of
        (Inr (Refused _), e') \<Rightarrow> e'\<lparr>en_index := snd (removePending (po_id order) (en_index e'))\<rparr>
      | (Inr (Filled activated siblings), e') \<Rightarrow>
          (let ix = fold (\<lambda>k x. snd (removePending k x)) (po_id order # siblings) (en_index e');
               ix' = (case activated of None \<Rightarrow> ix
                      | Some r \<Rightarrow> snd (addOpenTradeToIndex (mt_env m) (mt_cache m) (mt_time m) (Some (index_trade_row r)) None ix))
           in emit (OrderFilled (po_user order) (po_type order) open_price) (e'\<lparr>en_index := ix'\<rparr>))
      | (_, e') \<Rightarrow> e')"

definition order_of_row :: "trade \<Rightarrow> account \<Rightarrow> pending_order" where
  "order_of_row r a =
     \<lparr>po_id = trade_id r, po_account = text_or_empty (trade_account r), po_user = acc_user a, po_instrument = trade_instrument r,
      po_direction = trade_direction r, po_lots = JNumeric (trade_lots r), po_type = text_or_empty (trade_order_type r), po_oco = trade_oco r\<rparr>"

definition pending_step :: "'d market \<Rightarrow> trade \<times> account \<Rightarrow> engine \<Rightarrow> engine" where
  "pending_step m ra e =
     (let (r, a) = ra in
      if acc_status a \<noteq> Some ''active'' then cancelPendingOrder (trade_id r) ''Account inactive'' e
      else if (case phase_end a of None \<Rightarrow> False | Some x \<Rightarrow> x \<le> mt_time m) then cancelPendingOrder (trade_id r) ''Challenge phase expired'' e
      else if \<not> fst (getMarketStatus ''open'' (mt_time m)) then e
      else case getLivePriceMap m (trade_instrument r) of
             None \<Rightarrow> e
           | Some price \<Rightarrow>
               if isPendingTriggered (text_or_empty (trade_order_type r)) (Some (parse_float (opt_numeric (trade_pending_price r)))) price
               then fillPendingOrder m (order_of_row r a) price e else e)"

definition checkPendingOrders :: "'d market \<Rightarrow> engine \<Rightarrow> engine" where
  "checkPendingOrders m e =
     fold (pending_step m) (joined (\<lambda>r a. trade_status r = Some ''pending'') (en_db e)) e"

section \<open>Floating equity\<close>

text \<open>The floating result of the trades that have a price and a rate.\<close>

definition floating_pnl :: "'d market \<Rightarrow> (string \<Rightarrow> quote option) \<Rightarrow> trade list \<Rightarrow> js_error + 'd" where
  "floating_pnl m prices rows =
     (let D = mt_arith m in
      sum_bind (each (\<lambda>r. case prices (trade_instrument r) of
          None \<Rightarrow> Inr None
        | Some q \<Rightarrow>
            (case getUsdRateForInstrument (mt_env m) (mt_cache m) (Some (trade_instrument r)) of
               Inl _ \<Rightarrow> Inr None
             | Inr usdRate \<Rightarrow>
                 (case row_pnl m r (market_side r q) (Some usdRate) of Inl e \<Rightarrow> Inl (pnl_js_error e) | Inr p \<Rightarrow> Inr (Some p)))) rows) (\<lambda>ps.
        Inr (foldl (\<lambda>d p. case p of None \<Rightarrow> d | Some x \<Rightarrow> da_plus D d (da_from D x)) (da_from D (Fin 0)) ps)))"

record limits =
  lm_max :: num
  lm_daily :: "num option"
  lm_locks :: "num option"

definition funded_limits :: "model_lookup \<Rightarrow> engine_account \<Rightarrow> limits" where
  "funded_limits lookup acc =
     (let own = \<lparr>lm_max = eg_max_dd acc, lm_daily = eg_daily acc, lm_locks = None\<rparr> in
      if eg_type acc = ''funded'' then
        (case given (eg_slug acc) of
           None \<Rightarrow> own
         | Some slug \<Rightarrow>
             (case lookup slug of
                None \<Rightarrow> own
              | Some model \<Rightarrow>
                  let mx = parse_float (JNumeric (sm_funded_max_dd model)) in
                  if is_finite mx then
                    \<lparr>lm_max = mx, lm_daily = Some (parse_float (JNumeric (sm_funded_daily_dd model))),
                     lm_locks = map_option (\<lambda>q. parse_float (JNumeric q)) (sm_funded_locks_at model)\<rparr>
                  else own))
      else own)"

text \<open>The loss of the day, in percent of the starting balance.\<close>

definition day_loss_pct :: "'d engine_arith \<Rightarrow> num \<Rightarrow> 'd \<Rightarrow> num \<Rightarrow> 'd" where
  "day_loss_pct D todayRealized floating starting =
     (let todayTotal = da_plus D (da_from D todayRealized) floating in
      if da_negative D todayTotal then da_times D (da_div D (da_abs D todayTotal) (da_from D starting)) (da_from D (Fin 100))
      else da_from D (Fin 0))"

definition daily_breach :: "'d engine_arith \<Rightarrow> num option \<Rightarrow> num \<Rightarrow> 'd \<Rightarrow> bool" where
  "daily_breach D daily starting lossPct =
     (case daily of
        None \<Rightarrow> False
      | Some x \<Rightarrow> is_finite x \<and> nlt (Fin 0) x \<and> nlt (Fin 0) starting \<and> da_le D (da_from D x) lossPct)"

definition drawdown_of :: "engine_account \<Rightarrow> drawdown_account" where
  "drawdown_of acc = \<lparr>dd_starting = JNum (eg_starting acc), dd_peak = eg_eod_peak acc, dd_floor = eg_eod_floor acc, dd_type = eg_type acc\<rparr>"

datatype account_verdict = Hold | Fail | Pass

text \<open>What the pass does with one account, and the anchors it raises.\<close>

definition floating_verdict :: "'d market \<Rightarrow> num option \<Rightarrow> engine_account \<Rightarrow> 'd \<Rightarrow> account_verdict \<times> (string \<times> dirty_peak) option" where
  "floating_verdict m todayRealized acc floating =
     (let D = mt_arith m; equity = da_plus D (da_from D (eg_balance acc)) floating; lim = funded_limits (mt_models m) acc in
      if \<not> nlt (Fin 0) (lm_max lim) then (Hold, None)
      else
        (let resolved = resolveEffectiveFloor (drawdown_of acc) (da_num D equity) (lm_max lim) (lm_locks lim);
             anchors = (if rs_peak_changed resolved \<or> rs_locked_changed resolved
               then Some (eg_id acc, \<lparr>dp_peak = (if rs_peak_changed resolved then Some (rs_peak resolved) else None),
                                     dp_floor = (if rs_locked_changed resolved then rs_locked resolved else None)\<rparr>) else None);
             lossPct = day_loss_pct D (case todayRealized of None \<Rightarrow> Fin 0 | Some x \<Rightarrow> x) floating (eg_starting acc);
             target = (if nle (eg_target acc) (Fin 0) then nmul (eg_starting acc) (mk (1/10)) else eg_target acc)
         in (if da_le D equity (da_from D (rs_floor resolved)) then Fail
             else if daily_breach D (lm_daily lim) (eg_starting acc) lossPct then Fail
             else if eg_type acc = ''funded'' \<or> eg_type acc = ''competition'' then Hold
             else if da_le D (da_from D target) (da_minus D equity (da_from D (eg_starting acc))) then Pass else Hold, anchors)))"

text \<open>\<open>Object.entries\<close> of the accounts in the order of their first trade; the first error ends the pass.\<close>

definition floating_accounts :: "db \<Rightarrow> (engine_account \<times> trade list) list" where
  "floating_accounts t =
     (let rows = joined (\<lambda>r a. trade_status r = Some ''open'' \<and> acc_status a = Some ''active'') t in
      map (\<lambda>i. (engine_account_of (snd (the (List.find (\<lambda>ra. trade_account (fst ra) = Some i) rows))),
                map fst (filter (\<lambda>ra. trade_account (fst ra) = Some i) rows)))
        (fold js_add (List.map_filter (\<lambda>ra. trade_account (fst ra)) rows) []))"

fun floating_loop ::
  "'d market \<Rightarrow> (string \<Rightarrow> num option) \<Rightarrow> (engine_account \<times> trade list) list \<Rightarrow> (string \<times> dirty_peak) list \<Rightarrow> engine \<Rightarrow>
   (string \<times> dirty_peak) list option \<times> engine" where
  "floating_loop m realized [] anchors e = (Some anchors, e)"
| "floating_loop m realized ((acc, rows) # rest) anchors e =
     (case floating_pnl m (getLivePriceMap m) rows of
        Inl _ \<Rightarrow> (None, e)
      | Inr floating \<Rightarrow>
          (case floating_verdict m (realized (eg_id acc)) acc floating of
             (v, up) \<Rightarrow>
               floating_loop m realized rest (case up of None \<Rightarrow> anchors | Some x \<Rightarrow> anchors @ [x])
                 (case v of Hold \<Rightarrow> e | Fail \<Rightarrow> autoCloseAndFail m acc None e | Pass \<Rightarrow> autoCloseAndPass m acc None e)))"

text \<open>The bulk write of anchors; a value that cannot be bound fails the statement.\<close>

definition bind_peaks :: "(string \<times> dirty_peak) list \<Rightarrow> string + peak_update list" where
  "bind_peaks us =
     (let bind_opt = (\<lambda>v. case v of None \<Rightarrow> Inr None | Some x \<Rightarrow> sum_bind (bind_num x) (\<lambda>q. Inr (Some q))) in
      each (\<lambda>(i, p). sum_bind (bind_opt (dp_peak p)) (\<lambda>a. sum_bind (bind_opt (dp_floor p)) (\<lambda>b.
        Inr \<lparr>pu_account = i, pu_peak = a, pu_floor = b\<rparr>))) us)"

definition flush_anchors :: "(peak_update list \<Rightarrow> peak_update) \<Rightarrow> (string \<times> dirty_peak) list \<Rightarrow> engine \<Rightarrow> (js_error + nat) \<times> engine" where
  "flush_anchors pick us e =
     on_pool (case bind_peaks us of Inl x \<Rightarrow> tx_throw (DbError x) | Inr ps \<Rightarrow> flushPeakEquityUpdates pick ps) e"

text \<open>\<open>healthy\<close> is the answer of the feed's circuit breaker.\<close>

definition checkFloatingDrawdown :: "'d market \<Rightarrow> (peak_update list \<Rightarrow> peak_update) \<Rightarrow> bool \<Rightarrow> engine \<Rightarrow> engine" where
  "checkFloatingDrawdown m pick healthy e =
     (if \<not> healthy then e
      else let accs = floating_accounts (en_db e) in
        if accs = [] then e
        else
          (let realized = todayRealizedPnl (mt_time m) (map (\<lambda>x. eg_id (fst x)) accs) (en_db e) in
           case floating_loop m realized accs [] e of
             (None, e') \<Rightarrow> e'
           | (Some anchors, e') \<Rightarrow> if anchors = [] then e' else snd (flush_anchors pick anchors e')))"

end
