(* ===== verification/EngineTick.thy ===== *)
theory EngineTick
  imports EnginePasses
begin

text \<open>
  services/tradeEngine.ts, the event-driven engine: a price tick scans the trades of the instruments that moved, evaluates
  the accounts they touch on Numbers, and confirms every candidate from the database on decimals before it
  acts; the anchors it raises are written in bulk on a timer. A tick runs without interleaving at its awaits.
\<close>

section \<open>Scanning\<close>

record sltp_candidate =
  cd_trade :: trade_entry
  cd_price :: num
  cd_reason :: string
  cd_deferred :: bool
  cd_level :: "num option"

record scan =
  sc_index :: trade_index
  sc_touched :: "string list"
  sc_sltp :: "sltp_candidate list"
  sc_orders :: "pending_entry list"
  sc_scanned :: nat

definition candidate_of :: "trade_entry \<Rightarrow> num \<Rightarrow> sltp_candidate option" where
  "candidate_of tr closePrice =
     (case te_pending_close tr of
        Some p \<Rightarrow> Some \<lparr>cd_trade = tr, cd_price = p,
           cd_reason = (case given (te_pending_reason tr) of None \<Rightarrow> ''Stop Loss'' | Some x \<Rightarrow> x), cd_deferred = True, cd_level = None\<rparr>
      | None \<Rightarrow>
          if isSLTriggered (te_sign tr) (te_sl tr) closePrice then
            Some \<lparr>cd_trade = tr, cd_price = closePrice, cd_reason = ''Stop Loss'', cd_deferred = False, cd_level = te_sl tr\<rparr>
          else if isTPTriggered (te_sign tr) (te_tp tr) closePrice then
            Some \<lparr>cd_trade = tr, cd_price = closePrice, cd_reason = ''Take Profit'', cd_deferred = False, cd_level = te_tp tr\<rparr>
          else None)"

definition scan_trade :: "quote \<Rightarrow> num \<Rightarrow> trade_entry \<Rightarrow> scan \<Rightarrow> scan" where
  "scan_trade price usdRate tr s =
     (let closePrice = closePriceFor (te_sign tr) price in
      s\<lparr>sc_scanned := Suc (sc_scanned s),
        sc_index := applyTradePnl (Some tr) (value_at tr price usdRate) (sc_index s),
        sc_touched := js_add (te_account tr) (sc_touched s),
        sc_sltp := sc_sltp s @ (case candidate_of tr closePrice of None \<Rightarrow> [] | Some c \<Rightarrow> [c])\<rparr>)"

definition scan_instrument :: "env \<Rightarrow> price_cache \<Rightarrow> string \<Rightarrow> scan \<Rightarrow> scan" where
  "scan_instrument env pc i s =
     (case getPrice pc i of
        None \<Rightarrow> s
      | Some price \<Rightarrow>
          (case getUsdRateForInstrument env pc (Some i) of
             Inl _ \<Rightarrow> s
           | Inr usdRate \<Rightarrow>
               (let s1 = fold (scan_trade price usdRate) (jm_values (getTradesByInstrument (sc_index s) i)) s
                in s1\<lparr>sc_orders := sc_orders s1 @
                     filter (\<lambda>o1. isPendingTriggered (pe_type o1) (pe_trigger o1) price) (jm_values (getPendingByInstrument (sc_index s1) i))\<rparr>)))"

definition scan_tick :: "env \<Rightarrow> price_cache \<Rightarrow> string list \<Rightarrow> trade_index \<Rightarrow> scan" where
  "scan_tick env pc changed ix =
     fold (scan_instrument env pc) changed \<lparr>sc_index = ix, sc_touched = [], sc_sltp = [], sc_orders = [], sc_scanned = 0\<rparr>"

section \<open>Evaluating accounts\<close>

datatype breach = Trailing account_entry num num num | Daily account_entry num num num

record pass_candidate =
  ps_account :: account_entry
  ps_equity :: num
  ps_target :: num

record equity_snapshot =
  eq_account :: string
  eq_user :: "string option"
  eq_equity :: num
  eq_floating :: num
  eq_balance :: num
  eq_floor :: num
  eq_starting :: num
  eq_target :: num
  eq_type :: string
  eq_daily_loss :: num
  eq_daily_limit :: "num option"

record evaluation =
  ev_index :: trade_index
  ev_dirty :: "dirty_peak jsmap"
  ev_breaches :: "breach list"
  ev_passes :: "pass_candidate list"
  ev_equity :: "equity_snapshot list"

definition opt_num :: "num option \<Rightarrow> jsval" where
  "opt_num v = (case v of None \<Rightarrow> JNull | Some x \<Rightarrow> JNum x)"

definition entry_drawdown :: "account_entry \<Rightarrow> drawdown_account" where
  "entry_drawdown a =
     \<lparr>dd_starting = JNum (ae_starting a), dd_peak = opt_num (ae_eod_peak a), dd_floor = opt_num (ae_eod_floor a), dd_type = ae_type a\<rparr>"

definition evaluate_account :: "int \<Rightarrow> string \<Rightarrow> evaluation \<Rightarrow> evaluation" where
  "evaluate_account t accountId s =
     (case getAccountEntry (ev_index s) accountId of
        None \<Rightarrow> s
      | Some a \<Rightarrow>
          if ae_status a \<noteq> Some ''active'' then s
          else
            (let equity = nadd (ae_balance a) (ae_floating a) in
             case ae_max_dd a of
               None \<Rightarrow> s
             | Some mx \<Rightarrow>
                 if \<not> nlt (Fin 0) mx then s
                 else
                   (let resolved = resolveEffectiveFloor (entry_drawdown a) equity mx (ae_locks_at a);
                        s1 = (if rs_peak_changed resolved \<or> rs_locked_changed resolved then
                                s\<lparr>ev_index := setPeakEquity accountId (Some (rs_peak resolved)) (rs_locked resolved) (ev_index s),
                                  ev_dirty := jm_set accountId
                                    \<lparr>dp_peak = (if rs_peak_changed resolved then Some (rs_peak resolved) else None),
                                     dp_floor = (if rs_locked_changed resolved then rs_locked resolved else None)\<rparr> (ev_dirty s)\<rparr>
                              else s);
                        todayTotal = nadd (getTodayRealizedPnl t (ev_index s1) accountId) (ae_floating a);
                        dailyLossPct = (if nlt (Fin 0) (ae_starting a) \<and> nlt todayTotal (Fin 0)
                                        then nmul (ndiv (math_abs todayTotal) (ae_starting a)) (Fin 100) else Fin 0);
                        s2 = s1\<lparr>ev_equity := ev_equity s1 @
                          [\<lparr>eq_account = accountId, eq_user = ae_user a, eq_equity = equity, eq_floating = ae_floating a,
                            eq_balance = ae_balance a, eq_floor = rs_floor resolved, eq_starting = ae_starting a, eq_target = ae_target a,
                            eq_type = ae_type a, eq_daily_loss = dailyLossPct, eq_daily_limit = ae_daily_dd a\<rparr>]\<rparr>
                    in if nle equity (rs_floor resolved) then
                         s2\<lparr>ev_breaches := ev_breaches s2 @ [Trailing a equity (rs_floor resolved) mx]\<rparr>
                       else case (case ae_daily_dd a of
                                    None \<Rightarrow> None
                                  | Some d \<Rightarrow> if is_finite d \<and> nlt (Fin 0) d \<and> nlt (Fin 0) (ae_starting a) \<and> nle d dailyLossPct
                                              then Some d else None) of
                              Some d \<Rightarrow> s2\<lparr>ev_breaches := ev_breaches s2 @ [Daily a equity dailyLossPct d]\<rparr>
                            | None \<Rightarrow>
                                if ae_type a = ''funded'' \<or> ae_type a = ''competition'' then s2
                                else
                                  (let profitTarget = (if nlt (Fin 0) (ae_target a) then ae_target a else nmul (ae_starting a) (mk (1/10)))
                                   in if nle profitTarget (nsub equity (ae_starting a))
                                      then s2\<lparr>ev_passes := ev_passes s2 @ [\<lparr>ps_account = a, ps_equity = equity, ps_target = profitTarget\<rparr>]\<rparr>
                                      else s2))))"

section \<open>Closing triggered trades\<close>

text \<open>The entry of a trade is one object in two maps; the engine writes its recorded trigger.\<close>

definition set_trigger :: "nat \<Rightarrow> num \<Rightarrow> string \<Rightarrow> trade_index \<Rightarrow> trade_index" where
  "set_trigger ref level reason ix =
     (let f = (\<lambda>(e :: trade_entry). if te_ref e = ref then e\<lparr>te_pending_close := Some level, te_pending_reason := Some reason\<rparr> else e)
      in ix\<lparr>ix_by_id := map (\<lambda>(k, e). (k, f e)) (ix_by_id ix),
            ix_by_instrument := map (\<lambda>(i, b). (i, map (\<lambda>(k, e). (k, f e)) b)) (ix_by_instrument ix)\<rparr>)"

definition recordDeferredTriggers :: "sltp_candidate list \<Rightarrow> engine \<Rightarrow> nat \<times> engine" where
  "recordDeferredTriggers cs e =
     (let ds = List.map_filter (\<lambda>c. map_option (\<lambda>l. (te_id (cd_trade c), l, cd_reason c)) (cd_level c)) cs in
      case on_pool (query (defer_stmt ds)) e of
        (Inl _, e') \<Rightarrow> (0, e')
      | (Inr written, e') \<Rightarrow>
          (length (remdups written),
           e'\<lparr>en_index := fold (\<lambda>c ix. if te_id (cd_trade c) \<in> set written
                then (case cd_level c of None \<Rightarrow> ix | Some l \<Rightarrow> set_trigger (te_ref (cd_trade c)) l (cd_reason c) ix)
                else ix) cs (en_index e')\<rparr>))"

definition past_window :: "trading_rules \<Rightarrow> int \<Rightarrow> trade_entry \<Rightarrow> bool" where
  "past_window rules t tr =
     (te_open_ms tr = 0 \<or> nle (ru_min_hold rules) (ndiv (Fin (of_int (t - te_open_ms tr))) (Fin 1000)))"

definition entry_pnl :: "'d market \<Rightarrow> trade_entry \<Rightarrow> num \<Rightarrow> pnl_error + num" where
  "entry_pnl m tr price =
     calculatePnL (mt_arith m) (mt_env m) (mt_cache m) (te_direction tr) (JNum (te_open tr)) (JNum price) (JNum (te_lots tr))
       (te_instrument tr) (JNum (te_commission tr)) None"

text \<open>The UPDATE of the accounts from the list of totals.\<close>

definition credit_all_stmt :: "(string \<times> num) list \<Rightarrow> db \<Rightarrow> string + unit \<times> db" where
  "credit_all_stmt totals t =
     fold (\<lambda>(i, x) r. sum_bind r (\<lambda>(_, t'). sum_bind (credit_stmt i x t') (\<lambda>(_, t''). Inr ((), t'')))) totals (Inr ((), t))"

definition account_totals :: "'d engine_arith \<Rightarrow> (sltp_candidate \<times> num) list \<Rightarrow> (string \<times> num) list" where
  "account_totals D cps =
     map (\<lambda>i. (i, da_num D (da_cents D (foldl (\<lambda>d cp. da_plus D d (da_from D (snd cp))) (da_from D (Fin 0))
                     (filter (\<lambda>cp. te_account (cd_trade (fst cp)) = i) cps)))))
       (fold js_add (map (\<lambda>cp. te_account (cd_trade (fst cp))) cps) [])"

definition triggered_body :: "'d market \<Rightarrow> sltp_candidate list \<Rightarrow> (db, ((sltp_candidate \<times> num) list \<times> (string \<times> num) list) option) tx" where
  "triggered_body m eligible =
     tx_bind (select (\<lambda>t. map trade_id (filter (\<lambda>r. trade_id r \<in> (\<lambda>c. te_id (cd_trade c)) ` set eligible \<and> trade_status r = Some ''open'') (trades t)))) (\<lambda>owned.
       if owned = [] then tx_return None
       else
         tx_bind (lift_sum (case each (\<lambda>c. sum_bind (entry_pnl m (cd_trade c) (cd_price c)) (\<lambda>p. Inr (c, p)))
                     (filter (\<lambda>c. te_id (cd_trade c) \<in> set owned) eligible) of
                   Inl x \<Rightarrow> Inl (pnl_js_error x) | Inr cps \<Rightarrow> Inr cps)) (\<lambda>cps.
         if cps = [] then tx_return None
         else
           (let totals = account_totals (mt_arith m) cps in
            tx_bind (query (close_stmt (\<lambda>r. trade_status r = Some ''open'') clear_deferred
               (map (\<lambda>(c, p). \<lparr>cl_trade = te_id (cd_trade c), cl_price = cd_price c, cl_pnl = p, cl_reason = cd_reason c\<rparr>) cps))) (\<lambda>_.
            tx_bind (query (credit_all_stmt totals)) (\<lambda>_. tx_return (Some (cps, totals)))))))"

definition closeTriggeredTrades :: "'d market \<Rightarrow> sltp_candidate list \<Rightarrow> engine \<Rightarrow> nat \<times> engine" where
  "closeTriggeredTrades m cs e =
     (let eligible = filter (\<lambda>c. past_window (mt_rules m) (mt_time m) (cd_trade c)) cs;
          toDefer = filter (\<lambda>c. \<not> past_window (mt_rules m) (mt_time m) (cd_trade c) \<and> \<not> cd_deferred c \<and> cd_level c \<noteq> None) cs;
          e1 = (if toDefer = [] then e else snd (recordDeferredTriggers toDefer e))
      in if eligible = [] then (0, e1)
         else case in_transaction (triggered_body m eligible) e1 of
                (Inr (Some (cps, totals)), e2) \<Rightarrow>
                  (let ix1 = fold (\<lambda>(c, p) ix. applyRealizedPnl (mt_time m) (te_account (cd_trade c)) (JNum p)
                                    (snd (removeTrade (te_id (cd_trade c)) ix))) cps (en_index e2);
                       ix2 = fold (\<lambda>(i, x) ix. case getAccountEntry ix i of
                                None \<Rightarrow> ix | Some a \<Rightarrow> updateAccountBalance i (JNum (nadd (ae_balance a) x)) ix) totals ix1;
                       evs = List.map_filter (\<lambda>(c, p). map_option (\<lambda>a. TradeClosed (ae_user a) (cd_reason c) p)
                                (getAccountEntry ix2 (te_account (cd_trade c)))) cps
                   in (length cps, e2\<lparr>en_index := ix2, en_events := en_events e2 @ evs\<rparr>))
              | (_, e2) \<Rightarrow> (0, e2))"

section \<open>Confirming and settling accounts\<close>

record 'd confirmation =
  cf_acc :: engine_account
  cf_equity :: 'd
  cf_floating :: 'd
  cf_starting :: num

text \<open>A trade whose rate is missing is left out of the floating result.\<close>

definition confirmed_floating :: "'d market \<Rightarrow> trade list \<Rightarrow> 'd" where
  "confirmed_floating m rows =
     (let D = mt_arith m in
      foldl (\<lambda>d r. case getLivePriceMap m (trade_instrument r) of
          None \<Rightarrow> d
        | Some q \<Rightarrow> (case row_pnl m r (market_side r q) None of Inl _ \<Rightarrow> d | Inr p \<Rightarrow> da_plus D d (da_from D p)))
        (da_from D (Fin 0)) rows)"

definition confirm_account :: "'d market \<Rightarrow> db \<Rightarrow> string \<Rightarrow> 'd confirmation option" where
  "confirm_account m t i =
     (case active_account i t of
        None \<Rightarrow> None
      | Some a \<Rightarrow>
          (let D = mt_arith m; acc = engine_account_of a; floating = confirmed_floating m (open_trades_of i t)
           in Some \<lparr>cf_acc = acc, cf_equity = da_plus D (da_from D (eg_balance acc)) floating, cf_floating = floating,
                    cf_starting = eg_starting acc\<rparr>))"

definition confirmAccountEquityBatch :: "'d market \<Rightarrow> db \<Rightarrow> string list \<Rightarrow> 'd confirmation jsmap" where
  "confirmAccountEquityBatch m t accountIds =
     List.map_filter (\<lambda>i. map_option (\<lambda>c. (i, c)) (confirm_account m t i)) (remdups accountIds)"

definition confirmAccountEquity :: "'d market \<Rightarrow> db \<Rightarrow> string \<Rightarrow> 'd confirmation option" where
  "confirmAccountEquity m t accountId = jm_get (confirmAccountEquityBatch m t [accountId]) accountId"

definition breach_account :: "breach \<Rightarrow> account_entry" where
  "breach_account b = (case b of Trailing a _ _ _ \<Rightarrow> a | Daily a _ _ _ \<Rightarrow> a)"

definition breach_confirmed :: "'d engine_arith \<Rightarrow> num option \<Rightarrow> breach \<Rightarrow> 'd confirmation \<Rightarrow> bool" where
  "breach_confirmed D todayRealized b c =
     (case b of
        Trailing _ _ flr _ \<Rightarrow> \<not> da_le D (da_from D flr) (cf_equity c)
      | Daily _ _ _ limit \<Rightarrow>
          da_le D (da_from D limit) (day_loss_pct D (case todayRealized of None \<Rightarrow> Fin 0 | Some x \<Rightarrow> x) (cf_floating c) (cf_starting c)))"

definition pass_confirmed :: "'d engine_arith \<Rightarrow> pass_candidate \<Rightarrow> 'd confirmation \<Rightarrow> bool" where
  "pass_confirmed D p c = da_le D (da_from D (ps_target p)) (da_minus D (cf_equity c) (da_from D (cf_starting c)))"

definition settle_breach ::
  "'d market \<Rightarrow> 'd confirmation jsmap \<Rightarrow> (string \<Rightarrow> num option) \<Rightarrow> breach \<Rightarrow> nat \<times> engine \<Rightarrow> nat \<times> engine" where
  "settle_breach m confirmed realized b s =
     (let i = ae_id (breach_account b) in
      case jm_get confirmed i of
        None \<Rightarrow> s
      | Some c \<Rightarrow>
          if breach_confirmed (mt_arith m) (realized i) b c
          then (Suc (fst s), autoCloseAndFail m (cf_acc c) (Some (mt_tenant m)) (snd s)) else s)"

definition settle_pass :: "'d market \<Rightarrow> 'd confirmation jsmap \<Rightarrow> pass_candidate \<Rightarrow> nat \<times> engine \<Rightarrow> nat \<times> engine" where
  "settle_pass m confirmed p s =
     (case jm_get confirmed (ae_id (ps_account p)) of
        None \<Rightarrow> s
      | Some c \<Rightarrow>
          if pass_confirmed (mt_arith m) p c
          then (Suc (fst s), autoCloseAndPass m (cf_acc c) (Some (mt_tenant m)) (snd s)) else s)"

definition is_trailing :: "breach \<Rightarrow> bool" where
  "is_trailing b = (case b of Trailing _ _ _ _ \<Rightarrow> True | Daily _ _ _ _ \<Rightarrow> False)"

definition settleAccountOutcomes :: "'d market \<Rightarrow> breach list \<Rightarrow> pass_candidate list \<Rightarrow> engine \<Rightarrow> nat \<times> engine" where
  "settleAccountOutcomes m breaches passes e =
     (if breaches = [] \<and> passes = [] then (0, e)
      else
        (let confirmed = confirmAccountEquityBatch m (en_db e)
               (map (\<lambda>b. ae_id (breach_account b)) breaches @ map (\<lambda>p. ae_id (ps_account p)) passes);
             daily = map (\<lambda>b. ae_id (breach_account b))
               (filter (\<lambda>b. \<not> is_trailing b \<and> jm_get confirmed (ae_id (breach_account b)) \<noteq> None) breaches);
             realized = todayRealizedPnl (mt_time m) daily (en_db e)
         in if confirmed = [] then (0, e)
            else fold (settle_pass m confirmed) passes (fold (settle_breach m confirmed realized) breaches (0, e))))"

section \<open>Pending orders of the tick\<close>

definition order_of_entry :: "pending_entry \<Rightarrow> account_entry \<Rightarrow> pending_order" where
  "order_of_entry c a =
     \<lparr>po_id = pe_id c, po_account = pe_account c, po_user = ae_user a, po_instrument = pe_instrument c, po_direction = pe_direction c,
      po_lots = JNum (pe_lots c), po_type = pe_type c, po_oco = pe_oco c\<rparr>"

definition fill_candidate :: "'d market \<Rightarrow> pending_entry \<Rightarrow> engine \<Rightarrow> engine" where
  "fill_candidate m c e =
     (case getAccountEntry (en_index e) (pe_account c) of
        None \<Rightarrow> e
      | Some a \<Rightarrow>
          if ae_status a \<noteq> Some ''active'' then cancelPendingOrder (pe_id c) ''Account inactive'' e
          else if (case ae_phase_end a of None \<Rightarrow> False | Some x \<Rightarrow> x \<noteq> 0 \<and> x \<le> mt_time m) then
            cancelPendingOrder (pe_id c) ''Challenge phase expired'' e
          else if \<not> fst (getMarketStatus ''open'' (mt_time m)) then e
          else case getPrice (mt_cache m) (pe_instrument c) of
                 None \<Rightarrow> e
               | Some price \<Rightarrow> fillPendingOrder m (order_of_entry c a) price e)"

definition fillTriggeredPendingOrders :: "'d market \<Rightarrow> pending_entry list \<Rightarrow> engine \<Rightarrow> engine" where
  "fillTriggeredPendingOrders m cs e = fold (fill_candidate m) cs e"

section \<open>The tick\<close>

record tick_result =
  tk_scanned :: nat
  tk_accounts :: nat
  tk_closures :: nat
  tk_equity :: "equity_snapshot list"

definition runTick :: "'d market \<Rightarrow> string list \<Rightarrow> engine \<Rightarrow> tick_result \<times> engine" where
  "runTick m changed e =
     (let s = scan_tick (mt_env m) (mt_cache m) changed (en_index e) in
      if sc_touched s = [] \<and> sc_orders s = [] then
        (\<lparr>tk_scanned = sc_scanned s, tk_accounts = 0, tk_closures = 0, tk_equity = []\<rparr>, e\<lparr>en_index := sc_index s\<rparr>)
      else
        (let v = fold (evaluate_account (mt_time m)) (sc_touched s)
               \<lparr>ev_index = sc_index s, ev_dirty = en_dirty e, ev_breaches = [], ev_passes = [], ev_equity = []\<rparr>;
             e1 = e\<lparr>en_index := ev_index v, en_dirty := ev_dirty v\<rparr>;
             (n2, e2) = (if sc_sltp s = [] then (0, e1) else closeTriggeredTrades m (sc_sltp s) e1);
             (n3, e3) = settleAccountOutcomes m (ev_breaches v) (ev_passes v) e2;
             e4 = (if sc_orders s = [] then e3 else fillTriggeredPendingOrders m (sc_orders s) e3)
         in (\<lparr>tk_scanned = sc_scanned s, tk_accounts = length (sc_touched s), tk_closures = n2 + n3, tk_equity = ev_equity v\<rparr>, e4)))"

text \<open>
  While a run is under way further ticks only note their instruments; each run is given with the market it sees and
  the instruments noted during it. The loop goes on until a run during which none arrived.
\<close>

fun tick_loop :: "('d market \<times> string list) list \<Rightarrow> string list \<Rightarrow> engine \<Rightarrow> tick_result option \<times> engine" where
  "tick_loop [] instruments e = (None, e)"
| "tick_loop ((m, arrived) # later) instruments e =
     (case runTick m instruments e of
        (r, e') \<Rightarrow> if arrived = [] then (Some r, e') else tick_loop later (remdups arrived) e')"

definition onPriceTick :: "('d market \<times> string list) list \<Rightarrow> string list \<Rightarrow> engine \<Rightarrow> tick_result option \<times> engine" where
  "onPriceTick runs changed e =
     (if \<not> ix_ready (en_index e) \<or> changed = [] then (None, e) else tick_loop runs changed e)"

section \<open>Writing the anchors\<close>

definition higherPeakValue :: "num option \<Rightarrow> num option \<Rightarrow> num option" where
  "higherPeakValue a b =
     (case (a, b) of (None, _) \<Rightarrow> b | (_, None) \<Rightarrow> a | (Some x, Some y) \<Rightarrow> if nlt y x then Some x else Some y)"

definition requeue :: "string \<times> dirty_peak \<Rightarrow> dirty_peak jsmap \<Rightarrow> dirty_peak jsmap" where
  "requeue u dirty =
     (let pending = jm_get dirty (fst u) in
      jm_set (fst u)
        \<lparr>dp_peak = higherPeakValue (case pending of None \<Rightarrow> None | Some p \<Rightarrow> dp_peak p) (dp_peak (snd u)),
         dp_floor = higherPeakValue (case pending of None \<Rightarrow> None | Some p \<Rightarrow> dp_floor p) (dp_floor (snd u))\<rparr> dirty)"

text \<open>\<open>during\<close> is what ticks noted while the statement was under way.\<close>

definition flushDirtyPeaks :: "(peak_update list \<Rightarrow> peak_update) \<Rightarrow> dirty_peak jsmap \<Rightarrow> engine \<Rightarrow> nat \<times> engine" where
  "flushDirtyPeaks pick during e =
     (if en_dirty e = [] then (0, e)
      else
        (let updates = en_dirty e in
         case flush_anchors pick updates (e\<lparr>en_dirty := during\<rparr>) of
           (Inr n, e') \<Rightarrow> (n, e')
         | (Inl _, e') \<Rightarrow> (0, e'\<lparr>en_dirty := fold requeue updates (en_dirty e')\<rparr>)))"

record engine_stats =
  es_trades :: nat
  es_pending :: nat
  es_accounts :: nat
  es_ready :: bool
  es_reconciled_at :: int
  es_dirty :: nat
  es_cache_age :: "int option"

definition getEngineStats :: "'d market \<Rightarrow> engine \<Rightarrow> engine_stats" where
  "getEngineStats m e =
     \<lparr>es_trades = getTradeCount (en_index e), es_pending = getPendingCount (en_index e), es_accounts = getAccountCount (en_index e),
      es_ready = ix_ready (en_index e), es_reconciled_at = ix_reconciled_at (en_index e), es_dirty = length (en_dirty e),
      es_cache_age = getPriceCacheAgeMs (mt_cache m) (mt_time m)\<rparr>"

end
