(* ===== verification/EngineBooks.thy ===== *)
theory EngineBooks
  imports EngineTick TradeIndexInv
begin

text \<open>
  Keeping books: whatever the engine does to trades and balances, the balance of every account stays
  the sum of its starting balance, its adjustments and its realised results, and every trade follows its lifecycle.
\<close>

section \<open>Whole cents through Numbers\<close>

lemma close_decimals:
  assumes "fl q = fl x" "\<bar>q\<bar> \<le> 20000000000000"
  shows "\<bar>q - x\<bar> < 1 / 200"
proof -
  have a: "\<bar>fl q - q\<bar> \<le> \<bar>q\<bar> / 9007199254740992 + 1 / 10 ^ 20" "\<bar>fl x - x\<bar> \<le> \<bar>x\<bar> / 9007199254740992 + 1 / 10 ^ 20"
    by (rule fl_err_num)+
  have "\<bar>q - x\<bar> \<le> \<bar>fl q - q\<bar> + \<bar>fl x - x\<bar>" "\<bar>x\<bar> \<le> \<bar>q\<bar> + \<bar>q - x\<bar>" using assms(1) by linarith+
  then show ?thesis using a assms(2) by simp
qed

lemma to_cents_unique: "\<bar>x - of_int n / 100\<bar> < 1 / 200 \<Longrightarrow> to_cents x = n"
proof -
  assume "\<bar>x - of_int n / 100\<bar> < 1 / 200"
  then have "\<bar>of_int (to_cents x) - (of_int n :: rat)\<bar> < 1" using to_cents_near [of x] by linarith
  then have "\<bar>to_cents x - n\<bar> < 1" by (metis of_int_abs of_int_diff of_int_less_1_iff)
  then show ?thesis by simp
qed

lemma bind_mk: "bind_num (mk x) = Inr q \<Longrightarrow> fl q = fl x"
proof -
  assume b: "bind_num (mk x) = Inr q"
  then have "mk x = Fin (fl x)" by (cases "mk x") (auto simp: mk_def Let_def split: if_splits)
  then show ?thesis using b by (auto simp: fl_dec_of)
qed

text \<open>What a whole number of cents books, alone and on top of a balance.\<close>

lemma bound_cents:
  assumes "bind_num (mk (of_int k / 100)) = Inr q" "\<bar>q\<bar> \<le> 20000000000000"
  shows "\<bar>q - of_int k / 100\<bar> < 1 / 200"
  by (rule close_decimals [OF bind_mk [OF assms(1)] assms(2)])

lemma cents_small: "cents_ok (to_cents x) \<Longrightarrow> \<bar>x\<bar> \<le> 10000000000000"
proof -
  assume "cents_ok (to_cents x)"
  then have "\<bar>of_int (to_cents x) :: rat\<bar> \<le> 999999999999999" by (rule cents_okD)
  moreover have "\<bar>of_int (to_cents x) - 100 * x\<bar> \<le> 1 / 2" by (rule to_cents_near)
  ultimately show ?thesis by linarith
qed

lemma booked_cents:
  assumes "bind_num (mk (of_int k / 100)) = Inr q" "numeric15_2 q = Inr c"
  shows "c = k" "cents_ok k"
proof -
  have c: "cents_ok (to_cents q)" "c = to_cents q" using assms(2) by (auto simp: numeric15_2_ok)
  have "\<bar>q\<bar> \<le> 20000000000000" using cents_small [OF c(1)] by linarith
  then have "to_cents q = k" by (intro to_cents_unique bound_cents assms(1))
  then show "c = k" "cents_ok k" using c by auto
qed

lemma booked_on:
  assumes "bind_num (mk (of_int k / 100)) = Inr q" "numeric15_2 (of_int b / 100 + q) = Inr c" "cents_ok b"
  shows "c = b + k"
proof -
  have c: "cents_ok (to_cents (of_int b / 100 + q))" "c = to_cents (of_int b / 100 + q)" using assms(2) by (auto simp: numeric15_2_ok)
  have "\<bar>of_int b / 100 :: rat\<bar> \<le> 10000000000000" using cents_small [of "of_int b / 100"] assms(3) by (simp add: to_cents_exact)
  then have "\<bar>q\<bar> \<le> 20000000000000" using cents_small [OF c(1)] by linarith
  then have "\<bar>q - of_int k / 100\<bar> < 1 / 200" by (rule bound_cents [OF assms(1)])
  then have "to_cents (of_int b / 100 + q) = b + k" by (intro to_cents_unique) (simp add: add_divide_distrib)
  then show ?thesis using c(2) by simp
qed

lemma mk_cents_0: "mk (of_int k / 100) = Fin 0 \<Longrightarrow> k = 0"
proof -
  assume "mk (of_int k / 100) = Fin 0"
  then have "fl 0 = fl (of_int k / 100)" by (auto simp: mk_def Let_def split: if_splits)
  then have "\<bar>0 - of_int k / 100\<bar> < (1 / 200 :: rat)" by (rule close_decimals) simp
  then have "\<bar>of_int k :: rat\<bar> < 1" by linarith
  then show ?thesis by linarith
qed

section \<open>Decimals\<close>

text \<open>
  Documented of the package: a decimal is constructed from a Number through the text it prints as; rounding to two
  places is half away from zero; toNumber gives the nearest Number; with twenty significant digits, a sum of whole cents
  below \<open>10 ^ 18\<close> is exact. \<open>v\<close> is the value of a decimal.
\<close>

definition sum_laws :: "'d engine_arith \<Rightarrow> ('d \<Rightarrow> rat) \<Rightarrow> bool" where
  "sum_laws D v \<longleftrightarrow>
     (\<forall>a. v (da_cents D a) = of_int (to_cents (v a)) / 100) \<and>
     (\<forall>a. da_num D a = mk (v a)) \<and>
     (\<forall>q. v (da_from D (Fin q)) = dec_of q) \<and>
     (\<forall>a b j k. v a = of_int j / 100 \<longrightarrow> v b = of_int k / 100 \<longrightarrow> \<bar>j + k\<bar> \<le> 10 ^ 20 \<longrightarrow> v (da_plus D a b) = of_int (j + k) / 100)"

lemma sum_lawsD:
  assumes "sum_laws D v"
  shows "v (da_cents D a) = of_int (to_cents (v a)) / 100" "da_num D a = mk (v a)" "v (da_from D (Fin q)) = dec_of q"
    "v a = of_int j / 100 \<Longrightarrow> v b = of_int k / 100 \<Longrightarrow> \<bar>j + k\<bar> \<le> 10 ^ 20 \<Longrightarrow> v (da_plus D a b) = of_int (j + k) / 100"
  using assms unfolding sum_laws_def by blast+

lemma from_cents:
  assumes "sum_laws D v" "cents_ok k"
  shows "v (da_from D (mk (of_int k / 100))) = of_int k / 100"
proof -
  have "mk (of_int k / 100) = Fin (money k)" using usd_Fin [OF assms(2)] by (simp add: usd_def)
  then show ?thesis using sum_lawsD(3) [OF assms(1)] dec_of_money [OF assms(2)] by simp
qed

lemma sum_of_cents:
  assumes l: "sum_laws D v" and ks: "list_all cents_ok ks" "length ks \<le> 100000 - n" "n \<le> 100000"
    and a: "v a = of_int s / 100" "\<bar>s\<bar> \<le> int n * 10 ^ 15"
  shows "v (foldl (\<lambda>d k. da_plus D d (da_from D (mk (of_int k / 100)))) a ks) = of_int (s + sum_list ks) / 100"
  using ks a
proof (induction ks arbitrary: a s n)
  case (Cons k ks)
  have k: "\<bar>k\<bar> \<le> 10 ^ 15" "cents_ok k" using Cons.prems(1) by (auto simp: cents_ok_def)
  have s: "\<bar>s + k\<bar> \<le> int (Suc n) * 10 ^ 15" using Cons.prems(5) k(1) by (simp add: algebra_simps)
  have "int (Suc n) * 10 ^ 15 \<le> 100000 * 10 ^ 15" using Cons.prems(2,3) by (intro mult_right_mono) auto
  then have "\<bar>s + k\<bar> \<le> 10 ^ 20" using s by simp
  then have "v (da_plus D a (da_from D (mk (of_int k / 100)))) = of_int (s + k) / 100"
    by (rule sum_lawsD(4) [OF l Cons.prems(4) from_cents [OF l k(2)]])
  then show ?case using Cons.IH [of "Suc n" "da_plus D a (da_from D (mk (of_int k / 100)))" "s + k"] Cons.prems(1,2) s
    by (simp add: add.assoc)
qed simp

lemma rounded_sum:
  assumes l: "sum_laws D v" and ks: "list_all cents_ok ks" "length ks \<le> 100000"
  shows "da_num D (da_cents D (foldl (\<lambda>d k. da_plus D d (da_from D (mk (of_int k / 100)))) (da_from D (Fin 0)) ks)) =
    mk (of_int (sum_list ks) / 100)"
proof -
  let ?s = "foldl (\<lambda>d k. da_plus D d (da_from D (mk (of_int k / 100)))) (da_from D (Fin 0)) ks"
  have "v (da_from D (Fin 0)) = of_int 0 / 100" using sum_lawsD(3) [OF l] by (simp add: dec_of_def)
  then have "v ?s = of_int (sum_list ks) / 100"
    using sum_of_cents [OF l ks(1), of 0 "da_from D (Fin 0)" 0] ks(2) by simp
  then show ?thesis by (simp only: sum_lawsD(1,2) [OF l] to_cents_exact)
qed

text \<open>Amounts of whole cents as a function of a key, and their rounded total.\<close>

lemma cents_by_key:
  assumes "distinct (map f xs)" "\<forall>x\<in>set xs. \<exists>k. g x = mk (of_int k / 100)"
  shows "\<exists>kof. \<forall>x\<in>set xs. g x = mk (of_int (kof (f x)) / 100)"
proof -
  obtain kc where kc: "\<And>x. x \<in> set xs \<Longrightarrow> g x = mk (of_int (kc x) / 100)" using assms(2) by metis
  have "kc (the_inv_into (set xs) f (f x)) = kc x" if "x \<in> set xs" for x
    using assms(1) that by (simp add: distinct_map the_inv_into_f_f)
  then show ?thesis using kc by (intro exI [of _ "\<lambda>i. kc (the_inv_into (set xs) f i)"]) simp
qed

lemma total_by_key:
  assumes l: "sum_laws D v" and d: "distinct (map f xs)" and g: "\<forall>x\<in>set xs. g x = mk (of_int (kof (f x)) / 100)"
    and ok: "\<forall>k\<in>f ` set xs. cents_ok (kof k)" and n: "length xs \<le> 100000"
  shows "da_num D (da_cents D (foldl (\<lambda>d x. da_plus D d (da_from D (g x))) (da_from D (Fin 0)) xs)) =
    mk (of_int (\<Sum>k\<in>f ` set xs. kof k) / 100)"
proof -
  let ?ks = "map (\<lambda>x. kof (f x)) xs"
  have "foldl (\<lambda>d x. da_plus D d (da_from D (g x))) a ys = foldl (\<lambda>d k. da_plus D d (da_from D (mk (of_int k / 100)))) a (map (\<lambda>x. kof (f x)) ys)"
    if "set ys \<subseteq> set xs" for a ys
    using that by (induction ys arbitrary: a) (auto simp: g)
  moreover have "sum_list ?ks = sum_list (map kof (map f xs))" by (simp add: o_def)
  moreover have "\<dots> = (\<Sum>k\<in>f ` set xs. kof k)" by (simp only: sum_list_distinct_conv_sum_set [OF d] set_map)
  moreover have "list_all cents_ok ?ks" "length ?ks \<le> 100000" using ok n by (auto simp: list_all_iff)
  ultimately show ?thesis using rounded_sum [OF l, of ?ks] by simp
qed

lemma pnl_in_cents:
  assumes l: "sum_laws D v" and p: "calculatePnL D env pc dir a b lots i com r = Inr p"
  obtains k where "p = mk (of_int k / 100)"
proof -
  obtain net where "p = da_num D (da_cents D net)"
    using p unfolding calculatePnL_def Let_def by (auto split: option.splits sum.splits)
  then show thesis using that by (simp only: sum_lawsD(1,2) [OF l])
qed

section \<open>Tables\<close>

text \<open>The life of a trade: what one row may become.\<close>

definition lifecycle :: "trade \<Rightarrow> trade \<Rightarrow> bool" where
  "lifecycle r s \<longleftrightarrow>
     trade_id s = trade_id r \<and> trade_account s = trade_account r \<and> trade_instrument s = trade_instrument r \<and>
     trade_direction s = trade_direction r \<and> trade_lots s = trade_lots r \<and>
     (trade_status r = Some ''closed'' \<longrightarrow> s = r) \<and>
     (trade_status r = Some ''cancelled'' \<longrightarrow> trade_status s = Some ''cancelled'') \<and>
     (trade_status r = Some ''open'' \<longrightarrow> trade_status s \<in> {Some ''open'', Some ''closed''}) \<and>
     (trade_status r = Some ''pending'' \<longrightarrow> trade_status s \<in> {Some ''pending'', Some ''cancelled'', Some ''open'', Some ''closed''}) \<and>
     (trade_status r \<notin> {Some ''closed'', Some ''cancelled'', Some ''open'', Some ''pending''} \<longrightarrow> trade_status s = trade_status r)"

lemma lifecycle_trans: "lifecycle r s \<Longrightarrow> lifecycle s u \<Longrightarrow> lifecycle r u"
  unfolding lifecycle_def by auto

lemma lifecycle_id: "lifecycle r s \<Longrightarrow> trade_id s = trade_id r"
  by (simp add: lifecycle_def)

text \<open>A row that waits is pending or cancelled; outside \<open>F\<close> it goes on waiting.\<close>

definition waits :: "trade \<Rightarrow> bool" where
  "waits r \<longleftrightarrow> trade_status r \<in> {Some ''pending'', Some ''cancelled''}"

definition row_ahead :: "string set \<Rightarrow> trade \<Rightarrow> trade \<Rightarrow> bool" where
  "row_ahead F r s \<longleftrightarrow> lifecycle r s \<and> (trade_id r \<notin> F \<longrightarrow> waits r \<longrightarrow> waits s)"

lemma row_ahead_refl [simp]: "row_ahead F r r"
  by (simp add: row_ahead_def lifecycle_def)

lemma row_ahead_trans: "row_ahead F r s \<Longrightarrow> row_ahead F s u \<Longrightarrow> row_ahead F r u"
  unfolding row_ahead_def using lifecycle_trans lifecycle_id by metis

lemmas row_defs = row_ahead_def lifecycle_def waits_def

definition balances_ok :: "db \<Rightarrow> bool" where
  "balances_ok t \<longleftrightarrow> (\<forall>i a. get_account i t = Some a \<longrightarrow> cents_ok (current_balance a))"

text \<open>\<open>moves F G t u\<close>: from t to u every row goes on in its life and the balance of account i runs ahead of its bookings by \<open>G i\<close>.\<close>

definition moves :: "string set \<Rightarrow> (string \<Rightarrow> int) \<Rightarrow> db \<Rightarrow> db \<Rightarrow> bool" where
  "moves F G t u \<longleftrightarrow>
     (\<forall>i. residue i u = map_option (\<lambda>z. z + G i) (residue i t)) \<and> list_all2 (row_ahead F) (trades t) (trades u) \<and>
     (balances_ok t \<longrightarrow> balances_ok u)"

abbreviation books :: "string set \<Rightarrow> db \<Rightarrow> db \<Rightarrow> bool" where
  "books F \<equiv> moves F (\<lambda>_. 0)"

lemma rows_ahead_trans: "list_all2 (row_ahead F) rs ss \<Longrightarrow> list_all2 (row_ahead F) ss us \<Longrightarrow> list_all2 (row_ahead F) rs us"
  by (rule list_all2_trans [OF row_ahead_trans])

lemma moves_trans: "moves F G t u \<Longrightarrow> moves F H u v \<Longrightarrow> moves F (\<lambda>i. G i + H i) t v"
  using rows_ahead_trans by (auto simp: moves_def option.map_comp o_def add.assoc)

lemma moves_eq: "moves F G t u \<Longrightarrow> (\<And>i. G i = H i) \<Longrightarrow> moves F H t u"
  by (simp add: moves_def)

lemma books_refl [simp]: "books F t t"
  by (simp add: moves_def list_all2_refl option.map_ident)

lemma books_trans: "books F t u \<Longrightarrow> books F u v \<Longrightarrow> books F t v"
  using moves_trans by fastforce

definition row_gain :: "string \<Rightarrow> trade \<Rightarrow> int" where
  "row_gain i r = (if trade_account r = Some i \<and> trade_status r = Some ''closed'' then (case demo_pnl r of None \<Rightarrow> 0 | Some p \<Rightarrow> p) else 0)"

lemma trade_sum_gain: "trade_sum i t = sum_list (map (row_gain i) (trades t))"
  unfolding trade_sum_def row_gain_def by (simp add: sum_list_map_filter')

lemma sum_list_gain:
  "list_all2 (\<lambda>r s. f s = f r + (d r :: int)) rs ss \<Longrightarrow> sum_list (map f ss) = sum_list (map f rs) + sum_list (map d rs)"
  by (induction rule: list_all2_induct) auto

lemma moves_rows:
  assumes "list_all2 (\<lambda>r s. row_ahead F r s \<and> (\<forall>i. row_gain i s = row_gain i r + d i r)) (trades t) (trades u)"
    and "accounts u = accounts t" "ledger u = ledger t"
  shows "moves F (\<lambda>i. - sum_list (map (d i) (trades t))) t u"
proof -
  have g: "get_account i u = get_account i t" "ledger_sum i u = ledger_sum i t" for i
    using assms(2,3) by (simp_all add: get_account_def ledger_sum_def)
  have "trade_sum i u = trade_sum i t + sum_list (map (d i) (trades t))" for i
    unfolding trade_sum_gain by (rule sum_list_gain) (use assms(1) in \<open>auto elim: list_all2_mono\<close>)
  then have "residue i u = map_option (\<lambda>z. z + - sum_list (map (d i) (trades t))) (residue i t)" for i
    by (simp add: residue_def g option.map_comp o_def diff_diff_eq2 algebra_simps)
  moreover have "list_all2 (row_ahead F) (trades t) (trades u)" using assms(1) by (auto elim: list_all2_mono)
  ultimately show ?thesis by (simp add: moves_def balances_ok_def g)
qed

text \<open>A change of rows that books nothing.\<close>

definition calm :: "string set \<Rightarrow> trade \<Rightarrow> trade \<Rightarrow> bool" where
  "calm F r s \<longleftrightarrow> row_ahead F r s \<and> (trade_status s = Some ''closed'' \<longrightarrow> s = r)"

lemma calm_gain: "calm F r s \<Longrightarrow> row_ahead F r s \<and> (\<forall>i. row_gain i s = row_gain i r + (\<lambda>_ _. 0) i r)"
  unfolding calm_def row_gain_def row_defs by (cases "trade_status s = Some ''closed''"; cases "trade_status r = Some ''closed''") auto

lemma calm_rows:
  assumes "list_all2 (calm F) (trades t) (trades u)" "accounts u = accounts t" "ledger u = ledger t"
  shows "books F t u"
proof -
  have "list_all2 (\<lambda>r s. row_ahead F r s \<and> (\<forall>i. row_gain i s = row_gain i r + (\<lambda>_ _. 0) i r)) (trades t) (trades u)"
    using assms(1) by (rule list_all2_mono) (rule calm_gain)
  from moves_rows [OF this assms(2,3)] show ?thesis by simp
qed

lemma calm_map: "(\<And>r. r \<in> set rs \<Longrightarrow> calm F r (f r)) \<Longrightarrow> list_all2 (calm F) rs (map f rs)"
  by (simp add: list_all2_map2 list.rel_refl_strong)

lemma calm_refl [simp]: "calm F r r"
  by (simp add: calm_def)

lemma books_accounts:
  assumes "\<And>i. get_account i u = map_option f (get_account i t) \<or> get_account i u = get_account i t"
    and "\<And>a. current_balance (f a) = current_balance a \<and> starting_balance (f a) = starting_balance a"
    and "trades u = trades t" "ledger u = ledger t"
  shows "books F t u"
proof -
  have "residue i u = residue i t" for i
    using assms(1) [of i] assms(2-4) by (cases "get_account i t") (auto simp: residue_def trade_sum_def ledger_sum_def)
  moreover have "balances_ok t \<longrightarrow> balances_ok u"
    unfolding balances_ok_def
  proof (intro impI allI)
    fix i a assume "\<forall>i a. get_account i t = Some a \<longrightarrow> cents_ok (current_balance a)" "get_account i u = Some a"
    then show "cents_ok (current_balance a)" using assms(1) [of i] assms(2) by (cases "get_account i t") auto
  qed
  ultimately show ?thesis using assms(3) by (simp add: moves_def list_all2_refl option.map_ident)
qed

text \<open>The rows: every id once, each row on the account \<open>acct\<close> names, and not more than the decimals can add up exactly.\<close>

definition rows_of :: "(string \<Rightarrow> string) \<Rightarrow> db \<Rightarrow> bool" where
  "rows_of acct t \<longleftrightarrow> distinct (map trade_id (trades t)) \<and> (\<forall>r\<in>set (trades t). trade_account r = Some (acct (trade_id r))) \<and>
     length (trades t) \<le> 100000"

lemma ahead_ids: "list_all2 (row_ahead F) rs ss \<Longrightarrow> map trade_id ss = map trade_id rs"
  by (induction rule: list_all2_induct) (auto simp: row_defs)

lemma ahead_accounts:
  "list_all2 (row_ahead F) rs ss \<Longrightarrow> (\<forall>r\<in>set rs. trade_account r = Some (acct (trade_id r))) \<Longrightarrow> \<forall>r\<in>set ss. trade_account r = Some (acct (trade_id r))"
  by (induction rule: list_all2_induct) (auto simp: row_defs)

lemma rows_of_moves: "moves F G t u \<Longrightarrow> rows_of acct t \<Longrightarrow> rows_of acct u"
  using ahead_ids ahead_accounts unfolding moves_def rows_of_def by (metis list_all2_lengthD)

lemma row_unique: "rows_of acct t \<Longrightarrow> r \<in> set (trades t) \<Longrightarrow> s \<in> set (trades t) \<Longrightarrow> trade_id r = trade_id s \<Longrightarrow> r = s"
  by (auto simp: rows_of_def distinct_map inj_on_def)

lemma each_Inr: "each f xs = Inr ys \<longleftrightarrow> list_all2 (\<lambda>x y. f x = Inr y) xs ys"
  by (induction xs arbitrary: ys) (auto simp: sum_bind_Inr list_all2_Cons1)

lemma each_from: "each f xs = Inr ys \<Longrightarrow> y \<in> set ys \<Longrightarrow> \<exists>x\<in>set xs. f x = Inr y"
  by (induction xs arbitrary: ys) (auto simp: sum_bind_Inr)

lemma each_to: "each f xs = Inr ys \<Longrightarrow> x \<in> set xs \<Longrightarrow> \<exists>y\<in>set ys. f x = Inr y"
  by (induction xs arbitrary: ys) (auto simp: sum_bind_Inr)

lemma find_hit: "List.find P xs = Some x \<Longrightarrow> x \<in> set xs \<and> P x"
  by (induction xs) (auto split: if_splits)

section \<open>Closing rows\<close>

text \<open>What a row becomes when it is closed at \<open>k\<close> cents.\<close>

definition closes_at :: "string set \<Rightarrow> int \<Rightarrow> trade \<Rightarrow> trade \<Rightarrow> bool" where
  "closes_at F k r s \<longleftrightarrow> row_ahead F r s \<and> trade_status s = Some ''closed'' \<and> demo_pnl s = Some k \<and> cents_ok k"

lemma close_row_at:
  assumes "close_row n p q reason r = Inr s" "bind_num (mk (of_int k / 100)) = Inr q" "trade_status r = Some ''open''"
    and "post = (\<lambda>r. r) \<or> post = clear_deferred"
  shows "closes_at F k r (post s)"
proof -
  obtain x c where c: "numeric15_2 q = Inr c"
    "s = r\<lparr>trade_status := Some ''closed'', trade_close_price := Some x, trade_close_time := Some n, demo_pnl := Some c, trade_reason := Some reason\<rparr>"
    using assms(1) by (auto simp: close_row_def sum_bind_Inr)
  then show ?thesis using booked_cents [OF assms(2) c(1)] assms(3,4)
    by (auto simp: closes_at_def row_defs clear_deferred_def)
qed

lemma bound_found:
  assumes "each bind_closing cls = Inr vs" "List.find (\<lambda>v. fst v = i) vs = Some (j, p, q, reason)"
  obtains c where "c \<in> set cls" "cl_trade c = i" "bind_num (cl_pnl c) = Inr q"
proof -
  have "(j, p, q, reason) \<in> set vs" "j = i" using find_hit [OF assms(2)] by auto
  then obtain c where "c \<in> set cls" "bind_closing c = Inr (i, p, q, reason)" using each_from [OF assms(1)] by blast
  then show ?thesis using that by (auto simp: bind_closing_def sum_bind_Inr)
qed

lemma bound_missing:
  assumes "each bind_closing cls = Inr vs" "List.find (\<lambda>v. fst v = i) vs = None"
  shows "i \<notin> cl_trade ` set cls"
proof
  assume "i \<in> cl_trade ` set cls"
  then obtain c v where "c \<in> set cls" "cl_trade c = i" "bind_closing c = Inr v" "v \<in> set vs"
    using each_to [OF assms(1)] by blast
  then show False using assms(2) by (auto simp: bind_closing_def sum_bind_Inr find_None_iff)
qed

lemma sum_over_rows:
  assumes "distinct (map trade_id rs)" "K \<subseteq> trade_id ` set rs"
  shows "sum_list (map (\<lambda>r. if trade_id r \<in> K then g (trade_id r) else (0 :: int)) rs) = (\<Sum>k\<in>K. g k)"
proof -
  have "sum_list (map (\<lambda>r. if trade_id r \<in> K then g (trade_id r) else 0) rs) = sum_list (map (\<lambda>k. if k \<in> K then g k else 0) (map trade_id rs))"
    by (simp add: o_def)
  also have "\<dots> = (\<Sum>k\<in>set (map trade_id rs). if k \<in> K then g k else 0)" by (rule sum_list_distinct_conv_sum_set [OF assms(1)])
  also have "\<dots> = (\<Sum>k\<in>K. g k)" using assms(2) by (simp add: sum.If_cases Int_absorb1)
  finally show ?thesis .
qed

definition closable :: "(trade \<Rightarrow> bool) \<Rightarrow> string set \<Rightarrow> db \<Rightarrow> bool" where
  "closable guard K t \<longleftrightarrow> (\<forall>k\<in>K. \<exists>r\<in>set (trades t). trade_id r = k \<and> trade_status r = Some ''open'' \<and> guard r)"

lemma closable_row:
  assumes "closable guard K t" "rows_of acct t" "r \<in> set (trades t)" "trade_id r \<in> K"
  shows "trade_status r = Some ''open''" "guard r"
proof -
  obtain s where "s \<in> set (trades t)" "trade_id s = trade_id r" "trade_status s = Some ''open''" "guard s"
    using assms(1,4) unfolding closable_def by blast
  then show "trade_status r = Some ''open''" "guard r" using row_unique [OF assms(2,3)] by force+
qed

lemma moves_close:
  fixes cls
  defines "K \<equiv> cl_trade ` set cls"
  assumes st: "close_stmt guard post cls t = Inr ((), u)" and rows: "rows_of acct t" and post: "post = (\<lambda>r. r) \<or> post = clear_deferred"
    and ks: "\<forall>c\<in>set cls. cl_pnl c = mk (of_int (kof (cl_trade c)) / 100)" and cl: "closable guard K t"
  shows "moves F (\<lambda>i. - (\<Sum>k\<in>{k \<in> K. acct k = i}. kof k)) t u" "\<forall>k\<in>K. cents_ok (kof k)" "accounts u = accounts t"
proof -
  obtain vs rs where vs: "each bind_closing cls = Inr vs" and u: "u = t\<lparr>trades := rs\<rparr>"
    and rs: "list_all2 (\<lambda>r s. (case List.find (\<lambda>v. fst v = trade_id r) vs of None \<Rightarrow> Inr r
       | Some (_, p, q, reason) \<Rightarrow> if guard r then sum_bind (close_row (now t) p q reason r) (\<lambda>r'. Inr (post r')) else Inr r) = Inr s) (trades t) rs"
    using st by (auto simp: close_stmt_def sum_bind_Inr each_Inr)
  have row: "if trade_id r \<in> K then closes_at F (kof (trade_id r)) r s else s = r"
    if r: "r \<in> set (trades t)" and e: "(case List.find (\<lambda>v. fst v = trade_id r) vs of None \<Rightarrow> Inr r
       | Some (_, p, q, reason) \<Rightarrow> if guard r then sum_bind (close_row (now t) p q reason r) (\<lambda>r'. Inr (post r')) else Inr r) = Inr s" for r s
  proof (cases "List.find (\<lambda>v. fst v = trade_id r) vs")
    case None
    then show ?thesis using bound_missing [OF vs None] e by (simp add: K_def)
  next
    case (Some v)
    obtain j p q reason where v: "v = (j, p, q, reason)" by (cases v)
    obtain c where c: "c \<in> set cls" "cl_trade c = trade_id r" "bind_num (cl_pnl c) = Inr q" using bound_found [OF vs Some [unfolded v]] by blast
    have k: "trade_id r \<in> K" using c unfolding K_def by force
    note o = closable_row [OF cl rows r k]
    have "bind_num (mk (of_int (kof (trade_id r)) / 100)) = Inr q" using c ks by metis
    moreover obtain s0 where "close_row (now t) p q reason r = Inr s0" "s = post s0"
      using e o(2) by (auto simp: Some v sum_bind_Inr)
    ultimately show ?thesis using k close_row_at [OF _ _ o(1) post] by simp
  qed
  have rel: "list_all2 (\<lambda>r s. r \<in> set (trades t) \<and> (if trade_id r \<in> K then closes_at F (kof (trade_id r)) r s else s = r)) (trades t) rs"
    using rs row by (auto simp: list_all2_conv_all_nth)
  have tr: "trades u = rs" by (simp add: u)
  have gain: "list_all2 (\<lambda>r s. row_ahead F r s \<and> (\<forall>i. row_gain i s = row_gain i r + (if trade_id r \<in> {k \<in> K. acct k = i} then kof (trade_id r) else 0))) (trades t) (trades u)"
    unfolding tr
  proof (rule list_all2_mono [OF rel], goal_cases)
    case (1 r s)
    have a: "trade_account r = Some (acct (trade_id r))" using rows 1 by (auto simp: rows_of_def)
    show ?case
    proof (cases "trade_id r \<in> K")
      case True
      then have s: "closes_at F (kof (trade_id r)) r s" using 1 by simp
      have "trade_status r = Some ''open''" using closable_row [OF cl rows _ True] 1 by blast
      then show ?thesis using s a True by (auto simp: closes_at_def row_defs row_gain_def)
    qed (use 1 in simp)
  qed
  have "moves F (\<lambda>i. - sum_list (map ((\<lambda>i r. if trade_id r \<in> {k \<in> K. acct k = i} then kof (trade_id r) else 0) i) (trades t))) t u"
    by (rule moves_rows [OF gain]) (simp_all add: u)
  then show "moves F (\<lambda>i. - (\<Sum>k\<in>{k \<in> K. acct k = i}. kof k)) t u"
  proof (rule moves_eq)
    fix i
    have "{k \<in> K. acct k = i} \<subseteq> trade_id ` set (trades t)" using cl unfolding closable_def by auto
    moreover have "distinct (map trade_id (trades t))" using rows by (simp add: rows_of_def)
    ultimately show "- sum_list (map ((\<lambda>i r. if trade_id r \<in> {k \<in> K. acct k = i} then kof (trade_id r) else 0) i) (trades t)) =
      - (\<Sum>k\<in>{k \<in> K. acct k = i}. kof k)" by (simp only: sum_over_rows)
  qed
  show "\<forall>k\<in>K. cents_ok (kof k)"
  proof
    fix k assume k: "k \<in> K"
    then obtain r where r: "r \<in> set (trades t)" "trade_id r = k" using cl unfolding closable_def by blast
    then obtain s where "closes_at F (kof k) r s" using rel k by (auto simp: list_all2_conv_all_nth in_set_conv_nth)
    then show "cents_ok (kof k)" by (simp add: closes_at_def)
  qed
  show "accounts u = accounts t" by (simp add: u)
qed

section \<open>The other statements\<close>

lemma moves_credit:
  assumes "credit_stmt i (mk (of_int k / 100)) t = Inr (ra, u)" "balances_ok t"
  shows "moves F (\<lambda>j. if j = i then k else 0) t u"
proof (cases "get_account i t")
  case None
  then have "u = t" using assms(1) by (simp add: credit_stmt_def)
  then show ?thesis using None by (simp add: moves_def residue_def list_all2_refl option.map_ident)
next
  case (Some a)
  obtain q c p where q: "bind_num (mk (of_int k / 100)) = Inr q" and c: "numeric15_2 (of_int (current_balance a) / 100 + q) = Inr c"
    and u: "u = put_account i (\<lambda>r. r\<lparr>current_balance := c, peak_balance := p\<rparr>) t"
    using assms(1) Some by (auto simp: credit_stmt_def Let_def split: sum.splits)
  have ok: "cents_ok (current_balance a)" using assms(2) Some by (simp add: balances_ok_def)
  have ck: "c = current_balance a + k" by (rule booked_on [OF q c ok])
  have cc: "cents_ok c" using c by (auto simp: numeric15_2_ok)
  have "keeps_acc_id (\<lambda>r. r\<lparr>current_balance := c, peak_balance := p\<rparr>)" by auto
  from acct.lookup_modify [OF this] have g: "get_account j u = (if j = i then Some (a\<lparr>current_balance := c, peak_balance := p\<rparr>) else get_account j t)" for j
    using Some by (simp add: u)
  have "residue j u = map_option (\<lambda>z. z + (if j = i then k else 0)) (residue j t)" for j
  proof -
    have "trade_sum j u = trade_sum j t" "ledger_sum j u = ledger_sum j t" by (simp_all add: trade_sum_def ledger_sum_def u)
    then show ?thesis using Some by (simp add: residue_def g ck option.map_ident)
  qed
  moreover have "balances_ok u" using assms(2) cc by (simp add: balances_ok_def g)
  ultimately show ?thesis by (simp add: moves_def u list_all2_refl)
qed

lemma books_cancel:
  assumes "cancel_stmt guard reason t = Inr (ids, u)"
    and "\<And>r. r \<in> set (trades t) \<Longrightarrow> guard r \<Longrightarrow> trade_status r \<in> {Some ''pending'', Some ''cancelled''}"
  shows "books F t u"
proof (rule calm_rows)
  let ?f = "\<lambda>r. if guard r then r\<lparr>trade_status := Some ''cancelled'', trade_close_time := Some (now t), trade_reason := Some reason\<rparr> else r"
  have u: "u = t\<lparr>trades := map ?f (trades t)\<rparr>" using assms(1) by (simp add: cancel_stmt_def)
  then show "accounts u = accounts t" "ledger u = ledger t" by simp_all
  have "list_all2 (calm F) (trades t) (map ?f (trades t))"
  proof (rule calm_map)
    fix r assume "r \<in> set (trades t)"
    then show "calm F r (?f r)" using assms(2) [of r] by (auto simp: calm_def row_defs)
  qed
  then show "list_all2 (calm F) (trades t) (trades u)" by (simp add: u)
qed

lemma books_defer: "defer_stmt ds t = Inr (ids, u) \<Longrightarrow> books F t u"
  by (rule calm_rows)
    (auto simp: defer_stmt_def sum_bind_Inr Let_def calm_def row_defs intro!: calm_map split: option.split)

lemma books_open:
  assumes "open_stmt i price t = Inr (r', u)" "\<And>r. r \<in> set (trades t) \<Longrightarrow> trade_id r = i \<Longrightarrow> trade_status r = Some ''pending''"
  and "i \<in> F"
  shows "books F t u"
proof (rule calm_rows)
  obtain p where u: "u = t\<lparr>trades := update_by trade_id i (\<lambda>r. r\<lparr>trade_status := Some ''open'', trade_open_price := Some p, trade_open_time := Some (now t), trade_reason := None\<rparr>) (trades t)\<rparr>"
    using assms(1) by (auto simp: open_stmt_def sum_bind_Inr Let_def)
  then show "accounts u = accounts t" "ledger u = ledger t" by simp_all
  show "list_all2 (calm F) (trades t) (trades u)"
    using assms(2,3) by (auto simp: u update_by_def calm_def row_defs intro!: calm_map)
qed

lemma books_status: "status_stmt_to i s t = Inr ((), u) \<Longrightarrow> books F t u"
proof -
  assume "status_stmt_to i s t = Inr ((), u)"
  then have u: "u = put_account i (\<lambda>a. a\<lparr>acc_status := Some s\<rparr>) t" by (simp add: status_stmt_to_def)
  have "keeps_acc_id (\<lambda>a. a\<lparr>acc_status := Some s\<rparr>)" by auto
  from acct.lookup_modify [OF this] show ?thesis
    by (intro books_accounts [where f = "\<lambda>a. a\<lparr>acc_status := Some s\<rparr>"]) (auto simp: u)
qed

lemma books_bump: "books F t (bump_day f t)"
  by (rule books_accounts [where f = "\<lambda>a. a"]) (simp_all add: get_account_def option.map_ident)

lemma books_anchors: "anchors_rise t u \<Longrightarrow> books F t u"
proof -
  assume a: "anchors_rise t u"
  then obtain as where u: "u = t\<lparr>accounts := as\<rparr>" by (auto simp: anchors_rise_def)
  have g: "rel_option anchors_only (get_account i t) (get_account i u)" for i using a by (simp add: anchors_rise_def)
  have "residue i u = residue i t" for i
    using g [of i] by (auto simp: residue_def rel_option_iff anchors_only_def trade_sum_def ledger_sum_def u split: option.splits)
  moreover have "balances_ok t \<longrightarrow> balances_ok u"
    unfolding balances_ok_def
  proof (intro impI allI)
    fix i a assume "\<forall>i a. get_account i t = Some a \<longrightarrow> cents_ok (current_balance a)" "get_account i u = Some a"
    then show "cents_ok (current_balance a)" using g [of i] by (auto simp: option_rel_Some2 anchors_only_def)
  qed
  ultimately show ?thesis by (simp add: moves_def u list_all2_refl option.map_ident)
qed

lemma books_review: "createPromotionReview lookup acc trig reason req payload c = (Inr r, c') \<Longrightarrow> books F (tabs c) (tabs c')"
  by (rule books_accounts [where f = "\<lambda>a. a"])
    (auto simp: createPromotionReview_def tx_return_app query_Inr review_stmt_def Let_def get_account_def put_review_def option.map_ident
      elim!: tx_bind_Inr_E split: option.splits sum.splits)

section \<open>Transaction bodies\<close>

lemma in_transaction_effect:
  assumes "in_transaction body e = (r, e')" "framed body"
  obtains (kept) "e' = e" | (ended) x c1 where "r = Inr x" "body (begin_tx (pool_conn (en_db e))) = (Inr x, c1)" "e' = e\<lparr>en_db := tabs c1\<rparr>"
proof -
  let ?c = "begin_tx (pool_conn (en_db e))"
  obtain q c1 where b: "body ?c = (q, c1)" by (cases "body ?c")
  have base: "base c1 = en_db e" using framedD [OF assms(2) b] by (simp add: begin_tx_def pool_conn_def)
  show thesis
  proof (cases q)
    case (Inl x)
    then have "e' = e" using assms(1) b base by (auto simp: in_transaction_def withTransaction_def rollback_tx_def)
    then show ?thesis by (rule kept)
  next
    case (Inr x)
    show ?thesis
    proof (cases "aborted c1")
      case True
      then have "e' = e" using assms(1) b base Inr by (auto simp: in_transaction_def withTransaction_def commit_tx_def rollback_tx_def)
      then show ?thesis by (rule kept)
    next
      case False
      then show ?thesis
        using assms(1) b Inr by (intro ended [of x c1]) (auto simp: in_transaction_def withTransaction_def commit_tx_def)
    qed
  qed
qed

definition ready :: "(string \<Rightarrow> string) \<Rightarrow> db \<Rightarrow> bool" where
  "ready acct t \<longleftrightarrow> rows_of acct t \<and> balances_ok t"

lemma ready_moves: "moves F G t u \<Longrightarrow> ready acct t \<Longrightarrow> ready acct u"
  using rows_of_moves unfolding ready_def moves_def by metis

lemma sum_singleton: "(\<Sum>k\<in>{k \<in> {j}. acct k = i}. g k) = (if acct j = i then g j else (0 :: int))"
proof -
  have "{k \<in> {j}. acct k = i} = (if acct j = i then {j} else {})" by auto
  then show ?thesis by simp
qed

lemma row_pnl_cents:
  assumes "sum_laws (mt_arith m) v" "row_pnl m r price rate = Inr x"
  shows "\<exists>k. x = mk (of_int k / 100)"
  using pnl_in_cents [OF assms(1) assms(2) [unfolded row_pnl_def]] by metis

lemma books_close_trade:
  assumes b: "close_trade_body m r fillPrice reason c = (Inr x, c1)" and l: "sum_laws (mt_arith m) v"
    and ok: "ready acct (tabs c)" and r: "trade_account r = Some (acct (trade_id r))"
  shows "books F (tabs c) (tabs c1)"
proof (cases "case get_trade (trade_id r) (tabs c) of None \<Rightarrow> True | Some x \<Rightarrow> trade_status x \<noteq> Some ''open''")
  case True
  then show ?thesis using b by (auto simp: close_trade_body_def select_Inr tx_return_app elim!: tx_bind_Inr_E)
next
  case False
  then obtain y where y: "get_trade (trade_id r) (tabs c) = Some y" "trade_status y = Some ''open''" by (auto split: option.splits)
  have yi: "y \<in> set (trades (tabs c))" "trade_id y = trade_id r" using find_by_key y(1) unfolding get_trade_def by metis+
  obtain pnl t1 where pnl: "row_pnl m r fillPrice None = Inr pnl"
    and cl: "close_stmt (\<lambda>_. True) clear_deferred [\<lparr>cl_trade = trade_id r, cl_price = fillPrice, cl_pnl = pnl, cl_reason = reason\<rparr>] (tabs c) = Inr ((), t1)"
    and cr: "\<exists>ra. credit_stmt (text_or_empty (trade_account r)) pnl t1 = Inr (ra, tabs c1)"
    using b False unfolding close_trade_body_def
    by (auto simp: select_Inr query_Inr lift_sum_def tx_return_app tx_throw_app elim!: tx_bind_Inr_E split: sum.splits)
  obtain k where k: "pnl = mk (of_int k / 100)" using row_pnl_cents [OF l pnl] by blast
  have "moves F (\<lambda>i. - (\<Sum>j\<in>{j \<in> {trade_id r}. acct j = i}. k)) (tabs c) t1"
    using moves_close(1) [OF cl, where kof = "\<lambda>_. k" and acct = acct] ok k y yi by (auto simp: ready_def closable_def)
  then have m1: "moves F (\<lambda>i. - (if acct (trade_id r) = i then k else 0)) (tabs c) t1"
    by (simp only: sum_singleton)
  have "balances_ok t1" using ready_moves [OF m1 ok] by (simp add: ready_def)
  then have "moves F (\<lambda>j. if j = acct (trade_id r) then k else 0) t1 (tabs c1)"
    using moves_credit cr r k by auto
  from moves_trans [OF m1 this] show ?thesis by (rule moves_eq) simp
qed

text \<open>Settling all open trades of an account.\<close>

lemma settled_cents:
  assumes l: "sum_laws (mt_arith m) v" and s: "settle_rows m prices reason rows = Inr (cls, sum1)" and d: "distinct (map trade_id rows)"
  obtains kof where "map cl_trade cls = map trade_id rows" "\<forall>c\<in>set cls. cl_pnl c = mk (of_int (kof (cl_trade c)) / 100)"
    "\<forall>k\<in>cl_trade ` set cls. cents_ok (kof k) \<Longrightarrow> length rows \<le> 100000 \<Longrightarrow> sum1 = mk (of_int (\<Sum>k\<in>cl_trade ` set cls. kof k) / 100)"
proof -
  let ?D = "mt_arith m"
  have e: "each (\<lambda>r. sum_bind (settlementFor m r (prices (trade_instrument r))) (\<lambda>s.
              Inr \<lparr>cl_trade = trade_id r, cl_price = st_price s, cl_pnl = st_pnl s, cl_reason = reason\<rparr>)) rows = Inr cls"
    and tot: "sum1 = da_num ?D (da_cents ?D (foldl (\<lambda>d c. da_plus ?D d (da_from ?D (cl_pnl c))) (da_from ?D (Fin 0)) cls))"
    using s by (auto simp: settle_rows_def Let_def split: sum.splits)
  have ids: "map cl_trade cls = map trade_id rows"
    using e by (induction rows arbitrary: cls) (auto simp: sum_bind_Inr)
  have "\<exists>k. cl_pnl c = mk (of_int k / 100)" if c: "c \<in> set cls" for c
  proof -
    obtain r st where st: "settlementFor m r (prices (trade_instrument r)) = Inr st" "cl_pnl c = st_pnl st"
      using each_from [OF e c] by (auto simp: sum_bind_Inr)
    show ?thesis
    proof (cases "prices (trade_instrument r)")
      case None
      then have "cl_pnl c = mk (of_int 0 / 100)" using st by (auto simp: settlementFor_def mk_def Let_def max_double_def)
      then show ?thesis by blast
    next
      case (Some q)
      then show ?thesis using st row_pnl_cents [OF l] by (auto simp: settlementFor_def sum_bind_Inr)
    qed
  qed
  moreover have dc: "distinct (map cl_trade cls)" using ids d by simp
  ultimately obtain kof where kof: "\<forall>c\<in>set cls. cl_pnl c = mk (of_int (kof (cl_trade c)) / 100)" using cents_by_key by metis
  have "length cls = length rows" using arg_cong [OF ids, of length] by simp
  then show thesis using that [OF ids kof] total_by_key [OF l dc kof] tot by simp
qed

text \<open>Closing what was settled leaves the account short of the total, nothing else.\<close>

lemma open_rows:
  assumes "ready acct t"
  shows "distinct (map trade_id (open_trades_of i t))" "length (open_trades_of i t) \<le> 100000"
    "closable (\<lambda>_. True) (trade_id ` set (open_trades_of i t)) t" "k \<in> trade_id ` set (open_trades_of i t) \<Longrightarrow> acct k = i"
proof -
  have "length (open_trades_of i t) \<le> length (trades t)" by (simp add: open_trades_of_def)
  then show "length (open_trades_of i t) \<le> 100000" using assms by (simp add: ready_def rows_of_def)
  show "distinct (map trade_id (open_trades_of i t))" using assms by (simp add: ready_def rows_of_def open_trades_of_def distinct_map_filter)
  show "closable (\<lambda>_. True) (trade_id ` set (open_trades_of i t)) t" by (auto simp: closable_def open_trades_of_def)
  show "k \<in> trade_id ` set (open_trades_of i t) \<Longrightarrow> acct k = i" using assms by (auto simp: ready_def rows_of_def open_trades_of_def)
qed

lemma moves_settle:
  assumes l: "sum_laws (mt_arith m) v" and ok: "ready acct (tabs c)"
    and s: "settle_rows m prices reason (open_trades_of i (tabs c)) = Inr (cls, sum1)" and b: "bulkCloseTrades cls c = (Inr u, c1)"
  shows "\<exists>k. sum1 = mk (of_int k / 100) \<and> moves F (\<lambda>j. - (if j = i then k else 0)) (tabs c) (tabs c1)"
proof -
  note o = open_rows [OF ok, where i = i]
  obtain kof where ids: "map cl_trade cls = map trade_id (open_trades_of i (tabs c))"
    and ks: "\<forall>c\<in>set cls. cl_pnl c = mk (of_int (kof (cl_trade c)) / 100)"
    and tot: "\<forall>k\<in>cl_trade ` set cls. cents_ok (kof k) \<Longrightarrow> length (open_trades_of i (tabs c)) \<le> 100000 \<Longrightarrow>
      sum1 = mk (of_int (\<Sum>k\<in>cl_trade ` set cls. kof k) / 100)"
    using settled_cents [OF l s o(1)] by metis
  have K: "cl_trade ` set cls = trade_id ` set (open_trades_of i (tabs c))" using arg_cong [OF ids, of set] by simp
  let ?k = "\<Sum>k\<in>cl_trade ` set cls. kof k"
  have mv: "moves F (\<lambda>j. - (\<Sum>k\<in>{k \<in> cl_trade ` set cls. acct k = j}. kof k)) (tabs c) (tabs c1) \<and> (\<forall>k\<in>cl_trade ` set cls. cents_ok (kof k))"
  proof (cases "cls = []")
    case True
    then show ?thesis using b by (simp add: bulkCloseTrades_def tx_return_app)
  next
    case False
    then have "close_stmt (\<lambda>_. True) (\<lambda>r. r) cls (tabs c) = Inr ((), tabs c1)" using b by (auto simp: bulkCloseTrades_def query_Inr)
    from moves_close [OF this, where kof = kof and acct = acct] show ?thesis using ok ks o(3) by (simp add: ready_def K)
  qed
  have "{k \<in> cl_trade ` set cls. acct k = j} = (if j = i then cl_trade ` set cls else {})" for j using o(4) K by auto
  then have "(\<Sum>k\<in>{k \<in> cl_trade ` set cls. acct k = j}. kof k) = (if j = i then ?k else 0)" for j by simp
  then show ?thesis using mv tot o(2) by (intro exI [of _ ?k]) simp
qed

lemma books_fail:
  assumes b: "fail_body m prices i c = (Inr x, c1)" and l: "sum_laws (mt_arith m) v" and ok: "ready acct (tabs c)"
  shows "books F (tabs c) (tabs c1)"
proof (cases "active_account i (tabs c)")
  case None
  then show ?thesis using b by (auto simp: fail_body_def select_Inr tx_return_app elim!: tx_bind_Inr_E)
next
  case (Some a)
  obtain cls sum1 c2 c3 t4 ids t5 where s: "settle_rows m prices ''Account Failed'' (open_trades_of i (tabs c)) = Inr (cls, sum1)"
    and bc: "bulkCloseTrades cls c = (Inr (), c2)"
    and cr: "(if sum1 \<noteq> Fin 0 then tx_bind (query (credit_stmt i sum1)) (\<lambda>_. tx_return ()) else tx_return ()) c2 = (Inr (), c3)"
    and ca: "cancel_stmt (\<lambda>r. trade_account r = Some i \<and> trade_status r = Some ''pending'') ''Account Failed'' (tabs c3) = Inr (ids, t4)"
    and st: "status_stmt_to i ''failed'' t4 = Inr ((), t5)" and t: "tabs c1 = bump_day count_failure t5"
    using b Some unfolding fail_body_def
    by (auto simp: select_Inr query_Inr lift_sum_def tx_return_app tx_throw_app elim!: tx_bind_Inr_E split: sum.splits prod.splits)
  obtain k where k: "sum1 = mk (of_int k / 100)" and m1: "moves F (\<lambda>j. - (if j = i then k else 0)) (tabs c) (tabs c2)"
    using moves_settle [OF l ok s bc] by blast
  have ok2: "balances_ok (tabs c2)" using ready_moves [OF m1 ok] by (simp add: ready_def)
  have m2: "moves F (\<lambda>j. if j = i then k else 0) (tabs c2) (tabs c3)"
  proof (cases "sum1 = Fin 0")
    case True
    then have "(\<lambda>j. if j = i then k else 0) = (\<lambda>_. 0)" using mk_cents_0 k by auto
    then show ?thesis using cr True by (simp only: if_False simp_thms tx_return_app prod.inject books_refl)
  next
    case False
    then obtain ra where "credit_stmt i (mk (of_int k / 100)) (tabs c2) = Inr (ra, tabs c3)"
      using cr k by (auto simp: query_Inr tx_return_app elim!: tx_bind_Inr_E)
    then show ?thesis using moves_credit ok2 by blast
  qed
  have "books F (tabs c3) t4" by (rule books_cancel [OF ca]) auto
  then have "books F (tabs c3) (tabs c1)" unfolding t using books_status [OF st] books_bump books_trans by blast
  from moves_trans [OF moves_trans [OF m1 m2] this] show ?thesis by (rule moves_eq) simp
qed

lemma books_pass:
  assumes b: "pass_body m prices acc c = (Inr x, c1)" and l: "sum_laws (mt_arith m) v" and ok: "ready acct (tabs c)"
  shows "books F (tabs c) (tabs c1)"
proof (cases "active_account (eg_id acc) (tabs c)")
  case None
  then show ?thesis using b by (auto simp: pass_body_def Let_def select_Inr tx_return_app elim!: tx_bind_Inr_E)
next
  case (Some a)
  let ?i = "eg_id acc"
  obtain reason cls sum1 c2 t3 t4 ids rv trig why req payload where s: "settle_rows m prices reason (open_trades_of ?i (tabs c)) = Inr (cls, sum1)"
    and bc: "bulkCloseTrades cls c = (Inr (), c2)" and ps: "pass_stmt ?i sum1 (tabs c2) = Inr ((), t3)"
    and ca: "cancel_stmt (\<lambda>r. trade_account r = Some ?i \<and> trade_status r = Some ''pending'') reason t3 = Inr (ids, t4)"
    and rv: "createPromotionReview (mt_models m) (passed_engine_account acc) trig why req payload (c2\<lparr>tabs := t4\<rparr>) = (Inr rv, c1)"
    using b Some unfolding pass_body_def Let_def
    by (auto simp: select_Inr query_Inr lift_sum_def tx_return_app tx_throw_app elim!: tx_bind_Inr_E split: sum.splits prod.splits option.splits)
  obtain k where k: "sum1 = mk (of_int k / 100)" and m1: "moves F (\<lambda>j. - (if j = ?i then k else 0)) (tabs c) (tabs c2)"
    using moves_settle [OF l ok s bc] by blast
  have ok2: "balances_ok (tabs c2)" using ready_moves [OF m1 ok] by (simp add: ready_def)
  obtain ra t' where cr: "credit_stmt ?i sum1 (tabs c2) = Inr (ra, t')" and st: "status_stmt_to ?i ''passed'' t' = Inr ((), t3)"
    using ps by (auto simp: pass_stmt_def sum_bind_Inr)
  have m2: "moves F (\<lambda>j. if j = ?i then k else 0) (tabs c2) t'" using moves_credit cr ok2 k by blast
  have "books F t3 t4" by (rule books_cancel [OF ca]) auto
  then have "books F t' (tabs c1)" using books_status [OF st, of F] books_review [OF rv, of F] books_trans by fastforce
  from moves_trans [OF moves_trans [OF m1 m2] this] show ?thesis by (rule moves_eq) simp
qed

end
