(* ===== verification/EngineLife.thy ===== *)
theory EngineLife
  imports EngineBooks
begin

text \<open>
  The engine as a whole: its transactions and passes keep the books of every account, let every trade go
  on in its life, and keep the index consistent with the rows; so do all sequences of them.
\<close>

section \<open>Filling orders and closing triggered trades\<close>

lemma books_mono: "books F t u \<Longrightarrow> F \<subseteq> F' \<Longrightarrow> books F' t u"
proof -
  assume b: "books F t u" and F: "F \<subseteq> F'"
  have "row_ahead F r s \<Longrightarrow> row_ahead F' r s" for r s using F by (auto simp: row_ahead_def)
  then show "books F' t u" using b by (auto simp: moves_def elim: list_all2_mono)
qed

definition waiting :: "string set \<Rightarrow> db \<Rightarrow> bool" where
  "waiting K t \<longleftrightarrow> (\<forall>r\<in>set (trades t). trade_id r \<in> K \<longrightarrow> waits r)"

lemma waiting_books: "books F t u \<Longrightarrow> waiting K t \<Longrightarrow> waiting (K - F) u"
proof -
  assume b: "books F t u" and w: "waiting K t"
  have "list_all2 (row_ahead F) (trades t) (trades u)" using b by (simp add: moves_def)
  then show "waiting (K - F) u"
    using w unfolding waiting_def by (induction rule: list_all2_induct) (auto simp: row_ahead_def lifecycle_def)
qed

lemma waiting_mono: "waiting K t \<Longrightarrow> J \<subseteq> K \<Longrightarrow> waiting J t"
  by (auto simp: waiting_def)

lemma books_fill:
  assumes b: "fill_body rules order price c = (Inr x, c1)" and ok: "ready acct (tabs c)"
  shows "(\<forall>a s. x \<noteq> Filled a s) \<and> books {} (tabs c) (tabs c1) \<or>
    (\<exists>a s. x = Filled a s \<and> books {po_id order} (tabs c) (tabs c1) \<and> (\<forall>r. a = Some r \<longrightarrow> trade_account r = Some (acct (trade_id r))))"
proof (cases "case get_trade (po_id order) (tabs c) of None \<Rightarrow> True | Some x \<Rightarrow> trade_status x \<noteq> Some ''pending''")
  case True
  then show ?thesis using b by (auto simp: fill_body_def select_Inr tx_return_app elim!: tx_bind_Inr_E)
next
  case False
  then obtain y where y: "get_trade (po_id order) (tabs c) = Some y" "trade_status y = Some ''pending''" by (auto split: option.splits)
  have yi: "y \<in> set (trades (tabs c))" "trade_id y = po_id order" using find_by_key y(1) unfolding get_trade_def by metis+
  have st: "r \<in> set (trades (tabs c)) \<Longrightarrow> trade_id r = po_id order \<Longrightarrow> trade_status r = Some ''pending''" for r
    using row_unique [of acct "tabs c" r y] ok yi y(2) by (simp add: ready_def)
  show ?thesis
  proof (cases "validatePendingTrigger rules order (tabs c)")
    case (Some reason)
    then obtain ids where "cancel_stmt (\<lambda>r. trade_id r = po_id order) reason (tabs c) = Inr (ids, tabs c1)" "x = Refused reason"
      using b False by (auto simp: fill_body_def select_Inr query_Inr tx_return_app elim!: tx_bind_Inr_E)
    moreover from this(1) have "books {} (tabs c) (tabs c1)" by (rule books_cancel) (use st in auto)
    ultimately show ?thesis by simp
  next
    case None
    obtain a t1 s where op: "open_stmt (po_id order) price (tabs c) = Inr (a, t1)" and x: "x = Filled a s"
      and ca: "(case given (po_oco order) of None \<Rightarrow> tx_return []
        | Some g \<Rightarrow> query (cancel_stmt (\<lambda>r. trade_oco r = Some g \<and> trade_id r \<noteq> po_id order \<and> trade_status r = Some ''pending'') ''OCO sibling triggered'')) (c\<lparr>tabs := t1\<rparr>) = (Inr s, c1)"
      using b False None by (auto simp: fill_body_def select_Inr query_Inr tx_return_app elim!: tx_bind_Inr_E)
    have "books {po_id order} (tabs c) t1" by (rule books_open [OF op]) (use st in auto)
    moreover have "books {po_id order} t1 (tabs c1)"
    proof (cases "given (po_oco order)")
      case None
      then show ?thesis using ca by (auto simp: tx_return_app)
    next
      case (Some g)
      then have "cancel_stmt (\<lambda>r. trade_oco r = Some g \<and> trade_id r \<noteq> po_id order \<and> trade_status r = Some ''pending'') ''OCO sibling triggered'' t1 = Inr (s, tabs c1)"
        using ca by (auto simp: query_Inr)
      then show ?thesis by (rule books_cancel) auto
    qed
    moreover have "a = Some r \<Longrightarrow> trade_account r = Some (acct (trade_id r))" for r
    proof -
      assume "a = Some r"
      then have "trade_account r = trade_account y" "trade_id r = trade_id y" using op y(1) by (auto simp: open_stmt_def sum_bind_Inr Let_def)
      then show ?thesis using ok yi(1) by (simp add: ready_def rows_of_def)
    qed
    ultimately show ?thesis using x books_trans by blast
  qed
qed

lemma moves_credits:
  assumes "fold (\<lambda>(i, x) r. sum_bind r (\<lambda>(_, t'). sum_bind (credit_stmt i x t') (\<lambda>(_, t''). Inr ((), t''))))
      (map (\<lambda>i. (i, mk (of_int (S i) / 100))) is) (Inr ((), t)) = Inr ((), u)" "distinct is" "balances_ok t"
  shows "moves F (\<lambda>j. if j \<in> set is then S j else 0) t u"
  using assms
proof (induction "is" arbitrary: t)
  case (Cons i "is")
  have stuck: "fold (\<lambda>(i, x) r. sum_bind r (\<lambda>(_, t'). sum_bind (credit_stmt i x t') (\<lambda>(_, t''). Inr ((), t'')))) xs (Inl e) = Inl e" for xs and e :: string
    by (induction xs) auto
  obtain ra t1 where cr: "credit_stmt i (mk (of_int (S i) / 100)) t = Inr (ra, t1)"
    using Cons.prems(1) stuck by (cases "credit_stmt i (mk (of_int (S i) / 100)) t") auto
  have m: "moves F (\<lambda>j. if j = i then S i else 0) t t1" by (rule moves_credit [OF cr Cons.prems(3)])
  then have "balances_ok t1" using Cons.prems(3) by (simp add: moves_def)
  then have "moves F (\<lambda>j. if j \<in> set is then S j else 0) t1 u" using Cons.prems(1,2) cr by (intro Cons.IH) simp_all
  from moves_trans [OF m this] show ?case by (rule moves_eq) (use Cons.prems(2) in auto)
qed simp

text \<open>The candidates of a tick: each trade once, each entry on the account of its row.\<close>

definition candidates_ok :: "(string \<Rightarrow> string) \<Rightarrow> sltp_candidate list \<Rightarrow> bool" where
  "candidates_ok acct cs \<longleftrightarrow> distinct (map (\<lambda>c. te_id (cd_trade c)) cs) \<and> (\<forall>c\<in>set cs. te_account (cd_trade c) = acct (te_id (cd_trade c)))"

lemma candidates_filter: "candidates_ok acct cs \<Longrightarrow> candidates_ok acct (filter P cs)"
  by (auto simp: candidates_ok_def distinct_map_filter)

lemma set_js_adds: "set (fold js_add xs s) = set xs \<union> set s"
  by (induction xs arbitrary: s) auto

lemma distinct_js_adds: "distinct s \<Longrightarrow> distinct (fold js_add xs s)"
  by (induction xs arbitrary: s) (auto simp: js_add_def)

lemma books_triggered:
  assumes b: "triggered_body m eligible c = (Inr x, c1)" and l: "sum_laws (mt_arith m) v" and ok: "ready acct (tabs c)"
    and cs: "candidates_ok acct eligible"
  shows "books F (tabs c) (tabs c1)"
proof -
  let ?id = "\<lambda>c. te_id (cd_trade c)"
  define owned where "owned = map trade_id (filter (\<lambda>r. trade_id r \<in> ?id ` set eligible \<and> trade_status r = Some ''open'') (trades (tabs c)))"
  define es where "es = filter (\<lambda>c. ?id c \<in> set owned) eligible"
  show ?thesis
  proof (cases "owned = [] \<or> es = []")
    case True
    then show ?thesis using b
      by (auto simp: triggered_body_def select_Inr tx_return_app lift_sum_def owned_def [symmetric] es_def [symmetric] elim!: tx_bind_Inr_E split: if_splits)
  next
    case False
    define mkc where "mkc = (\<lambda>(c :: sltp_candidate, p). \<lparr>cl_trade = ?id c, cl_price = cd_price c, cl_pnl = p, cl_reason = cd_reason c\<rparr>)"
    obtain cps where cps: "each (\<lambda>c. sum_bind (entry_pnl m (cd_trade c) (cd_price c)) (\<lambda>p. Inr (c, p))) es = Inr cps"
      using b False unfolding triggered_body_def
      by (auto simp: select_Inr tx_throw_app lift_sum_def owned_def [symmetric] es_def [symmetric] elim!: tx_bind_Inr_E split: sum.splits if_splits)
    have fst: "map fst cps = es" using cps by (induction es arbitrary: cps) (auto simp: sum_bind_Inr)
    then have ne: "cps \<noteq> []" using False by auto
    obtain t1 where st: "close_stmt (\<lambda>r. trade_status r = Some ''open'') clear_deferred (map mkc cps) (tabs c) = Inr ((), t1)"
      and cr: "credit_all_stmt (account_totals (mt_arith m) cps) t1 = Inr ((), tabs c1)"
      using b False ne unfolding triggered_body_def Let_def
      by (auto simp: select_Inr query_Inr tx_return_app lift_sum_def owned_def [symmetric] es_def [symmetric] mkc_def cps
          elim!: tx_bind_Inr_E split: if_splits)
      let ?f = "\<lambda>cp. ?id (fst cp)"
      have d: "distinct (map ?f cps)"
      proof -
        have "map ?f cps = map ?id es" unfolding fst [symmetric] by simp
        then show ?thesis using candidates_filter [OF cs] unfolding es_def candidates_ok_def by simp
      qed
      have "\<forall>cp\<in>set cps. \<exists>k. snd cp = mk (of_int k / 100)"
      proof
        fix cp assume "cp \<in> set cps"
        from each_from [OF cps this] obtain e :: sltp_candidate where "entry_pnl m (cd_trade e) (cd_price e) = Inr (snd cp)"
          by (auto simp: sum_bind_Inr)
        then show "\<exists>k. snd cp = mk (of_int k / 100)" unfolding entry_pnl_def using pnl_in_cents [OF l] by metis
      qed
      from cents_by_key [OF d this] obtain kof where kof: "\<forall>cp\<in>set cps. snd cp = mk (of_int (kof (?f cp)) / 100)" by blast
      let ?K = "?f ` set cps"
      have K: "cl_trade ` set (map mkc cps) = ?K" by (force simp: mkc_def)
      have mem: "fst cp \<in> set es" if "cp \<in> set cps" for cp using that fst by (metis image_eqI list.set_map)
      have own: "?K \<subseteq> set owned" using mem by (auto simp: es_def)
      have c1: "closable (\<lambda>r. trade_status r = Some ''open'') ?K (tabs c)" unfolding closable_def
      proof
        fix k assume "k \<in> ?K"
        then have "k \<in> set owned" using own by blast
        then show "\<exists>r\<in>set (trades (tabs c)). trade_id r = k \<and> trade_status r = Some ''open'' \<and> trade_status r = Some ''open''"
          by (auto simp: owned_def)
      qed
      have kc: "\<forall>c\<in>set (map mkc cps). cl_pnl c = mk (of_int (kof (cl_trade c)) / 100)" using kof by (auto simp: mkc_def)
      have r: "rows_of acct (tabs c)" using ok by (simp add: ready_def)
      note mc = moves_close [OF st r disjI2 [OF refl] kc, unfolded K, OF c1]
      have n: "length cps \<le> 100000"
      proof -
        have "length cps = card ?K" using d by (metis distinct_card length_map set_map)
        also have "\<dots> \<le> card (set owned)" by (rule card_mono [OF _ own]) simp
        also have "\<dots> \<le> length owned" by (rule card_length)
        also have "\<dots> \<le> length (trades (tabs c))" by (simp add: owned_def)
        finally show ?thesis using r by (simp add: rows_of_def)
      qed
      let ?S = "\<lambda>i. \<Sum>k\<in>{k \<in> ?K. acct k = i}. kof k"
      let ?is = "fold js_add (map (\<lambda>cp. te_account (cd_trade (fst cp))) cps) []"
      have acc: "te_account (cd_trade (fst cp)) = acct (?f cp)" if "cp \<in> set cps" for cp
        using mem [OF that] cs by (simp add: es_def candidates_ok_def)
      have tot: "da_num (mt_arith m) (da_cents (mt_arith m) (foldl (\<lambda>d cp. da_plus (mt_arith m) d (da_from (mt_arith m) (snd cp))) (da_from (mt_arith m) (Fin 0))
          (filter (\<lambda>cp. te_account (cd_trade (fst cp)) = i) cps))) = mk (of_int (?S i) / 100)" for i
      proof -
        let ?cs = "filter (\<lambda>cp. te_account (cd_trade (fst cp)) = i) cps"
        have "?f ` set ?cs = {k \<in> ?K. acct k = i}" using acc by force
        moreover have "distinct (map ?f ?cs)" using d by (simp add: distinct_map_filter)
        moreover have "length ?cs \<le> 100000" using n length_filter_le le_trans by blast
        ultimately show ?thesis using total_by_key [OF l, of ?f ?cs snd kof] kof mc(2) by auto
      qed
      then have totals: "account_totals (mt_arith m) cps = map (\<lambda>i. (i, mk (of_int (?S i) / 100))) ?is" by (simp add: account_totals_def)
      have "balances_ok t1" using ready_moves [OF mc(1) ok] by (simp add: ready_def)
      then have "moves F (\<lambda>j. if j \<in> set ?is then ?S j else 0) t1 (tabs c1)"
        using cr totals distinct_js_adds by (intro moves_credits) (auto simp: credit_all_stmt_def)
      from moves_trans [OF mc(1) this] show ?thesis
      proof (rule moves_eq)
        fix j
        have "?S j = 0" if "j \<notin> set ?is"
        proof -
          have "{k \<in> ?K. acct k = j} = {}" using that acc by (auto simp: set_js_adds)
          then show ?thesis by (simp only: sum.empty)
        qed
        then show "- ?S j + (if j \<in> set ?is then ?S j else 0) = 0" by simp
      qed
  qed
qed

section \<open>The index\<close>

definition pending_ids :: "trade_index \<Rightarrow> string set" where
  "pending_ids ix = {k. jm_get (ix_pending ix) k \<noteq> None}"

text \<open>An update of the index that keeps it consistent and takes up no order.\<close>

definition shrinks :: "(string \<Rightarrow> string) \<Rightarrow> trade_index \<Rightarrow> trade_index \<Rightarrow> bool" where
  "shrinks acct x y \<longleftrightarrow> (index_ok acct x \<longrightarrow> index_ok acct y) \<and> pending_ids y \<subseteq> pending_ids x"

lemma shrinks_refl [simp]: "shrinks acct x x"
  by (simp add: shrinks_def)

lemma shrinks_trans: "shrinks acct x y \<Longrightarrow> shrinks acct y z \<Longrightarrow> shrinks acct x z"
  by (auto simp: shrinks_def)

lemma shrinks_fold: "(\<And>k x. shrinks acct x (f k x)) \<Longrightarrow> shrinks acct x (fold f ks x)"
  by (induction ks arbitrary: x) (auto intro: shrinks_trans)

lemma same_pending: "ix_pending y = ix_pending x \<Longrightarrow> pending_ids y = pending_ids x"
  by (simp add: pending_ids_def)

lemma shrinks_same: "(index_ok acct x \<Longrightarrow> index_ok acct y) \<Longrightarrow> ix_pending y = ix_pending x \<Longrightarrow> shrinks acct x y"
  by (simp add: shrinks_def pending_ids_def)

lemma pending_removePending: "pending_ids (snd (removePending k ix)) = pending_ids ix - {k}"
  by (auto simp: pending_ids_def removePending_def upd_account_def jm.get_rem split: option.splits)

lemma pending_removePendings: "pending_ids (fold (\<lambda>k x. snd (removePending k x)) ks ix) = pending_ids ix - set ks"
  by (induction ks arbitrary: ix) (auto simp: pending_removePending)

lemma shrinks_removePending: "shrinks acct x (snd (removePending k x))"
  by (auto simp: shrinks_def pending_removePending index_ok_removePending)

lemma shrinks_removePendings: "shrinks acct x (fold (\<lambda>k x. snd (removePending k x)) ks x)"
  by (intro shrinks_fold shrinks_removePending)

lemma shrinks_removeTrade: "shrinks acct x (snd (removeTrade k x))"
  by (rule shrinks_same [OF index_ok_removeTrade])
    (auto simp: removeTrade_def Let_def upd_account_def split: option.split)

lemma shrinks_removeAccount: "shrinks acct x (snd (removeAccount a x))"
proof (cases "jm_get (ix_accounts x) a")
  case None
  then show ?thesis by (simp add: removeAccount_def)
next
  case (Some e)
  let ?y = "fold (\<lambda>i x. snd (removePending i x)) (ae_pending e) (fold (\<lambda>i x. snd (removeTrade i x)) (ae_trades e) x)"
  have "shrinks acct x ?y" by (intro shrinks_trans [OF shrinks_fold [OF shrinks_removeTrade] shrinks_removePendings])
  moreover have "shrinks acct ?y (?y\<lparr>ix_accounts := jm_del a (ix_accounts ?y)\<rparr>)" by (rule shrinks_same [OF index_ok_delAccount]) auto
  ultimately show ?thesis using Some shrinks_trans by (auto simp: removeAccount_def Let_def)
qed

lemma shrinks_drop: "shrinks acct x (drop_account a ks x)"
  unfolding drop_account_def by (rule shrinks_trans [OF shrinks_removePendings shrinks_removeAccount])

lemma shrinks_apply: "shrinks acct x (applyTradePnl e p x)"
  by (rule shrinks_same [OF index_ok_apply]) (auto simp: applyTradePnl_def upd_account_def split: option.split)

lemma shrinks_values:
  "shrinks acct x (applyRealizedPnl t a p x)" "shrinks acct x (updateAccountBalance a b x)" "shrinks acct x (setPeakEquity a q f x)"
  by (rule shrinks_same, erule index_ok_realized index_ok_balance index_ok_peak,
      simp add: applyRealizedPnl_def updateAccountBalance_def setPeakEquity_def upd_account_def)+

lemma shrinks_open:
  assumes "\<And>x. row = Some x \<Longrightarrow> tr_account x = acct (tr_id x)"
  shows "shrinks acct ix (snd (addOpenTradeToIndex env pc t row None ix))"
proof -
  have a: "shrinks acct ix (snd (addTrade t row None ix))"
  proof (rule shrinks_same)
    show "ix_pending (snd (addTrade t row None ix)) = ix_pending ix"
      using addTrade_parts(3) [where ix = ix and arow = None and t = t] by (cases row) (auto simp: addTrade_def)
  qed (rule index_ok_addTrade [OF _ assms])
  then show ?thesis
    using shrinks_trans [OF a shrinks_apply] unfolding addOpenTradeToIndex_def by (auto split: prod.split option.split sum.split)
qed

lemma bucket_of_map: "bucket_of (map (\<lambda>(i, b). (i, g b)) m) j = (case jm_get m j of None \<Rightarrow> [] | Some b \<Rightarrow> g b)"
  by (simp add: bucket_of_def jm_get_map_vals split: option.split)

lemma agree_map:
  assumes a: "agree key inst m b" and f: "\<And>e. key (f e) = key e" "\<And>e. inst (f e) = inst e"
  shows "agree key inst (map (\<lambda>(k, e). (k, f e)) m) (map (\<lambda>(i, c). (i, map (\<lambda>(k, e). (k, f e)) c)) b)"
proof -
  have g: "jm_get (bucket_of (map (\<lambda>(i, c). (i, map (\<lambda>(k, e). (k, f e)) c)) b) i) k = map_option f (jm_get (bucket_of b i) k)" for i k
    unfolding bucket_of_map by (simp add: bucket_of_def jm_get_map_vals split: option.split)
  have w: "jm_wf (bucket_of (map (\<lambda>(i, c). (i, map (\<lambda>(k, e). (k, f e)) c)) b) i)" for i
    using a unfolding bucket_of_map by (auto simp: agree_def bucket_of_def jm_wf_map_vals split: option.splits)
  show ?thesis
    using a f unfolding agree_def by (fastforce simp: g w jm_wf_map_vals jm_get_map_vals)
qed

lemma trades_ok_map:
  assumes "\<And>e. te_account (f e) = te_account e" "\<And>e. te_ref (f e) = te_ref e" "\<And>e. te_gen (f e) = te_gen e" "trades_ok acct r g m"
  shows "trades_ok acct r g (map (\<lambda>(k, e). (k, f e)) m)"
proof -
  note t = assms(4) [unfolded trades_ok_def]
  have "te_account e' = acct k \<and> te_ref e' < r \<and> te_gen e' \<le> g" if "map_option f (jm_get m k) = Some e'" for k e'
  proof -
    obtain e where e: "jm_get m k = Some e" "e' = f e" using \<open>map_option f (jm_get m k) = Some e'\<close> by auto
    then show ?thesis using t assms(1-3) by simp
  qed
  moreover have "j = k" if h: "map_option f (jm_get m j) = Some a" "map_option f (jm_get m k) = Some b" "te_ref a = te_ref b" for j k a b
  proof -
    obtain c d where "jm_get m j = Some c" "jm_get m k = Some d" "te_ref c = te_ref d" using h assms(2) by auto
    then show ?thesis using t by blast
  qed
  ultimately show ?thesis unfolding trades_ok_def jm_get_map_vals by blast
qed

lemma shrinks_set_trigger: "shrinks acct ix (set_trigger ref level reason ix)"
proof (rule shrinks_same)
  let ?f = "\<lambda>(e :: trade_entry). if te_ref e = ref then e\<lparr>te_pending_close := Some level, te_pending_reason := Some reason\<rparr> else e"
  have f: "te_id (?f e) = te_id e" "te_instrument (?f e) = te_instrument e" "te_account (?f e) = te_account e" "te_ref (?f e) = te_ref e" "te_gen (?f e) = te_gen e" for e
    by simp_all
  assume ok: "index_ok acct ix"
  have "agree te_id te_instrument (map (\<lambda>(k, e). (k, ?f e)) (ix_by_id ix)) (map (\<lambda>(i, b). (i, map (\<lambda>(k, e). (k, ?f e)) b)) (ix_by_instrument ix))"
    by (rule agree_map) (use ok in \<open>simp_all add: index_ok_parts\<close>)
  moreover have "trades_ok acct (ix_refs ix) (ix_generation ix) (map (\<lambda>(k, e). (k, ?f e)) (ix_by_id ix))"
    by (rule trades_ok_map) (use ok in \<open>simp_all add: index_ok_parts\<close>)
  moreover have "sets_ok acct (\<lambda>k. jm_get (map (\<lambda>(k, e). (k, ?f e)) (ix_by_id ix)) k \<noteq> None) (\<lambda>k. jm_get (ix_pending ix) k \<noteq> None) (ix_generation ix) (ix_accounts ix)"
    using ok unfolding index_ok_parts jm_get_map_vals by simp
  ultimately show "index_ok acct (set_trigger ref level reason ix)"
    using ok by (simp add: index_ok_parts set_trigger_def)
qed (simp add: set_trigger_def)

end
