(* ===== verification/EngineRuns.thy ===== *)
theory EngineRuns
  imports EngineLife
begin

text \<open>
  Runs of the engine: each of its operations, and with them every sequence of operations, keeps the books
  of every account, lets every trade go on in its life, and keeps the index consistent with the rows.
\<close>

section \<open>What an operation keeps\<close>

definition engine_ok :: "(string \<Rightarrow> string) \<Rightarrow> engine \<Rightarrow> bool" where
  "engine_ok acct e \<longleftrightarrow> ready acct (en_db e) \<and> index_ok acct (en_index e) \<and> waiting (pending_ids (en_index e)) (en_db e)"

text \<open>\<open>runs acct F e e'\<close>: from a sound state the engine gets to a sound state, keeping books, and orders start to live in \<open>F\<close> only.\<close>

definition runs :: "(string \<Rightarrow> string) \<Rightarrow> string set \<Rightarrow> engine \<Rightarrow> engine \<Rightarrow> bool" where
  "runs acct F e e' \<longleftrightarrow> (engine_ok acct e \<longrightarrow> engine_ok acct e' \<and> books F (en_db e) (en_db e'))"

lemma runs_refl [simp]: "runs acct F e e"
  by (simp add: runs_def)

lemma runs_trans: "runs acct F e e1 \<Longrightarrow> runs acct F e1 e2 \<Longrightarrow> runs acct F e e2"
  unfolding runs_def using books_trans by blast

lemma runs_mono: "runs acct F e e' \<Longrightarrow> F \<subseteq> F' \<Longrightarrow> runs acct F' e e'"
  unfolding runs_def using books_mono by blast

lemma runs_fold: "(\<And>x e. x \<in> set xs \<Longrightarrow> runs acct F e (f x e)) \<Longrightarrow> runs acct F e (fold f xs e)"
  by (induction xs arbitrary: e) (auto intro: runs_trans)

lemma runs_step:
  assumes "engine_ok acct e \<Longrightarrow> books {} (en_db e) (en_db e')" "shrinks acct (en_index e) (en_index e')"
  shows "runs acct {} e e'"
  unfolding runs_def
proof
  assume ok: "engine_ok acct e"
  note b = assms(1) [OF ok]
  have "waiting (pending_ids (en_index e')) (en_db e')"
    using waiting_mono [OF waiting_books [OF b]] ok assms(2) by (auto simp: engine_ok_def shrinks_def)
  then show "engine_ok acct e' \<and> books {} (en_db e) (en_db e')"
    using b ok ready_moves [OF b] assms(2) by (auto simp: engine_ok_def shrinks_def)
qed

lemma runs_index: "shrinks acct (en_index e) (en_index e') \<Longrightarrow> en_db e' = en_db e \<Longrightarrow> runs acct {} e e'"
  by (rule runs_step) simp_all

text \<open>Work on one order that waits: it may start to live, and then leaves the pending orders of the index.\<close>

definition runs_one :: "(string \<Rightarrow> string) \<Rightarrow> string \<Rightarrow> engine \<Rightarrow> engine \<Rightarrow> bool" where
  "runs_one acct i e e' \<longleftrightarrow>
     (engine_ok acct e \<and> waiting {i} (en_db e) \<longrightarrow> engine_ok acct e' \<and> books {i} (en_db e) (en_db e'))"

lemma runs_one_runs: "runs acct {} e e' \<Longrightarrow> runs_one acct i e e'"
  unfolding runs_one_def runs_def using books_mono by blast

lemma runs_orders:
  assumes "\<And>x e. x \<in> set xs \<Longrightarrow> runs_one acct (idf x) e (f x e)" "distinct (map idf xs)"
    and "engine_ok acct e" "waiting (idf ` set xs) (en_db e)"
  shows "engine_ok acct (fold f xs e) \<and> books UNIV (en_db e) (en_db (fold f xs e))"
  using assms
proof (induction xs arbitrary: e)
  case (Cons x xs)
  have "waiting {idf x} (en_db e)" using Cons.prems(4) by (auto simp: waiting_def)
  then have 1: "engine_ok acct (f x e)" "books {idf x} (en_db e) (en_db (f x e))"
    using Cons.prems(1) [of x e] Cons.prems(3) by (auto simp: runs_one_def)
  have "waiting (idf ` set xs) (en_db (f x e))"
    by (rule waiting_mono [OF waiting_books [OF 1(2) Cons.prems(4)]]) (use Cons.prems(2) in auto)
  then have "engine_ok acct (fold f xs (f x e)) \<and> books UNIV (en_db (f x e)) (en_db (fold f xs (f x e)))"
    using Cons.prems(1,2) 1(1) by (intro Cons.IH) auto
  then show ?case using books_trans [OF books_mono [OF 1(2)]] by auto
qed simp

section \<open>Transactions of the engine\<close>

lemma framed_cases [tx_frames]:
  "framed m \<Longrightarrow> framed n \<Longrightarrow> framed (if b then m else n)"
  "framed m \<Longrightarrow> (\<And>x. framed (k x)) \<Longrightarrow> framed (case opt of None \<Rightarrow> m | Some x \<Rightarrow> k x)"
  "framed (lift_sum s)"
  "(\<And>x y. framed (g x y)) \<Longrightarrow> framed (case p of (x, y) \<Rightarrow> g x y)"
  by (auto simp: lift_sum_def intro: tx_frames split: option.split sum.split prod.split)

lemma framed_bodies:
  "framed (close_trade_body m r price reason)" "framed (fail_body m prices i)" "framed (pass_body m prices acc)"
  "framed (fill_body rules order price)" "framed (triggered_body m cs)"
  unfolding close_trade_body_def fail_body_def pass_body_def fill_body_def triggered_body_def bulkCloseTrades_def createPromotionReview_def Let_def
  by (intro tx_frames)+

lemma on_pool_query:
  assumes "on_pool (query f) e = (r, e')"
  obtains "e' = e" | x t where "r = Inr x" "f (en_db e) = Inr (x, t)" "e' = e\<lparr>en_db := t\<rparr>"
  using assms by (cases "f (en_db e)") (auto simp: on_pool_def query_def pool_conn_def)

lemma in_transaction_Inr: "in_transaction body e = (Inr x, e1) \<Longrightarrow> \<exists>c1. body (begin_tx (pool_conn (en_db e))) = (Inr x, c1)"
  by (auto simp: in_transaction_def withTransaction_def split: prod.splits sum.splits)

lemma runs_transaction:
  assumes t: "in_transaction body e = (q, e1)" and f: "framed body"
    and b: "\<And>x c c1. body c = (Inr x, c1) \<Longrightarrow> ready acct (tabs c) \<Longrightarrow> books {} (tabs c) (tabs c1)"
  shows "runs acct {} e e1"
  using t f
proof (cases rule: in_transaction_effect)
  case (ended x c1)
  have "tabs (begin_tx (pool_conn (en_db e))) = en_db e" by (simp add: begin_tx_def pool_conn_def)
  then have "books {} (en_db e) (tabs c1)" if "engine_ok acct e" using b [OF ended(2)] that by (simp add: engine_ok_def)
  then show ?thesis by (intro runs_step) (simp_all add: ended(3))
qed simp

lemma runs_close_trade:
  assumes l: "sum_laws (mt_arith m) v" and r: "trade_account r = Some (acct (trade_id r))"
  shows "runs acct {} e (close_trade m r user price reason e)"
proof -
  obtain q e1 where t: "in_transaction (close_trade_body m r price reason) e = (q, e1)" by (cases "in_transaction (close_trade_body m r price reason) e")
  have 1: "runs acct {} e e1"
    by (rule runs_transaction [OF t framed_bodies(1)]) (rule books_close_trade [where m = m and r = r and acct = acct, OF _ l _ r])
  have 2: "shrinks acct ix (applyRealizedPnl t a p (snd (removeTrade k ix)))" for ix t a p k
    by (rule shrinks_trans [OF shrinks_removeTrade shrinks_values(1)])
  have 3: "runs acct {} e1 (emit ev (e1\<lparr>en_index := applyRealizedPnl t a p (snd (removeTrade k (en_index e1)))\<rparr>))" for ev t a p k
    by (rule runs_index) (simp_all add: emit_def 2)
  show ?thesis using 1 runs_trans [OF 1 3] by (auto simp: close_trade_def t split: sum.split option.split)
qed

lemma runs_fail:
  assumes l: "sum_laws (mt_arith m) v"
  shows "runs acct {} e (autoCloseAndFail m acc prices e)"
proof -
  let ?p = "case prices of None \<Rightarrow> mt_tenant m | Some p \<Rightarrow> p"
  obtain q e1 where t: "in_transaction (fail_body m ?p (eg_id acc)) e = (q, e1)" by (cases "in_transaction (fail_body m ?p (eg_id acc)) e")
  have 1: "runs acct {} e e1"
    by (rule runs_transaction [OF t framed_bodies(2)]) (rule books_fail [OF _ l])
  have 3: "runs acct {} e1 (emit ev (e1\<lparr>en_index := drop_account i ks (en_index e1)\<rparr>))" for ev i ks
    by (rule runs_index) (simp_all add: emit_def shrinks_drop)
  show ?thesis using 1 runs_trans [OF 1 3] by (auto simp: autoCloseAndFail_def t split: sum.split option.split)
qed

lemma runs_pass:
  assumes l: "sum_laws (mt_arith m) v"
  shows "runs acct {} e (autoCloseAndPass m acc prices e)"
proof -
  let ?p = "case prices of None \<Rightarrow> mt_tenant m | Some p \<Rightarrow> p"
  obtain q e1 where t: "in_transaction (pass_body m ?p acc) e = (q, e1)" by (cases "in_transaction (pass_body m ?p acc) e")
  have 1: "runs acct {} e e1"
    by (rule runs_transaction [OF t framed_bodies(3)]) (rule books_pass [OF _ l])
  have 3: "runs acct {} e1 (emit ev (e1\<lparr>en_index := drop_account i ks (en_index e1)\<rparr>))" for ev i ks
    by (rule runs_index) (simp_all add: emit_def shrinks_drop)
  show ?thesis using 1 runs_trans [OF 1 3] by (auto simp: autoCloseAndPass_def t split: sum.split option.split)
qed

lemma runs_defer: "runs acct {} e (snd (on_pool (query (defer_stmt ds)) e))"
proof -
  obtain r e' where o: "on_pool (query (defer_stmt ds)) e = (r, e')" by (cases "on_pool (query (defer_stmt ds)) e")
  from o show ?thesis
  proof (cases rule: on_pool_query)
    case (2 x t)
    then show ?thesis unfolding o by (intro runs_step) (auto intro: books_defer)
  qed (simp add: o)
qed

lemma runs_cancel: "runs_one acct i e (cancelPendingOrder i reason e)"
proof -
  obtain r e' where o: "on_pool (query (cancel_stmt (\<lambda>r. trade_id r = i) reason)) e = (r, e')"
    by (cases "on_pool (query (cancel_stmt (\<lambda>r. trade_id r = i) reason)) e")
  have "runs_one acct i e e'"
    using o
  proof (cases rule: on_pool_query)
    case (2 x t)
    have b: "books {} (en_db e) t" if "waiting {i} (en_db e)"
      using 2(2) by (rule books_cancel) (use that in \<open>auto simp: waiting_def waits_def\<close>)
    have "runs acct {} e e'" if "waiting {i} (en_db e)" using b [OF that] 2(3) by (intro runs_step) auto
    then show ?thesis using runs_one_runs unfolding runs_one_def by blast
  qed (simp add: runs_one_runs)
  moreover have "runs acct {i} e' (e'\<lparr>en_index := snd (removePending i (en_index e'))\<rparr>)"
    by (rule runs_mono [OF runs_index]) (simp_all add: shrinks_removePending)
  ultimately show ?thesis unfolding cancelPendingOrder_def o runs_one_def runs_def using books_trans by auto
qed

lemma runs_fill: "runs_one acct (po_id order) e (fillPendingOrder m order price e)"
proof -
  let ?p = "if po_direction order = ''buy'' then q_ask price else q_bid price"
  let ?body = "fill_body (mt_rules m) order ?p"
  obtain q e1 where t: "in_transaction ?body e = (q, e1)" by (cases "in_transaction ?body e")
  let ?i = "po_id order"
  show ?thesis
  proof (cases "\<exists>a s. q = Inr (Filled a s)")
    case False
    have 1: "runs acct {} e e1"
      using t framed_bodies(4)
    proof (cases rule: in_transaction_effect)
      case (ended x c1)
      have c: "tabs (begin_tx (pool_conn (en_db e))) = en_db e" by (simp add: begin_tx_def pool_conn_def)
      have "books {} (en_db e) (tabs c1)" if "engine_ok acct e"
        using books_fill [OF ended(2), of acct] that ended(1) False by (auto simp: c engine_ok_def)
      then show ?thesis by (intro runs_step) (simp_all add: ended(3))
    qed simp
    have 2: "runs acct {} e1 (e1\<lparr>en_index := snd (removePending ?i (en_index e1))\<rparr>)"
      by (rule runs_index) (simp_all add: shrinks_removePending)
    have "runs acct {} e (fillPendingOrder m order price e)"
      using False 1 runs_trans [OF 1 2] by (auto simp: fillPendingOrder_def t split: sum.split fill_result.split)
    then show ?thesis by (rule runs_one_runs)
  next
    case True
    then obtain a s where q: "q = Inr (Filled a s)" by blast
    define x1 where "x1 = fold (\<lambda>k x. snd (removePending k x)) (?i # s) (en_index e1)"
    define x2 where "x2 = (case a of None \<Rightarrow> x1
      | Some r \<Rightarrow> snd (addOpenTradeToIndex (mt_env m) (mt_cache m) (mt_time m) (Some (index_trade_row r)) None x1))"
    have f: "fillPendingOrder m order price e = emit (OrderFilled (po_user order) (po_type order) ?p) (e1\<lparr>en_index := x2\<rparr>)"
      unfolding x2_def x1_def by (cases a) (simp_all add: fillPendingOrder_def t q Let_def)
    show ?thesis
      unfolding runs_one_def
    proof
      assume ok: "engine_ok acct e \<and> waiting {?i} (en_db e)"
      have c: "tabs (begin_tx (pool_conn (en_db e))) = en_db e" by (simp add: begin_tx_def pool_conn_def)
      have e1: "en_index e1 = en_index e \<and> books {?i} (en_db e) (en_db e1)"
        using t framed_bodies(4)
      proof (cases rule: in_transaction_effect)
        case (ended x c1)
        show ?thesis
          using books_fill [OF ended(2), of acct] ok ended(1,3) q by (auto simp: c engine_ok_def)
      qed simp
      note b1 = conjunct2 [OF e1]
      obtain c1 where "?body (begin_tx (pool_conn (en_db e))) = (Inr (Filled a s), c1)" using in_transaction_Inr t q by metis
      then have a: "trade_account r = Some (acct (trade_id r))" if "a = Some r" for r
        using books_fill [of "mt_rules m" order ?p "begin_tx (pool_conn (en_db e))" "Filled a s" c1 acct] ok that by (auto simp: c engine_ok_def)
      have p1: "pending_ids x1 = pending_ids (en_index e1) - set (?i # s)" unfolding x1_def by (rule pending_removePendings)
      have s1: "shrinks acct (en_index e1) x1" unfolding x1_def by (rule shrinks_removePendings)
      have s2: "shrinks acct x1 x2"
        unfolding x2_def using a by (auto simp: index_trade_row_def intro!: shrinks_open split: option.split)
      have "pending_ids x2 \<subseteq> pending_ids (en_index e) - {?i}" using s2 p1 e1 by (auto simp: shrinks_def)
      then have "waiting (pending_ids x2) (en_db e1)"
        using waiting_mono [OF waiting_books [OF b1]] ok by (auto simp: engine_ok_def)
      moreover have "index_ok acct x2" using s1 s2 ok e1 by (simp add: shrinks_def engine_ok_def)
      moreover have "ready acct (en_db e1)" using ready_moves [OF b1] ok by (simp add: engine_ok_def)
      ultimately show "engine_ok acct (fillPendingOrder m order price e) \<and> books {?i} (en_db e) (en_db (fillPendingOrder m order price e))"
        using b1 unfolding f by (simp add: engine_ok_def emit_def)
    qed
  qed
qed

section \<open>The passes\<close>

lemma map_filter_from: "y \<in> set (List.map_filter g xs) \<Longrightarrow> \<exists>x\<in>set xs. g x = Some y"
  by (induction xs) (auto simp: List.map_filter_simps split: option.splits)

lemma joined_rows: "(r, a) \<in> set (joined sel t) \<Longrightarrow> r \<in> set (trades t) \<and> sel r a"
  unfolding joined_def by (drule map_filter_from) (auto split: option.splits if_splits)

lemma joined_distinct: "distinct (map trade_id (trades t)) \<Longrightarrow> distinct (map (\<lambda>ra. trade_id (fst ra)) (joined sel t))"
proof -
  let ?g = "\<lambda>r. case trade_account r of None \<Rightarrow> None | Some i \<Rightarrow> (case get_account i t of None \<Rightarrow> None | Some a \<Rightarrow> if sel r a then Some (r, a) else None)"
  have "map (\<lambda>ra. trade_id (fst ra)) (List.map_filter ?g rs) = map trade_id (filter (\<lambda>r. ?g r \<noteq> None) rs)" for rs
    by (induction rs) (auto simp: List.map_filter_simps split: option.splits if_splits)
  then show "distinct (map trade_id (trades t)) \<Longrightarrow> ?thesis" by (simp add: joined_def distinct_map_filter)
qed

lemma runs_checkSLTP:
  assumes l: "sum_laws (mt_arith m) v"
  shows "runs acct {} e (checkSLTP m e)"
  unfolding runs_def
proof
  assume ok: "engine_ok acct e"
  have "runs acct {} e (fold (sltp_step m) (sltp_rows (en_db e)) e)"
  proof (rule runs_fold)
    fix ra e1 assume m: "ra \<in> set (sltp_rows (en_db e))"
    obtain r a where ra: "ra = (r, a)" by (cases ra)
    then have "r \<in> set (trades (en_db e))" using m joined_rows unfolding sltp_rows_def by blast
    then have r: "trade_account r = Some (acct (trade_id r))" using ok by (auto simp: engine_ok_def ready_def rows_of_def)
    show "runs acct {} e1 (sltp_step m ra e1)"
      using runs_close_trade [OF l, where acct = acct] r runs_defer
      by (auto simp: sltp_step_def ra split: option.split sltp_action.split)
  qed
  then show "engine_ok acct (checkSLTP m e) \<and> books {} (en_db e) (en_db (checkSLTP m e))"
    using ok unfolding runs_def checkSLTP_def by blast
qed

lemma runs_one_refl [simp]: "runs_one acct i e e"
  by (simp add: runs_one_runs)

lemma runs_checkPendingOrders: "runs acct UNIV e (checkPendingOrders m e)"
  unfolding runs_def checkPendingOrders_def
proof
  assume ok: "engine_ok acct e"
  let ?rows = "joined (\<lambda>r a. trade_status r = Some ''pending'') (en_db e)"
  let ?id = "\<lambda>ra :: trade \<times> account. trade_id (fst ra)"
  have d: "distinct (map trade_id (trades (en_db e)))" using ok by (simp add: engine_ok_def ready_def rows_of_def)
  show "engine_ok acct (fold (pending_step m) ?rows e) \<and> books UNIV (en_db e) (en_db (fold (pending_step m) ?rows e))"
  proof (rule runs_orders [where idf = ?id])
    show "runs_one acct (?id ra) e1 (pending_step m ra e1)" for ra e1
      using runs_cancel runs_fill [where order = "order_of_row (fst ra) (snd ra)"]
      by (cases ra) (auto simp: pending_step_def order_of_row_def split: option.split)
    show "distinct (map ?id ?rows)" using d by (rule joined_distinct)
    show "waiting (?id ` set ?rows) (en_db e)"
      unfolding waiting_def
    proof (intro ballI impI)
      fix r assume r: "r \<in> set (trades (en_db e))" "trade_id r \<in> ?id ` set ?rows"
      then obtain s a where "(s, a) \<in> set ?rows" "trade_id s = trade_id r" by auto
      then have "s \<in> set (trades (en_db e))" "trade_status s = Some ''pending''" "trade_id s = trade_id r" using joined_rows by blast+
      then show "waits r" using row_unique [of acct "en_db e" s r] r ok by (simp add: engine_ok_def ready_def waits_def)
    qed
  qed (rule ok)
qed

lemma runs_flush: "runs acct {} e (snd (flush_anchors pick us e))"
proof -
  obtain r c where c: "(case bind_peaks us of Inl x \<Rightarrow> tx_throw (DbError x) | Inr ps \<Rightarrow> flushPeakEquityUpdates pick ps) (pool_conn (en_db e)) = (r, c)"
    by (cases "(case bind_peaks us of Inl x \<Rightarrow> tx_throw (DbError x) | Inr ps \<Rightarrow> flushPeakEquityUpdates pick ps) (pool_conn (en_db e))")
  have t: "tabs (pool_conn (en_db e)) = en_db e" by (simp add: pool_conn_def)
  have "books {} (en_db e) (tabs c)"
  proof (cases "bind_peaks us")
    case (Inl x)
    then show ?thesis using c by (auto simp: tx_throw_app t)
  next
    case (Inr ps)
    then show ?thesis using confinedD [OF confined_flush, of pick ps "pool_conn (en_db e)" r c] c by (simp add: t books_anchors)
  qed
  then show ?thesis using c by (intro runs_step) (simp_all add: flush_anchors_def on_pool_def)
qed

lemma runs_floating_loop:
  assumes l: "sum_laws (mt_arith m) v"
  shows "runs acct {} e (snd (floating_loop m realized accs anchors e))"
proof (induction accs arbitrary: anchors e)
  case (Cons x rest)
  obtain acc rows where x: "x = (acc, rows)" by (cases x)
  show ?case
  proof (cases "floating_pnl m (getLivePriceMap m) rows")
    case (Inr fl0)
    obtain vd up where v: "floating_verdict m (realized (eg_id acc)) acc fl0 = (vd, up)"
      by (cases "floating_verdict m (realized (eg_id acc)) acc fl0")
    let ?e = "case vd of Hold \<Rightarrow> e | Fail \<Rightarrow> autoCloseAndFail m acc None e | Pass \<Rightarrow> autoCloseAndPass m acc None e"
    have "runs acct {} e ?e" using runs_fail [OF l] runs_pass [OF l] by (simp split: account_verdict.split)
    then show ?thesis unfolding x floating_loop.simps Inr sum.case v prod.case using Cons.IH by (rule runs_trans)
  qed (simp add: x)
qed simp

lemma runs_checkFloating:
  assumes l: "sum_laws (mt_arith m) v"
  shows "runs acct {} e (checkFloatingDrawdown m pick healthy e)"
proof -
  have f: "runs acct {} e e'" if "floating_loop m realized accs anchors e = (r, e')" for realized accs anchors r e'
    using runs_floating_loop [OF l, of acct e realized accs anchors] that by simp
  show ?thesis
    using f runs_trans [OF f runs_flush] by (auto simp: checkFloatingDrawdown_def Let_def split: prod.split option.split)
qed

lemma runs_flushDirtyPeaks: "runs acct {} e (snd (flushDirtyPeaks pick during e))"
proof (cases "en_dirty e = []")
  case False
  let ?e = "e\<lparr>en_dirty := during\<rparr>"
  have 1: "runs acct {} e ?e" by (rule runs_index) simp_all
  obtain r e' where r: "flush_anchors pick (en_dirty e) ?e = (r, e')" by (cases "flush_anchors pick (en_dirty e) ?e")
  have 2: "runs acct {} e e'" using runs_trans [OF 1 runs_flush [of acct ?e pick "en_dirty e"]] r by simp
  have 3: "runs acct {} e' (e'\<lparr>en_dirty := d\<rparr>)" for d by (rule runs_index) simp_all
  show ?thesis using False r 2 runs_trans [OF 2 3] by (cases r) (auto simp: flushDirtyPeaks_def)
qed (simp add: flushDirtyPeaks_def)

end
