(* ===== verification/PnlParity.thy ===== *)
theory PnlParity
  imports Pricing
begin

text \<open>
  The two valuations of a position: utils/fastPnL.ts on Numbers, which finds the trades to look at,
  and utils/pnlCalculator.ts on decimals, which confirms and books. The lemmas bound the rounding
  of either path and so their distance, by which a threshold on the one can miss the other.
\<close>

section \<open>Rounding in the fast path\<close>

definition ulp :: rat where
  "ulp = 1 / 2 ^ 53"

text \<open>\<open>x'\<close> is within \<open>a\<close> units of rounding of \<open>x\<close>, at a magnitude of at most \<open>X\<close>.\<close>

definition near :: "rat \<Rightarrow> rat \<Rightarrow> rat \<Rightarrow> rat \<Rightarrow> bool" where
  "near a X x' x \<longleftrightarrow> \<bar>x\<bar> \<le> X \<and> \<bar>x' - x\<bar> \<le> a * X * ulp"

lemma fl_err_ulp: "1 \<le> X \<Longrightarrow> \<bar>z\<bar> \<le> Z \<Longrightarrow> \<bar>fl z - z\<bar> \<le> Z * ulp + X * ulp / 4"
proof -
  assume X: "1 \<le> X" and z: "\<bar>z\<bar> \<le> Z"
  have "\<bar>fl z - z\<bar> \<le> \<bar>z\<bar> * ulp + subnormal_err" using fl_err [of z] by (simp add: ulp_def)
  moreover have "\<bar>z\<bar> * ulp \<le> Z * ulp" using z by (intro mult_right_mono) (simp_all add: ulp_def)
  moreover have "subnormal_err \<le> ulp / 4" using subnormal_err_bounds by (simp add: ulp_def)
  moreover have "1 * ulp \<le> X * ulp" using X by (intro mult_right_mono) (simp_all add: ulp_def)
  ultimately show ?thesis by linarith
qed

lemma near_fl: "1 \<le> X \<Longrightarrow> \<bar>q\<bar> \<le> X \<Longrightarrow> near 2 X (fl q) q"
  using fl_err_ulp [of X q X] by (auto simp: near_def ulp_def)

lemma near_weaken: "near a X x' x \<Longrightarrow> a * X \<le> b * Y \<Longrightarrow> X \<le> Y \<Longrightarrow> near b Y x' x"
  unfolding near_def using mult_right_mono [of "a * X" "b * Y" ulp] by (force simp: ulp_def)

lemma near_mul:
  assumes x: "near a X x' x" and y: "near b Y y' y" and ab: "0 \<le> a" "a \<le> 100" "0 \<le> b" "b \<le> 100"
    and XY: "1 \<le> X" "1 \<le> Y"
  shows "near (a + b + 2) (X * Y) (fl (x' * y')) (x * y) \<and> \<bar>x' * y'\<bar> \<le> 2 * (X * Y)"
proof -
  define E where "E = X * Y * ulp"
  have u: "0 < ulp" "ulp \<le> 1 / 10 ^ 10" by (simp_all add: ulp_def)
  have W: "1 \<le> X * Y" using XY mult_mono [of 1 X 1 Y] by simp
  have E: "0 \<le> E" "E \<le> X * Y / 10 ^ 10"
    unfolding E_def using u W mult_left_mono [of ulp "1 / 10 ^ 10" "X * Y"] by simp_all
  have "x' * y' - x * y = (x' - x) * (y' - y) + (x' - x) * y + x * (y' - y)" by (simp add: algebra_simps)
  then have "\<bar>x' * y' - x * y\<bar> \<le> \<bar>x' - x\<bar> * \<bar>y' - y\<bar> + \<bar>x' - x\<bar> * \<bar>y\<bar> + \<bar>x\<bar> * \<bar>y' - y\<bar>"
    by (simp add: abs_mult [symmetric])
  also have "\<dots> \<le> (a * X * ulp) * (b * Y * ulp) + (a * X * ulp) * Y + X * (b * Y * ulp)"
    using x y ab XY u unfolding near_def by (intro add_mono mult_mono) auto
  also have "\<dots> = (a * b * ulp) * E + a * E + b * E" by (simp add: E_def algebra_simps)
  also have "\<dots> \<le> 1/4 * E + a * E + b * E"
  proof -
    have "a * b * ulp \<le> (100 * 100) * (1 / 10 ^ 10)" using ab u by (intro mult_mono) auto
    then show ?thesis using E(1) by (intro add_mono mult_right_mono order_refl) simp_all
  qed
  finally have d: "\<bar>x' * y' - x * y\<bar> \<le> (a + b + 1/4) * E" by (simp add: algebra_simps)
  have "(a + b + 1/4) * E \<le> 201 * E" using ab E(1) by (intro mult_right_mono) simp_all
  then have "(a + b + 1/4) * E \<le> X * Y / 4" using E(2) W by simp
  moreover have xy: "\<bar>x * y\<bar> \<le> X * Y" using x y unfolding near_def abs_mult by (intro mult_mono) auto
  ultimately have m: "\<bar>x' * y'\<bar> \<le> 5/4 * (X * Y)" using d by linarith
  have "\<bar>fl (x' * y') - x' * y'\<bar> \<le> 5/4 * (X * Y) * ulp + X * Y * ulp / 4" by (rule fl_err_ulp [OF W m])
  then have "\<bar>fl (x' * y') - x' * y'\<bar> \<le> 3/2 * E" by (simp add: E_def mult_ac)
  then have "\<bar>fl (x' * y') - x * y\<bar> \<le> (a + b + 1/4) * E + 3/2 * E" using d by linarith
  also have "\<dots> \<le> (a + b + 2) * E" using E(1) by (simp add: algebra_simps)
  finally have "\<bar>fl (x' * y') - x * y\<bar> \<le> (a + b + 2) * (X * Y) * ulp" by (simp add: E_def mult.assoc)
  then show ?thesis using xy m W by (simp add: near_def)
qed

lemma near_sub:
  assumes x: "near a X x' x" and y: "near b X y' y" and ab: "0 \<le> a" "a \<le> 100" "0 \<le> b" "b \<le> 100" and X: "1 \<le> X"
  shows "\<bar>fl (x' - y') - (x - y)\<bar> \<le> (a + b + 3) * X * ulp \<and> \<bar>x' - y'\<bar> \<le> 3 * X"
proof -
  define E where "E = X * ulp"
  have E: "0 \<le> E" "E \<le> X / 10 ^ 10" using X by (simp_all add: E_def ulp_def)
  have d: "\<bar>(x' - y') - (x - y)\<bar> \<le> a * E + b * E" using x y unfolding near_def E_def by (simp add: algebra_simps) linarith
  have "a * E \<le> 100 * E" "b * E \<le> 100 * E" using ab E by (intro mult_right_mono; simp)+
  moreover have "\<bar>x\<bar> \<le> X" "\<bar>y\<bar> \<le> X" "E \<le> X / 10000000000" using x y E by (simp_all add: near_def)
  ultimately have m: "\<bar>x' - y'\<bar> \<le> 9/4 * X" using d E(1) by linarith
  have "\<bar>fl (x' - y') - (x' - y')\<bar> \<le> 9/4 * X * ulp + X * ulp / 4" by (rule fl_err_ulp [OF X m])
  then have "\<bar>fl (x' - y') - (x' - y')\<bar> \<le> 5/2 * E" by (simp add: E_def mult_ac)
  then have "\<bar>fl (x' - y') - (x - y)\<bar> \<le> a * E + b * E + 5/2 * E" using d by linarith
  also have "\<dots> \<le> (a + b + 3) * E" using E(1) by (simp add: algebra_simps)
  finally have "\<bar>fl (x' - y') - (x - y)\<bar> \<le> (a + b + 3) * E" .
  then show ?thesis using m X by (simp add: E_def mult.assoc)
qed

section \<open>Readings\<close>

text \<open>The decimal that a price, a volume or a fee stands for; the Number read from it is the nearest.\<close>

fun dval :: "jsval \<Rightarrow> rat" where
  "dval (JNumeric q) = q"
| "dval (JNum (Fin x)) = dec_of x"
| "dval _ = 0"

fun decimal_text :: "jsval \<Rightarrow> bool" where
  "decimal_text (JNumeric q) = True"
| "decimal_text (JNum (Fin x)) = (fl x = x)"
| "decimal_text _ = False"

lemma parse_dval: "decimal_text v \<Longrightarrow> \<bar>dval v\<bar> \<le> 10 ^ 30 \<Longrightarrow> parse_float v = Fin (fl (dval v))"
  by (cases v rule: dval.cases) (auto simp: fl_dec_of mk_small)

lemma contract_size_val: "\<exists>c. contractSizeFor i = Fin c \<and> fl c = c \<and> 1 \<le> dec_of c \<and> dec_of c \<le> 100000"
proof -
  have all: "list_all (\<lambda>d. case contractSize d of Fin c \<Rightarrow> c \<noteq> 0 \<and> fl c = c \<and> 1 \<le> dec_of c \<and> dec_of c \<le> 100000 | _ \<Rightarrow> False)
      INSTRUMENT_DEFINITIONS" by code_simp
  have d: "fl 100000 = 100000" "dec_of 100000 = 100000" by code_simp+
  show ?thesis
  proof (cases "CONTRACT_SIZES i")
    case None
    then show ?thesis using d by (simp add: contractSizeFor_def DEFAULT_CONTRACT_SIZE_def)
  next
    case (Some x)
    then obtain e where "e \<in> set INSTRUMENT_DEFINITIONS" "x = contractSize e"
      by (auto simp: CONTRACT_SIZES_def table_of_def dest!: map_of_SomeD)
    then have "case x of Fin c \<Rightarrow> c \<noteq> 0 \<and> fl c = c \<and> 1 \<le> dec_of c \<and> dec_of c \<le> 100000 | _ \<Rightarrow> False"
      using all by (auto simp: list_all_iff)
    then show ?thesis using Some by (auto simp: contractSizeFor_def split: num.splits)
  qed
qed

section \<open>Decimals\<close>

text \<open>
  Documented of the package: construction from decimal text and from a Number (through the text it prints
  as) is exact, a difference or product is correct to twenty significant digits, rounding to two
  places is half away from zero, and toNumber gives the nearest Number. \<open>v\<close> is the value of a decimal.
\<close>

definition arith_laws :: "'d decimal_arith \<Rightarrow> ('d \<Rightarrow> rat) \<Rightarrow> bool" where
  "arith_laws D v \<longleftrightarrow>
     (\<forall>x. decimal_text x \<longrightarrow> (\<exists>d. da_new D x = Some d \<and> v d = dval x)) \<and>
     (\<forall>a b. \<bar>v (da_minus D a b) - (v a - v b)\<bar> \<le> \<bar>v a - v b\<bar> / 10 ^ 19) \<and>
     (\<forall>a b. \<bar>v (da_times D a b) - v a * v b\<bar> \<le> \<bar>v a * v b\<bar> / 10 ^ 19) \<and>
     (\<forall>a. v (da_cents D a) = of_int (to_cents (v a)) / 100) \<and>
     (\<forall>a. da_num D a = mk (v a))"

definition rat_arith :: "rat decimal_arith" where
  "rat_arith =
     \<lparr>da_new = (\<lambda>x. if decimal_text x then Some (dval x) else None), da_minus = (-), da_times = (*),
      da_cents = (\<lambda>a. of_int (to_cents a) / 100), da_num = mk\<rparr>"

lemma rat_arith_laws: "arith_laws rat_arith (\<lambda>x. x)"
  by (simp add: arith_laws_def rat_arith_def)

definition dnear :: "rat \<Rightarrow> rat \<Rightarrow> rat \<Rightarrow> rat \<Rightarrow> bool" where
  "dnear a X x' x \<longleftrightarrow> \<bar>x\<bar> \<le> X \<and> \<bar>x' - x\<bar> \<le> a * X / 10 ^ 19"

lemma dnear_mul:
  assumes x: "dnear a X x' x" "0 \<le> a" "a \<le> 100" and y: "\<bar>y\<bar> \<le> Y" and z: "\<bar>z - x' * y\<bar> \<le> \<bar>x' * y\<bar> / 10 ^ 19" and XY: "0 \<le> X" "0 \<le> Y"
  shows "dnear (a + 2) (X * Y) z (x * y)"
proof -
  have xx: "\<bar>x'\<bar> \<le> 2 * X"
  proof -
    have "a * X \<le> 100 * X" using x XY by (intro mult_right_mono) auto
    moreover have "\<bar>x\<bar> \<le> X" "\<bar>x' - x\<bar> \<le> a * X / 10000000000000000000" using x by (simp_all add: dnear_def)
    ultimately show ?thesis using XY(1) by linarith
  qed
  have "\<bar>x' * y - x * y\<bar> = \<bar>x' - x\<bar> * \<bar>y\<bar>" by (simp add: abs_mult [symmetric] algebra_simps)
  also have "\<dots> \<le> (a * X / 10 ^ 19) * Y" using x y XY unfolding dnear_def by (intro mult_mono) auto
  finally have 1: "\<bar>x' * y - x * y\<bar> \<le> a * (X * Y) / 10 ^ 19" by simp
  have "\<bar>x' * y\<bar> \<le> (2 * X) * Y" using xx y XY unfolding abs_mult by (intro mult_mono) auto
  then have "\<bar>x' * y\<bar> / 10 ^ 19 \<le> 2 * (X * Y) / 10 ^ 19" by (intro divide_right_mono) simp_all
  then have "\<bar>z - x * y\<bar> \<le> 2 * (X * Y) / 10 ^ 19 + a * (X * Y) / 10 ^ 19" using z 1 by linarith
  also have "\<dots> = (a + 2) * (X * Y) / 10 ^ 19" by (simp add: algebra_simps add_divide_distrib)
  finally have "\<bar>z - x * y\<bar> \<le> (a + 2) * (X * Y) / 10 ^ 19" .
  moreover have "\<bar>x * y\<bar> \<le> X * Y" using x y XY unfolding dnear_def abs_mult by (intro mult_mono) auto
  ultimately show ?thesis by (simp add: dnear_def)
qed

lemma cents_value_near: "\<bar>of_int (to_cents q) / 100 - q\<bar> \<le> 1 / 200"
  using to_cents_near [of q] by (simp add: abs_le_iff field_simps)

section \<open>The two paths\<close>

text \<open>The value both approximate, for the prices \<open>a\<close> and \<open>b\<close> of which the difference counts.\<close>

definition exact_pnl :: "rat \<Rightarrow> rat \<Rightarrow> rat \<Rightarrow> rat \<Rightarrow> rat \<Rightarrow> rat \<Rightarrow> rat" where
  "exact_pnl a b l c r m = (a - b) * l * c * r - m"

text \<open>A position of moderate size: the product bounds its notional by ten billion dollars.\<close>

definition moderate :: "rat \<Rightarrow> rat \<Rightarrow> rat \<Rightarrow> rat \<Rightarrow> rat \<Rightarrow> bool" where
  "moderate P L R l m \<longleftrightarrow> 1 \<le> P \<and> 1 \<le> L \<and> 1 \<le> R \<and> P * L * R \<le> 10 ^ 5 \<and> \<bar>l\<bar> \<le> L \<and> \<bar>m\<bar> \<le> 10 ^ 9"

lemma moderate_bounds:
  assumes "moderate P L R l m"
  shows "1 \<le> P * L" "P \<le> 10 ^ 5" "P * L \<le> 10 ^ 5"
proof -
  have a: "1 \<le> P" "1 \<le> L" "1 \<le> R" "P * L * R \<le> 10 ^ 5" using assms by (simp_all add: moderate_def)
  show pl: "1 \<le> P * L" using mult_mono [of 1 P 1 L] a by simp
  have "P * L * 1 \<le> P * L * R" using a pl by (intro mult_left_mono) simp_all
  from order_trans [OF this a(4)] show 1: "P * L \<le> 10 ^ 5" by simp
  have "P * 1 \<le> P * L" using a by (intro mult_left_mono) simp_all
  from order_trans [OF this 1] show "P \<le> 10 ^ 5" by simp
qed

lemma fast_error:
  assumes ab: "\<bar>a\<bar> \<le> P" "\<bar>b\<bar> \<le> P" and m: "moderate P L R l m"
    and c: "fl c = c" "\<bar>dec_of c\<bar> \<le> 100000" and r: "fl r = r" "\<bar>dec_of r\<bar> \<le> R"
  shows "\<exists>x. nsub (nmul (nmul (nmul (nsub (Fin (fl a)) (Fin (fl b))) (Fin (fl l))) (Fin c)) (Fin r)) (Fin (fl m)) = Fin x \<and>
    \<bar>x - exact_pnl a b l (dec_of c) (dec_of r) m\<bar> \<le> 5 / 10 ^ 5 \<and> \<bar>exact_pnl a b l (dec_of c) (dec_of r) m\<bar> \<le> 3 * 10 ^ 10"
proof -
  have one: "1 \<le> P" "1 \<le> L" "1 \<le> R" and PLR: "P * L * R \<le> 10 ^ 5" and lm: "\<bar>l\<bar> \<le> L" "\<bar>m\<bar> \<le> 10 ^ 9"
    using m by (simp_all add: moderate_def)
  note mb = moderate_bounds [OF m]
  define t1 where "t1 = fl (fl a - fl b)"
  have s1: "\<bar>t1 - (a - b)\<bar> \<le> (2 + 2 + 3) * P * ulp \<and> \<bar>fl a - fl b\<bar> \<le> 3 * P"
    unfolding t1_def by (rule near_sub [OF near_fl [OF one(1) ab(1)] near_fl [OF one(1) ab(2)]]) (use one in simp_all)
  have n1: "near 4 (2 * P) t1 (a - b)"
  proof -
    have "7 * P * ulp \<le> 4 * (2 * P) * ulp" using one by (intro mult_right_mono) (simp_all add: ulp_def)
    moreover have "\<bar>a - b\<bar> \<le> 2 * P" using ab by linarith
    ultimately show ?thesis using s1 by (simp add: near_def)
  qed
  define t2 where "t2 = fl (t1 * fl l)"
  have "near (4 + 2 + 2) (2 * P * L) t2 ((a - b) * l) \<and> \<bar>t1 * fl l\<bar> \<le> 2 * (2 * P * L)"
    unfolding t2_def by (rule near_mul [OF n1 near_fl [OF one(2) lm(1)]]) (use one in simp_all)
  then have n2: "near 8 (2 * P * L) t2 ((a - b) * l)" "\<bar>t1 * fl l\<bar> \<le> 2 * (2 * P * L)" by simp_all
  have nc: "near 2 100000 c (dec_of c)" using near_fl [of 100000 "dec_of c"] c by (simp add: fl_dec_of)
  define t3 where "t3 = fl (t2 * c)"
  have "near (8 + 2 + 2) (2 * P * L * 100000) t3 ((a - b) * l * dec_of c) \<and> \<bar>t2 * c\<bar> \<le> 2 * (2 * P * L * 100000)"
    unfolding t3_def by (rule near_mul [OF n2(1) nc]) (use mb in simp_all)
  then have n3: "near 12 (2 * P * L * 100000) t3 ((a - b) * l * dec_of c)" "\<bar>t2 * c\<bar> \<le> 2 * (2 * P * L * 100000)" by simp_all
  have nr: "near 2 R r (dec_of r)" using near_fl [OF one(3) r(2)] r(1) by (simp add: fl_dec_of)
  define t4 where "t4 = fl (t3 * r)"
  have "near (12 + 2 + 2) (2 * P * L * 100000 * R) t4 ((a - b) * l * dec_of c * dec_of r) \<and> \<bar>t3 * r\<bar> \<le> 2 * (2 * P * L * 100000 * R)"
    unfolding t4_def by (rule near_mul [OF n3(1) nr]) (use mb one in simp_all)
  then have b4: "near 16 (2 * P * L * 100000 * R) t4 ((a - b) * l * dec_of c * dec_of r)" "\<bar>t3 * r\<bar> \<le> 2 * (2 * P * L * 100000 * R)" by simp_all
  have g: "2 * P * L * 100000 * R \<le> 2 * 10 ^ 10" using PLR by (simp add: mult_ac)
  have n4: "near 16 (2 * 10 ^ 10) t4 ((a - b) * l * dec_of c * dec_of r)"
    by (rule near_weaken [OF b4(1) _ g]) (use mult_left_mono [OF g, of 16] in simp)
  have "2 * (2 * P * L * 100000 * R) \<le> 2 * (2 * 10 ^ 10)" using g by (intro mult_left_mono) simp_all
  from order_trans [OF b4(2) this] have t4b: "\<bar>t3 * r\<bar> \<le> 4 * 10 ^ 10" by simp
  have nm: "near 2 (2 * 10 ^ 10) (fl m) m" by (rule near_fl) (use lm in simp_all)
  define t5 where "t5 = fl (t4 - fl m)"
  have "\<bar>t5 - ((a - b) * l * dec_of c * dec_of r - m)\<bar> \<le> (16 + 2 + 3) * (2 * 10 ^ 10) * ulp \<and> \<bar>t4 - fl m\<bar> \<le> 3 * (2 * 10 ^ 10)"
    unfolding t5_def by (rule near_sub [OF n4 nm]) simp_all
  then have e: "\<bar>t5 - exact_pnl a b l (dec_of c) (dec_of r) m\<bar> \<le> 5 / 10 ^ 5" "\<bar>t4 - fl m\<bar> \<le> 6 * 10 ^ 10"
    by (simp_all add: exact_pnl_def ulp_def)
  have k: "\<bar>fl a - fl b\<bar> \<le> 10 ^ 30" "\<bar>t1 * fl l\<bar> \<le> 10 ^ 30" "\<bar>t2 * c\<bar> \<le> 10 ^ 30" "\<bar>t3 * r\<bar> \<le> 10 ^ 30" "\<bar>t4 - fl m\<bar> \<le> 10 ^ 30"
    using s1 n2(2) n3(2) t4b e(2) mb by simp_all
  have "mk (fl a - fl b) = Fin t1" "mk (t1 * fl l) = Fin t2" "mk (t2 * c) = Fin t3" "mk (t3 * r) = Fin t4" "mk (t4 - fl m) = Fin t5"
    using mk_small [OF k(1)] mk_small [OF k(2)] mk_small [OF k(3)] mk_small [OF k(4)] mk_small [OF k(5)]
    by (simp_all only: t1_def t2_def t3_def t4_def t5_def)
  then have "nsub (nmul (nmul (nmul (nsub (Fin (fl a)) (Fin (fl b))) (Fin (fl l))) (Fin c)) (Fin r)) (Fin (fl m)) = Fin t5" by simp
  moreover have "\<bar>exact_pnl a b l (dec_of c) (dec_of r) m\<bar> \<le> 3 * 10 ^ 10"
    using n4 lm unfolding near_def exact_pnl_def by (simp add: abs_le_iff)
  ultimately show ?thesis using e(1) by blast
qed

lemma decimal_error:
  assumes laws: "arith_laws D v" and ab: "\<bar>v a\<bar> \<le> P" "\<bar>v b\<bar> \<le> P" and m: "moderate P L R (v l) (v m)"
    and c: "\<bar>v c\<bar> \<le> 100000" and r: "\<bar>q\<bar> \<le> R"
    and conv: "(q = 1 \<and> conv = da_times D (da_times D (da_minus D a b) l) c) \<or>
      (\<exists>e. v e = q \<and> conv = da_times D (da_times D (da_times D (da_minus D a b) l) c) e)"
  shows "\<bar>v (da_minus D conv m) - exact_pnl (v a) (v b) (v l) (v c) q (v m)\<bar> \<le> 1 / 10 ^ 6"
proof -
  have one: "1 \<le> P" "1 \<le> L" "1 \<le> R" and PLR: "P * L * R \<le> 10 ^ 5" and lm: "\<bar>v l\<bar> \<le> L" "\<bar>v m\<bar> \<le> 10 ^ 9"
    using m by (simp_all add: moderate_def)
  note mb = moderate_bounds [OF m]
  have mi: "\<bar>v (da_minus D x y) - (v x - v y)\<bar> \<le> \<bar>v x - v y\<bar> / 10 ^ 19" and ti: "\<bar>v (da_times D x y) - v x * v y\<bar> \<le> \<bar>v x * v y\<bar> / 10 ^ 19" for x y
    using laws by (simp_all add: arith_laws_def)
  define X where "X = 2 * P"
  have X: "0 \<le> X" "0 \<le> X * L" using one by (simp_all add: X_def)
  define A where "A = v a - v b"
  have "\<bar>A\<bar> \<le> X" using ab by (simp add: X_def A_def)
  moreover from this have "\<bar>A\<bar> / 10 ^ 19 \<le> X / 10 ^ 19" by (intro divide_right_mono) simp_all
  ultimately have d1: "dnear 1 X (v (da_minus D a b)) A" using mi [of a b] by (simp add: dnear_def A_def)
  let ?t2 = "da_times D (da_minus D a b) l"
  let ?t3 = "da_times D ?t2 c"
  have d2: "dnear (1 + 2) (X * L) (v ?t2) (A * v l)" by (rule dnear_mul [OF d1 _ _ lm(1) ti]) (use X one in simp_all)
  have d3: "dnear (1 + 2 + 2) (X * L * 100000) (v ?t3) (A * v l * v c)"
    by (rule dnear_mul [OF d2 _ _ c ti]) (use X in simp_all)
  have d4: "dnear 7 (X * L * 100000 * R) (v conv) (A * v l * v c * q)"
    using conv
  proof
    assume q: "q = 1 \<and> conv = ?t3"
    have "X * L * 100000 * 1 \<le> X * L * 100000 * R" using X one by (intro mult_left_mono) simp_all
    then have w: "X * L * 100000 \<le> X * L * 100000 * R" by simp
    then have "5 * (X * L * 100000) / 10 ^ 19 \<le> 7 * (X * L * 100000 * R) / 10 ^ 19"
      using X one by (intro divide_right_mono mult_mono [OF _ w]) simp_all
    then show ?thesis using d3 q order_trans [OF _ w] unfolding dnear_def by (auto intro: order_trans)
  next
    assume "\<exists>e. v e = q \<and> conv = da_times D ?t3 e"
    then obtain e where e: "v e = q" "conv = da_times D ?t3 e" by blast
    have "dnear (1 + 2 + 2 + 2) (X * L * 100000 * R) (v conv) (A * v l * v c * q)"
      unfolding e(2) by (rule dnear_mul [OF d3 _ _ r]) (use X one ti [of ?t3 e] e(1) in simp_all)
    then show ?thesis by simp
  qed
  have G: "X * L * 100000 * R \<le> 2 * 10 ^ 10" using PLR by (simp add: X_def mult_ac)
  let ?g = "A * v l * v c * q"
  have g: "\<bar>?g\<bar> \<le> 2 * 10 ^ 10" "\<bar>v conv - ?g\<bar> \<le> 14 / 10 ^ 9"
  proof -
    have "7 * (X * L * 100000 * R) / 10 ^ 19 \<le> 14 / 10 ^ 9" using G by simp
    moreover have "\<bar>?g\<bar> \<le> X * L * 100000 * R" "\<bar>v conv - ?g\<bar> \<le> 7 * (X * L * 100000 * R) / 10 ^ 19"
      using d4 by (simp_all only: dnear_def)
    ultimately show "\<bar>?g\<bar> \<le> 2 * 10 ^ 10" "\<bar>v conv - ?g\<bar> \<le> 14 / 10 ^ 9" using G by (auto intro: order_trans)
  qed
  have "\<bar>v conv - v m\<bar> \<le> \<bar>v conv - ?g\<bar> + \<bar>?g\<bar> + \<bar>v m\<bar>" by linarith
  then have "\<bar>v conv - v m\<bar> \<le> 22 * 10 ^ 9" using g lm by simp
  then have "\<bar>v conv - v m\<bar> / 10 ^ 19 \<le> 22 / 10 ^ 10" by simp
  then have "\<bar>v (da_minus D conv m) - (?g - v m)\<bar> \<le> 22 / 10 ^ 10 + 14 / 10 ^ 9"
    using mi [of conv m] g(2) by linarith
  then show ?thesis by (simp add: exact_pnl_def A_def)
qed

lemma booked_near: "\<bar>y\<bar> \<le> 4 * 10 ^ 10 \<Longrightarrow> \<exists>z. mk (of_int (to_cents y) / 100) = Fin z \<and> \<bar>z - y\<bar> \<le> 501 / 10 ^ 5"
proof -
  assume y: "\<bar>y\<bar> \<le> 4 * 10 ^ 10"
  define c :: rat where "c = of_int (to_cents y) / 100"
  have c: "\<bar>c - y\<bar> \<le> 1 / 200" unfolding c_def by (rule cents_value_near)
  then have "\<bar>c\<bar> \<le> \<bar>y\<bar> + 1" by linarith
  then have "\<bar>c\<bar> \<le> 4 * 10 ^ 10 + 1" using y by simp
  moreover from this have "\<bar>c\<bar> \<le> 10 ^ 30" by simp
  moreover have "\<bar>fl c - c\<bar> \<le> \<bar>c\<bar> / 2 ^ 53 + subnormal_err" by (rule fl_err)
  moreover have "subnormal_err \<le> 1 / 10 ^ 20" by (rule subnormal_err_bounds)
  ultimately have "mk c = Fin (fl c)" "\<bar>fl c - c\<bar> \<le> 1 / 10 ^ 5" by (auto intro: mk_small)
  moreover have "\<bar>fl c - y\<bar> \<le> \<bar>fl c - c\<bar> + \<bar>c - y\<bar>" by linarith
  ultimately show ?thesis using c unfolding c_def by (intro exI [of _ "fl (of_int (to_cents y) / 100)"]) simp
qed

text \<open>C20. What the fast path detects, the decimal path confirms, to within about half a cent: for a
  position of up to ten billion dollars of notional, fastPnL on the Numbers read from the
  stored decimals and calculatePnL on the decimals themselves both return, and their results
  differ by at most 0.0051 dollars, of which half a cent is the final rounding.\<close>

theorem fast_confirms:
  assumes laws: "arith_laws D v"
    and texts: "decimal_text po" "decimal_text pcl" "decimal_text lv" "decimal_text cm" "fl r = r"
    and bounds: "\<bar>dval po\<bar> \<le> P" "\<bar>dval pcl\<bar> \<le> P" "\<bar>dec_of r\<bar> \<le> R" and m: "moderate P L R (dval lv) (dval cm)"
  shows "\<exists>x y. fastPnL (directionSign dir) (parse_float po) (parse_float pcl) (parse_float lv) (contractSizeFor i)
      (parse_float cm) (Fin r) = Fin x \<and>
    calculatePnL D env cache dir po pcl lv i cm (Some (Fin r)) = Inr (Fin y) \<and> \<bar>x - y\<bar> \<le> 51 / 10 ^ 4"
proof -
  obtain c where c: "contractSizeFor i = Fin c" "fl c = c" "1 \<le> dec_of c" "dec_of c \<le> 100000" using contract_size_val by blast
  then have cb: "\<bar>dec_of c\<bar> \<le> 100000" "decimal_text (JNum (Fin c))" "dval (JNum (Fin c)) = dec_of c" by simp_all
  have "1 * L \<le> P * L" using m by (intro mult_right_mono) (simp_all add: moderate_def)
  then have P: "P \<le> 10 ^ 5" "L \<le> 10 ^ 5" using moderate_bounds [OF m] by simp_all
  have rd: "parse_float po = Fin (fl (dval po))" "parse_float pcl = Fin (fl (dval pcl))"
    "parse_float lv = Fin (fl (dval lv))" "parse_float cm = Fin (fl (dval cm))"
    using bounds P m by (auto intro!: parse_dval texts simp: moderate_def)
  define buy where "buy = (dir = ''buy'')"
  define a b where "a = (if buy then dval pcl else dval po)" and "b = (if buy then dval po else dval pcl)"
  have ab: "\<bar>a\<bar> \<le> P" "\<bar>b\<bar> \<le> P" using bounds by (auto simp: a_def b_def)
  have fe: "fastPnL (directionSign dir) (parse_float po) (parse_float pcl) (parse_float lv) (contractSizeFor i) (parse_float cm) (Fin r) =
      nsub (nmul (nmul (nmul (nsub (Fin (fl a)) (Fin (fl b))) (Fin (fl (dval lv)))) (Fin c)) (Fin r)) (Fin (fl (dval cm)))"
    unfolding rd c(1) a_def b_def buy_def fastPnL_def directionSign_def Let_def by simp
  obtain x where x: "fastPnL (directionSign dir) (parse_float po) (parse_float pcl) (parse_float lv) (contractSizeFor i)
      (parse_float cm) (Fin r) = Fin x" and ex: "\<bar>x - exact_pnl a b (dval lv) (dec_of c) (dec_of r) (dval cm)\<bar> \<le> 5 / 10 ^ 5"
    and ee: "\<bar>exact_pnl a b (dval lv) (dec_of c) (dec_of r) (dval cm)\<bar> \<le> 3 * 10 ^ 10"
    unfolding fe using fast_error [OF ab m c(2) cb(1) texts(5) bounds(3)] by blast
  have new: "\<exists>d. da_new D t = Some d \<and> v d = dval t" if "decimal_text t" for t
    using laws that by (simp add: arith_laws_def)
  obtain dO dC dl dm dc where d: "da_new D po = Some dO" "v dO = dval po" "da_new D pcl = Some dC" "v dC = dval pcl"
    "da_new D lv = Some dl" "v dl = dval lv" "da_new D cm = Some dm" "v dm = dval cm"
    "da_new D (JNum (Fin c)) = Some dc" "v dc = dec_of c"
    using new [OF texts(1)] new [OF texts(2)] new [OF texts(3)] new [OF texts(4)] new [OF cb(2)] cb(3) by auto
  obtain dr where dr: "da_new D (JNum (Fin r)) = Some dr" "v dr = dec_of r"
    using new [of "JNum (Fin r)"] texts(5) by auto
  have one: "dec_of 1 = 1" by code_simp
  define da db where "da = (if buy then dC else dO)" and "db = (if buy then dO else dC)"
  define gross where "gross = da_times D (da_times D (da_minus D da db) dl) dc"
  define conv where "conv = (if r = 1 then gross else da_times D gross dr)"
  have calc: "calculatePnL D env cache dir po pcl lv i cm (Some (Fin r)) = Inr (mk (of_int (to_cents (v (da_minus D conv dm))) / 100))"
  proof -
    have f: "da_num D (da_cents D z) = mk (of_int (to_cents (v z)) / 100)" for z
      using laws by (simp only: arith_laws_def)
    show ?thesis
      unfolding calculatePnL_def c(1) d(1,3,5,7,9) dr(1) Let_def conv_def gross_def da_def db_def buy_def
      by (cases "dir = ''buy''"; cases "r = 1") (simp_all add: da_lift2_def f dr(1))
  qed
  have vv: "v da = a" "v db = b" using d by (simp_all add: da_def db_def a_def b_def)
  have "\<bar>v (da_minus D conv dm) - exact_pnl (v da) (v db) (v dl) (v dc) (dec_of r) (v dm)\<bar> \<le> 1 / 10 ^ 6"
    by (rule decimal_error [OF laws, of _ P _ L R])
      (use ab m cb(1) bounds(3) one dr(2) in \<open>auto simp: vv d conv_def gross_def\<close>)
  then have ed: "\<bar>v (da_minus D conv dm) - exact_pnl a b (dval lv) (dec_of c) (dec_of r) (dval cm)\<bar> \<le> 1 / 1000000"
    by (simp add: vv d)
  have "\<bar>p\<bar> \<le> \<bar>p - q\<bar> + \<bar>q\<bar>" for p q :: rat by linarith
  from this [of "v (da_minus D conv dm)" "exact_pnl a b (dval lv) (dec_of c) (dec_of r) (dval cm)"]
  have "\<bar>v (da_minus D conv dm)\<bar> \<le> 4 * 10 ^ 10" using ed ee by simp
  then obtain y where y: "mk (of_int (to_cents (v (da_minus D conv dm))) / 100) = Fin y"
    "\<bar>y - v (da_minus D conv dm)\<bar> \<le> 501 / 10 ^ 5" using booked_near by blast
  have "\<bar>x - y\<bar> \<le> 5 / 100000 + 1 / 1000000 + 501 / 100000"
  proof -
    have "\<bar>x - y\<bar> \<le> \<bar>x - e\<bar> + \<bar>w - e\<bar> + \<bar>y - w\<bar>" for e w by linarith
    from this [of "exact_pnl a b (dval lv) (dec_of c) (dec_of r) (dval cm)" "v (da_minus D conv dm)"]
    show ?thesis using ex ed y(2) by simp
  qed
  then have "\<bar>x - y\<bar> \<le> 51 / 10 ^ 4" by simp
  then show ?thesis using x calc y(1) by auto
qed

theorem fast_confirms_witness:
  "fastPnL (directionSign ''sell'') (parse_float (JNumeric (1085 / 1000))) (parse_float (JNumeric (1083 / 1000)))
      (parse_float (JNumeric (1 / 2))) (contractSizeFor ''EURUSD'') (parse_float (JNumeric 3)) (Fin 1) \<noteq> NaN \<and>
   calculatePnL rat_arith fx_env empty_cache ''sell'' (JNumeric (1085 / 1000)) (JNumeric (1083 / 1000)) (JNumeric (1 / 2))
      ''EURUSD'' (JNumeric 3) (Some (Fin 1)) = Inr (Fin 97)"
proof -
  have o: "fl 1 = 1" "\<bar>dec_of 1\<bar> \<le> 1" by code_simp+
  have "\<exists>x y. fastPnL (directionSign ''sell'') (parse_float (JNumeric (1085 / 1000))) (parse_float (JNumeric (1083 / 1000)))
      (parse_float (JNumeric (1 / 2))) (contractSizeFor ''EURUSD'') (parse_float (JNumeric 3)) (Fin 1) = Fin x \<and>
    calculatePnL rat_arith fx_env empty_cache ''sell'' (JNumeric (1085 / 1000)) (JNumeric (1083 / 1000)) (JNumeric (1 / 2))
      ''EURUSD'' (JNumeric 3) (Some (Fin 1)) = Inr (Fin y) \<and> \<bar>x - y\<bar> \<le> 51 / 10 ^ 4"
    by (rule fast_confirms [OF rat_arith_laws _ _ _ _ o(1) _ _ o(2), of _ _ _ _ 2 1]) (simp_all add: moderate_def)
  moreover have "calculatePnL rat_arith fx_env empty_cache ''sell'' (JNumeric (1085 / 1000)) (JNumeric (1083 / 1000)) (JNumeric (1 / 2))
      ''EURUSD'' (JNumeric 3) (Some (Fin 1)) = Inr (Fin 97)" by code_simp
  ultimately show ?thesis by auto
qed

end
