(* ===== verification/EngineTicks.thy ===== *)
theory EngineTicks
  imports EngineRuns PnlParity
begin

text \<open>
  The ticks among the engine's operations, and the theorems over all sequences of operations: the
  books of every account are kept, every trade goes on in its life.
\<close>

section \<open>The scan\<close>

definition same_maps :: "trade_index \<Rightarrow> trade_index \<Rightarrow> bool" where
  "same_maps x y \<longleftrightarrow> ix_by_id y = ix_by_id x \<and> ix_by_instrument y = ix_by_instrument x \<and> ix_pending y = ix_pending x \<and>
     ix_pending_by_instrument y = ix_pending_by_instrument x"

lemma same_maps_apply: "same_maps x (applyTradePnl e p x)"
  by (auto simp: same_maps_def applyTradePnl_def upd_account_def split: option.split)

lemma same_maps_refl: "same_maps x x"
  by (simp add: same_maps_def)

lemma same_maps_trans: "same_maps x y \<Longrightarrow> same_maps y z \<Longrightarrow> same_maps x z"
  by (simp add: same_maps_def)

lemma scan_trades:
  fixes price rate es s
  defines "s' \<equiv> fold (scan_trade price rate) es s"
  shows "sc_sltp s' = sc_sltp s @ List.map_filter (\<lambda>tr. candidate_of tr (closePriceFor (te_sign tr) price)) es \<and>
    sc_orders s' = sc_orders s \<and> same_maps (sc_index s) (sc_index s') \<and> (index_ok acct (sc_index s) \<longrightarrow> index_ok acct (sc_index s'))"
  unfolding s'_def
proof (induction es arbitrary: s)
  case (Cons tr es)
  have "sc_index (scan_trade price rate tr s) = applyTradePnl (Some tr) (value_at tr price rate) (sc_index s)" by (simp add: scan_trade_def Let_def)
  then have "same_maps (sc_index s) (sc_index (scan_trade price rate tr s))"
    "index_ok acct (sc_index s) \<longrightarrow> index_ok acct (sc_index (scan_trade price rate tr s))"
    using same_maps_apply index_ok_apply by simp_all
  then show ?case using Cons.IH [of "scan_trade price rate tr s"] same_maps_trans
    by (auto simp: scan_trade_def Let_def List.map_filter_simps split: option.split)
qed (simp add: List.map_filter_simps same_maps_refl)

lemma candidate_trade: "candidate_of tr p = Some c \<Longrightarrow> cd_trade c = tr"
  by (auto simp: candidate_of_def split: option.splits if_splits)

lemma candidate_ids:
  "map (\<lambda>c. te_id (cd_trade c)) (List.map_filter (\<lambda>tr. candidate_of tr (p tr)) es) = map te_id (filter (\<lambda>tr. candidate_of tr (p tr) \<noteq> None) es)"
  by (induction es) (auto simp: List.map_filter_simps candidate_trade split: option.split)

text \<open>The values of a bucket: each key once.\<close>

lemma bucket_values:
  assumes "agree key inst m b" "e \<in> set (jm_values (bucket_of b i))"
  shows "inst e = i" "jm_get m (key e) = Some e"
proof -
  obtain k where "(k, e) \<in> set (bucket_of b i)" using assms(2) by (auto simp: jm_values_def)
  moreover have "jm_wf (bucket_of b i)" using assms(1) by (simp add: agree_def)
  ultimately have "jm_get (bucket_of b i) k = Some e" by (simp add: jm_get_mem)
  then show "inst e = i" "jm_get m (key e) = Some e" using assms(1) unfolding agree_def by metis+
qed

lemma bucket_distinct: "agree key inst m b \<Longrightarrow> distinct (map key (jm_values (bucket_of b i)))"
proof -
  assume a: "agree key inst m b"
  have w: "jm_wf (bucket_of b i)" using a by (simp add: agree_def)
  have "key (snd x) = fst x" if x: "x \<in> set (bucket_of b i)" for x
  proof -
    obtain k e where k: "x = (k, e)" by (cases x)
    then have "jm_get (bucket_of b i) k = Some e" using x w by (simp add: jm_get_mem)
    then show ?thesis using a k unfolding agree_def by (metis fst_conv snd_conv)
  qed
  then have "map key (jm_values (bucket_of b i)) = map fst (bucket_of b i)" by (simp add: jm_values_def)
  then show ?thesis using w by (simp add: jm_wf_def jm_keys_def)
qed

definition scan_ok :: "(string \<Rightarrow> string) \<Rightarrow> trade_index \<Rightarrow> string set \<Rightarrow> scan \<Rightarrow> bool" where
  "scan_ok acct ix is s \<longleftrightarrow>
     index_ok acct (sc_index s) \<and> same_maps ix (sc_index s) \<and> candidates_ok acct (sc_sltp s) \<and>
     (\<forall>c\<in>set (sc_sltp s). te_instrument (cd_trade c) \<in> is \<and> jm_get (ix_by_id ix) (te_id (cd_trade c)) = Some (cd_trade c)) \<and> distinct (map pe_id (sc_orders s)) \<and>
     (\<forall>q\<in>set (sc_orders s). pe_instrument q \<in> is \<and> jm_get (ix_pending ix) (pe_id q) = Some q)"

lemma scan_ok_instrument:
  assumes ok: "scan_ok acct ix is s" and i: "i \<notin> is"
  shows "scan_ok acct ix (insert i is) (scan_instrument env pc i s)"
proof (cases "\<exists>price rate. getPrice pc i = Some price \<and> getUsdRateForInstrument env pc (Some i) = Inr rate")
  case False
  then have "scan_instrument env pc i s = s" by (auto simp: scan_instrument_def split: option.split sum.split)
  then show ?thesis using ok by (auto simp: scan_ok_def)
next
  case True
  then obtain price rate where pr: "getPrice pc i = Some price" "getUsdRateForInstrument env pc (Some i) = Inr rate" by blast
  let ?b = "bucket_of (ix_by_instrument (sc_index s)) i"
  let ?s = "fold (scan_trade price rate) (jm_values ?b) s"
  note st = scan_trades [of price rate "jm_values ?b" s acct]
  have ag: "agree te_id te_instrument (ix_by_id (sc_index s)) (ix_by_instrument (sc_index s))" and t: "trades_ok acct (ix_refs (sc_index s)) (ix_generation (sc_index s)) (ix_by_id (sc_index s))"
    using ok by (simp_all add: scan_ok_def index_ok_parts)
  let ?new = "List.map_filter (\<lambda>tr. candidate_of tr (closePriceFor (te_sign tr) price)) (jm_values ?b)"
  have m: "same_maps ix (sc_index s)" using ok by (simp add: scan_ok_def)
  have new: "te_instrument (cd_trade c) = i \<and> te_account (cd_trade c) = acct (te_id (cd_trade c)) \<and> jm_get (ix_by_id ix) (te_id (cd_trade c)) = Some (cd_trade c)"
    if c: "c \<in> set ?new" for c
  proof -
    obtain tr where tr: "tr \<in> set (jm_values ?b)" "cd_trade c = tr" using map_filter_from [OF c] candidate_trade by metis
    note bv = bucket_values [OF ag tr(1)]
    then show ?thesis using t m unfolding tr(2) by (simp add: trades_ok_def same_maps_def)
  qed
  have dn: "distinct (map (\<lambda>c. te_id (cd_trade c)) ?new)" unfolding candidate_ids using bucket_distinct [OF ag] by (simp add: distinct_map_filter)
  have old: "te_instrument (cd_trade c) \<in> is \<and> jm_get (ix_by_id ix) (te_id (cd_trade c)) = Some (cd_trade c)" if "c \<in> set (sc_sltp s)" for c
    using ok that by (simp add: scan_ok_def)
  have disj: "te_id (cd_trade c) \<noteq> te_id (cd_trade d)" if "c \<in> set (sc_sltp s)" "d \<in> set ?new" for c d
    using old [OF that(1)] new [OF that(2)] i by (metis option.inject)
  have cs: "candidates_ok acct (sc_sltp s @ ?new)"
    using ok dn new disj unfolding candidates_ok_def scan_ok_def map_append distinct_append set_append set_map by blast
  let ?pb = "bucket_of (ix_pending_by_instrument (sc_index ?s)) i"
  let ?os = "filter (\<lambda>q. isPendingTriggered (pe_type q) (pe_trigger q) price) (jm_values ?pb)"
  have sm: "same_maps ix (sc_index ?s)" using same_maps_trans [OF m] st by blast
  have pag: "agree pe_id pe_instrument (ix_pending (sc_index s)) (ix_pending_by_instrument (sc_index ?s))"
  proof -
    have "agree pe_id pe_instrument (ix_pending (sc_index s)) (ix_pending_by_instrument (sc_index s))"
      using ok by (simp add: scan_ok_def index_ok_parts)
    moreover have "ix_pending_by_instrument (sc_index ?s) = ix_pending_by_instrument (sc_index s)" using sm m by (simp add: same_maps_def)
    ultimately show ?thesis by simp
  qed
  have os: "pe_instrument q = i \<and> jm_get (ix_pending ix) (pe_id q) = Some q" if "q \<in> set ?os" for q
    using bucket_values [OF pag, of q i] that m by (simp add: same_maps_def)
  have dos: "distinct (map pe_id ?os)" using bucket_distinct [OF pag] by (simp add: distinct_map_filter)
  have oo: "pe_instrument q \<in> is \<and> jm_get (ix_pending ix) (pe_id q) = Some q" if "q \<in> set (sc_orders s)" for q
    using ok that by (simp add: scan_ok_def)
  have od: "pe_id p \<noteq> pe_id q" if "p \<in> set (sc_orders s)" "q \<in> set ?os" for p q
    using oo [OF that(1)] os [OF that(2)] i by (metis option.inject)
  have dd: "distinct (map pe_id (sc_orders s @ ?os))"
    using ok dos od unfolding scan_ok_def map_append distinct_append set_map by blast
  have "scan_instrument env pc i s = ?s\<lparr>sc_orders := sc_orders s @ ?os\<rparr>"
    using st by (simp add: scan_instrument_def pr Let_def getTradesByInstrument_def getPendingByInstrument_def)
  then show ?thesis using st ok cs sm dd new old os oo by (simp add: scan_ok_def ball_Un)
qed

lemma scan_ok_tick:
  assumes "index_ok acct ix" "distinct changed"
  shows "scan_ok acct ix (set changed) (scan_tick env pc changed ix)"
proof -
  have "scan_ok acct ix (set dn \<union> set changed) (fold (scan_instrument env pc) changed s)"
    if "scan_ok acct ix (set dn) s" "distinct changed" "set dn \<inter> set changed = {}" for dn changed s
    using that
  proof (induction changed arbitrary: dn s)
    case (Cons i js)
    have "scan_ok acct ix (set (i # dn)) (scan_instrument env pc i s)" using scan_ok_instrument [OF Cons.prems(1)] Cons.prems(3) by simp
    from Cons.IH [OF this] Cons.prems(2,3) show ?case by simp
  qed simp
  moreover have "scan_ok acct ix (set []) \<lparr>sc_index = ix, sc_touched = [], sc_sltp = [], sc_orders = [], sc_scanned = 0\<rparr>"
    using assms(1) by (simp add: scan_ok_def same_maps_refl candidates_ok_def)
  ultimately show ?thesis using assms(2) unfolding scan_tick_def by fastforce
qed

section \<open>The tick\<close>

lemma evaluate_shrinks: "shrinks acct (ev_index s) (ev_index (evaluate_account t i s))"
proof (cases "\<exists>a mx. getAccountEntry (ev_index s) i = Some a \<and> ae_status a = Some ''active'' \<and> ae_max_dd a = Some mx \<and> nlt (Fin 0) mx")
  case True
  then obtain a mx where a: "getAccountEntry (ev_index s) i = Some a" "ae_status a = Some ''active''" "ae_max_dd a = Some mx" "nlt (Fin 0) mx" by blast
  define r where "r = resolveEffectiveFloor (entry_drawdown a) (nadd (ae_balance a) (ae_floating a)) mx (ae_locks_at a)"
  define s1 where "s1 = (if rs_peak_changed r \<or> rs_locked_changed r then
      s\<lparr>ev_index := setPeakEquity i (Some (rs_peak r)) (rs_locked r) (ev_index s),
        ev_dirty := jm_set i \<lparr>dp_peak = (if rs_peak_changed r then Some (rs_peak r) else None),
          dp_floor = (if rs_locked_changed r then rs_locked r else None)\<rparr> (ev_dirty s)\<rparr> else s)"
  have "ev_index (evaluate_account t i s) = ev_index s1"
    unfolding evaluate_account_def a option.case r_def [symmetric] Let_def s1_def [symmetric] by (simp add: a split: option.split)
  moreover have "shrinks acct (ev_index s) (ev_index s1)" by (simp add: s1_def shrinks_values)
  ultimately show ?thesis by simp
next
  case False
  then have "evaluate_account t i s = s" unfolding evaluate_account_def Let_def by (cases "getAccountEntry (ev_index s) i") (auto split: option.splits)
  then show ?thesis by simp
qed

lemma runs_fold_snd: "(\<And>x s. runs acct F (snd s) (snd (f x s))) \<Longrightarrow> runs acct F (snd s) (snd (fold f xs s))"
proof (induction xs arbitrary: s)
  case (Cons x xs)
  show ?case using runs_trans [OF Cons.prems Cons.IH [OF Cons.prems], of s x] by simp
qed simp

lemma runs_defers: "runs acct {} e (snd (recordDeferredTriggers cs e))"
proof -
  define ds where "ds = List.map_filter (\<lambda>c. map_option (\<lambda>l. (te_id (cd_trade c), l, cd_reason c)) (cd_level c)) cs"
  obtain r e' where o: "on_pool (query (defer_stmt ds)) e = (r, e')" by (cases "on_pool (query (defer_stmt ds)) e")
  have 1: "runs acct {} e e'" using runs_defer [of acct e ds] o by simp
  have "shrinks acct ix (fold (\<lambda>c ix. if te_id (cd_trade c) \<in> W then (case cd_level c of None \<Rightarrow> ix
      | Some l \<Rightarrow> set_trigger (te_ref (cd_trade c)) l (cd_reason c) ix) else ix) cs ix)" for W ix
    by (rule shrinks_fold) (auto simp: shrinks_set_trigger split: option.split)
  then have 2: "runs acct {} e' (e'\<lparr>en_index := fold (\<lambda>c ix. if te_id (cd_trade c) \<in> W then (case cd_level c of None \<Rightarrow> ix
      | Some l \<Rightarrow> set_trigger (te_ref (cd_trade c)) l (cd_reason c) ix) else ix) cs (en_index e')\<rparr>)" for W
    by (intro runs_index) simp_all
  show ?thesis using 1 runs_trans [OF 1 2] by (simp add: recordDeferredTriggers_def Let_def ds_def [symmetric] o split: sum.split)
qed

lemma runs_closeTriggered:
  assumes l: "sum_laws (mt_arith m) v" and cs: "candidates_ok acct cs"
  shows "runs acct {} e (snd (closeTriggeredTrades m cs e))"
proof -
  define eligible where "eligible = filter (\<lambda>c. past_window (mt_rules m) (mt_time m) (cd_trade c)) cs"
  define late where "late = filter (\<lambda>c. \<not> past_window (mt_rules m) (mt_time m) (cd_trade c) \<and> \<not> cd_deferred c \<and> cd_level c \<noteq> None) cs"
  define e1 where "e1 = (if late = [] then e else snd (recordDeferredTriggers late e))"
  have 1: "runs acct {} e e1" unfolding e1_def using runs_defers by simp
  obtain q e2 where t: "in_transaction (triggered_body m eligible) e1 = (q, e2)" by (cases "in_transaction (triggered_body m eligible) e1")
  have el: "candidates_ok acct eligible" unfolding eligible_def by (rule candidates_filter [OF cs])
  have "runs acct {} e1 e2" by (rule runs_transaction [OF t framed_bodies(5)]) (rule books_triggered [OF _ l _ el])
  with 1 have 2: "runs acct {} e e2" by (rule runs_trans)
  have "shrinks acct ix (fold (\<lambda>(c, p) ix. applyRealizedPnl (mt_time m) (te_account (cd_trade c)) (JNum p) (snd (removeTrade (te_id (cd_trade c)) ix))) cps ix)"
    for cps :: "(sltp_candidate \<times> num) list" and ix
    by (rule shrinks_fold) (auto intro: shrinks_trans [OF shrinks_removeTrade shrinks_values(1)])
  moreover have "shrinks acct ix (fold (\<lambda>(i, x) ix. case getAccountEntry ix i of None \<Rightarrow> ix | Some a \<Rightarrow> updateAccountBalance i (JNum (nadd (ae_balance a) x)) ix) totals ix)"
    for totals :: "(string \<times> num) list" and ix
    by (rule shrinks_fold) (auto simp: shrinks_values split: option.split)
  ultimately have s: "shrinks acct ix (fold (\<lambda>(i, x) ix. case getAccountEntry ix i of None \<Rightarrow> ix | Some a \<Rightarrow> updateAccountBalance i (JNum (nadd (ae_balance a) x)) ix) totals
      (fold (\<lambda>(c, p) ix. applyRealizedPnl (mt_time m) (te_account (cd_trade c)) (JNum p) (snd (removeTrade (te_id (cd_trade c)) ix))) cps ix))"
    for totals and cps :: "(sltp_candidate \<times> num) list" and ix by (rule shrinks_trans)
  have 3: "runs acct {} e2 (e2\<lparr>en_index := fold (\<lambda>(i, x) ix. case getAccountEntry ix i of None \<Rightarrow> ix | Some a \<Rightarrow> updateAccountBalance i (JNum (nadd (ae_balance a) x)) ix) totals
      (fold (\<lambda>(c, p) ix. applyRealizedPnl (mt_time m) (te_account (cd_trade c)) (JNum p) (snd (removeTrade (te_id (cd_trade c)) ix))) cps (en_index e2)), en_events := evs\<rparr>)"
    for totals and cps :: "(sltp_candidate \<times> num) list" and evs
    by (rule runs_index) (simp_all add: s)
  show ?thesis
    unfolding closeTriggeredTrades_def Let_def eligible_def [symmetric] late_def [symmetric] e1_def [symmetric] t
    using 1 2 runs_trans [OF 2 3] by (auto split: sum.split option.split)
qed

lemma runs_settle:
  assumes l: "sum_laws (mt_arith m) v"
  shows "runs acct {} e (snd (settleAccountOutcomes m breaches passes e))"
proof -
  have b: "runs acct {} (snd s) (snd (settle_breach m cf rz b s))" for cf rz b s
    using runs_fail [OF l] by (simp add: settle_breach_def Let_def split: option.split)
  have p: "runs acct {} (snd s) (snd (settle_pass m cf p s))" for cf p s
    using runs_pass [OF l] by (simp add: settle_pass_def split: option.split)
  have fb: "runs acct {} (snd s) (snd (fold (settle_breach m cf rz) bs s))" for cf rz bs s
    by (rule runs_fold_snd) (rule b)
  have fp: "runs acct {} (snd s) (snd (fold (settle_pass m cf) ps s))" for cf ps s
    by (rule runs_fold_snd) (rule p)
  have "runs acct {} e (snd (fold (settle_pass m cf) ps (fold (settle_breach m cf rz) bs (0, e))))" for cf rz bs ps
    using runs_trans [OF fb fp] by (metis snd_conv)
  then show ?thesis by (auto simp: settleAccountOutcomes_def Let_def)
qed

lemma runs_fill_candidate: "runs_one acct (pe_id c) e (fill_candidate m c e)"
  using runs_cancel [where i = "pe_id c"] runs_fill [where order = "order_of_entry c a" for a]
  by (auto simp: fill_candidate_def order_of_entry_def split: option.split)

lemma runs_runTick:
  assumes l: "sum_laws (mt_arith m) v" and d: "distinct changed"
  shows "runs acct UNIV e (snd (runTick m changed e))"
  unfolding runs_def
proof
  assume ok: "engine_ok acct e"
  define s where "s = scan_tick (mt_env m) (mt_cache m) changed (en_index e)"
  have so: "scan_ok acct (en_index e) (set changed) s" unfolding s_def by (rule scan_ok_tick [OF _ d]) (use ok in \<open>simp add: engine_ok_def\<close>)
  have sh: "shrinks acct (en_index e) (sc_index s)" using so by (simp add: scan_ok_def shrinks_def same_maps_def pending_ids_def)
  define w where "w = fold (evaluate_account (mt_time m)) (sc_touched s)
     \<lparr>ev_index = sc_index s, ev_dirty = en_dirty e, ev_breaches = [], ev_passes = [], ev_equity = []\<rparr>"
  have "shrinks acct (ev_index x) (ev_index (fold (evaluate_account t) is x))" for t "is" x
    by (induction "is" arbitrary: x) (auto intro: shrinks_trans [OF evaluate_shrinks])
  then have "shrinks acct (sc_index s) (ev_index w)" unfolding w_def by (metis evaluation.select_convs(1))
  with sh have ev: "shrinks acct (en_index e) (ev_index w)" by (rule shrinks_trans)
  define e1 where "e1 = e\<lparr>en_index := ev_index w, en_dirty := ev_dirty w\<rparr>"
  define e2 where "e2 = (if sc_sltp s = [] then e1 else snd (closeTriggeredTrades m (sc_sltp s) e1))"
  define e3 where "e3 = snd (settleAccountOutcomes m (ev_breaches w) (ev_passes w) e2)"
  have r1: "runs acct {} e e1" by (rule runs_index) (simp_all add: e1_def ev)
  have r2: "runs acct {} e1 e2" unfolding e2_def using runs_closeTriggered [OF l] so by (simp add: scan_ok_def)
  have r3: "runs acct {} e2 e3" unfolding e3_def by (rule runs_settle [OF l])
  have r: "engine_ok acct e3" "books {} (en_db e) (en_db e3)"
    using runs_trans [OF runs_trans [OF r1 r2] r3] ok by (simp_all add: runs_def)
  have "waiting (pe_id ` set (sc_orders s)) (en_db e)"
    by (rule waiting_mono [where K = "pending_ids (en_index e)"]) (use ok so in \<open>auto simp: engine_ok_def scan_ok_def pending_ids_def\<close>)
  then have "waiting (pe_id ` set (sc_orders s)) (en_db e3)" using waiting_books [OF r(2)] by simp
  then have f: "engine_ok acct (fillTriggeredPendingOrders m (sc_orders s) e3) \<and> books UNIV (en_db e3) (en_db (fillTriggeredPendingOrders m (sc_orders s) e3))"
    unfolding fillTriggeredPendingOrders_def
    by (intro runs_orders [where idf = pe_id]) (use so r(1) runs_fill_candidate in \<open>auto simp: scan_ok_def\<close>)
  have end3: "engine_ok acct e4 \<and> books UNIV (en_db e) (en_db e4)"
    if "e4 = (if sc_orders s = [] then e3 else fillTriggeredPendingOrders m (sc_orders s) e3)" for e4
    using that f r books_trans [OF books_mono [OF r(2)]] books_mono [OF r(2)] by auto
  show "engine_ok acct (snd (runTick m changed e)) \<and> books UNIV (en_db e) (en_db (snd (runTick m changed e)))"
  proof (cases "sc_touched s = [] \<and> sc_orders s = []")
    case True
    have "runs acct UNIV e (e\<lparr>en_index := sc_index s\<rparr>)" by (rule runs_mono [OF runs_index]) (simp_all add: sh)
    then show ?thesis using True ok by (simp add: runTick_def s_def [symmetric] runs_def)
  next
    case False
    have "snd (runTick m changed e) = (if sc_orders s = [] then e3 else fillTriggeredPendingOrders m (sc_orders s) e3)"
      using False unfolding runTick_def Let_def s_def [symmetric] w_def [symmetric] e1_def [symmetric] e3_def e2_def
      by (auto simp: case_prod_beta)
    from end3 [OF this] show ?thesis .
  qed
qed

section \<open>All sequences of operations\<close>

datatype 'd engine_op =
    SltpPass "'d market"
  | OrdersPass "'d market"
  | EquityPass "'d market" "peak_update list \<Rightarrow> peak_update" bool
  | Tick "('d market \<times> string list) list" "string list"
  | FlushPeaks "peak_update list \<Rightarrow> peak_update" "dirty_peak jsmap"
  | ClockTo int

fun engine_step :: "'d engine_op \<Rightarrow> engine \<Rightarrow> engine" where
  "engine_step (SltpPass m) e = checkSLTP m e"
| "engine_step (OrdersPass m) e = checkPendingOrders m e"
| "engine_step (EquityPass m pick healthy) e = checkFloatingDrawdown m pick healthy e"
| "engine_step (Tick ms changed) e = snd (onPriceTick ms changed e)"
| "engine_step (FlushPeaks pick during) e = snd (flushDirtyPeaks pick during e)"
| "engine_step (ClockTo t) e = e\<lparr>en_db := (en_db e)\<lparr>now := t\<rparr>\<rparr>"

definition engine_run :: "'d engine_op list \<Rightarrow> engine \<Rightarrow> engine" where
  "engine_run ops e = fold engine_step ops e"

text \<open>The decimals are those of the package, and a tick names each instrument once.\<close>

fun sound_op :: "('d \<Rightarrow> rat) \<Rightarrow> 'd engine_op \<Rightarrow> bool" where
  "sound_op v (SltpPass m) = sum_laws (mt_arith m) v"
| "sound_op v (OrdersPass m) = sum_laws (mt_arith m) v"
| "sound_op v (EquityPass m pick healthy) = sum_laws (mt_arith m) v"
| "sound_op v (Tick ms changed) = ((\<forall>x\<in>set ms. sum_laws (mt_arith (fst x)) v) \<and> distinct changed)"
| "sound_op v _ = True"

lemma runs_onPriceTick:
  assumes "\<forall>x\<in>set ms. sum_laws (mt_arith (fst x)) v" "distinct changed"
  shows "runs acct UNIV e (snd (onPriceTick ms changed e))"
proof -
  have "runs acct UNIV e (snd (tick_loop ms changed e))" if "distinct changed" for changed e
    using assms(1) that
  proof (induction ms changed e rule: tick_loop.induct)
    case (2 m arrived later instruments e)
    obtain r e' where r: "runTick m instruments e = (r, e')" by (cases "runTick m instruments e")
    have 1: "runs acct UNIV e e'" using runs_runTick [of m v instruments acct e] 2(2,3) r by simp
    show ?case
    proof (cases "arrived = []")
      case False
      have "runs acct UNIV e' (snd (tick_loop later (remdups arrived) e'))" using 2(1) [OF r [symmetric] False] 2(2) by simp
      then show ?thesis using runs_trans [OF 1] False by (simp add: r)
    qed (simp add: r 1)
  qed simp
  then show ?thesis using assms(2) by (simp add: onPriceTick_def)
qed

lemma runs_clock: "runs acct {} e (e\<lparr>en_db := (en_db e)\<lparr>now := t\<rparr>\<rparr>)"
  by (rule runs_step) (simp_all add: books_accounts [where f = "\<lambda>a. a"] get_account_def)

lemma runs_engine_step:
  assumes "sound_op v x"
  shows "runs acct UNIV e (engine_step x e)"
proof (cases x)
  case (Tick ms changed)
  then show ?thesis using runs_onPriceTick [of ms v changed] assms by simp
next
  case (SltpPass m)
  then show ?thesis using runs_mono [OF runs_checkSLTP [of m v]] assms by simp
next
  case (EquityPass m pick healthy)
  then show ?thesis using runs_mono [OF runs_checkFloating [of m v]] assms by simp
qed (use runs_flushDirtyPeaks runs_clock runs_checkPendingOrders runs_mono [OF _ empty_subsetI] in \<open>auto\<close>)

lemma runs_engine: "list_all (sound_op v) ops \<Longrightarrow> runs acct UNIV e (engine_run ops e)"
  unfolding engine_run_def by (rule runs_fold) (auto simp: list_all_iff intro: runs_engine_step)

text \<open>C29. The engine keeps the books: whatever sequence of its passes, ticks and flushes runs, on whatever quotes, from a
  state whose index and rows agree, the balance of every account moves by exactly what the trades closed on it
  have booked. Its difference from starting balance, realised results and ledger stays what it was.\<close>

theorem engine_keeps_the_books:
  assumes "list_all (sound_op v) ops" "engine_ok acct e"
  shows "residue i (en_db (engine_run ops e)) = residue i (en_db e)"
  using runs_engine [OF assms(1), of acct e] assms(2) by (simp add: runs_def moves_def option.map_ident)

text \<open>C30. Over any sequence of its operations the engine lets a trade only go on in its life: a closed trade never changes
  again, a cancelled one stays cancelled, an open trade is closed or left open, an order is filled or cancelled or left
  pending; no trade appears or disappears, or changes its account, instrument, direction or lots.\<close>

theorem trades_go_on_in_their_lives:
  assumes "list_all (sound_op v) ops" "engine_ok acct e"
  shows "list_all2 lifecycle (trades (en_db e)) (trades (en_db (engine_run ops e)))"
proof -
  have "list_all2 (row_ahead UNIV) (trades (en_db e)) (trades (en_db (engine_run ops e)))"
    using runs_engine [OF assms(1), of acct e] assms(2) by (simp add: runs_def moves_def)
  then show ?thesis by (rule list_all2_mono) (simp add: row_ahead_def)
qed

section \<open>A concrete engine\<close>

definition exact_new :: "jsval \<Rightarrow> rat option" where
  "exact_new x = (if decimal_text x then Some (dval x) else None)"

definition exact_cents :: "rat \<Rightarrow> rat" where
  "exact_cents a = of_int (to_cents a) / 100"

fun exact_from :: "num \<Rightarrow> rat" where
  "exact_from (Fin q) = dec_of q"
| "exact_from _ = 0"

definition exact_negative :: "rat \<Rightarrow> bool" where
  "exact_negative x \<longleftrightarrow> x < 0"

definition exact_arith :: "rat engine_arith" where
  "exact_arith =
     \<lparr>da_new = exact_new, da_minus = (-), da_times = (*), da_cents = exact_cents, da_num = mk, da_from = exact_from,
      da_plus = (+), da_div = (/), da_abs = abs, da_le = (\<le>), da_negative = exact_negative\<rparr>"

lemma exact_sums: "sum_laws exact_arith (\<lambda>x. x)"
  by (simp add: sum_laws_def exact_arith_def exact_cents_def add_divide_distrib)

definition stopped_trade :: trade where
  "stopped_trade =
     \<lparr>trade_id = ''t1'', trade_account = Some ''a1'', trade_status = Some ''open'', demo_pnl = None, trade_instrument = ''EURUSD'',
      trade_direction = ''buy'', trade_lots = 1, trade_open_price = Some 2, trade_close_price = None, trade_open_time = Some 0,
      trade_close_time = None, trade_sl = Some (3/2), trade_tp = None, trade_order_type = None, trade_pending_price = None,
      trade_reason = None, trade_commission = None, trade_oco = None, trade_deferred_price = None, trade_deferred_reason = None,
      trade_deferred_at = None, trade_original_commission = None, trade_parent = None, trade_partial = False, trade_slippage = None\<rparr>"

definition demo_market :: "rat market" where
  "demo_market =
     \<lparr>mt_arith = exact_arith, mt_env = (\<lambda>_. None),
      mt_cache = \<lparr>pc_prices = [(''EURUSD'', Some \<lparr>q_bid = Fin 1, q_ask = Fin 1\<rparr>)], pc_updated_at = 100000, pc_changed = []\<rparr>,
      mt_time = 100000, mt_tenant = (\<lambda>_. None), mt_rules = DEFAULT_TRADING_RULES, mt_models = (\<lambda>_. None)\<rparr>"

definition demo_engine :: engine where
  "demo_engine =
     \<lparr>en_db = demo_db\<lparr>trades := [stopped_trade]\<rparr>,
      en_index = (snd (addTrade 0 (Some (index_trade_row stopped_trade)) None index_reset))\<lparr>ix_reconciled_at := 1, ix_ready := True\<rparr>,
      en_dirty = [], en_events = []\<rparr>"

lemma demo_engine_ok: "engine_ok (\<lambda>_. ''a1'') demo_engine"
proof -
  have "index_ok (\<lambda>_. ''a1'') (en_index demo_engine)"
    unfolding demo_engine_def engine.simps
    by (intro index_ok_flags index_ok_addTrade_Some index_ok_empty) (simp add: index_trade_row_def stopped_trade_def)
  moreover have "pending_ids (en_index demo_engine) = {}"
  proof -
    have "ix_pending (en_index demo_engine) = []"
      by (simp add: demo_engine_def addTrade_def index_trade_row_def stopped_trade_def Let_def index_reset_def upd_account_def)
    then show ?thesis by (simp add: pending_ids_def)
  qed
  moreover have "ready (\<lambda>_. ''a1'') (en_db demo_engine)"
    by (auto simp: ready_def rows_of_def balances_ok_def demo_engine_def stopped_trade_def get_account_def find_by_def demo_db_def demo_account_def
        cents_ok_def split: if_splits)
  ultimately show ?thesis by (simp add: engine_ok_def waiting_def)
qed

definition demo_ops :: "rat engine_op list" where
  "demo_ops = [Tick [(demo_market, [])] [''EURUSD''], SltpPass demo_market]"

lemma demo_ops_sound: "list_all (sound_op (\<lambda>x. x)) demo_ops"
  by (simp add: demo_ops_def demo_market_def exact_sums)

lemma demo_run:
  "map (\<lambda>r. (trade_status r, demo_pnl r)) (trades (en_db (engine_run demo_ops demo_engine))) = [(Some ''closed'', Some (- 10000000))]"
  by code_simp

theorem engine_keeps_the_books_witness:
  "residue ''a1'' (en_db (engine_run demo_ops demo_engine)) = residue ''a1'' (en_db demo_engine) \<and>
   map (\<lambda>r. (trade_status r, demo_pnl r)) (trades (en_db (engine_run demo_ops demo_engine))) = [(Some ''closed'', Some (- 10000000))]"
  using engine_keeps_the_books [OF demo_ops_sound demo_engine_ok] demo_run by simp

theorem trades_go_on_in_their_lives_witness:
  "list_all2 lifecycle (trades (en_db demo_engine)) (trades (en_db (engine_run demo_ops demo_engine))) \<and>
   trades (en_db (engine_run demo_ops demo_engine)) \<noteq> trades (en_db demo_engine)"
proof
  show "list_all2 lifecycle (trades (en_db demo_engine)) (trades (en_db (engine_run demo_ops demo_engine)))"
    by (rule trades_go_on_in_their_lives [OF demo_ops_sound demo_engine_ok])
  have "map (\<lambda>r. (trade_status r, demo_pnl r)) (trades (en_db demo_engine)) = [(Some ''open'', None)]"
    by (simp add: demo_engine_def stopped_trade_def)
  then show "trades (en_db (engine_run demo_ops demo_engine)) \<noteq> trades (en_db demo_engine)" using demo_run by auto
qed

end
