(* ===== verification/ChallengeBooks.thy ===== *)
theory ChallengeBooks
  imports ChallengeSweep EngineTicks
begin

text \<open>
  Ending an account in the sweep: failing one is all or nothing and leaves no position behind, expiring one
  leaves open at most the trades it cannot value, and both keep the books.
\<close>

section \<open>Closing one row\<close>

definition closed_in :: "db \<Rightarrow> string \<Rightarrow> bool" where
  "closed_in t i \<longleftrightarrow> (\<exists>y\<in>set (trades t). trade_id y = i \<and> trade_status y = Some ''closed'')"

lemma ahead_row: "moves F G t u \<Longrightarrow> y \<in> set (trades t) \<Longrightarrow> \<exists>z\<in>set (trades u). row_ahead F y z"
  unfolding moves_def by (metis list_all2_conv_all_nth in_set_conv_nth)

lemma behind_row:
  assumes "moves F G t u" "z \<in> set (trades u)"
  shows "\<exists>y\<in>set (trades t). row_ahead F y z"
proof -
  have r: "list_all2 (row_ahead F) (trades t) (trades u)" using assms(1) by (simp add: moves_def)
  obtain n where "n < length (trades u)" "z = trades u ! n" using assms(2) by (metis in_set_conv_nth)
  then show ?thesis using r by (auto simp: list_all2_conv_all_nth intro!: bexI [of _ "trades t ! n"])
qed

lemma ahead_closed: "row_ahead F y z \<Longrightarrow> trade_status y = Some ''closed'' \<Longrightarrow> z = y"
  by (simp add: row_ahead_def lifecycle_def)

lemma closed_stays: "moves F G t u \<Longrightarrow> closed_in t i \<Longrightarrow> closed_in u i"
  unfolding closed_in_def using ahead_row ahead_closed by blast

lemma exit_rows: "exit_stmt i p x reason t = Inr ((), u) \<Longrightarrow> \<exists>g. trades u = update_by trade_id i g (trades t)"
  by (cases "get_trade i t") (auto simp: exit_stmt_def sum_bind_Inr update_by_def intro: exI [of _ "\<lambda>x. x"])

lemma moves_exit:
  assumes st: "exit_stmt i p (mk (of_int k / 100)) reason t = Inr ((), u)" and rows: "rows_of acct t"
    and r: "r \<in> set (trades t)" "trade_id r = i" "trade_status r = Some ''open''"
  shows "moves F (\<lambda>j. - (if acct i = j then k else 0)) t u" "cents_ok k" "accounts u = accounts t"
    "closed_in u i"
proof -
  have found: "get_trade i t = Some r"
  proof -
    obtain y where y: "get_trade i t = Some y" using r unfolding get_trade_def by (metis find_by_None option.exhaust)
    then have "y = r" using row_unique [OF rows] find_by_key r unfolding get_trade_def by metis
    then show ?thesis using y by simp
  qed
  obtain s where s: "exit_row (now t) p (mk (of_int k / 100)) reason r = Inr s" and u: "u = t\<lparr>trades := update_by trade_id i (\<lambda>_. s) (trades t)\<rparr>"
    using st found by (auto simp: exit_stmt_def sum_bind_Inr)
  obtain price q c where q: "bind_num (mk (of_int k / 100)) = Inr q" "numeric15_2 q = Inr c"
    and s': "s = r\<lparr>trade_status := Some ''closed'', trade_close_price := price, trade_close_time := Some (now t), demo_pnl := Some c, trade_reason := Some reason\<rparr>"
    using s by (auto simp: exit_row_def sum_bind_Inr)
  have c: "closes_at F k r s" using booked_cents [OF q] r(3) by (simp add: closes_at_def row_defs s')
  show "cents_ok k" using c by (simp add: closes_at_def)
  show "accounts u = accounts t" by (simp add: u)
  have "s \<in> set (trades u)" using r by (auto simp: u update_by_def)
  then show "closed_in u i" unfolding closed_in_def
    by (rule rev_bexI) (simp add: s' r(2))
  have trs: "trades u = map (\<lambda>x. if trade_id x = i then s else x) (trades t)" by (simp add: u update_by_def)
  have gain: "list_all2 (\<lambda>x y. row_ahead F x y \<and> (\<forall>j. row_gain j y = row_gain j x + (if trade_id x \<in> {i} then (if acct i = j then k else 0) else 0)))
      (trades t) (trades u)"
    unfolding trs list_all2_map2
  proof (rule list.rel_refl_strong)
    fix x assume x: "x \<in> set (trades t)"
    show "row_ahead F x (if trade_id x = i then s else x) \<and> (\<forall>j. row_gain j (if trade_id x = i then s else x) =
        row_gain j x + (if trade_id x \<in> {i} then (if acct i = j then k else 0) else 0))"
    proof (cases "trade_id x = i")
      case True
      then have "x = r" using row_unique [OF rows x r(1)] r(2) by simp
      moreover have "trade_account r = Some (acct i)" using rows r by (auto simp: rows_of_def)
      ultimately show ?thesis using c r(2,3) by (auto simp: closes_at_def row_gain_def s')
    qed simp
  qed
  have "moves F (\<lambda>j. - sum_list (map ((\<lambda>j x. if trade_id x \<in> {i} then (if acct i = j then k else 0) else 0) j) (trades t))) t u"
    by (rule moves_rows [OF gain]) (simp_all add: u)
  then show "moves F (\<lambda>j. - (if acct i = j then k else 0)) t u"
  proof (rule moves_eq)
    fix j
    have "distinct (map trade_id (trades t))" "{i} \<subseteq> trade_id ` set (trades t)" using rows r by (auto simp: rows_of_def)
    from sum_over_rows [OF this, of "\<lambda>_. if acct i = j then k else 0"]
    show "- sum_list (map (\<lambda>x. if trade_id x \<in> {i} then (if acct i = j then k else 0) else 0) (trades t)) = - (if acct i = j then k else 0)" by simp
  qed
qed

section \<open>The loop over the open trades\<close>

text \<open>What one step of the loop may do: close its trade at \<open>k\<close> cents and add them, or leave it.\<close>

definition step_effect :: "'d engine_arith \<Rightarrow> (trade \<Rightarrow> bool) \<Rightarrow> string \<Rightarrow> (trade \<Rightarrow> 'd \<Rightarrow> (db, 'd) tx) \<Rightarrow> bool" where
  "step_effect D leave reason f \<longleftrightarrow>
     (\<forall>r d. framed (f r d)) \<and>
     (\<forall>r d c d' c1. in_tx c \<longrightarrow> f r d c = (Inr d', c1) \<longrightarrow> \<not> aborted c1 \<longrightarrow> \<not> aborted c \<and>
       ((tabs c1 = tabs c \<and> d' = d \<and> leave r) \<or>
        (\<exists>p k. exit_stmt (trade_id r) p (mk (of_int k / 100)) reason (tabs c) = Inr ((), tabs c1) \<and>
           (d' = da_plus D d (da_from D (mk (of_int k / 100))) \<or> (k = 0 \<and> d' = d)))))"

lemma step_framed: "step_effect D leave reason f \<Longrightarrow> framed (f r d)"
  by (simp add: step_effect_def)

lemma step_effectD:
  assumes "step_effect D leave reason f" "in_tx c" "f r d c = (Inr d', c1)" "\<not> aborted c1"
  shows "\<not> aborted c" "(tabs c1 = tabs c \<and> d' = d \<and> leave r) \<or>
     (\<exists>p k. exit_stmt (trade_id r) p (mk (of_int k / 100)) reason (tabs c) = Inr ((), tabs c1) \<and>
        (d' = da_plus D d (da_from D (mk (of_int k / 100))) \<or> (k = 0 \<and> d' = d)))"
  using assms unfolding step_effect_def by blast+

lemma framed_each_trade: "(\<And>r d. framed (f r d)) \<Longrightarrow> framed (each_trade f rows d)"
  by (induction rows arbitrary: d) (auto intro!: framed_bind framed_return)

lemma each_trade_abort:
  assumes f: "step_effect D leave reason f"
  shows "each_trade f rows d c = (Inr d', c1) \<Longrightarrow> \<not> aborted c1 \<Longrightarrow> in_tx c \<Longrightarrow> \<not> aborted c"
proof (induction rows arbitrary: d c)
  case (Cons y ys)
  then obtain e2 x2 where x: "f y d c = (Inr e2, x2)" "each_trade f ys e2 x2 = (Inr d', c1)" by (auto elim: tx_bind_Inr_E)
  have "in_tx x2" using framedD [OF step_framed [OF f] x(1)] Cons.prems(3) by simp
  then show ?case using Cons.IH [OF x(2) Cons.prems(2)] step_effectD(1) [OF f Cons.prems(3) x(1)] by blast
qed (simp add: tx_return_app)

lemma each_trade_effect:
  assumes f: "step_effect D leave reason f" and l: "sum_laws D v"
    and run: "each_trade f rows d c = (Inr d', c1)" "\<not> aborted c1" "in_tx c"
    and rows: "rows_of acct (tabs c)" "distinct (map trade_id rows)"
    and opens: "\<And>r. r \<in> set rows \<Longrightarrow> r \<in> set (trades (tabs c)) \<and> trade_status r = Some ''open'' \<and> acct (trade_id r) = i"
    and d: "v d = of_int s / 100" "\<bar>s\<bar> \<le> int n * 10 ^ 15" "n + length rows \<le> 100000"
  shows "\<not> aborted c \<and> (\<exists>K. moves F (\<lambda>j. - (if j = i then K else 0)) (tabs c) (tabs c1) \<and> v d' = of_int (s + K) / 100 \<and>
    accounts (tabs c1) = accounts (tabs c) \<and>
    (\<forall>r\<in>set rows. leave r \<or> closed_in (tabs c1) (trade_id r)))"
  using run rows opens d
proof (induction rows arbitrary: d c s n)
  case Nil
  then show ?case by (auto simp: tx_return_app intro!: exI [of _ 0])
next
  case (Cons r rs)
  obtain d1 c2 where one: "f r d c = (Inr d1, c2)" and rest: "each_trade f rs d1 c2 = (Inr d', c1)"
    using Cons.prems(1) by (auto elim: tx_bind_Inr_E)
  have o: "r \<in> set (trades (tabs c))" "trade_status r = Some ''open''" "acct (trade_id r) = i" using Cons.prems(6) [of r] by auto
  have tx: "in_tx c2" using framedD [OF step_framed [OF f] one] Cons.prems(3) by simp
  have na: "\<not> aborted c2" by (rule each_trade_abort [OF f rest Cons.prems(2) tx])
  note st = step_effectD [OF f Cons.prems(3) one na]
  have "\<exists>k. moves F (\<lambda>j. - (if j = i then k else 0)) (tabs c) (tabs c2) \<and> v d1 = of_int (s + k) / 100 \<and> \<bar>s + k\<bar> \<le> int (Suc n) * 10 ^ 15 \<and>
      accounts (tabs c2) = accounts (tabs c) \<and>
      (leave r \<or> closed_in (tabs c2) (trade_id r)) \<and>
      (\<forall>x\<in>set rs. x \<in> set (trades (tabs c2)))"
  proof (cases "tabs c2 = tabs c \<and> d1 = d \<and> leave r")
    case True
    then show ?thesis using Cons.prems(6-8) by (intro exI [of _ 0]) auto
  next
    case False
    then obtain p k where ex: "exit_stmt (trade_id r) p (mk (of_int k / 100)) reason (tabs c) = Inr ((), tabs c2)"
      and dk: "d1 = da_plus D d (da_from D (mk (of_int k / 100))) \<or> (k = 0 \<and> d1 = d)" using st(2) by blast
    note mv = moves_exit [OF ex Cons.prems(4) o(1) refl o(2)]
    have b: "\<bar>s + k\<bar> \<le> int (Suc n) * 10 ^ 15" using mv(2) Cons.prems(8) by (auto simp: cents_ok_def algebra_simps)
    have "int (Suc n) * 10 ^ 15 \<le> 100000 * 10 ^ 15" using Cons.prems(9) by (intro mult_right_mono) auto
    then have big: "\<bar>s + k\<bar> \<le> 10 ^ 20" using b by simp
    have "v d1 = of_int (s + k) / 100"
      using dk sum_lawsD(4) [OF l Cons.prems(7) from_cents [OF l mv(2)] big] Cons.prems(7) by auto
    moreover have "\<forall>x\<in>set rs. x \<in> set (trades (tabs c2))"
    proof
      fix x assume x: "x \<in> set rs"
      have "trade_id x \<noteq> trade_id r" using Cons.prems(5) x by (metis distinct.simps(2) list.simps(9) image_eqI set_map)
      moreover have "x \<in> set (trades (tabs c))" using Cons.prems(6) [of x] x by simp
      moreover obtain g where "trades (tabs c2) = update_by trade_id (trade_id r) g (trades (tabs c))" using exit_rows [OF ex] by blast
      ultimately show "x \<in> set (trades (tabs c2))" unfolding update_by_def by (auto simp: image_iff intro!: bexI [of _ x])
    qed
    moreover have "moves F (\<lambda>j. - (if j = i then k else 0)) (tabs c) (tabs c2)" by (rule moves_eq [OF mv(1)]) (use o(3) in auto)
    ultimately show ?thesis using mv(3,4) b by (intro exI [of _ k] conjI disjI2)
  qed
  then obtain k where k: "moves F (\<lambda>j. - (if j = i then k else 0)) (tabs c) (tabs c2)" "v d1 = of_int (s + k) / 100"
    "\<bar>s + k\<bar> \<le> int (Suc n) * 10 ^ 15" "accounts (tabs c2) = accounts (tabs c)"
    "leave r \<or> closed_in (tabs c2) (trade_id r)"
    "\<forall>x\<in>set rs. x \<in> set (trades (tabs c2))" by blast
  have r2: "rows_of acct (tabs c2)" by (rule rows_of_moves [OF k(1) Cons.prems(4)])
  have ds: "distinct (map trade_id rs)" "Suc n + length rs \<le> 100000" using Cons.prems(5,9) by simp_all
  have os: "x \<in> set rs \<Longrightarrow> x \<in> set (trades (tabs c2)) \<and> trade_status x = Some ''open'' \<and> acct (trade_id x) = i" for x
    using Cons.prems(6) [of x] k(6) by simp
  obtain K where K: "moves F (\<lambda>j. - (if j = i then K else 0)) (tabs c2) (tabs c1)" "v d' = of_int (s + k + K) / 100"
    "accounts (tabs c1) = accounts (tabs c2)"
    "\<forall>r\<in>set rs. leave r \<or> closed_in (tabs c1) (trade_id r)"
    using Cons.IH [OF rest Cons.prems(2) tx r2 ds(1) os k(2,3) ds(2)] by blast
  note keep = closed_stays [OF K(1), where i = "trade_id r"]
  have "moves F (\<lambda>j. - (if j = i then k + K else 0)) (tabs c) (tabs c1)"
    using moves_trans [OF k(1) K(1)] by (rule moves_eq) simp
  then show ?case using K(2-4) k(4,5) keep st(1) by (intro conjI exI [of _ "k + K"]) (auto simp: add.assoc)
qed

section \<open>The steps\<close>

lemma row_pnl_truncate: "sum_laws (mt_arith m) v \<Longrightarrow> row_pnl (market.truncate m) r p None = Inr x \<Longrightarrow> \<exists>k. x = mk (of_int k / 100)"
  by (rule row_pnl_cents [of "market.truncate m" v]) (simp add: market.truncate_def)

lemma zero_cents: "Fin 0 = mk (of_int 0 / 100)"
  by (simp add: mk_small)

text \<open>A trade that cannot be valued: there is a quote for it, but no conversion rate.\<close>

definition unvalued :: "'d sweep_market \<Rightarrow> trade \<Rightarrow> bool" where
  "unvalued m r \<longleftrightarrow>
     (\<exists>q e. mt_tenant m (trade_instrument r) = Some q \<and> row_pnl (market.truncate m) r (market_side r q) None = Inl e)"

lemma step_fail:
  assumes l: "sum_laws (mt_arith m) v"
  shows "step_effect (mt_arith m) (\<lambda>_. False) reason (fail_trade m reason)"
  unfolding step_effect_def
proof (intro conjI allI impI)
  show "framed (fail_trade m reason r d)" for r d
    unfolding fail_trade_def by (intro framed_catch) (auto intro!: tx_frames split: option.split sum.split)
  fix r d c d' c1 assume run: "fail_trade m reason r d c = (Inr d', c1)"
  have "\<not> aborted c \<and> (tabs c1 = tabs c \<and> d' = d \<and> False \<or>
    (\<exists>p k. exit_stmt (trade_id r) p (mk (of_int k / 100)) reason (tabs c) = Inr ((), tabs c1) \<and>
       (d' = da_plus (mt_arith m) d (da_from (mt_arith m) (mk (of_int k / 100))) \<or> k = 0 \<and> d' = d)))"
  proof (cases "mt_tenant m (trade_instrument r)")
    case None
    then have "\<not> aborted c \<and> exit_stmt (trade_id r) AtOpen (mk (of_int 0 / 100)) reason (tabs c) = Inr ((), tabs c1) \<and> d' = d"
      using run unfolding zero_cents [symmetric]
      by (auto simp: fail_trade_def tx_catch_def tx_throw_app query_Inr tx_return_app elim!: tx_bind_Inr_E split: sum.splits prod.splits)
    then show ?thesis by blast
  next
    case (Some q)
    then obtain x where x: "row_pnl (market.truncate m) r (market_side r q) None = Inr x"
      and e: "\<not> aborted c" "exit_stmt (trade_id r) (AtQuote (market_side r q)) x reason (tabs c) = Inr ((), tabs c1)"
        "d' = da_plus (mt_arith m) d (da_from (mt_arith m) x)"
      using run by (auto simp: fail_trade_def tx_catch_def tx_throw_app query_Inr tx_return_app elim!: tx_bind_Inr_E split: sum.splits prod.splits)
    then show ?thesis using row_pnl_truncate [OF l x] by blast
  qed
  then show "\<not> aborted c" "(tabs c1 = tabs c \<and> d' = d \<and> False) \<or>
    (\<exists>p k. exit_stmt (trade_id r) p (mk (of_int k / 100)) reason (tabs c) = Inr ((), tabs c1) \<and>
       (d' = da_plus (mt_arith m) d (da_from (mt_arith m) (mk (of_int k / 100))) \<or> k = 0 \<and> d' = d))" by blast+
qed

lemma caught_query: "tx_catch (query f) (\<lambda>_. tx_return ()) c = (Inr (), c1) \<Longrightarrow> \<not> aborted c1 \<Longrightarrow> in_tx c \<Longrightarrow> \<not> aborted c \<and> f (tabs c) = Inr ((), tabs c1)"
  by (auto simp: tx_catch_def query_def tx_return_app split: if_splits sum.splits)

lemma step_expire:
  assumes l: "sum_laws (mt_arith m) v"
  shows "step_effect (mt_arith m) (unvalued m) ''Account Expired'' (expire_trade m)"
  unfolding step_effect_def
proof (intro conjI allI impI)
  show "framed (expire_trade m r d)" for r d
    unfolding expire_trade_def by (auto intro!: tx_frames split: option.split sum.split)
  fix r d c d' c1 assume run: "in_tx c" "expire_trade m r d c = (Inr d', c1)" "\<not> aborted c1"
  have "(tabs c1 = tabs c \<and> c1 = c \<and> d' = d \<and> unvalued m r) \<or> \<not> aborted c \<and>
    (\<exists>p k. exit_stmt (trade_id r) p (mk (of_int k / 100)) ''Account Expired'' (tabs c) = Inr ((), tabs c1) \<and>
       (d' = da_plus (mt_arith m) d (da_from (mt_arith m) (mk (of_int k / 100))) \<or> k = 0 \<and> d' = d))"
  proof (cases "mt_tenant m (trade_instrument r)")
    case None
    then have "tx_catch (query (exit_stmt (trade_id r) AsBefore (Fin 0) ''Account Expired'')) (\<lambda>_. tx_return ()) c = (Inr (), c1)" "d' = d"
      using run(2) by (auto simp: expire_trade_def tx_return_app elim!: tx_bind_Inr_E)
    then show ?thesis using caught_query [OF _ run(3,1)] zero_cents by metis
  next
    case (Some q)
    show ?thesis
    proof (cases "row_pnl (market.truncate m) r (market_side r q) None")
      case (Inl x)
      then have "unvalued m r" "c1 = c" "d' = d" using run(2) Some by (auto simp: unvalued_def expire_trade_def tx_return_app)
      then show ?thesis by blast
    next
      case (Inr x)
      then have "tx_catch (query (exit_stmt (trade_id r) (AtQuote (market_side r q)) x ''Account Expired'')) (\<lambda>_. tx_return ()) c = (Inr (), c1)"
        "d' = da_plus (mt_arith m) d (da_from (mt_arith m) x)"
        using run(2) Some by (auto simp: expire_trade_def tx_return_app elim!: tx_bind_Inr_E)
      then show ?thesis using caught_query [OF _ run(3,1)] row_pnl_truncate [OF l Inr] by metis
    qed
  qed
  then show "\<not> aborted c" "(tabs c1 = tabs c \<and> d' = d \<and> unvalued m r) \<or>
    (\<exists>p k. exit_stmt (trade_id r) p (mk (of_int k / 100)) ''Account Expired'' (tabs c) = Inr ((), tabs c1) \<and>
       (d' = da_plus (mt_arith m) d (da_from (mt_arith m) (mk (of_int k / 100))) \<or> k = 0 \<and> d' = d))" using run(3) by blast+
qed

section \<open>The bodies\<close>

lemma moves_credit_total:
  assumes cr: "credit_total m i d c = (Inr (), c1)" and l: "sum_laws (mt_arith m) v" and d: "v d = of_int k / 100" and ok: "balances_ok (tabs c)"
  shows "moves F (\<lambda>j. if j = i then k else 0) (tabs c) (tabs c1)"
proof -
  have k: "da_num (mt_arith m) (da_cents (mt_arith m) d) = mk (of_int k / 100)" by (simp only: sum_lawsD(1,2) [OF l] d to_cents_exact)
  show ?thesis
  proof (cases "mk (of_int k / 100) = Fin 0")
    case True
    then have "(\<lambda>j. if j = i then k else 0) = (\<lambda>_. 0)" using mk_cents_0 by auto
    moreover have "c1 = c" using cr by (simp add: credit_total_def Let_def k True tx_return_app)
    ultimately show ?thesis by simp
  next
    case False
    then obtain ra where "credit_stmt i (mk (of_int k / 100)) (tabs c) = Inr (ra, tabs c1)"
      using cr by (auto simp: credit_total_def Let_def k query_Inr tx_return_app elim!: tx_bind_Inr_E)
    then show ?thesis using moves_credit ok by blast
  qed
qed

text \<open>What is left of the positions of an account: at most open trades the loop may leave.\<close>

definition left_open :: "string \<Rightarrow> (trade \<Rightarrow> bool) \<Rightarrow> db \<Rightarrow> db \<Rightarrow> bool" where
  "left_open i leave t u \<longleftrightarrow>
     (\<forall>r\<in>set (trades u). trade_account r = Some i \<longrightarrow> trade_status r \<noteq> Some ''pending'' \<and>
        (trade_status r = Some ''open'' \<longrightarrow> (\<exists>y\<in>set (open_trades_of i t). trade_id y = trade_id r \<and> leave y)))"

definition status_of :: "string \<Rightarrow> db \<Rightarrow> string option option" where
  "status_of i t = map_option acc_status (get_account i t)"

lemma credit_total_status: "credit_total m i d c = (Inr (), c1) \<Longrightarrow> status_of j (tabs c1) = status_of j (tabs c)"
proof -
  have k: "keeps_acc_id (\<lambda>r. r\<lparr>current_balance := x, peak_balance := p\<rparr>)" for x p by auto
  have "credit_stmt i y t = Inr (ra, u) \<Longrightarrow> status_of j u = status_of j t" for y t ra u
    by (auto simp: credit_stmt_def Let_def status_of_def acct.lookup_modify [OF k] split: option.splits sum.splits)
  then show "credit_total m i d c = (Inr (), c1) \<Longrightarrow> ?thesis"
    by (auto simp: credit_total_def Let_def query_Inr tx_return_app elim!: tx_bind_Inr_E split: if_splits)
qed

lemma ending_effect:
  assumes f: "step_effect (mt_arith m) leave reason f" and l: "sum_laws (mt_arith m) v" and ok: "ready acct (tabs c)" and tx: "in_tx c"
    and run: "each_trade f (open_trades_of i (tabs c)) (da_from (mt_arith m) (Fin 0)) c = (Inr d, c1)"
      "credit_total m i d c1 = (Inr (), c2)" "cancel_pending i reason' c2 = (Inr ids, c3)"
  shows "books {} (tabs c) (tabs c3) \<and> status_of j (tabs c3) = status_of j (tabs c) \<and> left_open i leave (tabs c) (tabs c3)"
proof -
  let ?D = "mt_arith m"
  have cn: "cancel_stmt (\<lambda>r. trade_account r = Some i \<and> trade_status r = Some ''pending'') reason' (tabs c2) = Inr (ids, tabs c3)" "\<not> aborted c2"
    using run(3) by (auto simp: cancel_pending_def query_Inr)
  have na: "\<not> aborted c1"
    using run(2) cn(2) by (auto simp: credit_total_def Let_def query_Inr tx_return_app elim!: tx_bind_Inr_E split: if_splits)
  note o = open_rows [OF ok, where i = i]
  have opens: "r \<in> set (trades (tabs c)) \<and> trade_status r = Some ''open'' \<and> acct (trade_id r) = i" if "r \<in> set (open_trades_of i (tabs c))" for r
    using that o(4) by (auto simp: open_trades_of_def)
  have rows: "rows_of acct (tabs c)" using ok by (simp add: ready_def)
  have z: "v (da_from ?D (Fin 0)) = of_int 0 / 100" using sum_lawsD(3) [OF l] by (simp add: dec_of_def)
  from each_trade_effect [OF f l run(1) na tx rows o(1) opens z, of 0 "{}"] o(2)
  obtain K where K: "moves {} (\<lambda>j. - (if j = i then K else 0)) (tabs c) (tabs c1)" "v d = of_int K / 100"
    "\<forall>r\<in>set (open_trades_of i (tabs c)). leave r \<or> closed_in (tabs c1) (trade_id r)" "accounts (tabs c1) = accounts (tabs c)" by auto
  have ok1: "ready acct (tabs c1)" by (rule ready_moves [OF K(1) ok])
  have m2: "moves {} (\<lambda>j. if j = i then K else 0) (tabs c1) (tabs c2)"
    by (rule moves_credit_total [OF run(2) l K(2)]) (use ok1 in \<open>simp add: ready_def\<close>)
  have b2: "books {} (tabs c) (tabs c2)" by (rule moves_eq [OF moves_trans [OF K(1) m2]]) simp
  have "books {} (tabs c2) (tabs c3)" by (rule books_cancel [OF cn(1)]) auto
  then have b3: "books {} (tabs c) (tabs c3)" using b2 books_trans by blast
  have u3: "tabs c3 = (tabs c2)\<lparr>trades := map (\<lambda>r. if trade_account r = Some i \<and> trade_status r = Some ''pending''
      then r\<lparr>trade_status := Some ''cancelled'', trade_close_time := Some (now (tabs c2)), trade_reason := Some reason'\<rparr> else r) (trades (tabs c2))\<rparr>"
    using cn(1) by (auto simp: cancel_stmt_def)
  have t3: "trades (tabs c3) = map (\<lambda>r. if trade_account r = Some i \<and> trade_status r = Some ''pending''
      then r\<lparr>trade_status := Some ''cancelled'', trade_close_time := Some (now (tabs c2)), trade_reason := Some reason'\<rparr> else r) (trades (tabs c2))"
    and a3: "accounts (tabs c3) = accounts (tabs c2)"
    by (simp_all add: u3)
  have rows2: "rows_of acct (tabs c2)" using ready_moves [OF b2 ok] by (simp add: ready_def)
  have "left_open i leave (tabs c) (tabs c3)"
    unfolding left_open_def
  proof (intro ballI impI conjI)
    fix r assume r: "r \<in> set (trades (tabs c3))" "trade_account r = Some i"
    then show "trade_status r \<noteq> Some ''pending''" unfolding t3 by auto
    assume o2: "trade_status r = Some ''open''"
    have r2: "r \<in> set (trades (tabs c2))" using r(1) o2 unfolding t3 by (auto split: if_splits)
    then obtain y where y: "y \<in> set (trades (tabs c))" "row_ahead {} y r" using behind_row [OF b2] by blast
    have yo: "trade_status y = Some ''open''" "trade_account y = Some i" "trade_id y = trade_id r"
      using y(2) o2 r(2) unfolding row_ahead_def lifecycle_def waits_def by auto
    then have yi: "y \<in> set (open_trades_of i (tabs c))" using y(1) by (simp add: open_trades_of_def)
    have "leave y"
    proof (rule ccontr)
      assume "\<not> leave y"
      then have "closed_in (tabs c2) (trade_id r)" using K(3) yi yo(3) closed_stays [OF m2] by auto
      then obtain x where "x \<in> set (trades (tabs c2))" "trade_id x = trade_id r" "trade_status x = Some ''closed''" by (auto simp: closed_in_def)
      moreover from this have "x = r" using row_unique [OF rows2 _ r2] by blast
      ultimately show False using o2 by simp
    qed
    then show "\<exists>y\<in>set (open_trades_of i (tabs c)). trade_id y = trade_id r \<and> leave y" using yi yo(3) by blast
  qed
  moreover have "status_of j (tabs c3) = status_of j (tabs c)"
    using credit_total_status [OF run(2), of j] a3 K(4) by (simp add: status_of_def get_account_def)
  ultimately show ?thesis using b3 by blast
qed

lemma bump_fields [simp]: "trades (bump_day g t) = trades t" "get_account i (bump_day g t) = get_account i t"
  by (simp_all add: get_account_def)

lemma metric_effect: "incrementBbookMetric x c = (Inr (), c1) \<Longrightarrow> \<exists>g. tabs c1 = bump_day g (tabs c)"
  unfolding incrementBbookMetric_def Let_def by (auto simp: query_Inr tx_throw_app split: if_splits)

lemma status_effect:
  assumes "status_stmt_to i st t = Inr ((), u)"
  shows "trades u = trades t" "get_account j u = (if j = i then map_option (\<lambda>a. a\<lparr>acc_status := Some st\<rparr>) (get_account i t) else get_account j t)"
proof -
  have "keeps_acc_id (\<lambda>a. a\<lparr>acc_status := Some st\<rparr>)" by auto
  from acct.lookup_modify [OF this] show "trades u = trades t"
    "get_account j u = (if j = i then map_option (\<lambda>a. a\<lparr>acc_status := Some st\<rparr>) (get_account i t) else get_account j t)"
    using assms by (auto simp: status_stmt_to_def)
qed

lemma swept_effect:
  assumes "swept body s = (r, s')" "framed body"
  obtains (kept) "s' = s" | (ended) x c1 where "r = Some x" "body (begin_tx (pool_conn (sw_db s))) = (Inr (Some x), c1)" "s' = put_db s (tabs c1)"
proof -
  let ?c = "begin_tx (pool_conn (sw_db s))"
  obtain q c1 where b: "body ?c = (q, c1)" by (cases "body ?c")
  have base: "base c1 = sw_db s" using framedD [OF assms(2) b] by (simp add: begin_tx_def pool_conn_def)
  have undo: "put_db s (sw_db s) = s" by (simp add: put_db_def)
  show thesis
  proof (cases "\<exists>x. q = Inr (Some x) \<and> \<not> aborted c1")
    case True
    then obtain x where "q = Inr (Some x)" "\<not> aborted c1" by blast
    then show ?thesis using assms(1) b by (intro ended [of x c1]) (auto simp: swept_def or_rollback_def commit_tx_def)
  next
    case False
    then have "s' = s" using assms(1) b base undo
      by (cases q) (auto simp: swept_def or_rollback_def commit_tx_def rollback_tx_def split: option.splits)
    then show ?thesis by (rule kept)
  qed
qed

lemma framed_sweep_parts [tx_frames]:
  "framed (expire_trade m r d)" "framed (fail_trade m reason r d)" "framed (credit_total m i d)" "framed (cancel_pending i reason)"
  "framed (incrementBbookMetric x)" "framed (getEffectiveDrawdownFloor i a e mx lk)"
  unfolding expire_trade_def fail_trade_def credit_total_def cancel_pending_def incrementBbookMetric_def getEffectiveDrawdownFloor_def Let_def
  by (auto intro!: tx_frames split: option.split sum.split)

lemma framed_recheck [tx_frames]: "framed (recheck m acc b)"
  unfolding recheck_def Let_def by (intro tx_frames)

lemma framed_sweep_bodies: "framed (expire_body m i)" "framed (failing_body m opts i)"
  unfolding expire_body_def failing_body_def by (intro tx_frames framed_each_trade)+

text \<open>
  Row by row: every open trade of the account is closed, or is one that may be left and stays open, and every pending
  order of it is cancelled.
\<close>

definition ended_row :: "string \<Rightarrow> (trade \<Rightarrow> bool) \<Rightarrow> trade \<Rightarrow> trade \<Rightarrow> bool" where
  "ended_row i leave x y \<longleftrightarrow>
     trade_id y = trade_id x \<and> trade_account y = trade_account x \<and>
     (trade_account x = Some i \<longrightarrow> trade_status x = Some ''open'' \<longrightarrow>
        trade_status y = Some ''closed'' \<or> leave x \<and> trade_status y = Some ''open'') \<and>
     (trade_account x = Some i \<longrightarrow> trade_status x = Some ''pending'' \<longrightarrow> trade_status y = Some ''cancelled'')"

definition settled_as :: "string \<Rightarrow> (trade \<Rightarrow> bool) \<Rightarrow> string \<Rightarrow> db \<Rightarrow> db \<Rightarrow> bool" where
  "settled_as st leave i t u \<longleftrightarrow>
     u = t \<or> ((\<exists>a. get_account i u = Some a \<and> acc_status a = Some st) \<and> left_open i leave t u \<and>
       list_all2 (ended_row i leave) (trades t) (trades u))"

lemma rows_ended:
  assumes b: "books {} t u" and ok: "ready acct t" and lo: "left_open i leave t u"
  shows "list_all2 (ended_row i leave) (trades t) (trades u)"
proof -
  have r: "list_all2 (row_ahead {}) (trades t) (trades u)" using b by (simp add: moves_def)
  have rows: "rows_of acct t" using ok by (simp add: ready_def)
  show ?thesis
  proof (rule list.rel_mono_strong [OF r])
    fix x y assume xy: "x \<in> set (trades t)" "y \<in> set (trades u)" "row_ahead {} x y"
    have leave: "leave x" if own: "trade_account x = Some i" "trade_status y = Some ''open''"
    proof -
      have "trade_account y = Some i" "trade_id y = trade_id x" using xy(3) own(1) by (simp_all add: row_defs)
      then obtain z where z: "z \<in> set (open_trades_of i t)" "trade_id z = trade_id x" "leave z"
        using lo xy(2) own(2) unfolding left_open_def by metis
      then have "z = x" using row_unique [OF rows _ xy(1)] by (simp add: open_trades_of_def)
      then show ?thesis using z(3) by simp
    qed
    have "trade_account y = Some i \<Longrightarrow> trade_status y \<noteq> Some ''pending''" using lo xy(2) by (simp add: left_open_def)
    then show "ended_row i leave x y" using xy(3) leave unfolding ended_row_def row_defs by auto
  qed
qed

lemma left_open_trades: "left_open i leave t u \<Longrightarrow> trades u' = trades u \<Longrightarrow> trades t' = trades t \<Longrightarrow> left_open i leave t' u'"
  by (simp add: left_open_def open_trades_of_def)

lemma account_stays: "accounts u = accounts t \<Longrightarrow> get_account i u = get_account i t"
  by (simp add: get_account_def)

lemma confined_recheck: "confined anchors_rise (recheck m acc b)"
  unfolding recheck_def Let_def lift_sum_def
  by (auto intro!: anch.confined_rules confined_getEffective split: sum.split)

text \<open>Both bodies, when they succeed.\<close>

lemma failing_effect:
  assumes run: "failing_body m opts i c = (Inr (Some a), c1)" and l: "sum_laws (mt_arith m) v" and ok: "ready acct (tabs c)" and tx: "in_tx c"
  shows "books {} (tabs c) (tabs c1) \<and> settled_as ''failed'' (\<lambda>_. False) i (tabs c) (tabs c1)"
proof -
  obtain balance c2 d c3 c4 ids c5 t6 c7 where act: "active_account i (tabs c) = Some a"
    and re: "(if fo_skip opts then tx_return True else recheck m a balance) c = (Inr True, c2)"
    and loop: "each_trade (fail_trade m (fo_reason opts)) (open_trades_of i (tabs c2)) (da_from (mt_arith m) (Fin 0)) c2 = (Inr d, c3)"
    and cr: "credit_total m i d c3 = (Inr (), c4)" and ca: "cancel_pending i (fo_reason opts) c4 = (Inr ids, c5)"
    and st: "status_stmt_to i ''failed'' (tabs c5) = Inr ((), t6)" and c7: "c7 = c5\<lparr>tabs := t6\<rparr>"
    and me: "incrementBbookMetric ''accounts_failed'' c7 = (Inr (), c1)"
    using run unfolding failing_body_def
    by (auto simp: select_Inr query_Inr lift_sum_def tx_return_app tx_throw_app elim!: tx_bind_Inr_E split: sum.splits option.splits if_splits)
  have rise: "anchors_rise (tabs c) (tabs c2)" "in_tx c2"
    using re tx confinedD [OF confined_recheck, of m a balance c "Inr True" c2] framedD [OF framed_recheck, of m a balance c "Inr True" c2]
      confinedD [OF anch.confined_return, of True c "Inr True" c2]
    by (auto simp: tx_return_app split: if_splits)
  have b1: "books {} (tabs c) (tabs c2)" by (rule books_anchors [OF rise(1)])
  have ok2: "ready acct (tabs c2)" by (rule ready_moves [OF b1 ok])
  from ending_effect [OF step_fail [OF l] l ok2 rise(2) loop cr ca, of i]
  have e: "books {} (tabs c2) (tabs c5)" "status_of i (tabs c5) = status_of i (tabs c2)" "left_open i (\<lambda>_. False) (tabs c2) (tabs c5)" by auto
  obtain g where g: "tabs c1 = bump_day g t6" using metric_effect [OF me] by (auto simp: c7)
  have b: "books {} (tabs c) (tabs c1)"
    unfolding g by (rule books_trans [OF books_trans [OF b1 e(1)] books_trans [OF books_status [OF st] books_bump]])
  have tr: "trades (tabs c2) = trades (tabs c)" using rise(1) by (auto simp: anchors_rise_def)
  have lo: "left_open i (\<lambda>_. False) (tabs c) (tabs c1)"
    by (rule left_open_trades [OF e(3)]) (simp_all add: g status_effect(1) [OF st] tr)
  have "status_of i (tabs c2) = status_of i (tabs c)" using rise(1) unfolding anchors_rise_def status_of_def
    by (auto simp: anchors_only_def rel_option_iff split: option.splits dest!: spec [of _ i])
  then have "\<exists>b. get_account i (tabs c5) = Some b" using e(2) act by (auto simp: status_of_def active_account_def split: option.splits)
  then have "\<exists>b. get_account i (tabs c1) = Some b \<and> acc_status b = Some ''failed''" by (auto simp: g status_effect(2) [OF st])
  with b lo rows_ended [OF b ok lo] show ?thesis by (simp add: settled_as_def)
qed

lemma expire_effect:
  assumes run: "expire_body m i c = (Inr (Some x), c1)" and l: "sum_laws (mt_arith m) v" and ok: "ready acct (tabs c)" and tx: "in_tx c"
  shows "books {} (tabs c) (tabs c1) \<and> settled_as ''expired'' (unvalued m) i (tabs c) (tabs c1)"
proof -
  obtain a t2 c2 d c3 c4 ids c5 where act: "active_account i (tabs c) = Some a"
    and st: "status_stmt_to i ''expired'' (tabs c) = Inr ((), t2)" and c2: "c2 = c\<lparr>tabs := t2\<rparr>"
    and loop: "each_trade (expire_trade m) (open_trades_of i (tabs c2)) (da_from (mt_arith m) (Fin 0)) c2 = (Inr d, c3)"
    and cr: "credit_total m i d c3 = (Inr (), c4)" and ca: "cancel_pending i ''Account Expired'' c4 = (Inr ids, c5)"
    and me: "incrementBbookMetric ''accounts_expired'' c5 = (Inr (), c1)"
    using run unfolding expire_body_def
    by (auto simp: select_Inr query_Inr tx_return_app elim!: tx_bind_Inr_E split: if_splits)
  have b1: "books {} (tabs c) (tabs c2)" using books_status [OF st] by (simp add: c2)
  have ok2: "ready acct (tabs c2)" by (rule ready_moves [OF b1 ok])
  have tx2: "in_tx c2" using tx by (simp add: c2)
  from ending_effect [OF step_expire [OF l] l ok2 tx2 loop cr ca, of i]
  have e: "books {} (tabs c2) (tabs c5)" "status_of i (tabs c5) = status_of i (tabs c2)" "left_open i (unvalued m) (tabs c2) (tabs c5)" by auto
  obtain g where g: "tabs c1 = bump_day g (tabs c5)" using metric_effect [OF me] by blast
  have b: "books {} (tabs c) (tabs c1)"
    unfolding g by (rule books_trans [OF books_trans [OF b1 e(1)] books_bump])
  have lo: "left_open i (unvalued m) (tabs c) (tabs c1)"
    by (rule left_open_trades [OF e(3)]) (simp_all add: g c2 status_effect(1) [OF st])
  have "status_of i t2 = Some (Some ''expired'')" using act by (auto simp: status_of_def status_effect(2) [OF st] active_account_def split: option.splits)
  then have "\<exists>b. get_account i (tabs c1) = Some b \<and> acc_status b = Some ''expired''" using e(2) by (auto simp: g c2 status_of_def)
  with b lo rows_ended [OF b ok lo] show ?thesis by (simp add: settled_as_def)
qed

section \<open>Property\<close>

lemma logs_main:
  "sw_db (on_logs (recordViolation p) s) = sw_db s" "sw_db (on_logs (recordEnforcementEvent q) s) = sw_db s" "sw_db (sweep_emit m ev s) = sw_db s"
  by (auto simp: on_logs_def recordViolation_def violation_stmt_def Let_def query_def pool_conn_def recordEnforcementEvent_def enforcement_stmt_def
    sweep_emit_def split: option.split)

lemma tx_start: "in_tx (begin_tx c)" "tabs (begin_tx (pool_conn t)) = t"
  by (simp_all add: begin_tx_def pool_conn_def)

lemma put_db_main [simp]: "sw_db (put_db s t) = t"
  by (simp add: put_db_def)

text \<open>C32. Ending an account in the sweep is all or nothing and keeps the books. Either nothing at all has changed, or the
  account has its final status, every pending order of it is cancelled and every open trade of it is closed; an account that expires, and
  only such a one, may keep open the trades that have a quote but no conversion rate to value them. Every balance has moved by exactly
  what the trades closed on its account have booked.\<close>

theorem ended_account_is_settled:
  assumes "sum_laws (mt_arith m) v" "ready acct (sw_db s)"
  shows "residue j (sw_db (failAccount m a reason opts s)) = residue j (sw_db s) \<and>
    settled_as ''failed'' (\<lambda>_. False) (acc_id a) (sw_db s) (sw_db (failAccount m a reason opts s)) \<and>
    residue j (sw_db (expireAccount m a s)) = residue j (sw_db s) \<and>
    settled_as ''expired'' (unvalued m) (acc_id a) (sw_db s) (sw_db (expireAccount m a s))"
proof -
  let ?t = "sw_db s"
  have id: "residue j u = residue j ?t" if "books {} ?t u" for u using that by (simp add: moves_def option.map_ident)
  have same: "settled_as st lv i ?t ?t" for st lv i by (simp add: settled_as_def)
  obtain r s1 where f: "swept (failing_body m opts (acc_id a)) s = (r, s1)" by (cases "swept (failing_body m opts (acc_id a)) s")
  have 1: "books {} ?t (sw_db s1) \<and> settled_as ''failed'' (\<lambda>_. False) (acc_id a) ?t (sw_db s1)"
    using f framed_sweep_bodies(2)
  proof (cases rule: swept_effect)
    case (ended b c1)
    from failing_effect [OF ended(2) assms(1) _ tx_start(1), unfolded tx_start(2), OF assms(2)] show ?thesis unfolding ended(3) put_db_main .
  qed (simp add: same)
  have 2: "sw_db (failAccount m a reason opts s) = sw_db s1" using f by (simp add: failAccount_def logs_main split: option.split)
  obtain q s2 where e: "swept (expire_body m (acc_id a)) s = (q, s2)" by (cases "swept (expire_body m (acc_id a)) s")
  have 3: "books {} ?t (sw_db s2) \<and> settled_as ''expired'' (unvalued m) (acc_id a) ?t (sw_db s2)"
    using e framed_sweep_bodies(1)
  proof (cases rule: swept_effect)
    case (ended b c1)
    from expire_effect [OF ended(2) assms(1) _ tx_start(1), unfolded tx_start(2), OF assms(2)] show ?thesis unfolding ended(3) put_db_main .
  qed (simp add: same)
  have 4: "sw_db (expireAccount m a s) = sw_db s2" using e by (simp add: expireAccount_def logs_main split: option.split)
  show ?thesis unfolding 2 4 using 1 3 id [of "sw_db s1"] id [of "sw_db s2"] by (intro conjI) simp_all
qed

section \<open>A concrete account\<close>

definition quoted_at_one :: "string \<Rightarrow> quote option" where
  "quoted_at_one i = Some \<lparr>q_bid = Fin 1, q_ask = Fin 1\<rparr>"

definition powers :: "num \<Rightarrow> num \<Rightarrow> num" where
  "powers x n = (case (x, n) of (Fin p, Fin q) \<Rightarrow> mk (p ^ nat \<lfloor>q\<rfloor>) | _ \<Rightarrow> NaN)"

definition demo_sweep_market :: "rat sweep_market" where
  "demo_sweep_market = market.extend (demo_market\<lparr>mt_tenant := quoted_at_one\<rparr>) \<lparr>sk_pow = powers, sk_io = True\<rparr>"

definition sweep_of :: "db \<Rightarrow> sweep" where
  "sweep_of t =
     \<lparr>sw_vdb = \<lparr>vd_main = t, vd_violations = [], vd_violation_seq = 0, vd_events = [], vd_event_seq = 0\<rparr>, sw_warned = [], sw_consistency = [],
      sw_days = [], sw_events = []\<rparr>"

definition trading_db :: db where
  "trading_db = demo_db\<lparr>trades := [stopped_trade]\<rparr>"

lemma trading_ready: "ready (\<lambda>_. ''a1'') trading_db"
  using demo_engine_ok by (simp add: engine_ok_def demo_engine_def trading_db_def)

lemma failed_demo:
  "map (\<lambda>r. (trade_status r, demo_pnl r)) (trades (sw_db (failAccount demo_sweep_market demo_account ''x'' inactivity_fail (sweep_of trading_db)))) =
    [(Some ''closed'', Some (- 10000000))]"
  by code_simp

theorem ended_account_is_settled_witness:
  "residue ''a1'' (sw_db (failAccount demo_sweep_market demo_account ''x'' inactivity_fail (sweep_of trading_db))) = residue ''a1'' trading_db \<and>
   settled_as ''failed'' (\<lambda>_. False) ''a1'' trading_db (sw_db (failAccount demo_sweep_market demo_account ''x'' inactivity_fail (sweep_of trading_db))) \<and>
   sw_db (failAccount demo_sweep_market demo_account ''x'' inactivity_fail (sweep_of trading_db)) \<noteq> trading_db"
proof (intro conjI)
  have l: "sum_laws (mt_arith demo_sweep_market) (\<lambda>x. x)" using exact_sums by (simp add: demo_sweep_market_def market.defs demo_market_def)
  have t: "sw_db (sweep_of trading_db) = trading_db" by (simp add: sweep_of_def)
  have "acc_id demo_account = ''a1''" by (simp add: demo_account_def)
  then show "residue ''a1'' (sw_db (failAccount demo_sweep_market demo_account ''x'' inactivity_fail (sweep_of trading_db))) = residue ''a1'' trading_db"
    "settled_as ''failed'' (\<lambda>_. False) ''a1'' trading_db (sw_db (failAccount demo_sweep_market demo_account ''x'' inactivity_fail (sweep_of trading_db)))"
    using ended_account_is_settled [OF l, of "\<lambda>_. ''a1''" "sweep_of trading_db" "''a1''" demo_account "''x''" inactivity_fail] trading_ready
    by (simp_all add: t)
  have "map (\<lambda>r. (trade_status r, demo_pnl r)) (trades trading_db) = [(Some ''open'', None)]" by (simp add: trading_db_def stopped_trade_def)
  then show "sw_db (failAccount demo_sweep_market demo_account ''x'' inactivity_fail (sweep_of trading_db)) \<noteq> trading_db" using failed_demo by auto
qed

end
