(* ===== verification/OpposingTrades.thy ===== *)
theory OpposingTrades
  imports ChallengeSweep EnginePasses
begin

text \<open>
  challengeEngine.ts, the detectors that run after the accounts: trades in both directions on one instrument, opened
  within minutes of each other or held open at the same time across the accounts of one user; and the sweep itself.
  Texts beyond ASCII are kept in UTF-8.
\<close>

section \<open>Trades with their accounts, grouped\<close>

record trade_group =
  gr_user :: "string option"
  gr_instrument :: string
  gr_accounts :: "string list"
  gr_buys :: nat
  gr_sells :: nat

definition grouped :: "(trade \<times> account) list \<Rightarrow> trade_group list" where
  "grouped rows =
     map (\<lambda>(u, i). let rs = filter (\<lambda>(r, a). acc_user a = u \<and> trade_instrument r = i) rows in
            \<lparr>gr_user = u, gr_instrument = i, gr_accounts = remdups (map (\<lambda>(r, a). acc_id a) rs),
             gr_buys = length (filter (\<lambda>(r, a). trade_direction r = ''buy'') rs),
             gr_sells = length (filter (\<lambda>(r, a). trade_direction r = ''sell'') rs)\<rparr>)
       (remdups (map (\<lambda>(r, a). (acc_user a, trade_instrument r)) rows))"

definition DAY_MS :: int where
  "DAY_MS = 24 * 60 * 60 * 1000"

definition closed_lately :: "int \<Rightarrow> trade \<Rightarrow> bool" where
  "closed_lately t r \<longleftrightarrow> trade_status r = Some ''closed'' \<and> (case trade_close_time r of None \<Rightarrow> False | Some x \<Rightarrow> t - DAY_MS < x)"

section \<open>Rapid opposing trades\<close>

text \<open>The last 50 trades; an unknown user matches no row.\<close>

definition recent_trades :: "string option \<Rightarrow> string \<Rightarrow> db \<Rightarrow> trade list" where
  "recent_trades user i t =
     (let rows = map fst (joined (\<lambda>r a. user \<noteq> None \<and> acc_user a = user \<and> trade_instrument r = i \<and> closed_lately (now t) r) t)
      in take 50 (sort_key (\<lambda>r. case trade_close_time r of None \<Rightarrow> 0 | Some x \<Rightarrow> - x) rows))"

definition opened_ms :: "trade \<Rightarrow> int" where
  "opened_ms r = (case trade_open_time r of None \<Rightarrow> 0 | Some x \<Rightarrow> x)"

definition rapid_count :: "trade list \<Rightarrow> nat" where
  "rapid_count rows =
     (\<Sum>b\<leftarrow>filter (\<lambda>r. trade_direction r = ''buy'') rows.
        length (filter (\<lambda>x. \<bar>opened_ms b - opened_ms x\<bar> < 5 * 60 * 1000) (filter (\<lambda>r. trade_direction r = ''sell'') rows)))"

definition rapid_reason :: "string \<Rightarrow> string" where
  "rapid_reason i = ''Rapid opposing trades detected on '' @ i"

definition flag_rapid :: "string option \<Rightarrow> string \<Rightarrow> nat \<Rightarrow> string \<Rightarrow> sweep \<Rightarrow> sweep" where
  "flag_rapid user i n accountId s =
     on_logs (applyAccountEnforcement \<lparr>ef_rule = None, ef_account = accountId, ef_action = ''flag_for_review'', ef_reason = rapid_reason i\<rparr>)
       (on_logs (recordViolation
          \<lparr>in_type = Some ''rapid_opposing_trades'', in_dedupe = None, in_severity = Some ''high'', in_account = Some accountId, in_user = user,
           in_trade = None, in_instrument = Some i, in_source = Some ''challenge_engine'',
           in_message = Some (rapid_reason i @ '' ('' @ int_str (int n) @ '' rapid matches in 24h)'')\<rparr>) s)"

definition detectRapidOpposingTrades :: "string option \<Rightarrow> string \<Rightarrow> string list \<Rightarrow> sweep \<Rightarrow> sweep" where
  "detectRapidOpposingTrades user i accountIds s =
     (let rows = recent_trades user i (sw_db s) in
      if length rows < 4 then s
      else if \<not> (list_ex (\<lambda>r. trade_direction r = ''buy'') rows \<and> list_ex (\<lambda>r. trade_direction r = ''sell'') rows) then s
      else if rapid_count rows < 2 then s
      else fold (flag_rapid user i (rapid_count rows)) accountIds s)"

definition detectRapidOpposingTradesGlobal :: "sweep \<Rightarrow> sweep" where
  "detectRapidOpposingTradesGlobal s =
     fold (\<lambda>g. detectRapidOpposingTrades (gr_user g) (gr_instrument g) (gr_accounts g))
       (filter (\<lambda>g. 0 < gr_buys g \<and> 0 < gr_sells g)
         (grouped (joined (\<lambda>r a. closed_lately (now (sw_db s)) r \<and> acc_status a = Some ''active'') (sw_db s)))) s"

section \<open>Opposing trades held open\<close>

fun occurs_in :: "string \<Rightarrow> string \<Rightarrow> bool" where
  "occurs_in p [] = (p = [])"
| "occurs_in p (c # s) = (take (length p) (c # s) = p \<or> occurs_in p s)"

definition already_flagged :: "string list \<Rightarrow> db \<Rightarrow> bool" where
  "already_flagged ids t =
     list_ex (\<lambda>a. acc_id a \<in> set ids \<and> review_flagged a \<and>
       (case review_flag_reason a of None \<Rightarrow> False | Some w \<Rightarrow> occurs_in ''opposing'' (to_lower w))) (accounts t)"

definition opposing_reason :: "trade_group \<Rightarrow> string" where
  "opposing_reason g =
     ''Cross-account opposing trade detected on '' @ gr_instrument g @ '' '' @ [CHR 0xE2, CHR 0x80, CHR 0x94] @
     '' BUY and SELL open simultaneously across '' @ int_str (int (length (gr_accounts g))) @ '' accounts''"

definition lock_opposing :: "trade_group \<Rightarrow> string \<Rightarrow> sweep \<Rightarrow> sweep" where
  "lock_opposing g accountId s =
     on_logs (applyAccountEnforcement \<lparr>ef_rule = None, ef_account = accountId, ef_action = ''lock_account'', ef_reason = opposing_reason g\<rparr>)
       (on_logs (recordViolation
          \<lparr>in_type = Some ''cross_account_opposing_trades'', in_dedupe = None, in_severity = Some ''critical'', in_account = Some accountId,
           in_user = gr_user g, in_trade = None, in_instrument = Some (gr_instrument g), in_source = Some ''challenge_engine'',
           in_message = Some (opposing_reason g)\<rparr>) s)"

definition punish_group :: "bool \<Rightarrow> trade_group \<Rightarrow> sweep \<Rightarrow> sweep" where
  "punish_group io g s =
     (if already_flagged (gr_accounts g) (sw_db s) then s
      else
        (let s1 = detectRapidOpposingTrades (gr_user g) (gr_instrument g) (gr_accounts g) (fold (lock_opposing g) (gr_accounts g) s)
         in if io then s1\<lparr>sw_events := sw_events s1 @ [OpposingLocked (gr_user g) (gr_instrument g) (gr_accounts g)]\<rparr> else s1))"

definition opposing_groups :: "db \<Rightarrow> trade_group list" where
  "opposing_groups t =
     filter (\<lambda>g. 1 < length (gr_accounts g) \<and> 0 < gr_buys g \<and> 0 < gr_sells g)
       (grouped (joined (\<lambda>r a. trade_status r = Some ''open'' \<and> acc_status a = Some ''active'') t))"

definition detectOpposingTrades :: "bool \<Rightarrow> sweep \<Rightarrow> sweep" where
  "detectOpposingTrades io s = fold (punish_group io) (opposing_groups (sw_db s)) s"

section \<open>The sweep\<close>

definition sweep_rows :: "db \<Rightarrow> account list" where
  "sweep_rows t =
     filter (\<lambda>a. acc_status a = Some ''active'' \<and> acc_type a \<in> set [''phase1'', ''phase2'', ''phase3'', ''funded'']) (accounts t)"

text \<open>\<open>healthy\<close> is the answer of the feed's circuit breaker.\<close>

definition runChallengeEngine :: "'d sweep_market \<Rightarrow> platform \<Rightarrow> bool \<Rightarrow> sweep \<Rightarrow> sweep" where
  "runChallengeEngine m cfg healthy s =
     (if \<not> healthy then s
      else let rows = sweep_rows (sw_db s) in
        if rows = [] then s
        else detectOpposingTrades (sk_io m) (detectRapidOpposingTradesGlobal (fold (processAccount m cfg) rows s)))"

end
