(* ===== verification/ScalingOnce.thy ===== *)
theory ScalingOnce
  imports ChallengeBooks OpposingTrades ProgressionProps
begin

text \<open>
  The milestones of the scaling plan: over any sequence of sweeps each milestone of an account is granted at most
  once, and the number of milestones claimed never falls. Everything but the scaling plan leaves the ledger and
  the claims alone.
\<close>

section \<open>What leaves the grants alone\<close>

definition claim_of :: "string \<Rightarrow> db \<Rightarrow> int option" where
  "claim_of i t = map_option scaling_claimed (get_account i t)"

definition grants_kept :: "db \<Rightarrow> db \<Rightarrow> bool" where
  "grants_kept t u \<longleftrightarrow> ledger u = ledger t \<and> (\<forall>i. claim_of i u = claim_of i t)"

interpretation grnt: effect grants_kept
  by unfold_locales (auto simp: grants_kept_def)

lemma kept_accounts: "ledger u = ledger t \<Longrightarrow> accounts u = accounts t \<Longrightarrow> grants_kept t u"
  by (simp add: grants_kept_def claim_of_def get_account_def)

lemma kept_put:
  assumes "\<And>a. acc_id (f a) = acc_id a \<and> scaling_claimed (f a) = scaling_claimed a"
  shows "grants_kept t (put_account i f t)"
proof -
  have "keeps_acc_id f" using assms by auto
  from acct.lookup_modify [OF this] show ?thesis
    using assms by (auto simp: grants_kept_def claim_of_def option.map_comp o_def option.map_ident)
qed

lemma kept_statements:
  "exit_stmt i p x reason t = Inr (w, u) \<Longrightarrow> grants_kept t u"
  "credit_stmt i x t = Inr (v, u) \<Longrightarrow> grants_kept t u"
  "cancel_stmt guard reason t = Inr (ids, u) \<Longrightarrow> grants_kept t u"
  "status_stmt_to i st t = Inr (w, u) \<Longrightarrow> grants_kept t u"
  "review_stmt r sz t = Inr (r', u) \<Longrightarrow> grants_kept t u"
  subgoal by (rule kept_accounts) (auto simp: exit_stmt_def sum_bind_Inr split: option.splits)
  subgoal by (auto simp: credit_stmt_def Let_def grnt.effect_refl intro!: kept_put split: option.splits sum.splits)
  subgoal by (rule kept_accounts) (auto simp: cancel_stmt_def)
  subgoal by (auto simp: status_stmt_to_def intro!: kept_put)
  subgoal by (rule kept_accounts) (auto simp: review_stmt_def Let_def put_review_def split: option.splits sum.splits)
  done

lemma kept_bump: "grants_kept t (bump_day f t)"
  by (rule kept_accounts) (simp_all add: bump_day_def Let_def)

lemma kept_anchors: "anchors_rise t u \<Longrightarrow> grants_kept t u"
proof -
  assume a: "anchors_rise t u"
  then have "ledger u = ledger t" by (auto simp: anchors_rise_def)
  moreover have "claim_of i u = claim_of i t" for i
  proof -
    have "rel_option anchors_only (get_account i t) (get_account i u)" using a by (simp add: anchors_rise_def)
    then show ?thesis by (cases "get_account i t"; cases "get_account i u") (auto simp: claim_of_def anchors_only_def)
  qed
  ultimately show ?thesis by (simp add: grants_kept_def)
qed

lemma confined_kept: "confined anchors_rise m \<Longrightarrow> confined grants_kept m"
  by (simp add: confined_def kept_anchors)

lemma confined_if: "confined R m \<Longrightarrow> confined R n \<Longrightarrow> confined R (if b then m else n)"
  by simp

lemma confined_opt: "confined R m \<Longrightarrow> (\<And>x. confined R (k x)) \<Longrightarrow> confined R (case opt of None \<Rightarrow> m | Some x \<Rightarrow> k x)"
  by (cases opt) simp_all

lemma confined_lift: "confined grants_kept (lift_sum x)"
  by (cases x) (simp_all add: lift_sum_def grnt.confined_rules)

lemma confined_sum: "(\<And>x. confined R (k x)) \<Longrightarrow> (\<And>x. confined R (h x)) \<Longrightarrow> confined R (case x of Inl a \<Rightarrow> h a | Inr b \<Rightarrow> k b)"
  by (cases x) simp_all

lemma confined_each_trade: "(\<And>r d. confined grants_kept (f r d)) \<Longrightarrow> confined grants_kept (each_trade f rows d)"
  by (induction rows arbitrary: d) (auto intro!: grnt.confined_rules)

lemmas kept_rules = grnt.confined_rules confined_if confined_opt confined_lift confined_sum confined_each_trade

lemma kept_parts:
  "confined grants_kept (expire_trade m r d)" "confined grants_kept (fail_trade m reason r d)" "confined grants_kept (credit_total m i d)"
  "confined grants_kept (cancel_pending i reason)" "confined grants_kept (incrementBbookMetric x)"
  "confined grants_kept (createPromotionReview lk pa tr why rq pl)" "confined grants_kept (query (status_stmt_to i st))"
  unfolding expire_trade_def fail_trade_def credit_total_def cancel_pending_def incrementBbookMetric_def createPromotionReview_def Let_def
  by (intro kept_rules grnt.confined_query; auto intro: kept_statements kept_bump)+

lemma kept_bodies:
  "confined grants_kept (expire_body m i)" "confined grants_kept (failing_body m opts i)" "confined grants_kept (passing_body m i)"
  unfolding expire_body_def failing_body_def passing_body_def Let_def
  by (intro kept_rules kept_parts confined_kept confined_recheck)+

section \<open>Sweeps\<close>

abbreviation still :: "sweep \<Rightarrow> sweep \<Rightarrow> bool" where
  "still s s' \<equiv> grants_kept (sw_db s) (sw_db s')"

lemma still_trans: "still s s1 \<Longrightarrow> still s1 s2 \<Longrightarrow> still s s2"
  by (rule grnt.effect_trans)

lemma still_same [simp]: "sw_db s' = sw_db s \<Longrightarrow> still s s'"
  by (simp add: grnt.effect_refl)

lemma framed_passing: "framed (passing_body m i)"
  unfolding passing_body_def createPromotionReview_def Let_def by (intro tx_frames)

lemma still_swept: "confined grants_kept body \<Longrightarrow> framed body \<Longrightarrow> swept body s = (r, s') \<Longrightarrow> still s s'"
proof -
  assume c: "confined grants_kept body" "framed body" and r: "swept body s = (r, s')"
  from r c(2) show ?thesis
  proof (cases rule: swept_effect)
    case (ended x c1)
    then show ?thesis using confinedD [OF c(1) ended(2)] by (simp add: tx_start)
  qed simp
qed

lemma still_pooled: "confined grants_kept q \<Longrightarrow> pooled q s = (r, s') \<Longrightarrow> still s s'"
  using confinedD [of grants_kept q "pool_conn (sw_db s)"] by (auto simp: pooled_def pool_conn_def split: prod.splits)

lemma still_expire: "still s (expireAccount m a s)"
  using still_swept [OF kept_bodies(1) framed_sweep_bodies(1)]
  by (auto simp: expireAccount_def logs_main split: option.split prod.split)

lemma still_fail: "still s (failAccount m a reason opts s)"
  using still_swept [OF kept_bodies(2) framed_sweep_bodies(2)]
  by (auto simp: failAccount_def logs_main split: option.split prod.split)

lemma still_pass: "still s (passAccount m a s)"
  using still_swept [OF kept_bodies(3) framed_passing]
  by (auto simp: passAccount_def logs_main split: option.split prod.split)

definition main_kept :: "vdb \<Rightarrow> vdb \<Rightarrow> bool" where
  "main_kept t u \<longleftrightarrow> grants_kept (vd_main t) (vd_main u)"

interpretation mkpt: effect main_kept
  by unfold_locales (auto simp: main_kept_def intro: grnt.effect_refl grnt.effect_trans)

lemma kept_enforce: "confined main_kept (enforce_body p)" "framed (enforce_body p)"
proof -
  have "confined main_kept (recordEnforcementEvent q)" for q
    unfolding recordEnforcementEvent_def
    by (rule mkpt.confined_query) (auto simp: enforcement_stmt_def Let_def main_kept_def grnt.effect_refl)
  moreover have "confined main_kept (query (main_stmt (put_account i f)))"
    if "\<And>a. acc_id (f a) = acc_id a \<and> scaling_claimed (f a) = scaling_claimed a" for i f
    by (rule mkpt.confined_query) (auto simp: main_stmt_def main_kept_def intro!: kept_put that)
  ultimately show "confined main_kept (enforce_body p)"
    unfolding enforce_body_def
    by (intro mkpt.confined_rules confined_if confined_opt) (auto simp: lock_row_def flag_row_def Let_def)
  show "framed (enforce_body p)"
    unfolding enforce_body_def recordEnforcementEvent_def by (intro tx_frames)
qed

lemma still_enforce: "still s (on_logs (applyAccountEnforcement p) s)"
proof -
  let ?c = "begin_tx (pool_conn (sw_vdb s))"
  obtain r c1 where b: "enforce_body p ?c = (r, c1)" by (cases "enforce_body p ?c")
  have "main_kept (tabs ?c) (tabs c1)" "base c1 = sw_vdb s"
    using confinedD [OF kept_enforce(1) b] framedD [OF kept_enforce(2) b] by (simp_all add: begin_tx_def pool_conn_def)
  then show ?thesis
    using b by (auto simp: on_logs_def applyAccountEnforcement_def withTransaction_def commit_tx_def rollback_tx_def main_kept_def tx_start
      grnt.effect_refl begin_tx_def pool_conn_def split: sum.split)
qed

lemma still_fold: "(\<And>x s. still s (f x s)) \<Longrightarrow> still s (fold f xs s)"
  by (induction xs arbitrary: s) (auto intro: still_trans grnt.effect_refl)

lemma still_flag: "still s (flag_rapid u i n a s)" "still s (lock_opposing g a s)"
  unfolding flag_rapid_def lock_opposing_def using still_trans [OF _ still_enforce] by (auto simp: logs_main)

lemma still_rapid: "still s (detectRapidOpposingTrades u i as s)"
  by (simp add: detectRapidOpposingTrades_def Let_def still_fold still_flag grnt.effect_refl)

lemma still_detectors: "still s (detectRapidOpposingTradesGlobal s)" "still s (detectOpposingTrades io s)"
proof -
  show "still s (detectRapidOpposingTradesGlobal s)" unfolding detectRapidOpposingTradesGlobal_def by (rule still_fold) (rule still_rapid)
  have "still s (punish_group io g s)" for g s
    using still_trans [OF still_fold [of "lock_opposing g", OF still_flag(2)] still_rapid] by (simp add: punish_group_def Let_def grnt.effect_refl)
  then show "still s (detectOpposingTrades io s)" unfolding detectOpposingTrades_def by (rule still_fold)
qed

section \<open>Grants\<close>

text \<open>The milestones the ledger records for an account, in the order they were granted.\<close>

definition granted :: "string \<Rightarrow> db \<Rightarrow> jsval option list" where
  "granted i t = map (\<lambda>r. map_of (led_metadata r) ''milestone'') (filter (\<lambda>r. led_account r = i \<and> led_source r = SCALING_SOURCE) (ledger t))"

definition milestone :: "int \<Rightarrow> jsval option" where
  "milestone k = Some (JNum (Fin (of_int k)))"

definition once :: "db \<Rightarrow> bool" where
  "once t \<longleftrightarrow> (\<forall>i. distinct (granted i t) \<and> (\<forall>x\<in>set (granted i t). \<exists>k n. x = milestone k \<and> claim_of i t = Some n \<and> k \<le> n))"

definition grown :: "db \<Rightarrow> db \<Rightarrow> bool" where
  "grown t u \<longleftrightarrow> (once t \<longrightarrow> once u) \<and> (\<forall>i n. claim_of i t = Some n \<longrightarrow> (\<exists>m\<ge>n. claim_of i u = Some m))"

interpretation grwn: effect grown
proof
  show "grown t t" for t by (auto simp: grown_def)
  show "grown t v" if "grown t u" "grown u v" for t u v using that unfolding grown_def by (meson order_trans)
qed

lemma kept_grown: "grants_kept t u \<Longrightarrow> grown t u"
  by (auto simp: grants_kept_def grown_def once_def granted_def)

lemma granted_append:
  "granted i (t\<lparr>ledger := ledger t @ [r]\<rparr>) = granted i t @ (if led_account r = i \<and> led_source r = SCALING_SOURCE then [map_of (led_metadata r) ''milestone''] else [])"
  by (simp add: granted_def)

lemma grant_one_effect:
  assumes "grant_one D g k c = (Inr res, c1)"
  shows "granted i (tabs c1) = granted i (tabs c) @ (if i = gt_account g then [milestone k] else [])" "claim_of i (tabs c1) = claim_of i (tabs c)"
proof -
  obtain a r t1 where cr: "credit_stmt (gt_account g) (parse_float (JNum (da_num D (gt_per g)))) (tabs c) = Inr (Some a, t1)"
    and row: "led_account r = acc_id a" "led_source r = SCALING_SOURCE" "map_of (led_metadata r) ''milestone'' = milestone k"
    and led: "ledger (tabs c1) = ledger t1 @ [r]" "accounts (tabs c1) = accounts t1"
    using assms unfolding grant_one_def applyBalanceAdjustment_def Let_def ledger_stmt_def
    by (fastforce simp: query_Inr tx_throw_app tx_return_app milestone_def elim!: tx_bind_Inr_E split: if_splits option.splits sum.splits)
  have k1: "grants_kept (tabs c) t1" by (rule kept_statements(2) [OF cr])
  have "acc_id a = gt_account g"
    using cr by (auto simp: credit_stmt_def Let_def dest: get_account_id split: option.splits sum.splits)
  then show "granted i (tabs c1) = granted i (tabs c) @ (if i = gt_account g then [milestone k] else [])"
    using k1 row led by (simp add: granted_def grants_kept_def)
  show "claim_of i (tabs c1) = claim_of i (tabs c)"
    using k1 led(2) by (simp add: claim_of_def get_account_def grants_kept_def)
qed

lemma grant_milestones_effect:
  assumes "grant_milestones D g ks latest injected c = (Inr r, c1)"
  shows "(\<forall>i. claim_of i (tabs c1) = claim_of i (tabs c)) \<and>
    (\<exists>n. \<forall>i. granted i (tabs c1) = granted i (tabs c) @ (if i = gt_account g then map milestone (take n ks) else []))"
  using assms
proof (induction ks arbitrary: latest injected c)
  case (Cons k ks)
  show ?case
  proof (cases "nlt (Fin 0) (gt_max g) \<and> \<not> da_le D (da_plus D latest (gt_per g)) (da_from D (gt_max g))")
    case True
    then have "c1 = c" using Cons.prems by (simp add: tx_return_app)
    then show ?thesis by (intro conjI exI [of _ 0]) auto
  next
    case False
    then obtain res c2 where one: "grant_one D g k c = (Inr res, c2)"
      and rest: "grant_milestones D g ks (da_from D (adj_after res)) (da_plus D injected (gt_per g)) c2 = (Inr r, c1)"
      using Cons.prems by (auto elim!: tx_bind_Inr_E)
    obtain n where n: "\<forall>i. claim_of i (tabs c1) = claim_of i (tabs c2)"
      "\<forall>i. granted i (tabs c1) = granted i (tabs c2) @ (if i = gt_account g then map milestone (take n ks) else [])"
      using Cons.IH [OF rest] by blast
    show ?thesis using n grant_one_effect [OF one] by (intro conjI exI [of _ "Suc n"]) auto
  qed
qed (auto simp: tx_return_app)

text \<open>A whole number bound to a column is the number itself.\<close>

lemma bound_whole:
  assumes "dec_of q = of_int n" "\<bar>n\<bar> \<le> 2147483647"
  shows "q = of_int n"
proof (cases "q = 0 \<or> dec_search \<bar>q\<bar> (dec_point q) [1..<18] = None")
  case True
  then show ?thesis using assms(1) by (auto simp: dec_of_def split: if_splits)
next
  case False
  then obtain s k where sk: "dec_search \<bar>q\<bar> (dec_point q) [1..<18] = Some (s, k)" by auto
  have "fl (dec_of q) = sgn q * fl (of_int s * 10 powi (dec_point q - int k))" using False sk by (simp add: dec_of_def fl_sgn)
  also have "\<dots> = sgn q * \<bar>q\<bar>" using dec_search_Some [OF sk] by simp
  also have "\<dots> = q" by (simp add: sgn_mult_abs)
  finally show ?thesis using fl_of_int [of n] assms by simp
qed

lemma claim_effect:
  assumes "claim_stmt i mult (Fin q) t = Inr (Some b, u)"
  obtains n where "q = of_int n" "ledger u = ledger t" "\<And>j. claim_of j u = (if j = i then Some n else claim_of j t)"
    "\<And>m. claim_of i t = Some m \<Longrightarrow> m < n"
proof -
  obtain x a where q: "of_int \<lfloor>dec_of q\<rfloor> = dec_of q" "\<bar>dec_of q\<bar> \<le> 2147483647" and a: "get_account i t = Some a" "scaling_claimed a < \<lfloor>dec_of q\<rfloor>"
    and u: "u = put_account i (claim_row x \<lfloor>dec_of q\<rfloor>) t"
    using assms by (auto simp: claim_stmt_def sum_bind_Inr split: if_splits option.splits)
  define n where "n = \<lfloor>dec_of q\<rfloor>"
  have n: "dec_of q = of_int n" unfolding n_def using q(1) by (rule sym)
  have "\<bar>n\<bar> \<le> 2147483647" using q(2) unfolding n by linarith
  then have "q = of_int n" by (rule bound_whole [OF n])
  moreover have "keeps_acc_id (claim_row x n)" by (auto simp: claim_row_def)
  from acct.lookup_modify [OF this] have "claim_of j u = (if j = i then Some n else claim_of j t)" for j
    using a(1) by (simp add: claim_of_def u n claim_row_def)
  ultimately show thesis using that [of n] a u n by (auto simp: claim_of_def)
qed

lemma once_more:
  assumes "once t" "claim_of i t = Some prev" "prev < n"
    and g: "\<And>j. granted j u = granted j t @ (if j = i then map milestone (take l [prev + 1..n]) else [])"
    and c: "\<And>j. claim_of j u = (if j = i then Some n else claim_of j t)"
  shows "once u"
  unfolding once_def
proof (intro allI conjI ballI)
  fix j
  have new: "k \<in> set (take l [prev + 1..n]) \<Longrightarrow> prev < k \<and> k \<le> n" for k using set_take_subset [of l "[prev + 1..n]"] by auto
  have old: "\<exists>k m. x = milestone k \<and> claim_of j t = Some m \<and> k \<le> m" if "x \<in> set (granted j t)" for x
    using assms(1) that by (auto simp: once_def)
  show "distinct (granted j u)"
  proof (cases "j = i")
    case True
    have "inj milestone" by (auto simp: inj_def milestone_def)
    then have "distinct (map milestone (take l [prev + 1..n]))" by (simp add: distinct_map inj_def inj_on_def)
    moreover have "milestone k \<notin> set (granted i t)" if "k \<in> set (take l [prev + 1..n])" for k
      using new [OF that] old [of "milestone k"] assms(2) True by (auto simp: milestone_def)
    moreover have "distinct (granted i t)" using assms(1) by (simp add: once_def)
    ultimately show ?thesis using True by (auto simp: g)
  qed (use assms(1) in \<open>simp add: g once_def\<close>)
  fix x assume "x \<in> set (granted j u)"
  then show "\<exists>k m. x = milestone k \<and> claim_of j u = Some m \<and> k \<le> m"
    using old [of x] new assms(2,3)
    by (auto simp: g c split: if_splits intro: less_imp_le) (blast intro: less_imp_le order_trans)+
qed

lemma scaling_grown:
  assumes "scaling_body m sc i c = (Inr (Some r), c1)"
  shows "grown (tabs c) (tabs c1)"
proof -
  let ?D = "mt_arith m"
  obtain a added where a: "get_account i (tabs c) = Some a" and na: "\<not> aborted c" and added: "added = ledger_sum i (tabs c)"
    using assms unfolding scaling_body_def Let_def by (auto simp: select_Inr tx_return_app elim!: tx_bind_Inr_E split: option.splits)
  define reached where "reached = math_floor (ndiv (net_profit_pct a (parse_float (numeric_val added))) (sc_milestone sc))"
  have run: "tx_bind (select (get_account i)) k c = k (Some a) c" "tx_bind (select (ledger_sum i)) h c = h added c"
    for k :: "account option \<Rightarrow> (db, (num \<times> int) option) tx" and h :: "int \<Rightarrow> (db, (num \<times> int) option) tx"
    using a na by (simp_all add: tx_bind_def select_def query_def added)
  have if_app: "(if b then f else g) x = (if b then f x else g x)" for b and f g :: "(db, (num \<times> int) option) tx" and x by simp
  have guards: "nlt (Fin 0) (parse_float (numeric_val (starting_balance a))) = True"
    "nle (net_profit_pct a (parse_float (numeric_val added))) (Fin 0) = False" "nle reached (Fin (of_int (scaling_claimed a))) = False"
    using assms unfolding scaling_body_def Let_def run option.case if_app reached_def by (auto simp: tx_return_app split: if_splits)
  obtain mult terms latest inj where gt: "gt_account terms = i" and st: "tx_bind
      (if nlt (Fin 0) (sc_increase sc) then tx_bind (grant_milestones ?D terms (milestone_numbers (scaling_claimed a) reached) latest inj)
         (\<lambda>_. tx_return ()) else tx_return ()) (\<lambda>_. tx_bind (query (claim_stmt i mult reached))
      (\<lambda>claimed. case claimed of None \<Rightarrow> tx_return None | Some a \<Rightarrow> tx_return (Some (mult, scaling_claimed a)))) c = (Inr (Some r), c1)"
    using assms unfolding scaling_body_def Let_def run option.case if_app guards [unfolded reached_def] if_True if_False not_True_eq_False not_False_eq_True reached_def
    by (rule that [unfolded reached_def, rotated]) simp
  obtain c2 b where gr: "(if nlt (Fin 0) (sc_increase sc) then tx_bind (grant_milestones ?D terms (milestone_numbers (scaling_claimed a) reached)
         latest inj) (\<lambda>_. tx_return ()) else tx_return ()) c = (Inr (), c2)"
    and cl: "claim_stmt i mult reached (tabs c2) = Inr (Some b, tabs c1)"
    using st by (elim tx_bind_Inr_E) (auto simp: query_Inr tx_return_app split: option.splits)
  obtain q where q: "reached = Fin q" using cl by (cases reached) (auto simp: claim_stmt_def sum_bind_Inr)
  obtain n where n: "q = of_int n" "ledger (tabs c1) = ledger (tabs c2)" "\<And>j. claim_of j (tabs c1) = (if j = i then Some n else claim_of j (tabs c2))"
    "\<And>m. claim_of i (tabs c2) = Some m \<Longrightarrow> m < n"
    using claim_effect [OF cl [unfolded q]] by blast
  have "(\<forall>j. claim_of j (tabs c2) = claim_of j (tabs c)) \<and>
    (\<exists>l. \<forall>j. granted j (tabs c2) = granted j (tabs c) @ (if j = i then map milestone (take l [scaling_claimed a + 1..n]) else []))"
  proof (cases "nlt (Fin 0) (sc_increase sc)")
    case True
    then obtain r' where "grant_milestones ?D terms (milestone_numbers (scaling_claimed a) reached)
        latest inj c = (Inr r', c2)"
      using gr by (auto simp: tx_return_app elim!: tx_bind_Inr_E)
    from grant_milestones_effect [OF this] show ?thesis by (auto simp: gt milestone_numbers_def q n(1))
  next
    case False
    then show ?thesis using gr by (intro conjI exI [of _ 0]) (auto simp: tx_return_app)
  qed
  then obtain l where l: "\<And>j. claim_of j (tabs c2) = claim_of j (tabs c)"
    "\<And>j. granted j (tabs c2) = granted j (tabs c) @ (if j = i then map milestone (take l [scaling_claimed a + 1..n]) else [])" by blast
  have prev: "claim_of i (tabs c) = Some (scaling_claimed a)" using a by (simp add: claim_of_def)
  have less: "scaling_claimed a < n" using n(4) l(1) prev by simp
  have g: "granted j (tabs c1) = granted j (tabs c) @ (if j = i then map milestone (take l [scaling_claimed a + 1..n]) else [])" for j
    using l(2) n(2) by (simp add: granted_def)
  have c': "claim_of j (tabs c1) = (if j = i then Some n else claim_of j (tabs c))" for j using n(3) l(1) by simp
  have "once (tabs c) \<Longrightarrow> once (tabs c1)" by (rule once_more [OF _ prev less g c'])
  then show ?thesis using c' prev less by (auto simp: grown_def)
qed

lemma framed_milestones: "framed (grant_milestones D g ks latest injected)"
  by (induction ks arbitrary: latest injected) (auto simp: grant_one_def intro!: tx_frames framed_applyBalanceAdjustment)

lemma framed_scaling: "framed (scaling_body m sc i)"
  unfolding scaling_body_def Let_def by (intro tx_frames framed_milestones)

lemma grown_scaling: "grown (sw_db s) (sw_db (evaluateScalingPlan m a s))"
proof -
  have "grown (sw_db s) (sw_db s')" if r: "swept (scaling_body m sc i) s = (r, s')" for sc i r s'
    using r framed_scaling
  proof (cases rule: swept_effect)
    case (ended x c1)
    then show ?thesis using scaling_grown [OF ended(2)] by (simp add: tx_start)
  qed (simp add: grwn.effect_refl)
  then show ?thesis
    by (auto simp: evaluateScalingPlan_def Let_def logs_main grwn.effect_refl split: option.split prod.split)
qed

lemma kept_qualifying: "confined grants_kept (countQualifyingTradingDays i x y)"
  unfolding countQualifyingTradingDays_def Let_def
  by (intro confined_if grnt.confined_rules grnt.confined_query) (auto intro: grnt.effect_refl split: sum.splits)

lemma still_holds:
  "trading_days_hold m a s = (r, s') \<Longrightarrow> still s s'" "consistency_hold m a p s = (r', s') \<Longrightarrow> still s s'"
  using still_pooled [OF kept_qualifying]
  by (fastforce simp: trading_days_hold_def consistency_hold_def Let_def sweep_emit_def split: if_splits prod.splits sum.splits option.splits)+

lemma still_try_pass: "still s (try_pass m a st b s)"
proof -
  obtain r s1 where t: "trading_days_hold m a s = (r, s1)" by (cases "trading_days_hold m a s")
  define p where "p = da_num (mt_arith m) (da_minus (mt_arith m) b st)"
  obtain q s2 where c: "consistency_hold m a p s1 = (q, s2)" by (cases "consistency_hold m a p s1")
  have 1: "still s s1" by (rule still_holds(1) [OF t])
  have 2: "still s s2" by (rule still_trans [OF 1 still_holds(2) [OF c]])
  then show ?thesis using 1 still_trans [OF 2 still_pass]
    by (auto simp: try_pass_def Let_def t c p_def [symmetric] grnt.effect_refl split: sum.split bool.split)
qed

lemma grown_rest: "grown (sw_db s) (sw_db (process_rest m a st b daily s))"
  by (simp add: process_rest_def kept_grown [OF still_fail] kept_grown [OF still_try_pass] grown_scaling)

lemma still_floor: "floor_reached m a b mx lk s = (r, s') \<Longrightarrow> still s s'"
  using still_pooled [OF confined_kept [OF confined_getEffective]]
  by (fastforce simp: floor_reached_def Let_def split: prod.splits sum.splits)

lemma still_warn: "still s (warn_drawdown m a st b mx s)"
  by (auto simp: warn_drawdown_def Let_def sweep_emit_def grnt.effect_refl split: option.split)

lemma grown_process: "grown (sw_db s) (sw_db (processAccount m cfg a s))"
proof -
  have fl: "grown (sw_db s) (sw_db s1)" "grown (sw_db s) (sw_db (failAccount m a why opts s1))" "grown (sw_db s) (sw_db (process_rest m a st b daily s1))"
    if "floor_reached m a b' mx lk (warn_drawdown m a st' b' mx s) = (r, s1)" for b b' mx lk st st' r s1 why opts daily
  proof -
    show g: "grown (sw_db s) (sw_db s1)" by (rule kept_grown [OF still_trans [OF still_warn still_floor [OF that]]])
    show "grown (sw_db s) (sw_db (failAccount m a why opts s1))" by (rule grwn.effect_trans [OF g kept_grown [OF still_fail]])
    show "grown (sw_db s) (sw_db (process_rest m a st b daily s1))" by (rule grwn.effect_trans [OF g grown_rest])
  qed
  show ?thesis unfolding processAccount_def Let_def
    by (simp add: kept_grown [OF still_expire] kept_grown [OF still_fail] grown_rest grwn.effect_refl fl split: sum.split prod.split bool.split)
qed

lemma grown_engine: "grown (sw_db s) (sw_db (runChallengeEngine m cfg healthy s))"
proof -
  have "grown (sw_db s) (sw_db (fold (processAccount m cfg) rows s))" for rows
    by (induction rows arbitrary: s) (auto intro: grwn.effect_refl grwn.effect_trans [OF grown_process])
  then show ?thesis
    using grwn.effect_trans [OF grwn.effect_trans [OF _ kept_grown [OF still_detectors(1)]] kept_grown [OF still_detectors(2)]]
    by (auto simp: runChallengeEngine_def Let_def grwn.effect_refl)
qed

section \<open>Property\<close>

definition sweeps :: "('d sweep_market \<times> platform \<times> bool) list \<Rightarrow> sweep \<Rightarrow> sweep" where
  "sweeps passes s = fold (\<lambda>(m, cfg, healthy). runChallengeEngine m cfg healthy) passes s"

text \<open>C33. Over any sequence of sweeps, on whatever quotes, models and settings, no milestone of the scaling plan is granted twice to an
  account: the capital increases the ledger records for it carry distinct milestones, none above the number the account
  has claimed, and that number never falls.\<close>

theorem milestones_granted_once:
  assumes "once (sw_db s)"
  shows "distinct (granted i (sw_db (sweeps passes s))) \<and>
    (\<forall>x\<in>set (granted i (sw_db (sweeps passes s))). \<exists>k n. x = milestone k \<and> claim_of i (sw_db (sweeps passes s)) = Some n \<and> k \<le> n) \<and>
    (\<forall>n. claim_of i (sw_db s) = Some n \<longrightarrow> (\<exists>m\<ge>n. claim_of i (sw_db (sweeps passes s)) = Some m))"
proof -
  have "grown (sw_db s) (sw_db (sweeps passes s))" unfolding sweeps_def
    by (induction passes arbitrary: s) (auto intro: grwn.effect_refl grwn.effect_trans [OF grown_engine])
  then show ?thesis using assms by (auto simp: grown_def once_def)
qed

definition scaled_account :: account where
  "scaled_account = demo_account\<lparr>current_balance := 10700000, challenge_model_slug := Some ''1-step''\<rparr>"

definition scaled_sweep :: sweep where
  "scaled_sweep = sweep_of (demo_db\<lparr>accounts := [scaled_account]\<rparr>)"

definition scaling_market :: "rat sweep_market" where
  "scaling_market = demo_sweep_market\<lparr>mt_models := demo_models\<rparr>"

definition demo_platform :: platform where
  "demo_platform = \<lparr>pf_funded_max = Fin 5, pf_inactive = True, pf_inactive_days = Fin 30\<rparr>"


definition scaling_passes :: "(rat sweep_market \<times> platform \<times> bool) list" where
  "scaling_passes = [(scaling_market, demo_platform, True), (scaling_market, demo_platform, True)]"

theorem milestones_granted_once_witness:
  "granted ''a1'' (sw_db (sweeps scaling_passes scaled_sweep)) = [milestone 1] \<and>
   (\<exists>m\<ge>0. claim_of ''a1'' (sw_db (sweeps scaling_passes scaled_sweep)) = Some m)"
proof -
  have "once (sw_db scaled_sweep)" by (simp add: once_def granted_def scaled_sweep_def sweep_of_def demo_db_def)
  moreover have "claim_of ''a1'' (sw_db scaled_sweep) = Some 0" by code_simp
  moreover have "granted ''a1'' (sw_db (sweeps scaling_passes scaled_sweep)) = [milestone 1]" by code_simp
  ultimately show ?thesis using milestones_granted_once [of scaled_sweep "''a1''" scaling_passes] by simp
qed

end
