(* ===== verification/SweepLimits.thy ===== *)
theory SweepLimits
  imports ChallengeBooks OpposingTrades
begin

text \<open>
  What the limits of a sweep do and do not end: a failure that is rechecked under the lock stands down unless the
  balance is below the drawdown floor, whatever asked for it; and an account flagged for rapid opposing trades is
  left out by the detector that locks.
\<close>

section \<open>Standing down at the floor\<close>

definition floor_limit :: "'d sweep_market \<Rightarrow> account \<Rightarrow> jsval" where
  "floor_limit m acc = (case account_model (mt_models m) acc of None \<Rightarrow> pct_val (max_drawdown_pct acc) | Some sm \<Rightarrow> JNumeric (sm_funded_max_dd sm))"

definition sweep_floor :: "'d sweep_market \<Rightarrow> account \<Rightarrow> 'd \<Rightarrow> 'd \<Rightarrow> num" where
  "sweep_floor m acc balance limit =
     rs_floor (resolveEffectiveFloor (account_drawdown acc) (da_num (mt_arith m) balance) (da_num (mt_arith m) limit)
       (locks_at (account_model (mt_models m) acc)))"

lemma getEffective_floor: "getEffectiveDrawdownFloor i acc e mx lk c = (Inr x, c1) \<Longrightarrow> x = rs_floor (resolveEffectiveFloor acc e mx lk)"
  unfolding getEffectiveDrawdownFloor_def Let_def by (auto simp: tx_return_app elim!: tx_bind_Inr_E)

lemma recheck_stands_down:
  assumes "dec_of_col (mt_arith m) (floor_limit m acc) = Inr limit"
    and "da_le (mt_arith m) (da_from (mt_arith m) (sweep_floor m acc balance limit)) balance"
    and "recheck m acc balance c = (Inr justified, c1)"
  shows "\<not> justified"
  using assms unfolding recheck_def Let_def floor_limit_def [symmetric] sweep_floor_def
  by (auto simp: lift_sum_def tx_return_app dest!: getEffective_floor elim!: tx_bind_Inr_E split: if_splits)

lemma failing_stands_down:
  assumes "active_account i (tabs c) = Some acc" "dec_of_col (mt_arith m) (numeric_val (current_balance acc)) = Inr balance"
    "dec_of_col (mt_arith m) (floor_limit m acc) = Inr limit" "da_le (mt_arith m) (da_from (mt_arith m) (sweep_floor m acc balance limit)) balance"
    "\<not> fo_skip opts" "failing_body m opts i c = (Inr r, c1)"
  shows "r = None"
proof -
  have no: "recheck m acc balance c \<noteq> (Inr True, c1)" for c c1 using recheck_stands_down [OF assms(3,4)] by blast
  show ?thesis using assms(6) assms(1,2,5) unfolding failing_body_def
    by (auto simp: select_Inr lift_sum_def tx_return_app no elim!: tx_bind_Inr_E split: if_splits)
qed

text \<open>C34. No breach, no failure: a failure that is not exempt from the recheck leaves an active account whose balance is on or above its
  drawdown floor, and everything else the sweep holds, exactly as it was; in particular reaching the daily loss limit
  has no effect at all on such an account.\<close>

theorem no_breach_no_failure:
  assumes "active_account (acc_id a) (sw_db s) = Some acc" "dec_of_col (mt_arith m) (numeric_val (current_balance acc)) = Inr balance"
    "dec_of_col (mt_arith m) (floor_limit m acc) = Inr limit" "da_le (mt_arith m) (da_from (mt_arith m) (sweep_floor m acc balance limit)) balance"
  shows "(\<not> fo_skip opts \<longrightarrow> failAccount m a why opts s = s) \<and>
    (daily_limit_hit m a starting daily (sw_db s) \<longrightarrow> process_rest m a starting b daily s = s)"
proof -
  let ?c = "begin_tx (pool_conn (sw_db s))"
  have st: "active_account (acc_id a) (tabs ?c) = Some acc" using assms(1) by (simp add: tx_start)
  have same: "failAccount m a why opts s = s" if skip: "\<not> fo_skip opts" for why opts
  proof -
    obtain r s' where run: "swept (failing_body m opts (acc_id a)) s = (r, s')" by (cases "swept (failing_body m opts (acc_id a)) s")
    then show ?thesis using framed_sweep_bodies(2)
    proof (cases rule: swept_effect)
      case kept
      have "r = None"
      proof (rule ccontr)
        assume "r \<noteq> None"
        then obtain x c1 where "failing_body m opts (acc_id a) ?c = (Inr (Some x), c1)"
          using run by (auto simp: swept_def or_rollback_def split: prod.splits sum.splits option.splits)
        then show False using failing_stands_down [OF st assms(2-4) skip] by blast
      qed
      then show ?thesis using run kept by (simp add: failAccount_def)
    next
      case (ended x c1)
      then show ?thesis using failing_stands_down [OF st assms(2-4) skip] by blast
    qed
  qed
  show ?thesis using same [of opts why] same [of daily_fail "''daily loss limit breach''"] by (simp add: process_rest_def daily_fail_def)
qed

section \<open>Flagged for rapid trades\<close>

lemma occurs_prefix: "occurs_in p (p @ s)"
  by (cases "p @ s") (auto simp: append_eq_Cons_conv)

lemma occurs_later: "occurs_in p s \<Longrightarrow> occurs_in p (x @ s)"
  by (induction x) auto

lemma occurs_both: "occurs_in p s \<Longrightarrow> occurs_in p (s @ y)"
proof (induction s)
  case Nil
  then show ?case by (cases y) auto
next
  case (Cons c s)
  have "take (length p) ((c # s) @ y) = p" if "take (length p) (c # s) = p"
    using that by (metis append.right_neutral diff_is_0_eq length_take min.bounded_iff order_refl take0 take_append)
  then show ?case using Cons by auto
qed

lemma rapid_names_opposing: "occurs_in ''opposing'' (to_lower (rapid_reason i))"
proof -
  have "to_lower ''Rapid opposing trades detected on '' = ''rapid '' @ ''opposing'' @ '' trades detected on ''" by code_simp
  then have "to_lower (rapid_reason i) = ''rapid '' @ ''opposing'' @ ('' trades detected on '' @ to_lower i)"
    by (simp add: rapid_reason_def to_lower_def)
  then show ?thesis by (simp only: occurs_later occurs_prefix)
qed

lemma to_lower_append: "to_lower (x @ y) = to_lower x @ to_lower y"
  by (simp add: to_lower_def)

lemma flagged_row:
  "review_flagged (flag_row current (rapid_reason i) a)"
  "\<exists>w. review_flag_reason (flag_row current (rapid_reason i) a) = Some w \<and> occurs_in ''opposing'' (to_lower w)"
proof -
  show "review_flagged (flag_row current (rapid_reason i) a)" by (simp add: flag_row_def Let_def)
  have "rapid_reason i \<noteq> []" by (simp add: rapid_reason_def)
  then obtain x where w: "review_flag_reason (flag_row current (rapid_reason i) a) = Some (x @ rapid_reason i)"
    by (cases "given current") (auto simp: flag_row_def Let_def intro: that [of "[]"] that [of "_ @ '' | ''"])
  have "occurs_in ''opposing'' (to_lower (x @ rapid_reason i))"
    unfolding to_lower_append by (rule occurs_later [OF rapid_names_opposing])
  with w show "\<exists>w. review_flag_reason (flag_row current (rapid_reason i) a) = Some w \<and> occurs_in ''opposing'' (to_lower w)" by blast
qed

lemma rapid_effect:
  assumes "get_account i (sw_db s) = Some a"
  shows "sw_db (flag_rapid u j n i s) = put_account i (flag_row (review_flag_reason a) (rapid_reason j)) (sw_db s)"
proof -
  define s1 where "s1 = on_logs (recordViolation
          \<lparr>in_type = Some ''rapid_opposing_trades'', in_dedupe = None, in_severity = Some ''high'', in_account = Some i, in_user = u,
           in_trade = None, in_instrument = Some j, in_source = Some ''challenge_engine'',
           in_message = Some (rapid_reason j @ '' ('' @ int_str (int n) @ '' rapid matches in 24h)'')\<rparr>) s"
  have same: "sw_db s1 = sw_db s" unfolding s1_def by (rule logs_main)
  have id: "acc_id a = i" by (rule get_account_id [OF assms])
  show ?thesis unfolding flag_rapid_def s1_def [symmetric] using assms id
    by (simp add: on_logs_def applyAccountEnforcement_def withTransaction_def enforce_body_def tx_bind_def select_def query_def main_stmt_def
      tx_return_app recordEnforcementEvent_def enforcement_stmt_def Let_def commit_tx_def begin_tx_def pool_conn_def same)
qed

lemma rapid_flags:
  assumes "get_account i (sw_db s) = Some a" "i \<in> set ids"
  shows "already_flagged ids (sw_db (flag_rapid u j n i s))"
proof -
  let ?f = "flag_row (review_flag_reason a) (rapid_reason j)"
  have "keeps_acc_id ?f" by (simp add: flag_row_def keeps_acc_id_def Let_def)
  from acct.lookup_modify [OF this] have "get_account i (put_account i ?f (sw_db s)) = Some (?f a)" using assms by simp
  then have "?f a \<in> set (accounts (sw_db (flag_rapid u j n i s)))" "acc_id (?f a) = i"
    unfolding rapid_effect [OF assms(1)] by (auto simp: get_account_def dest: find_by_key)
  then show ?thesis using flagged_row [of "review_flag_reason a" j a] assms(2) unfolding already_flagged_def list_ex_iff by fastforce
qed

text \<open>C35. The two detectors at odds: once an account was flagged for rapid opposing trades, the detector of positions held open both
  ways passes over every group the account belongs to: none of these accounts is locked, no violation is recorded and
  no event is sent.\<close>

theorem rapid_flag_shields:
  assumes "get_account i (sw_db s) = Some a" "\<forall>g\<in>set groups. i \<in> set (gr_accounts g)"
  shows "fold (punish_group io) groups (flag_rapid u j n i s) = flag_rapid u j n i s"
  using assms(2)
proof (induction groups)
  case (Cons g gs)
  have "already_flagged (gr_accounts g) (sw_db (flag_rapid u j n i s))" using rapid_flags [OF assms(1)] Cons.prems by simp
  then show ?case using Cons by (simp add: punish_group_def)
qed simp

section \<open>A loss over the daily limit, and a flagged pair of accounts\<close>

definition lossy_account :: account where
  "lossy_account = demo_account\<lparr>current_balance := 9990000, eod_peak_equity := Some 10000000, eod_trailing_floor := None, daily_drawdown_pct := Some 5\<rparr>"

definition loss_trade :: trade where
  "loss_trade = stopped_trade\<lparr>trade_status := Some ''closed'', trade_close_time := Some 100000, demo_pnl := Some (- 10000)\<rparr>"

definition lossy_sweep :: sweep where
  "lossy_sweep = sweep_of (demo_db\<lparr>accounts := [lossy_account], trades := [loss_trade]\<rparr>)"

theorem no_breach_no_failure_witness:
  "daily_limit_hit demo_sweep_market lossy_account 100000 (Some (Fin (1/20))) (sw_db lossy_sweep) \<and>
   process_rest demo_sweep_market lossy_account 100000 99900 (Some (Fin (1/20))) lossy_sweep = lossy_sweep"
proof -
  have 1: "active_account (acc_id lossy_account) (sw_db lossy_sweep) = Some lossy_account" by code_simp
  have 2: "dec_of_col (mt_arith demo_sweep_market) (numeric_val (current_balance lossy_account)) = Inr 99900" by code_simp
  have 3: "dec_of_col (mt_arith demo_sweep_market) (floor_limit demo_sweep_market lossy_account) = Inr 4" by code_simp
  have 4: "da_le (mt_arith demo_sweep_market) (da_from (mt_arith demo_sweep_market) (sweep_floor demo_sweep_market lossy_account 99900 4)) 99900" by code_simp
  have 5: "daily_limit_hit demo_sweep_market lossy_account 100000 (Some (Fin (1/20))) (sw_db lossy_sweep)" by code_simp
  show ?thesis using no_breach_no_failure [OF 1 2 3 4] 5 by blast
qed

definition paired_sweep :: sweep where
  "paired_sweep = sweep_of (demo_db\<lparr>accounts := [demo_account, demo_account\<lparr>acc_id := ''a2''\<rparr>]\<rparr>)"

definition paired_group :: trade_group where
  "paired_group = \<lparr>gr_user = Some ''u1'', gr_instrument = ''EURUSD'', gr_accounts = [''a1'', ''a2''], gr_buys = 1, gr_sells = 1\<rparr>"

theorem rapid_flag_shields_witness:
  "punish_group True paired_group (flag_rapid (Some ''u1'') ''GBPUSD'' 2 ''a1'' paired_sweep) = flag_rapid (Some ''u1'') ''GBPUSD'' 2 ''a1'' paired_sweep \<and>
   map acc_status (accounts (sw_db (punish_group True paired_group paired_sweep))) = [Some ''locked'', Some ''locked'']"
proof -
  have 1: "get_account ''a1'' (sw_db paired_sweep) = Some demo_account" by code_simp
  have "map acc_status (accounts (sw_db (punish_group True paired_group paired_sweep))) = [Some ''locked'', Some ''locked'']" by code_simp
  then show ?thesis using rapid_flag_shields [OF 1, of "[paired_group]" True "Some ''u1''" "''GBPUSD''" 2] by (simp add: paired_group_def)
qed

end
