(* ===== verification/SessionCloses.thy ===== *)
theory SessionCloses
  imports Challenge EnginePasses
begin

text \<open>
  services/weekendCloseService.ts, services/newsCloseService.js, services/flatByCloseService.js and the window of
  services/newsService.js: the scheduled closing of positions before the weekend, around high-impact news and at the end of
  the day. The three passes differ in when they run, which trades they take, what they count as an error, and so in
  when they consider themselves done. A pass runs without interleaving at its awaits; logging is left out.
\<close>

section \<open>News\<close>

record news_event =
  ne_title :: string
  ne_country :: string
  ne_impact :: string
  ne_at :: int

definition getActiveNewsEvent :: "news_event list \<Rightarrow> int \<Rightarrow> int \<Rightarrow> news_event option" where
  "getActiveNewsEvent events t lookaheadMins =
     (let windowMs = lookaheadMins * 60 * 1000 in
      List.find (\<lambda>e. ne_at e - windowMs \<le> t \<and> t \<le> ne_at e + windowMs) events)"

definition getUpcomingEvents :: "news_event list \<Rightarrow> int \<Rightarrow> int \<Rightarrow> news_event list" where
  "getUpcomingEvents events t minutes =
     sort_key ne_at (filter (\<lambda>e. t \<le> ne_at e \<and> ne_at e \<le> t + minutes * 60 * 1000) events)"

section \<open>State\<close>

datatype session_event = NewsClosed "string option" string num | WeekendNotice "string option" | FlatNotice "string option"

record session =
  ss_db :: db
  ss_weekend :: string
  ss_flat :: string
  ss_news :: string
  ss_io :: bool
  ss_events :: "session_event list"

definition session_emit :: "session_event list \<Rightarrow> session \<Rightarrow> session" where
  "session_emit evs s = (if ss_io s then s\<lparr>ss_events := ss_events s @ evs\<rparr> else s)"

section \<open>Closing one trade\<close>

text \<open>None when the row is no longer open.\<close>

definition is_open :: "string \<Rightarrow> db \<Rightarrow> bool" where
  "is_open i t = (case get_trade i t of None \<Rightarrow> False | Some x \<Rightarrow> trade_status x = Some ''open'')"

definition flatten_body :: "string \<Rightarrow> trade \<Rightarrow> num \<Rightarrow> num \<Rightarrow> (db, unit option) tx" where
  "flatten_body reason r price pnl =
     tx_bind (select (is_open (trade_id r))) (\<lambda>locked.
       if \<not> locked then tx_return None
       else
         tx_bind (query (exit_stmt (trade_id r) (AtQuote price) pnl reason)) (\<lambda>_.
         tx_bind (query (credit_stmt (text_or_empty (trade_account r)) pnl)) (\<lambda>_. tx_return (Some ()))))"

datatype flatten_outcome = Unpriced | Unvalued | Gone | TxFailed | Flattened num

definition flatten_trade :: "'d market \<Rightarrow> string \<Rightarrow> trade \<Rightarrow> db \<Rightarrow> flatten_outcome \<times> db" where
  "flatten_trade m reason r t =
     (case mt_tenant m (trade_instrument r) of
        None \<Rightarrow> (Unpriced, t)
      | Some q \<Rightarrow>
          (case row_pnl m r (market_side r q) None of
             Inl _ \<Rightarrow> (Unvalued, t)
           | Inr pnl \<Rightarrow>
               (case or_rollback (flatten_body reason r (market_side r q) pnl) (pool_conn t) of
                  (Inr (Some _), c) \<Rightarrow> (Flattened pnl, tabs c)
                | (Inr None, c) \<Rightarrow> (Gone, tabs c)
                | (Inl _, c) \<Rightarrow> (TxFailed, tabs c))))"

text \<open>The outcomes of the loop, in order.\<close>

fun flatten_all :: "'d market \<Rightarrow> string \<Rightarrow> trade list \<Rightarrow> db \<Rightarrow> flatten_outcome list \<times> db" where
  "flatten_all m reason [] t = ([], t)"
| "flatten_all m reason (r # rs) t =
     (let (x, t1) = flatten_trade m reason r t; (xs, t2) = flatten_all m reason rs t1 in (x # xs, t2))"

text \<open>In order of their first occurrence, as a Set iterates.\<close>

definition unique_users :: "(trade \<times> account) list \<Rightarrow> string option list" where
  "unique_users rows = rev (remdups (rev (map (\<lambda>(r, a). acc_user a) rows)))"

definition with_status :: "string \<Rightarrow> db \<Rightarrow> (trade \<times> account) list" where
  "with_status st t = joined (\<lambda>r a. trade_status r = Some st) t"

definition day_key_of :: "int \<Rightarrow> string" where
  "day_key_of t = take 10 (iso_str t)"

section \<open>The weekend\<close>

definition cancel_order :: "string \<Rightarrow> db \<Rightarrow> db" where
  "cancel_order i t =
     (case query (cancel_stmt (\<lambda>r. trade_id r = i \<and> trade_status r = Some ''pending'') ''Weekend holding disabled'') (pool_conn t) of
        (_, c) \<Rightarrow> tabs c)"

text \<open>Only an error outside the transaction counts, and a trade without a quote is none.\<close>

definition weekendForceCloseByTenant :: "'d market \<Rightarrow> session \<Rightarrow> session" where
  "weekendForceCloseByTenant m s =
     (let t = mt_time m; mins = utc_minutes t; key = day_key_of t in
      if utc_day t \<noteq> 5 then s
      else if \<not> (21 * 60 \<le> mins \<and> mins < 21 * 60 + 10) then s
      else if ss_weekend s = key then s
      else
        (let opens = with_status ''open'' (ss_db s); pendings = with_status ''pending'' (ss_db s) in
         if opens = [] \<and> pendings = [] then s
         else if ru_weekend (mt_rules m) then s
         else
           (let (outcomes, t1) = flatten_all m ''Weekend Close'' (map fst opens) (ss_db s);
                t2 = fold (\<lambda>(r, a). cancel_order (trade_id r)) pendings t1;
                s1 = session_emit (map WeekendNotice (unique_users (opens @ pendings))) (s\<lparr>ss_db := t2\<rparr>)
            in if Unvalued \<in> set outcomes then s1 else s1\<lparr>ss_weekend := key\<rparr>)))"

section \<open>The end of the day\<close>

text \<open>\<open>overnight\<close> is the column allow_overnight of the models, by slug.\<close>

definition flat_rows :: "(string \<Rightarrow> bool option) \<Rightarrow> db \<Rightarrow> (trade \<times> account) list" where
  "flat_rows overnight t =
     joined (\<lambda>r a. trade_status r = Some ''open'' \<and>
       (case challenge_model_slug a of None \<Rightarrow> False | Some slug \<Rightarrow> overnight slug = Some False)) t"

definition flatByCloseForAccounts :: "'d market \<Rightarrow> (string \<Rightarrow> bool option) \<Rightarrow> session \<Rightarrow> session" where
  "flatByCloseForAccounts m overnight s =
     (let t = mt_time m; mins = utc_minutes t; key = day_key_of t in
      if \<not> (23 * 60 \<le> mins \<and> mins < 23 * 60 + 10) then s
      else if ss_flat s = key then s
      else
        (let opens = flat_rows overnight (ss_db s) in
         if opens = [] then s\<lparr>ss_flat := key\<rparr>
         else
           (let (outcomes, t1) = flatten_all m ''Flat By Close'' (map fst opens) (ss_db s);
                s1 = session_emit (map FlatNotice (unique_users opens)) (s\<lparr>ss_db := t1\<rparr>)
            in if Unvalued \<in> set outcomes then s1 else s1\<lparr>ss_flat := key\<rparr>)))"

section \<open>News\<close>

definition news_id :: "news_event \<Rightarrow> string" where
  "news_id e = ne_title e @ ''_'' @ num_str (mk (of_int (ne_at e)))"

text \<open>Whatever did not close its trade counts, except that the row was no longer open.\<close>

definition news_error :: "flatten_outcome \<Rightarrow> bool" where
  "news_error x \<longleftrightarrow> x \<in> {Unpriced, Unvalued, TxFailed}"

definition news_notices :: "(trade \<times> account) list \<Rightarrow> flatten_outcome list \<Rightarrow> session_event list" where
  "news_notices rows outcomes =
     List.map_filter (\<lambda>((r, a), x). case x of Flattened pnl \<Rightarrow> Some (NewsClosed (acc_user a) (trade_id r) pnl) | _ \<Rightarrow> None) (zip rows outcomes)"

definition checkNewsForceClose :: "'d market \<Rightarrow> news_event list \<Rightarrow> session \<Rightarrow> session" where
  "checkNewsForceClose m events s =
     (case getActiveNewsEvent events (mt_time m) 3 of
        None \<Rightarrow> s\<lparr>ss_news := []\<rparr>
      | Some activeNews \<Rightarrow>
          if ss_news s = news_id activeNews then s
          else
            (let opens = with_status ''open'' (ss_db s) in
             if opens = [] then s
             else
               (let (outcomes, t1) = flatten_all m ''News Force Close'' (map fst opens) (ss_db s);
                    s1 = session_emit (news_notices opens outcomes) (s\<lparr>ss_db := t1\<rparr>)
                in if list_ex news_error outcomes then s1\<lparr>ss_news := []\<rparr> else s1\<lparr>ss_news := news_id activeNews\<rparr>)))"

end
