(* ===== verification/TradeDesk.thy ===== *)
theory TradeDesk
  imports SessionCloses
begin

text \<open>
  What the trading routes of a trader share (routes/trades): their answers, the check of a lot size
  (utils/validation.ts), the settings by tier and instrument (utils/tenantSettings.ts), slippage, and the hints by which
  one process tells the engine of a change (services/tradeIndexSync.ts).
\<close>

section \<open>What a route works with\<close>

text \<open>
  \<open>dk_live\<close> is the quote of the tenant with the time of its update, Inl the code of the error it throws; \<open>dk_digits\<close> the
  decimal a Decimal is written as; \<open>dk_tiers\<close> the parsed JSON text of a setting; \<open>dk_account\<close> the answer of the index's
  query for an account; \<open>dk_fresh\<close> the identifier the next inserted trade gets.
\<close>

record 'd desk = "'d market" +
  dk_digits :: "'d \<Rightarrow> rat"
  dk_live :: "string \<Rightarrow> string + quote \<times> int option"
  dk_random :: num
  dk_tiers :: "string \<Rightarrow> (string \<times> (string \<times> jsval) list) list"
  dk_models :: "string \<Rightarrow> unit + funded_model option"
  dk_account :: "string \<Rightarrow> unit + index_row option"
  dk_fresh :: string
  dk_events :: "news_event list"

datatype published =
    PubOpen trade_row "num option" "num option"
  | PubPending pending_row
  | PubClosed string string num "num option"

record shop =
  sh_engine :: engine
  sh_published :: "published list"

type_synonym refusal = "nat \<times> string"

text \<open>BEGIN, a body, COMMIT; a refusal of the body or an error rolls back.\<close>

definition replied :: "(db, refusal + 'a) tx \<Rightarrow> (db, refusal + 'a) tx" where
  "replied body c =
     (case body (begin_tx c) of
        (Inr (Inr x), c') \<Rightarrow> (Inr (Inr x), commit_tx c')
      | (r, c') \<Rightarrow> (r, rollback_tx c'))"

text \<open>An error that reaches the handler is answered with 500 and its text.\<close>

definition settled_with :: "string \<Rightarrow> js_error + (refusal + 'a) \<Rightarrow> refusal + 'a" where
  "settled_with failure r = (case r of Inl _ \<Rightarrow> Inl (500, failure) | Inr x \<Rightarrow> x)"

definition at_desk :: "string \<Rightarrow> (db, refusal + 'a) tx \<Rightarrow> shop \<Rightarrow> (refusal + 'a) \<times> shop" where
  "at_desk failure m s =
     (case m (pool_conn (en_db (sh_engine s))) of
        (r, c) \<Rightarrow> (settled_with failure r, s\<lparr>sh_engine := (sh_engine s)\<lparr>en_db := tabs c\<rparr>\<rparr>))"

definition put_index :: "(trade_index \<Rightarrow> trade_index) \<Rightarrow> shop \<Rightarrow> shop" where
  "put_index f s = s\<lparr>sh_engine := (sh_engine s)\<lparr>en_index := f (en_index (sh_engine s))\<rparr>\<rparr>"

definition publishTradeIndex :: "published \<Rightarrow> shop \<Rightarrow> shop" where
  "publishTradeIndex p s = s\<lparr>sh_published := sh_published s @ [p]\<rparr>"

section \<open>Lot sizes\<close>

text \<open>\<open>x % 1 === 0\<close> of a finite Number.\<close>

fun whole :: "num \<Rightarrow> bool" where
  "whole (Fin q) = (of_int \<lfloor>q\<rfloor> = q)"
| "whole _ = False"

definition isValidLotSize :: "jsval \<Rightarrow> bool" where
  "isValidLotSize lotSize =
     (let lot = parse_float lotSize in
      if is_nan lot \<or> nlt lot (mk (1 / 100)) \<or> nlt (Fin 1000) lot then False
      else whole (math_round (nmul lot (Fin 100))))"

definition normalizePositiveNumber :: "jsval \<Rightarrow> num option" where
  "normalizePositiveNumber value =
     (if value = JText [] \<or> nullish value then None
      else let parsed = parse_float value in if is_finite parsed \<and> nlt (Fin 0) parsed then Some parsed else None)"

section \<open>Settings by tier\<close>

definition normalizeAccountTypeTier :: "string \<Rightarrow> string" where
  "normalizeAccountTypeTier accountType =
     (let t = to_lower accountType in if t = ''funded'' then ''funded'' else if t = ''competition'' then ''competition'' else ''challenge'')"

definition tier_value :: "(string \<times> (string \<times> jsval) list) list \<Rightarrow> string \<Rightarrow> string \<Rightarrow> num" where
  "tier_value m tier key =
     (case map_of m tier of None \<Rightarrow> NaN | Some xs \<Rightarrow> (case map_of xs key of None \<Rightarrow> NaN | Some v \<Rightarrow> to_number v))"

text \<open>The first finite one of the tier's and the global values, else the fallback.\<close>

definition resolveTieredInstrumentSetting :: "(string \<times> (string \<times> jsval) list) list \<Rightarrow> string \<Rightarrow> string \<Rightarrow> num \<Rightarrow> num" where
  "resolveTieredInstrumentSetting m accountType instrument fallback =
     (let tier = normalizeAccountTypeTier accountType in
      case List.find is_finite [tier_value m tier instrument, tier_value m tier ''*'', tier_value m ''*'' instrument, tier_value m ''*'' ''*''] of
        Some x \<Rightarrow> x
      | None \<Rightarrow> fallback)"

text \<open>A missing text is the empty map.\<close>

definition tiers_of :: "('d, 'more) desk_scheme \<Rightarrow> string option \<Rightarrow> (string \<times> (string \<times> jsval) list) list" where
  "tiers_of m text = (case given text of None \<Rightarrow> [] | Some x \<Rightarrow> dk_tiers m x)"

definition slippage_limit :: "'d desk \<Rightarrow> string \<Rightarrow> string \<Rightarrow> num" where
  "slippage_limit m accountType instrument =
     resolveTieredInstrumentSetting (tiers_of m (ru_slippage_json (mt_rules m))) accountType instrument (ru_slippage_max (mt_rules m))"

text \<open>The draw in pips, from minus to plus the limit.\<close>

definition slippage_pips :: "'d desk \<Rightarrow> num \<Rightarrow> num" where
  "slippage_pips m limit = nmul (nsub (nmul (dk_random m) (Fin 2)) (Fin 1)) limit"

section \<open>Hints to the engine\<close>

definition index_opened :: "'d desk \<Rightarrow> trade_row \<Rightarrow> trade_index \<Rightarrow> trade_index" where
  "index_opened m r ix = snd (syncOpenedTrade (mt_env m) (mt_cache m) (mt_time m) (dk_models m) (dk_account m (tr_account r)) r ix)"

definition index_pending :: "'d desk \<Rightarrow> pending_row \<Rightarrow> trade_index \<Rightarrow> trade_index" where
  "index_pending m r ix = snd (syncPendingOrder (mt_time m) (dk_models m) (dk_account m (pr_account r)) r ix)"

definition balance_hint :: "string \<Rightarrow> num option \<Rightarrow> trade_index \<Rightarrow> trade_index" where
  "balance_hint i balance ix = (case balance of None \<Rightarrow> ix | Some b \<Rightarrow> updateAccountBalance i (JNum b) ix)"

definition applyMutation :: "'d desk \<Rightarrow> published \<Rightarrow> trade_index \<Rightarrow> trade_index" where
  "applyMutation m p ix =
     (case p of
        PubOpen r pnl balance \<Rightarrow>
          (let ix1 = index_opened m r ix;
               ix2 = (case pnl of None \<Rightarrow> ix1 | Some x \<Rightarrow> applyRealizedPnl (mt_time m) (tr_account r) (JNum x) ix1)
           in balance_hint (tr_account r) balance ix2)
      | PubPending r \<Rightarrow> index_pending m r ix
      | PubClosed tradeId accountId pnl balance \<Rightarrow>
          (let ix1 = syncClosedTrade (mt_time m) tradeId (Some accountId) (Some pnl) ix
           in if getAccountEntry ix1 accountId = None then ix1 else balance_hint accountId balance ix1))"

end
