(* ===== verification/ManualClose.thy ===== *)
theory ManualClose
  imports TradeDesk
begin

text \<open>
  routes/trades/close.ts: the trader closes a trade, in part or as a whole, or cancels a pending order. A request runs
  without interleaving at its awaits, so the row is never found locked by someone else; screenshots are left out.
\<close>

section \<open>The request\<close>

text \<open>A trade id that is absent or empty is None; JUndef and JNull ask for the whole trade.\<close>

record close_request =
  cq_user :: string
  cq_trade :: "string option"
  cq_lots :: jsval

record close_done =
  cx_pnl :: num
  cx_price :: num
  cx_partial :: bool
  cx_left :: num

section \<open>What is closed and what is left\<close>

record 'd split =
  sp_lots :: 'd
  sp_number :: num
  sp_left :: 'd
  sp_left_number :: num
  sp_partial :: bool
  sp_commission :: num
  sp_left_commission :: num

definition close_failed :: refusal where
  "close_failed = (500, ''Could not close trade'')"

definition commission_val :: "trade \<Rightarrow> jsval" where
  "commission_val r =
     (case trade_commission r of
        Some c \<Rightarrow> numeric_val c
      | None \<Rightarrow> (case trade_original_commission r of Some c \<Rightarrow> numeric_val c | None \<Rightarrow> JNum (Fin 0)))"

definition min_lots :: "trading_rules \<Rightarrow> num" where
  "min_lots rules = (if truthy (JNum (ru_min_lot rules)) then ru_min_lot rules else mk (1 / 100))"

definition split_trade :: "'d engine_arith \<Rightarrow> trading_rules \<Rightarrow> num option \<Rightarrow> trade \<Rightarrow> refusal + 'd split" where
  "split_trade D rules wanted r =
     (case (da_new D (JNumeric (trade_lots r)), da_new D (commission_val r)) of
        (Some currentLotSize, Some originalCommission) \<Rightarrow>
          (let minLotSize = min_lots rules;
               closeLots = (case wanted of None \<Rightarrow> currentLotSize | Some x \<Rightarrow> da_from D x);
               closeLotsNumber = da_num D closeLots;
               leftDecimal = da_cents D (da_minus D currentLotSize closeLots);
               remainingLots = da_num D leftDecimal;
               isPartial = nlt (Fin 0) remainingLots;
               ratio = da_div D closeLots currentLotSize;
               partialCommission = da_num D (da_cents D (da_times D originalCommission ratio))
           in if da_le D closeLots (da_from D (Fin 0)) \<or> \<not> da_le D closeLots currentLotSize then Inl (400, ''Invalid close amount'')
              else if \<not> isValidLotSize (JNum closeLotsNumber) then Inl (400, ''Close amount must be in 0.01 lot steps'')
              else if isPartial \<and> (nlt remainingLots minLotSize \<or> \<not> isValidLotSize (JNum remainingLots)) then
                Inl (400, ''Partial close must leave at least '' @ fixed_str 2 minLotSize @ '' lots open'')
              else Inr \<lparr>sp_lots = closeLots, sp_number = closeLotsNumber, sp_left = leftDecimal, sp_left_number = remainingLots, sp_partial = isPartial,
                        sp_commission = partialCommission,
                        sp_left_commission = da_num D (da_cents D (da_minus D originalCommission (da_from D partialCommission)))\<rparr>)
      | _ \<Rightarrow> Inl close_failed)"

section \<open>The statements\<close>

text \<open>The commission goes into a NUMERIC(15,2) and a NUMERIC(10,2) column.\<close>

definition part_row :: "int \<Rightarrow> string \<Rightarrow> trade \<Rightarrow> rat \<Rightarrow> num \<Rightarrow> num \<Rightarrow> num \<Rightarrow> string + trade" where
  "part_row t i r lots price pnl commission =
     sum_bind (numeric_scaled 10 4 lots) (\<lambda>l.
     sum_bind (bind_num price) (\<lambda>q. sum_bind (numeric_scaled 15 5 q) (\<lambda>p.
     sum_bind (bind_num pnl) (\<lambda>q2. sum_bind (numeric15_2 q2) (\<lambda>k.
     sum_bind (bind_num commission) (\<lambda>q3. sum_bind (numeric15_2 q3) (\<lambda>c.
       if 10 ^ 10 \<le> \<bar>c\<bar> then Inl ''22003''
       else Inr \<lparr>trade_id = i, trade_account = trade_account r, trade_status = Some ''closed'', demo_pnl = Some k,
                 trade_instrument = trade_instrument r, trade_direction = trade_direction r, trade_lots = l,
                 trade_open_price = trade_open_price r, trade_close_price = Some p, trade_open_time = trade_open_time r,
                 trade_close_time = Some t, trade_sl = None, trade_tp = None, trade_order_type = Some ''market'', trade_pending_price = None,
                 trade_reason = Some ''Manual Partial Close'', trade_commission = Some c, trade_oco = None, trade_deferred_price = None,
                 trade_deferred_reason = None, trade_deferred_at = None, trade_original_commission = Some c,
                 trade_parent = Some (trade_id r), trade_partial = True, trade_slippage = Some 0\<rparr>)))))))"

definition insert_trade :: "trade \<Rightarrow> db \<Rightarrow> string + trade \<times> db" where
  "insert_trade r t = (if get_trade (trade_id r) t \<noteq> None then Inl ''23505'' else Inr (r, t\<lparr>trades := trades t @ [r]\<rparr>))"

definition part_stmt :: "string \<Rightarrow> trade \<Rightarrow> rat \<Rightarrow> num \<Rightarrow> num \<Rightarrow> num \<Rightarrow> db \<Rightarrow> string + trade \<times> db" where
  "part_stmt i r lots price pnl commission t = sum_bind (part_row (now t) i r lots price pnl commission) (\<lambda>x. insert_trade x t)"

definition rest_stmt :: "string \<Rightarrow> rat \<Rightarrow> num \<Rightarrow> db \<Rightarrow> string + unit \<times> db" where
  "rest_stmt i lots commission t =
     sum_bind (numeric_scaled 10 4 lots) (\<lambda>l. sum_bind (bind_num commission) (\<lambda>q. sum_bind (numeric15_2 q) (\<lambda>c.
       Inr ((), t\<lparr>trades := update_by trade_id i (\<lambda>r. r\<lparr>trade_lots := l, trade_commission := Some c\<rparr>) (trades t)\<rparr>))))"

definition book_close :: "'d desk \<Rightarrow> trade \<Rightarrow> 'd split \<Rightarrow> num \<Rightarrow> num \<Rightarrow> (db, unit) tx" where
  "book_close m r sp price pnl =
     (if sp_partial sp then
        tx_bind (query (part_stmt (dk_fresh m) r (dk_digits m (sp_lots sp)) price pnl (sp_commission sp))) (\<lambda>_.
          query (rest_stmt (trade_id r) (dk_digits m (sp_left sp)) (sp_left_commission sp)))
      else query (close_stmt (\<lambda>_. True) clear_deferred [\<lparr>cl_trade = trade_id r, cl_price = price, cl_pnl = pnl, cl_reason = ''Manual Close''\<rparr>]))"

definition split_pnl :: "'d desk \<Rightarrow> trade \<Rightarrow> 'd split \<Rightarrow> num \<Rightarrow> refusal + num" where
  "split_pnl m r sp price =
     (case calculatePnL (mt_arith m) (mt_env m) (mt_cache m) (trade_direction r) (opt_numeric (trade_open_price r)) (JNum price)
             (JNum (sp_number sp)) (trade_instrument r) (JNum (sp_commission sp)) None of
        Inr pnl \<Rightarrow> Inr pnl
      | Inl (PnlFx _) \<Rightarrow>
          Inl (503, ''This position cannot be closed right now because a currency rate is unavailable. Your position is unchanged. Please try again shortly.'')
      | Inl PnlDecimal \<Rightarrow> Inl close_failed)"

text \<open>The locked row, its split and its result.\<close>

definition close_body :: "'d desk \<Rightarrow> string \<Rightarrow> num option \<Rightarrow> num \<Rightarrow> (db, refusal + trade \<times> 'd split \<times> num) tx" where
  "close_body m i wanted price =
     tx_bind (select (get_trade i)) (\<lambda>locked.
       case locked of
         None \<Rightarrow> tx_return (Inl (404, ''Trade not found or already closed''))
       | Some r \<Rightarrow>
           if trade_status r \<noteq> Some ''open'' then tx_return (Inl (409, ''Trade was already processed. Refreshing latest trade state.''))
           else
             (case split_trade (mt_arith m) (mt_rules m) wanted r of
                Inl e \<Rightarrow> tx_return (Inl e)
              | Inr sp \<Rightarrow>
                  (case split_pnl m r sp price of
                     Inl e \<Rightarrow> tx_return (Inl e)
                   | Inr pnl \<Rightarrow>
                       tx_bind (book_close m r sp price pnl) (\<lambda>_.
                       tx_bind (query (credit_stmt (text_or_empty (trade_account r)) pnl)) (\<lambda>_. tx_return (Inr (r, sp, pnl)))))))"

section \<open>The index and the answer\<close>

text \<open>The row rebuilt for the index carries neither level.\<close>

definition rest_row :: "trade \<Rightarrow> 'd split \<Rightarrow> trade_row" where
  "rest_row r sp =
     (index_trade_row r)\<lparr>tr_lots := JNum (sp_left_number sp), tr_commission := JNum (sp_left_commission sp), tr_sl := JUndef, tr_tp := JUndef\<rparr>"

definition sync_close :: "'d desk \<Rightarrow> trade \<Rightarrow> 'd split \<Rightarrow> num \<Rightarrow> shop \<Rightarrow> shop" where
  "sync_close m r sp pnl s =
     (let accountId = text_or_empty (trade_account r);
          currentBalance = map_option (\<lambda>a. nadd (ae_balance a) pnl) (getAccountEntry (en_index (sh_engine s)) accountId)
      in if sp_partial sp then
           publishTradeIndex (PubOpen (rest_row r sp) (Some pnl) currentBalance)
             (put_index (\<lambda>ix. balance_hint accountId currentBalance
                (applyRealizedPnl (mt_time m) accountId (JNum pnl) (index_opened m (rest_row r sp) ix))) s)
         else
           put_index (balance_hint accountId currentBalance)
             (publishTradeIndex (PubClosed (trade_id r) accountId pnl currentBalance)
               (put_index (syncClosedTrade (mt_time m) (trade_id r) (Some accountId) (Some pnl)) s)))"

definition seconds_open :: "int \<Rightarrow> int option \<Rightarrow> num" where
  "seconds_open t opened = (case opened of None \<Rightarrow> NaN | Some x \<Rightarrow> ndiv (Fin (of_int (t - x))) (Fin 1000))"

definition too_old :: "int \<Rightarrow> int option \<Rightarrow> bool" where
  "too_old t updated = (case updated of None \<Rightarrow> False | Some x \<Rightarrow> t - x > 10000)"

definition close_price :: "'d desk \<Rightarrow> trade \<Rightarrow> account \<Rightarrow> quote \<Rightarrow> num" where
  "close_price m r a q =
     (let base_price = market_side r q; limit = slippage_limit m (acc_type a) (trade_instrument r);
          slip = nmul (slippage_pips m limit) (getPipSize (Some (trade_instrument r)))
      in if ru_slippage_on (mt_rules m) \<and> nlt (Fin 0) limit
         then roundPrice (JNum (if trade_direction r = ''buy'' then nsub base_price slip else nadd base_price slip)) (Some (trade_instrument r))
         else base_price)"

definition hold_message :: "num \<Rightarrow> num \<Rightarrow> string" where
  "hold_message minHold secondsOpen =
     ''Minimum trade duration is '' @ num_str minHold @ '' seconds. Please wait '' @ num_str (math_ceil (nsub minHold secondsOpen)) @ '' more seconds.''"

definition closeTradeHandler :: "'d desk \<Rightarrow> close_request \<Rightarrow> shop \<Rightarrow> (refusal + close_done) \<times> shop" where
  "closeTradeHandler m rq s =
     (case given (cq_trade rq) of
        None \<Rightarrow> (Inl (400, ''Trade ID required''), s)
      | Some i \<Rightarrow>
     (case joined (\<lambda>r a. trade_id r = i \<and> trade_status r = Some ''open'') (en_db (sh_engine s)) of
        [] \<Rightarrow> (Inl (404, ''Trade not found or already closed''), s)
      | (r, a) # _ \<Rightarrow>
          (let secondsOpen = seconds_open (mt_time m) (trade_open_time r);
               market_state = getMarketStatus ''close'' (mt_time m)
           in if acc_user a \<noteq> Some (cq_user rq) then (Inl (403, ''Unauthorized''), s)
              else if nlt secondsOpen (ru_min_hold (mt_rules m)) then (Inl (400, hold_message (ru_min_hold (mt_rules m)) secondsOpen), s)
              else if \<not> fst market_state then (Inl (400, ''Cannot close trade: '' @ snd market_state), s)
              else
                (case dk_live m (trade_instrument r) of
                   Inl _ \<Rightarrow> (Inl close_failed, s)
                 | Inr (q, updated) \<Rightarrow>
                     if too_old (mt_time m) updated
                     then (Inl (400, ''Price feed is currently delayed. Close rejected due to volatility protection/latency.''), s)
                     else
                       (let price = close_price m r a q;
                            wanted = (if nullish (cq_lots rq) then None else Some (parse_float (cq_lots rq)))
                        in if (case wanted of None \<Rightarrow> False | Some x \<Rightarrow> \<not> is_finite x) then (Inl (400, ''Invalid close amount''), s)
                           else
                             (case at_desk ''Could not close trade'' (replied (close_body m i wanted price)) s of
                                (Inl e, s1) \<Rightarrow> (Inl e, s1)
                              | (Inr (locked, sp, pnl), s1) \<Rightarrow>
                                  (Inr \<lparr>cx_pnl = pnl, cx_price = price, cx_partial = sp_partial sp, cx_left = sp_left_number sp\<rparr>,
                                   sync_close m locked sp pnl s1)))))))"

section \<open>Cancelling an order\<close>

definition cancelTradeHandler :: "string \<Rightarrow> string option \<Rightarrow> shop \<Rightarrow> (refusal + unit) \<times> shop" where
  "cancelTradeHandler user tradeId s =
     (case given tradeId of
        None \<Rightarrow> (Inl (400, ''Trade ID required''), s)
      | Some i \<Rightarrow>
     (case joined (\<lambda>r a. trade_id r = i \<and> trade_status r = Some ''pending'') (en_db (sh_engine s)) of
        [] \<Rightarrow> (Inl (404, ''Pending order not found''), s)
      | (r, a) # _ \<Rightarrow>
          if acc_user a \<noteq> Some user then (Inl (403, ''Unauthorized''), s)
          else
            (case at_desk ''Could not cancel order''
                (tx_bind (query (cancel_stmt (\<lambda>x. trade_id x = i \<and> trade_status x = Some ''pending'') ''Cancelled by trader'')) (\<lambda>cancelled.
                  tx_return (if cancelled = [] then Inl (409, ''Pending order was already processed'') else Inr ()))) s of
               (Inl e, s1) \<Rightarrow> (Inl e, s1)
             | (Inr _, s1) \<Rightarrow> (Inr (), put_index (\<lambda>ix. snd (removePending i ix)) s1))))"

end
