(* ===== verification/TradeEdits.thy ===== *)
theory TradeEdits
  imports ManualClose
begin

text \<open>
  routes/trades/batch.ts (closing all winning or losing trades of an account, or moving the winning ones to breakeven) and
  routes/trades/modify.ts (moving the levels of a trade or of a pending order). The steps of a batch are
  transactions of their own; an error between them ends the request after what is done.
\<close>

section \<open>Batches\<close>

datatype batch_action = CloseWinning | CloseLosing | BreakevenWinning

definition action_label :: "batch_action \<Rightarrow> string" where
  "action_label a = (case a of CloseWinning \<Rightarrow> ''close winning'' | CloseLosing \<Rightarrow> ''close losing'' | BreakevenWinning \<Rightarrow> ''breakeven winning'')"

definition actionMatches :: "batch_action \<Rightarrow> num \<Rightarrow> bool" where
  "actionMatches a pnl = (if a = CloseLosing then nlt pnl (Fin 0) else nlt (Fin 0) pnl)"

datatype batch_outcome = MinHold | NoPrice | NoMatch | LockedOut | StepError | Affected

definition skipped_of :: "batch_outcome \<Rightarrow> batch_outcome list \<Rightarrow> nat" where
  "skipped_of k xs = length (filter (\<lambda>x. x = k) xs)"

definition successMessage :: "batch_action \<Rightarrow> batch_outcome list \<Rightarrow> string" where
  "successMessage a xs =
     (let affected = skipped_of Affected xs; skippedCount = length xs - affected;
          n = (\<lambda>k. int_str (int k))
      in if affected = 0 then
           (if 0 < skipped_of MinHold xs then
              ''No trades closed yet. '' @ n (skipped_of MinHold xs) @ '' trade(s) are still inside the minimum hold time.''
            else if 0 < skipped_of NoMatch xs then
              (case a of
                 CloseWinning \<Rightarrow> ''No winning trades are available to close right now.''
               | CloseLosing \<Rightarrow> ''No losing trades are available to close right now.''
               | BreakevenWinning \<Rightarrow> ''No profitable trades are available to move to breakeven right now.'')
            else if 0 < skipped_of NoPrice xs then
              ''Live price data is unavailable for the selected trade(s). Please try again in a moment.''
            else ''No trades were updated for batch '' @ action_label a @ ''.'')
         else if 0 < skippedCount then
           ''Batch '' @ action_label a @ '' completed. '' @ n affected @ '' trade(s) updated, '' @ n skippedCount @ '' skipped.''
         else ''Batch '' @ action_label a @ '' completed successfully'')"

text \<open>A level goes into a NUMERIC(12,5) column.\<close>

definition level_value :: "rat option \<Rightarrow> string + rat option" where
  "level_value v = (case v of None \<Rightarrow> Inr None | Some q \<Rightarrow> sum_bind (numeric_scaled 12 5 q) (\<lambda>x. Inr (Some x)))"

definition stop_stmt :: "string \<Rightarrow> rat option \<Rightarrow> db \<Rightarrow> string + unit \<times> db" where
  "stop_stmt i v t =
     (if get_trade i t = None then Inr ((), t)
      else sum_bind (level_value v) (\<lambda>x. Inr ((), t\<lparr>trades := update_by trade_id i (\<lambda>r. r\<lparr>trade_sl := x\<rparr>) (trades t)\<rparr>)))"

text \<open>None when the trade is no longer open.\<close>

definition batch_body :: "batch_action \<Rightarrow> trade \<Rightarrow> num \<Rightarrow> num \<Rightarrow> (db, unit option) tx" where
  "batch_body a r price pnl =
     tx_bind (select (is_open (trade_id r))) (\<lambda>locked.
       if \<not> locked then tx_return None
       else if a = BreakevenWinning then tx_bind (query (stop_stmt (trade_id r) (trade_open_price r))) (\<lambda>_. tx_return (Some ()))
       else
         tx_bind (query (exit_stmt (trade_id r) (AtQuote price) pnl ''Batch Close'')) (\<lambda>_.
         tx_bind (query (credit_stmt (text_or_empty (trade_account r)) pnl)) (\<lambda>_. tx_return (Some ()))))"

definition batch_pnl :: "'d desk \<Rightarrow> trade \<Rightarrow> num \<Rightarrow> pnl_error + num" where
  "batch_pnl m r price =
     calculatePnL (mt_arith m) (mt_env m) (mt_cache m) (trade_direction r) (JNum (to_number (opt_numeric (trade_open_price r)))) (JNum price)
       (JNum (to_number (JNumeric (trade_lots r)))) (trade_instrument r)
       (JNum (to_number (js_or (opt_money (trade_commission r)) (JNum (Fin 0))))) None"

definition breakeven_row :: "trade \<Rightarrow> trade_row" where
  "breakeven_row r = (index_trade_row r)\<lparr>tr_sl := opt_numeric (trade_open_price r), tr_pending_close := opt_numeric (trade_deferred_price r),
     tr_pending_reason := trade_deferred_reason r\<rparr>"

text \<open>The entry is updated in place before its balance is read again for the hint.\<close>

definition sync_batch_close :: "'d desk \<Rightarrow> trade \<Rightarrow> num \<Rightarrow> shop \<Rightarrow> shop" where
  "sync_batch_close m r pnl s =
     (let accountId = text_or_empty (trade_account r);
          s1 = put_index (syncClosedTrade (mt_time m) (trade_id r) (Some accountId) (Some pnl)) s;
          s2 = (case getAccountEntry (en_index (sh_engine s1)) accountId of
                  None \<Rightarrow> s1
                | Some b \<Rightarrow> put_index (updateAccountBalance accountId (JNum (nadd (ae_balance b) pnl))) s1)
      in publishTradeIndex (PubClosed (trade_id r) accountId pnl
           (map_option (\<lambda>b. nadd (ae_balance b) pnl) (getAccountEntry (en_index (sh_engine s2)) accountId))) s2)"

definition batch_apply :: "'d desk \<Rightarrow> batch_action \<Rightarrow> trade \<Rightarrow> num \<Rightarrow> num \<Rightarrow> shop \<Rightarrow> batch_outcome \<times> shop" where
  "batch_apply m a r price pnl s =
     (case or_rollback (batch_body a r price pnl) (pool_conn (en_db (sh_engine s))) of
        (x, c) \<Rightarrow>
          (let s1 = s\<lparr>sh_engine := (sh_engine s)\<lparr>en_db := tabs c\<rparr>\<rparr> in
           case x of
             Inl _ \<Rightarrow> (StepError, s1)
           | Inr None \<Rightarrow> (LockedOut, s1)
           | Inr (Some _) \<Rightarrow>
               (Affected,
                if a = BreakevenWinning then publishTradeIndex (PubOpen (breakeven_row r) None None) (put_index (index_opened m (breakeven_row r)) s1)
                else sync_batch_close m r pnl s1)))"

definition batch_price :: "'d desk \<Rightarrow> trade \<Rightarrow> num option" where
  "batch_price m r =
     (case dk_live m (trade_instrument r) of
        Inl _ \<Rightarrow> None
      | Inr (q, _) \<Rightarrow> if is_finite (market_side r q) then Some (market_side r q) else None)"

text \<open>Inl when the value of a trade cannot be computed, which ends the request.\<close>

definition batch_step :: "'d desk \<Rightarrow> batch_action \<Rightarrow> trade \<Rightarrow> shop \<Rightarrow> (unit + batch_outcome) \<times> shop" where
  "batch_step m a r s =
     (if a \<noteq> BreakevenWinning \<and> nlt (seconds_open (mt_time m) (trade_open_time r)) (ru_min_hold (mt_rules m)) then (Inr MinHold, s)
      else
        (case batch_price m r of
           None \<Rightarrow> (Inr NoPrice, s)
         | Some price \<Rightarrow>
             (case batch_pnl m r price of
                Inl _ \<Rightarrow> (Inl (), s)
              | Inr pnl \<Rightarrow>
                  if \<not> actionMatches a pnl then (Inr NoMatch, s)
                  else (case batch_apply m a r price pnl s of (x, s1) \<Rightarrow> (Inr x, s1)))))"

fun batch_loop :: "'d desk \<Rightarrow> batch_action \<Rightarrow> trade list \<Rightarrow> shop \<Rightarrow> (unit + batch_outcome list) \<times> shop" where
  "batch_loop m a [] s = (Inr [], s)"
| "batch_loop m a (r # rs) s =
     (case batch_step m a r s of
        (Inl e, s1) \<Rightarrow> (Inl e, s1)
      | (Inr x, s1) \<Rightarrow>
          (case batch_loop m a rs s1 of (Inl e, s2) \<Rightarrow> (Inl e, s2) | (Inr xs, s2) \<Rightarrow> (Inr (x # xs), s2)))"

record batch_request =
  bq_user :: string
  bq_action :: "batch_action option"
  bq_account :: string

definition batchActionHandler :: "'d desk \<Rightarrow> batch_request \<Rightarrow> shop \<Rightarrow> (refusal + string \<times> batch_outcome list) \<times> shop" where
  "batchActionHandler m rq s =
     (case bq_action rq of
        None \<Rightarrow> (Inl (400, ''Invalid batch action or account ID''), s)
      | Some a \<Rightarrow>
          if bq_account rq = [] then (Inl (400, ''Invalid batch action or account ID''), s)
          else
            (let rows = map fst (joined (\<lambda>r x. acc_user x = Some (bq_user rq) \<and> trade_account r = Some (bq_account rq) \<and>
                   trade_status r = Some ''open'') (en_db (sh_engine s)));
                 market_state = getMarketStatus ''close'' (mt_time m)
             in if rows = [] then (Inr (''No open trades to process'', []), s)
                else
                  (case (if a = BreakevenWinning then None else getActiveNewsEvent (dk_events m) (mt_time m) 3) of
                     Some e \<Rightarrow> (Inl (400, ''Cannot close trades. USD High-impact news event '' @ [CHR 0x27] @ ne_title e @ [CHR 0x27] @ '' is active.''), s)
                   | None \<Rightarrow>
                       if a \<noteq> BreakevenWinning \<and> \<not> fst market_state then (Inl (400, ''Cannot close trades: '' @ snd market_state), s)
                       else
                         (case batch_loop m a rows s of
                            (Inl _, s1) \<Rightarrow> (Inl (500, ''Could not process batch action''), s1)
                          | (Inr xs, s1) \<Rightarrow> (Inr (successMessage a xs, xs), s1)))))"

section \<open>Levels\<close>

definition validateLevel :: "num \<Rightarrow> num \<Rightarrow> num \<Rightarrow> bool \<Rightarrow> string \<Rightarrow> string option" where
  "validateLevel value market_price minimumDistance mustBeBelowMarket label =
     (let side = (if mustBeBelowMarket then ''below'' else ''above'') in
      if (if mustBeBelowMarket then nle market_price value else nle value market_price) then
        Some (label @ '' must be '' @ side @ '' the current market price ('' @ num_str market_price @ '')'')
      else if nlt (math_abs (nsub market_price value)) minimumDistance then
        Some (label @ '' must be at least '' @ num_str minimumDistance @ '' from the current market price ('' @ num_str market_price @ '')'')
      else None)"

text \<open>A level that is asked for: neither absent nor cleared.\<close>

definition sets_level :: "jsval \<Rightarrow> bool" where
  "sets_level v \<longleftrightarrow> v \<noteq> JUndef \<and> v \<noteq> JText [] \<and> v \<noteq> JNull"

definition level_error :: "num \<Rightarrow> num \<Rightarrow> bool \<Rightarrow> string \<Rightarrow> string \<Rightarrow> jsval \<Rightarrow> string option" where
  "level_error market_price minimumDistance below label invalid v =
     (if \<not> sets_level v then None
      else let x = parse_float v in if is_nan x then Some invalid else validateLevel x market_price minimumDistance below label)"

record modify_request =
  mq_user :: string
  mq_trade :: "string option"
  mq_stop :: jsval
  mq_target :: jsval
  mq_breakeven :: bool
  mq_pending :: jsval

text \<open>The new value of a column: None leaves it, and the decimal of a Number that is not finite cannot be written.\<close>

definition bind_level :: "jsval \<Rightarrow> string + rat option" where
  "bind_level v = (if sets_level v then sum_bind (bind_num (parse_float v)) (\<lambda>q. level_value (Some q)) else Inr None)"

definition new_levels :: "rat option option \<Rightarrow> rat option option \<Rightarrow> trade \<Rightarrow> trade" where
  "new_levels sl tp r = clear_deferred (r\<lparr>trade_sl := (case sl of None \<Rightarrow> trade_sl r | Some v \<Rightarrow> v), trade_tp := (case tp of None \<Rightarrow> trade_tp r | Some v \<Rightarrow> v)\<rparr>)"

definition bound_level :: "(string + rat option) option \<Rightarrow> string + rat option option" where
  "bound_level v = (case v of None \<Rightarrow> Inr None | Some x \<Rightarrow> sum_bind x (\<lambda>y. Inr (Some y)))"

definition modify_stmt :: "string \<Rightarrow> (string + rat option) option \<Rightarrow> (string + rat option) option \<Rightarrow> db \<Rightarrow> string + trade option \<times> db" where
  "modify_stmt i stop_loss take_profit t =
     sum_bind (bound_level stop_loss) (\<lambda>sl. sum_bind (bound_level take_profit) (\<lambda>tp.
       case get_trade i t of
         None \<Rightarrow> Inr (None, t)
       | Some r \<Rightarrow>
           if trade_status r \<noteq> Some ''open'' then Inr (None, t)
           else Inr (Some (new_levels sl tp r), t\<lparr>trades := update_by trade_id i (new_levels sl tp) (trades t)\<rparr>)))"

definition modifyTradeHandler :: "'d desk \<Rightarrow> modify_request \<Rightarrow> shop \<Rightarrow> (refusal + unit) \<times> shop" where
  "modifyTradeHandler m rq s =
     (case given (mq_trade rq) of
        None \<Rightarrow> (Inl (400, ''Trade ID required''), s)
      | Some i \<Rightarrow>
     (if mq_stop rq = JUndef \<and> mq_target rq = JUndef \<and> \<not> mq_breakeven rq then (Inl (400, ''Provide at least one trade modification field''), s)
      else case joined (\<lambda>r a. trade_id r = i \<and> trade_status r = Some ''open'') (en_db (sh_engine s)) of
        [] \<Rightarrow> (Inl (404, ''Trade not found or already closed''), s)
      | (r, a) # _ \<Rightarrow>
          if acc_user a \<noteq> Some (mq_user rq) then (Inl (403, ''Unauthorized''), s)
          else
            (let openPrice = to_number (opt_numeric (trade_open_price r));
                 minimumDistance = getMinDistance (Some (trade_instrument r));
                 market_price = (case getLivePriceMap (market.truncate m) (trade_instrument r) of None \<Rightarrow> NaN | Some q \<Rightarrow> market_side r q);
                 isBuy = (trade_direction r = ''buy'');
                 sl_error = (if mq_breakeven rq then None
                   else level_error market_price minimumDistance isBuy ''Stop loss'' ''Invalid stop loss value'' (mq_stop rq));
                 tp_error = level_error market_price minimumDistance (\<not> isBuy) ''Take profit'' ''Invalid take profit value'' (mq_target rq);
                 be_error = (if mq_breakeven rq then validateLevel openPrice market_price minimumDistance isBuy ''Breakeven stop'' else None);
                 stop_loss = (if mq_breakeven rq
                   then Some (sum_bind (bind_num (roundPrice (JNum openPrice) (Some (trade_instrument r)))) (\<lambda>q. level_value (Some q)))
                   else if mq_stop rq \<noteq> JUndef then Some (bind_level (mq_stop rq)) else None);
                 take_profit = (if mq_target rq \<noteq> JUndef then Some (bind_level (mq_target rq)) else None)
             in if \<not> is_finite market_price then (Inl (503, ''Live price unavailable for this instrument. Please try again shortly.''), s)
                else case sl_error of Some e \<Rightarrow> (Inl (400, e), s)
                | None \<Rightarrow> (case tp_error of Some e \<Rightarrow> (Inl (400, e), s)
                | None \<Rightarrow>
                    if be_error \<noteq> None then (Inl (400, ''Cannot move to breakeven: the trade is not far enough in profit yet.''), s)
                    else
                      (case at_desk ''Could not modify trade'' (tx_bind (query (modify_stmt i stop_loss take_profit)) (\<lambda>hit.
                          tx_return (case hit of None \<Rightarrow> Inl (409, ''Trade was already processed'') | Some x \<Rightarrow> Inr x))) s of
                         (Inl e, s1) \<Rightarrow> (Inl e, s1)
                       | (Inr x, s1) \<Rightarrow>
                           (Inr (), publishTradeIndex (PubOpen (index_trade_row x) None None) (put_index (index_opened m (index_trade_row x)) s1)))))))"

section \<open>Pending orders\<close>

text \<open>The statement also sets the column updated_at, which the table does not have.\<close>

definition modifyPendingHandler :: "'d desk \<Rightarrow> modify_request \<Rightarrow> shop \<Rightarrow> (refusal + unit) \<times> shop" where
  "modifyPendingHandler m rq s =
     (case given (mq_trade rq) of
        None \<Rightarrow> (Inl (400, ''Trade ID required''), s)
      | Some i \<Rightarrow>
     (case joined (\<lambda>r a. trade_id r = i \<and> trade_status r = Some ''pending'') (en_db (sh_engine s)) of
        [] \<Rightarrow> (Inl (404, ''Pending order not found or already processed''), s)
      | (r, a) # _ \<Rightarrow>
          if acc_user a \<noteq> Some (mq_user rq) then (Inl (403, ''Unauthorized''), s)
          else
            (let price = getLivePriceMap (market.truncate m) (trade_instrument r);
                 bid = (case price of None \<Rightarrow> NaN | Some q \<Rightarrow> q_bid q);
                 ask = (case price of None \<Rightarrow> NaN | Some q \<Rightarrow> q_ask q);
                 nextPendingPrice = parse_float (if nullish (mq_pending rq) then opt_numeric (trade_pending_price r) else mq_pending rq)
             in case validatePendingOrderPrice (text_or_empty (trade_order_type r)) nextPendingPrice bid ask of
                  Some e \<Rightarrow> (Inl (400, e), s)
                | None \<Rightarrow>
                    if mq_pending rq = JUndef \<and> mq_stop rq = JUndef \<and> mq_target rq = JUndef then (Inl (400, ''No fields to update''), s)
                    else at_desk ''Could not modify pending order'' (query (\<lambda>_. Inl ''42703'')) s)))"

end
