(* ===== verification/Idempotency.thy ===== *)
theory Idempotency
  imports Database Instruments
begin

text \<open>
  utils/idempotency.ts: a request claims its Idempotency-Key before it acts, records its answer on the claim when it has acted, and
  gives the claim up when it failed; a reaper removes claims that are too old. Unlike in the other
  components the statements of concurrent requests interleave here. \<open>'b\<close> is the type of recorded answers.
\<close>

section \<open>The table\<close>

record 'b claim =
  im_id :: int
  im_actor :: "string option"
  im_scope :: string
  im_key :: string
  im_completed :: bool
  im_response :: "(int \<times> 'b) option"
  im_created :: int

record 'b claims =
  im_now :: int
  im_rows :: "'b claim list"
  im_seq :: int

text \<open>What the unique index is over.\<close>

type_synonym claim_key = "string \<times> string \<times> string"

definition key_of :: "string \<Rightarrow> string option \<Rightarrow> string \<Rightarrow> claim_key" where
  "key_of scope actor key = (scope, key, text_or_empty actor)"

definition claim_key_of :: "'b claim \<Rightarrow> claim_key" where
  "claim_key_of r = key_of (im_scope r) (im_actor r) (im_key r)"

definition ms_setting :: "int \<Rightarrow> int option \<Rightarrow> int \<Rightarrow> int" where
  "ms_setting least configured usual = max least (case configured of None \<Rightarrow> usual | Some x \<Rightarrow> if x = 0 then usual else x)"

definition STALE_CLAIM_MS :: "int option \<Rightarrow> int" where
  "STALE_CLAIM_MS configured = ms_setting (60 * 1000) configured (15 * 60 * 1000)"

definition COMPLETED_RETENTION_MS :: "int option \<Rightarrow> int" where
  "COMPLETED_RETENTION_MS configured = ms_setting (60 * 60 * 1000) configured (7 * 24 * 60 * 60 * 1000)"

definition STRICT_SCOPES :: "string list" where
  "STRICT_SCOPES = [''trades:open'', ''payouts:request'', ''accounts:create'']"

definition isStrictScope :: "string \<Rightarrow> bool" where
  "isStrictScope scope \<longleftrightarrow> scope \<in> set STRICT_SCOPES"

definition getIdempotencyKey :: "string option \<Rightarrow> string option" where
  "getIdempotencyKey header = given (Some (trim (text_or_empty header)))"

section \<open>The statements\<close>

text \<open>INSERT ... ON CONFLICT DO NOTHING RETURNING id.\<close>

definition take_claim_stmt :: "string \<Rightarrow> string option \<Rightarrow> string \<Rightarrow> 'b claims \<Rightarrow> int option \<times> 'b claims" where
  "take_claim_stmt scope actor key t =
     (if key_of scope actor key \<in> claim_key_of ` set (im_rows t) then (None, t)
      else let n = im_seq t + 1 in
        (Some n, t\<lparr>im_seq := n, im_rows := im_rows t @ [\<lparr>im_id = n, im_actor = actor, im_scope = scope, im_key = key, im_completed = False,
           im_response = None, im_created = im_now t\<rparr>]\<rparr>))"

definition held_stmt :: "string \<Rightarrow> string option \<Rightarrow> string \<Rightarrow> 'b claims \<Rightarrow> 'b claim option" where
  "held_stmt scope actor key t = List.find (\<lambda>r. claim_key_of r = key_of scope actor key) (im_rows t)"

datatype 'b begin_result = NotEnabled | KeyRequired string | Claimed int | Replay int 'b | InProgress

text \<open>Of the row found after a lost claim; a completed row always carries its answer.\<close>

definition held_result :: "'b claim option \<Rightarrow> 'b begin_result" where
  "held_result row =
     (case row of
        None \<Rightarrow> InProgress
      | Some r \<Rightarrow>
          if im_completed r then (case im_response r of None \<Rightarrow> InProgress | Some (code, body) \<Rightarrow> Replay (if code = 0 then 200 else code) body)
          else InProgress)"

definition beginIdempotentRequest :: "string \<Rightarrow> string option \<Rightarrow> string option \<Rightarrow> 'b claims \<Rightarrow> 'b begin_result \<times> 'b claims" where
  "beginIdempotentRequest scope actor idempotencyKey t =
     (case given (map_option trim idempotencyKey) of
        None \<Rightarrow> (if isStrictScope scope then KeyRequired ''An Idempotency-Key header is required for this request.'' else NotEnabled, t)
      | Some key \<Rightarrow>
          (case take_claim_stmt scope actor key t of
             (Some n, u) \<Rightarrow> (Claimed n, u)
           | (None, u) \<Rightarrow> (held_result (held_stmt scope actor key u), u)))"

definition completeIdempotentRequest :: "int \<Rightarrow> int \<Rightarrow> 'b \<Rightarrow> 'b claims \<Rightarrow> 'b claims" where
  "completeIdempotentRequest claimId responseStatus responseBody t =
     t\<lparr>im_rows := map (\<lambda>r. if im_id r = claimId then r\<lparr>im_completed := True, im_response := Some (responseStatus, responseBody)\<rparr> else r) (im_rows t)\<rparr>"

definition abandonIdempotentRequest :: "int \<Rightarrow> 'b claims \<Rightarrow> 'b claims" where
  "abandonIdempotentRequest claimId t = t\<lparr>im_rows := filter (\<lambda>r. im_id r \<noteq> claimId) (im_rows t)\<rparr>"

text \<open>The two DELETE statements.\<close>

definition too_stale :: "int \<Rightarrow> int \<Rightarrow> 'b claim \<Rightarrow> bool" where
  "too_stale stale t r \<longleftrightarrow> \<not> im_completed r \<and> im_created r < t - stale"

definition expired_claim :: "int \<Rightarrow> int \<Rightarrow> 'b claim \<Rightarrow> bool" where
  "expired_claim retention t r \<longleftrightarrow> im_completed r \<and> im_created r < t - retention"

definition reapIdempotencyClaims :: "int \<Rightarrow> int \<Rightarrow> 'b claims \<Rightarrow> (nat \<times> nat) \<times> 'b claims" where
  "reapIdempotencyClaims stale retention t =
     (let rows1 = filter (\<lambda>r. \<not> too_stale stale (im_now t) r) (im_rows t);
          rows2 = filter (\<lambda>r. \<not> expired_claim retention (im_now t) r) rows1
      in ((length (im_rows t) - length rows1, length rows1 - length rows2), t\<lparr>im_rows := rows2\<rparr>))"

section \<open>Concurrent requests\<close>

text \<open>
  Where a request of a guarded route is: it lost its claim and has yet to look who holds it, works under its claim, or has
  acted. \<open>wd_acts\<close> counts the actions per key, \<open>wd_lost\<close> the claims taken away by the reaper or given up after the action.
\<close>

datatype request_phase = Asking | Looking | Working int | Acted int | Over

record 'b world =
  wd_claims :: "'b claims"
  wd_phase :: "nat \<Rightarrow> request_phase"
  wd_acts :: "claim_key \<Rightarrow> nat"
  wd_lost :: "claim_key \<Rightarrow> nat"

record request_id =
  rq_scope :: string
  rq_actor :: "string option"
  rq_key :: string

definition request_key :: "request_id \<Rightarrow> claim_key" where
  "request_key q = key_of (rq_scope q) (rq_actor q) (rq_key q)"

definition rows_under :: "claim_key \<Rightarrow> 'b claims \<Rightarrow> nat" where
  "rows_under k t = length (filter (\<lambda>r. claim_key_of r = k) (im_rows t))"

definition set_claims :: "'b claims \<Rightarrow> 'b world \<Rightarrow> 'b world" where
  "set_claims u w = w\<lparr>wd_claims := u\<rparr>"

definition lose_claims :: "'b claims \<Rightarrow> 'b world \<Rightarrow> 'b world" where
  "lose_claims u w = w\<lparr>wd_claims := u, wd_lost := (\<lambda>k. wd_lost w k + (rows_under k (wd_claims w) - rows_under k u))\<rparr>"

definition set_phase :: "nat \<Rightarrow> request_phase \<Rightarrow> 'b world \<Rightarrow> 'b world" where
  "set_phase n p w = w\<lparr>wd_phase := (wd_phase w)(n := p)\<rparr>"

definition act :: "claim_key \<Rightarrow> 'b world \<Rightarrow> 'b world" where
  "act k w = w\<lparr>wd_acts := (wd_acts w)(k := Suc (wd_acts w k))\<rparr>"

text \<open>
  \<open>Q n\<close> is what request \<open>n\<close> asks for. A request that fails gives its claim up, also when it fails after it has acted
  (the handlers do so in their outermost catch); a process may die at any point.
\<close>

inductive claim_step :: "(nat \<Rightarrow> request_id) \<Rightarrow> int \<Rightarrow> int \<Rightarrow> 'b world \<Rightarrow> 'b world \<Rightarrow> bool" for Q stale retention where
  wins: "wd_phase w n = Asking \<Longrightarrow> take_claim_stmt (rq_scope (Q n)) (rq_actor (Q n)) (rq_key (Q n)) (wd_claims w) = (Some c, u) \<Longrightarrow>
    claim_step Q stale retention w (set_phase n (Working c) (set_claims u w))"
| loses: "wd_phase w n = Asking \<Longrightarrow> take_claim_stmt (rq_scope (Q n)) (rq_actor (Q n)) (rq_key (Q n)) (wd_claims w) = (None, u) \<Longrightarrow>
    claim_step Q stale retention w (set_phase n Looking w)"
| looks: "wd_phase w n = Looking \<Longrightarrow> claim_step Q stale retention w (set_phase n Over w)"
| performs: "wd_phase w n = Working c \<Longrightarrow> claim_step Q stale retention w (set_phase n (Acted c) (act (request_key (Q n)) w))"
| gives_up: "wd_phase w n = Working c \<Longrightarrow>
    claim_step Q stale retention w (set_phase n Over (set_claims (abandonIdempotentRequest c (wd_claims w)) w))"
| gives_up_late: "wd_phase w n = Acted c \<Longrightarrow>
    claim_step Q stale retention w (set_phase n Over (lose_claims (abandonIdempotentRequest c (wd_claims w)) w))"
| completes: "wd_phase w n = Acted c \<Longrightarrow>
    claim_step Q stale retention w (set_phase n Over (set_claims (completeIdempotentRequest c code body (wd_claims w)) w))"
| dies: "claim_step Q stale retention w (set_phase n Over w)"
| reaps: "claim_step Q stale retention w (lose_claims (snd (reapIdempotencyClaims stale retention (wd_claims w))) w)"
| passes: "im_now (wd_claims w) \<le> t \<Longrightarrow> claim_step Q stale retention w (set_claims ((wd_claims w)\<lparr>im_now := t\<rparr>) w)"

inductive claim_runs :: "(nat \<Rightarrow> request_id) \<Rightarrow> int \<Rightarrow> int \<Rightarrow> 'b world \<Rightarrow> 'b world \<Rightarrow> bool" for Q stale retention where
  start: "claim_runs Q stale retention w w"
| further: "claim_runs Q stale retention w w1 \<Longrightarrow> claim_step Q stale retention w1 w2 \<Longrightarrow> claim_runs Q stale retention w w2"

definition no_claims :: "int \<Rightarrow> 'b world" where
  "no_claims t =
     \<lparr>wd_claims = \<lparr>im_now = t, im_rows = [], im_seq = 0\<rparr>, wd_phase = (\<lambda>_. Asking), wd_acts = (\<lambda>_. 0), wd_lost = (\<lambda>_. 0)\<rparr>"

section \<open>At most one action\<close>

definition working_on :: "(nat \<Rightarrow> request_id) \<Rightarrow> claim_key \<Rightarrow> 'b world \<Rightarrow> nat set" where
  "working_on Q k w = {n. request_key (Q n) = k \<and> (\<exists>c. wd_phase w n = Working c)}"

definition table_ok :: "'b claims \<Rightarrow> bool" where
  "table_ok t \<longleftrightarrow> distinct (map claim_key_of (im_rows t)) \<and> distinct (map im_id (im_rows t)) \<and> (\<forall>r\<in>set (im_rows t). im_id r \<le> im_seq t)"

definition holds :: "request_phase \<Rightarrow> int \<Rightarrow> bool" where
  "holds p c \<longleftrightarrow> p = Working c \<or> p = Acted c"

definition held_ok :: "(nat \<Rightarrow> request_id) \<Rightarrow> (nat \<Rightarrow> request_phase) \<Rightarrow> 'b claims \<Rightarrow> bool" where
  "held_ok Q phase t \<longleftrightarrow>
     (\<forall>n c. holds (phase n) c \<longrightarrow> c \<le> im_seq t \<and> (\<forall>r\<in>set (im_rows t). im_id r = c \<longrightarrow> claim_key_of r = request_key (Q n)))"

definition counted :: "(nat \<Rightarrow> request_id) \<Rightarrow> 'b world \<Rightarrow> claim_key \<Rightarrow> bool" where
  "counted Q w k \<longleftrightarrow> finite (working_on Q k w) \<and> wd_acts w k + card (working_on Q k w) \<le> rows_under k (wd_claims w) + wd_lost w k"

definition claims_ok :: "(nat \<Rightarrow> request_id) \<Rightarrow> 'b world \<Rightarrow> bool" where
  "claims_ok Q w \<longleftrightarrow> table_ok (wd_claims w) \<and> held_ok Q (wd_phase w) (wd_claims w) \<and> (\<forall>k. counted Q w k)"

lemma world_simps [simp]:
  "wd_claims (set_phase n p w) = wd_claims w" "wd_acts (set_phase n p w) = wd_acts w" "wd_lost (set_phase n p w) = wd_lost w"
  "wd_phase (set_phase n p w) = (wd_phase w)(n := p)"
  "wd_claims (set_claims u w) = u" "wd_acts (set_claims u w) = wd_acts w" "wd_lost (set_claims u w) = wd_lost w" "wd_phase (set_claims u w) = wd_phase w"
  "wd_claims (lose_claims u w) = u" "wd_acts (lose_claims u w) = wd_acts w" "wd_phase (lose_claims u w) = wd_phase w"
  "wd_lost (lose_claims u w) k = wd_lost w k + (rows_under k (wd_claims w) - rows_under k u)"
  "wd_claims (act k w) = wd_claims w" "wd_phase (act k w) = wd_phase w" "wd_lost (act k w) = wd_lost w"
  "wd_acts (act k w) j = wd_acts w j + (if j = k then 1 else 0)"
  by (simp_all add: set_phase_def set_claims_def lose_claims_def act_def)

lemma working_set_phase:
  "working_on Q k (set_phase n p w) =
    (if request_key (Q n) = k \<and> (\<exists>c. p = Working c) then insert n (working_on Q k w) else working_on Q k w - {n})"
  by (auto simp: working_on_def split: if_splits)

lemma working_same [simp]: "working_on Q k (set_claims u w) = working_on Q k w" "working_on Q k (lose_claims u w) = working_on Q k w"
  "working_on Q k (act j w) = working_on Q k w"
  by (simp_all add: working_on_def)

lemma rows_filter_le: "rows_under k (t\<lparr>im_rows := filter P (im_rows t)\<rparr>) \<le> rows_under k t"
  by (simp add: rows_under_def length_filter_conv_card) (rule card_mono; auto)

text \<open>Removing rows.\<close>

lemma table_ok_filter: "table_ok t \<Longrightarrow> table_ok (t\<lparr>im_rows := filter P (im_rows t)\<rparr>)"
  by (auto simp: table_ok_def distinct_map_filter)

lemma held_ok_filter: "held_ok Q ph t \<Longrightarrow> held_ok Q ph (t\<lparr>im_rows := filter P (im_rows t)\<rparr>)"
  by (auto simp: held_ok_def)

lemma held_ok_over:
  assumes "held_ok Q ph t" "\<And>c. holds p c \<Longrightarrow> holds (ph n) c"
  shows "held_ok Q (ph(n := p)) t"
  using assms unfolding held_ok_def by (metis fun_upd_other fun_upd_same)

lemma holds_simps [simp]: "\<not> holds Asking c" "\<not> holds Looking c" "\<not> holds Over c" "holds (Working d) c \<longleftrightarrow> d = c" "holds (Acted d) c \<longleftrightarrow> d = c"
  by (auto simp: holds_def)

lemma counted_lose:
  assumes "counted Q w k" "u = (wd_claims w)\<lparr>im_rows := filter P (im_rows (wd_claims w))\<rparr>"
  shows "counted Q (lose_claims u w) k"
  using assms(1) rows_filter_le [where k = k and t = "wd_claims w" and P = P] by (simp add: counted_def assms(2))

lemma counted_over:
  assumes "counted Q w k" "\<nexists>c. p = Working c"
  shows "counted Q (set_phase n p w) k"
  using assms card_Diff1_le [of "working_on Q k w" n] by (auto simp: counted_def working_set_phase)

lemma rows_under_one: "table_ok t \<Longrightarrow> rows_under k t \<le> 1"
proof -
  assume "table_ok t"
  then have "distinct (map claim_key_of (im_rows t))" by (simp add: table_ok_def)
  then have "distinct (filter (\<lambda>x. x = k) (map claim_key_of (im_rows t)))" by simp
  then have "length (filter (\<lambda>x. x = k) (map claim_key_of (im_rows t))) = card (set (filter (\<lambda>x. x = k) (map claim_key_of (im_rows t))))"
    by (metis distinct_card)
  also have "\<dots> \<le> card {k}" by (rule card_mono) auto
  finally show ?thesis by (simp add: rows_under_def filter_map o_def)
qed

section \<open>The steps\<close>

lemma claims_okD: "claims_ok Q w \<Longrightarrow> table_ok (wd_claims w)" "claims_ok Q w \<Longrightarrow> held_ok Q (wd_phase w) (wd_claims w)"
  "claims_ok Q w \<Longrightarrow> counted Q w k"
  unfolding claims_ok_def by blast+

lemma claims_okI: "table_ok (wd_claims w) \<Longrightarrow> held_ok Q (wd_phase w) (wd_claims w) \<Longrightarrow> (\<And>k. counted Q w k) \<Longrightarrow> claims_ok Q w"
  unfolding claims_ok_def by blast

lemma ok_lose:
  assumes "claims_ok Q w" "u = (wd_claims w)\<lparr>im_rows := filter P (im_rows (wd_claims w))\<rparr>"
  shows "claims_ok Q (lose_claims u w)"
  using claims_okD [OF assms(1)]
  by (intro claims_okI counted_lose [OF _ assms(2)]) (simp_all add: assms(2) table_ok_filter held_ok_filter)

lemma ok_over:
  assumes "claims_ok Q w" "\<And>c. holds p c \<Longrightarrow> holds (wd_phase w n) c" "\<nexists>c. p = Working c"
  shows "claims_ok Q (set_phase n p w)"
  using claims_okD [OF assms(1)] held_ok_over [of Q "wd_phase w" "wd_claims w" p n] assms(2)
  by (intro claims_okI counted_over [OF _ assms(3)]) simp_all

lemma rows_snoc: "rows_under k (t\<lparr>im_seq := q, im_rows := im_rows t @ [x]\<rparr>) = rows_under k t + (if claim_key_of x = k then 1 else 0)"
  by (simp add: rows_under_def)

lemma ok_wins:
  assumes ok: "claims_ok Q w" and a: "wd_phase w n = Asking"
    and c: "take_claim_stmt (rq_scope (Q n)) (rq_actor (Q n)) (rq_key (Q n)) (wd_claims w) = (Some c, u)"
  shows "claims_ok Q (set_phase n (Working c) (set_claims u w))"
proof -
  let ?t = "wd_claims w"
  define x :: "'a claim" where "x = \<lparr>im_id = im_seq ?t + 1, im_actor = rq_actor (Q n), im_scope = rq_scope (Q n), im_key = rq_key (Q n), im_completed = False,
    im_response = None, im_created = im_now ?t\<rparr>"
  have x: "claim_key_of x = request_key (Q n)" "im_id x = im_seq ?t + 1" "c = im_seq ?t + 1" "request_key (Q n) \<notin> claim_key_of ` set (im_rows ?t)"
    "u = ?t\<lparr>im_seq := im_seq ?t + 1, im_rows := im_rows ?t @ [x]\<rparr>"
    using c by (auto simp: take_claim_stmt_def Let_def request_key_def claim_key_of_def x_def split: if_splits)
  note t = claims_okD(1) [OF ok] and h = claims_okD(2) [OF ok] and k = claims_okD(3) [OF ok]
  have old: "im_id z \<le> im_seq ?t" if "z \<in> set (im_rows ?t)" for z using t that by (simp add: table_ok_def)
  then have "im_id x \<notin> im_id ` set (im_rows ?t)" using x(2) by fastforce
  then have "table_ok u" using t x(1,2,4) by (simp add: table_ok_def x(5)) (meson le_add_same_cancel1 order_trans zero_le_one)
  moreover have "held_ok Q ((wd_phase w)(n := Working c)) u"
    unfolding held_ok_def
  proof (intro allI impI conjI ballI)
    fix j d assume d: "holds (((wd_phase w)(n := Working c)) j) d"
    have le: "d \<le> im_seq ?t" if "j \<noteq> n" using h d that by (simp add: held_ok_def)
    show "d \<le> im_seq u" using le d x(3) by (cases "j = n") (simp_all add: x(5))
    fix r assume r: "r \<in> set (im_rows u)" "im_id r = d"
    show "claim_key_of r = request_key (Q j)"
    proof (cases "j = n")
      case True
      then have "d = im_seq ?t + 1" using d x(3) by simp
      then have "r = x" using r old by (force simp: x(5))
      then show ?thesis using x(1) True by simp
    next
      case False
      then have "r \<in> set (im_rows ?t)" using r le x(2) by (auto simp: x(5))
      then show ?thesis using h d r(2) False by (simp add: held_ok_def)
    qed
  qed
  moreover have "counted Q (set_phase n (Working c) (set_claims u w)) j" for j
  proof -
    have "n \<notin> working_on Q j w" using a by (simp add: working_on_def)
    then show ?thesis using k [of j] by (simp add: counted_def working_set_phase x(1,5) rows_snoc card_insert_if)
  qed
  ultimately show ?thesis by (intro claims_okI) simp_all
qed

lemma ok_performs:
  assumes ok: "claims_ok Q w" and p: "wd_phase w n = Working c"
  shows "claims_ok Q (set_phase n (Acted c) (act (request_key (Q n)) w))"
proof -
  have h: "held_ok Q ((wd_phase w)(n := Acted c)) (wd_claims w)" by (rule held_ok_over [OF claims_okD(2) [OF ok]]) (simp add: p)
  have "counted Q (set_phase n (Acted c) (act (request_key (Q n)) w)) k" for k
  proof -
    note k = claims_okD(3) [OF ok, of k]
    have "n \<in> working_on Q k w \<longleftrightarrow> request_key (Q n) = k" using p by (simp add: working_on_def)
    then show ?thesis using k card_Suc_Diff1 [of "working_on Q k w" n]
      by (auto simp: counted_def working_set_phase)
  qed
  then show ?thesis using claims_okD(1) [OF ok] h by (intro claims_okI) simp_all
qed

lemma ok_gives_up:
  assumes ok: "claims_ok Q w" and p: "wd_phase w n = Working c"
  shows "claims_ok Q (set_phase n Over (set_claims (abandonIdempotentRequest c (wd_claims w)) w))"
proof -
  let ?t = "wd_claims w" and ?u = "abandonIdempotentRequest c (wd_claims w)"
  have t: "table_ok ?u" unfolding abandonIdempotentRequest_def by (rule table_ok_filter [OF claims_okD(1) [OF ok]])
  have "held_ok Q (wd_phase w) ?u" unfolding abandonIdempotentRequest_def by (rule held_ok_filter [OF claims_okD(2) [OF ok]])
  then have h: "held_ok Q ((wd_phase w)(n := Over)) ?u" by (rule held_ok_over) simp
  have "counted Q (set_phase n Over (set_claims ?u w)) k" for k
  proof -
    note k = claims_okD(3) [OF ok, of k]
    have n: "n \<in> working_on Q k w \<longleftrightarrow> request_key (Q n) = k" using p by (simp add: working_on_def)
    show ?thesis
    proof (cases "request_key (Q n) = k")
      case True
      have one: "rows_under k ?t \<le> 1" by (rule rows_under_one [OF claims_okD(1) [OF ok]])
      have fin: "finite (working_on Q k w)" and le: "wd_acts w k + card (working_on Q k w) \<le> 1 + wd_lost w k"
        using k one by (simp_all add: counted_def)
      have "Suc (card (working_on Q k w - {n})) = card (working_on Q k w)" using card_Suc_Diff1 [OF fin] n True by simp
      then have "wd_acts w k + card (working_on Q k w - {n}) \<le> rows_under k ?u + wd_lost w k" using le by linarith
      then show ?thesis using fin by (simp add: counted_def working_set_phase)
    next
      case False
      have "claim_key_of r = request_key (Q n)" if "r \<in> set (im_rows ?t)" "im_id r = c" for r
        using claims_okD(2) [OF ok] p that unfolding held_ok_def holds_def by blast
      then have "filter (\<lambda>r. claim_key_of r = k) (filter (\<lambda>r. im_id r \<noteq> c) (im_rows ?t)) = filter (\<lambda>r. claim_key_of r = k) (im_rows ?t)"
        using False unfolding filter_filter by (intro filter_cong) auto
      then have "rows_under k ?u = rows_under k ?t" by (simp add: rows_under_def abandonIdempotentRequest_def)
      then show ?thesis using k n False by (simp add: counted_def working_set_phase)
    qed
  qed
  then show ?thesis using t h by (intro claims_okI) simp_all
qed

lemma ok_same_keys:
  assumes ok: "claims_ok Q w" and u: "im_rows u = map g (im_rows (wd_claims w))" "im_seq u = im_seq (wd_claims w)"
    and g: "\<And>r. claim_key_of (g r) = claim_key_of r" "\<And>r. im_id (g r) = im_id r"
  shows "claims_ok Q (set_claims u w)"
proof (rule claims_okI)
  have m: "map claim_key_of (im_rows u) = map claim_key_of (im_rows (wd_claims w))" "map im_id (im_rows u) = map im_id (im_rows (wd_claims w))"
    by (simp_all add: u(1) g)
  show "table_ok (wd_claims (set_claims u w))" using claims_okD(1) [OF ok] by (simp add: table_ok_def m u(2)) (simp add: u(1) g)
  show "held_ok Q (wd_phase (set_claims u w)) (wd_claims (set_claims u w))"
    using claims_okD(2) [OF ok] by (simp add: held_ok_def u g)
  fix k
  have "rows_under k u = rows_under k (wd_claims w)" by (simp add: rows_under_def u(1) filter_map o_def g)
  then show "counted Q (set_claims u w) k" using claims_okD(3) [OF ok, of k] by (simp add: counted_def)
qed

lemma reap_rows: "snd (reapIdempotencyClaims stale retention t) = t\<lparr>im_rows :=
    filter (\<lambda>r. \<not> too_stale stale (im_now t) r \<and> \<not> expired_claim retention (im_now t) r) (im_rows t)\<rparr>"
  by (simp add: reapIdempotencyClaims_def Let_def)

lemma ok_step: "claim_step Q stale retention w w' \<Longrightarrow> claims_ok Q w \<Longrightarrow> claims_ok Q w'"
proof (induction rule: claim_step.induct)
  case (gives_up_late w n c)
  have "claims_ok Q (lose_claims (abandonIdempotentRequest c (wd_claims w)) w)" unfolding abandonIdempotentRequest_def by (rule ok_lose [OF gives_up_late(2) refl])
  then show ?case by (rule ok_over) simp_all
next
  case (completes w n c code body)
  have "claims_ok Q (set_claims (completeIdempotentRequest c code body (wd_claims w)) w)"
    by (rule ok_same_keys [OF completes(2), where g = "\<lambda>r. if im_id r = c then r\<lparr>im_completed := True, im_response := Some (code, body)\<rparr> else r"])
      (simp_all add: completeIdempotentRequest_def claim_key_of_def)
  then show ?case by (rule ok_over) simp_all
next
  case (reaps w)
  then show ?case unfolding reap_rows by (intro ok_lose) auto
next
  case (passes w t)
  show ?case by (rule ok_same_keys [OF passes(2), where g = "\<lambda>r. r"]) simp_all
qed (auto intro: ok_wins ok_performs ok_gives_up ok_over)

lemma ok_no_claims: "claims_ok Q (no_claims t)"
  by (rule claims_okI) (simp_all add: no_claims_def table_ok_def held_ok_def counted_def working_on_def)

lemma ok_runs: "claim_runs Q stale retention w w' \<Longrightarrow> claims_ok Q w \<Longrightarrow> claims_ok Q w'"
  by (induction rule: claim_runs.induct) (simp_all add: ok_step)

text \<open>C40. A guarded action is done once: however the statements of concurrent requests with the same scope, actor and Idempotency-Key
  interleave, and wherever processes die, the number of times the action is done exceeds one by no more than the number of
  claims for the key that the reaper took or a request gave up after it had acted.\<close>

theorem claim_guards_action:
  assumes "claim_runs Q stale retention (no_claims t) w"
  shows "wd_acts w k \<le> Suc (wd_lost w k)"
proof -
  have ok: "claims_ok Q w" by (rule ok_runs [OF assms ok_no_claims])
  show ?thesis using claims_okD(3) [OF ok, of k] rows_under_one [OF claims_okD(1) [OF ok], of k] by (simp add: counted_def)
qed

text \<open>The bound is reached: a request that gives its claim up although it has acted lets the same action be done again.\<close>

definition same_request :: "nat \<Rightarrow> request_id" where
  "same_request n = \<lparr>rq_scope = ''trades:open'', rq_actor = Some ''u1'', rq_key = ''k1''\<rparr>"

definition first_claims :: "unit claims" where
  "first_claims = snd (take_claim_stmt ''trades:open'' (Some ''u1'') ''k1'' (wd_claims (no_claims 0)))"

definition second_claims :: "unit claims" where
  "second_claims = snd (take_claim_stmt ''trades:open'' (Some ''u1'') ''k1'' (abandonIdempotentRequest 1 first_claims))"

lemma two_claims:
  "take_claim_stmt ''trades:open'' (Some ''u1'') ''k1'' (wd_claims (no_claims 0)) = (Some 1, first_claims)"
  "take_claim_stmt ''trades:open'' (Some ''u1'') ''k1'' (abandonIdempotentRequest 1 first_claims) = (Some 2, second_claims)"
  "rows_under (request_key (same_request 0)) first_claims = 1"
  "rows_under (request_key (same_request 0)) (abandonIdempotentRequest 1 first_claims) = 0"
  by (simp_all add: first_claims_def second_claims_def take_claim_stmt_def no_claims_def abandonIdempotentRequest_def rows_under_def claim_key_of_def
      request_key_def same_request_def Let_def)

lemma acted_twice:
  "\<exists>w :: unit world. claim_runs same_request 900000 604800000 (no_claims 0) w \<and> wd_acts w (request_key (same_request 0)) = 2 \<and>
     wd_lost w (request_key (same_request 0)) = 1"
proof -
  let ?k = "request_key (same_request 0)" and ?w0 = "no_claims 0 :: unit world"
  define w1 where "w1 = set_phase 0 (Working 1) (set_claims first_claims ?w0)"
  define w2 where "w2 = set_phase 0 (Acted 1) (act ?k w1)"
  define w3 where "w3 = set_phase 0 Over (lose_claims (abandonIdempotentRequest 1 (wd_claims w2)) w2)"
  define w4 where "w4 = set_phase 1 (Working 2) (set_claims second_claims w3)"
  define w5 where "w5 = set_phase 1 (Acted 2) (act ?k w4)"
  have same: "same_request n = same_request 0" for n by (simp add: same_request_def)
  have q: "rq_scope (same_request n) = ''trades:open''" "rq_actor (same_request n) = Some ''u1''" "rq_key (same_request n) = ''k1''" for n
    by (simp_all add: same_request_def)
  have 0: "wd_phase ?w0 n = Asking" "wd_acts ?w0 k = 0" "wd_lost ?w0 k = 0" for n k by (simp_all add: no_claims_def)
  have c: "wd_claims w1 = first_claims" "wd_claims w2 = first_claims" "wd_claims w3 = abandonIdempotentRequest 1 first_claims"
    by (simp_all add: w1_def w2_def w3_def)
  have 1: "claim_step same_request 900000 604800000 ?w0 w1" unfolding w1_def by (rule wins) (simp_all add: 0 q two_claims)
  have 2: "claim_step same_request 900000 604800000 w1 w2" unfolding w2_def by (rule performs) (simp add: w1_def)
  have 3: "claim_step same_request 900000 604800000 w2 w3" unfolding w3_def by (rule gives_up_late) (simp add: w2_def)
  have 4: "claim_step same_request 900000 604800000 w3 w4" unfolding w4_def
    by (rule wins) (simp_all add: q c two_claims, simp add: w3_def w2_def w1_def 0)
  have 5: "claim_step same_request 900000 604800000 w4 w5" unfolding w5_def same [of 1, symmetric] by (rule performs) (simp add: w4_def)
  have "claim_runs same_request 900000 604800000 ?w0 w5" using 1 2 3 4 5 by (meson claim_runs.intros)
  moreover have "wd_acts w5 ?k = 2" by (simp add: w5_def w4_def w3_def w2_def w1_def 0)
  moreover have "wd_lost w5 ?k = 1" by (simp add: w5_def w4_def w3_def c two_claims) (simp add: w2_def w1_def 0)
  ultimately show ?thesis by blast
qed

theorem claim_guards_action_witness:
  "\<exists>w :: unit world. claim_runs same_request 900000 604800000 (no_claims 0) w \<and> wd_acts w (request_key (same_request 0)) = 2 \<and>
     wd_acts w (request_key (same_request 0)) \<le> Suc (wd_lost w (request_key (same_request 0)))"
proof -
  obtain w :: "unit world" where "claim_runs same_request 900000 604800000 (no_claims 0) w" "wd_acts w (request_key (same_request 0)) = 2"
    using acted_twice by blast
  then show ?thesis using claim_guards_action [of same_request 900000 604800000 0 w "request_key (same_request 0)"] by blast
qed

section \<open>Replay\<close>

text \<open>As long as its claim stands, a completed request is answered again with the answer recorded on the claim.\<close>

lemma completed_replays:
  assumes t: "table_ok t" and r: "r \<in> set (im_rows t)" "im_scope r = scope" "im_actor r = actor" "im_key r = key" and k: "trim key = key" "key \<noteq> []" and c: "code \<noteq> 0"
  shows "fst (beginIdempotentRequest scope actor (Some key) (completeIdempotentRequest (im_id r) code body t)) = Replay code body"
proof -
  let ?f = "\<lambda>z. if im_id z = im_id r then z\<lparr>im_completed := True, im_response := Some (code, body)\<rparr> else z"
  let ?u = "completeIdempotentRequest (im_id r) code body t"
  have rows: "im_rows ?u = map ?f (im_rows t)" by (simp add: completeIdempotentRequest_def)
  have fk: "claim_key_of (?f z) = claim_key_of z" for z by (simp add: claim_key_of_def)
  have key: "claim_key_of r = key_of scope actor key" using r by (simp add: claim_key_of_def)
  have "claim_key_of ` set (im_rows ?u) = claim_key_of ` set (im_rows t)" by (simp only: rows list.set_map image_image fk)
  then have hit: "key_of scope actor key \<in> claim_key_of ` set (im_rows ?u)" using r(1) key by (metis imageI)
  obtain z where z: "held_stmt scope actor key ?u = Some z" "z \<in> set (im_rows ?u)" "claim_key_of z = key_of scope actor key"
  proof -
    have "held_stmt scope actor key ?u \<noteq> None" using hit by (auto simp: held_stmt_def find_None_iff)
    then obtain z where "held_stmt scope actor key ?u = Some z" by blast
    moreover from this have "z \<in> set (im_rows ?u)" "claim_key_of z = key_of scope actor key" unfolding held_stmt_def by (auto simp: find_Some_iff)
    ultimately show thesis by (rule that)
  qed
  obtain y where y: "y \<in> set (im_rows t)" "z = ?f y" using z(2) unfolding rows by auto
  have "y = r" using t y(1) r(1) fk [of y] z(3) key y(2) by (auto simp: table_ok_def distinct_map inj_on_def)
  then have "im_completed z" "im_response z = Some (code, body)" using y(2) by simp_all
  moreover have "given (Some key) = Some key" using k(2) by (cases key) (simp_all add: given_def)
  ultimately show ?thesis using hit z(1) k c by (simp add: beginIdempotentRequest_def take_claim_stmt_def held_result_def)
qed

end
