(* ===== verification/OrderEntry.thy ===== *)
theory OrderEntry
  imports TradeEdits Idempotency
begin

text \<open>
  routes/trades/open.ts: opening a trade at the market or placing a pending order, alone or as an OCO pair, with the checks of
  the rules before it. A request runs without interleaving at its awaits; screenshots and the signals about the
  request are left out, and so are the numbers in the message about the notional ceiling. Dashes outside ASCII in messages are
  written as hyphens.
\<close>

section \<open>The request\<close>

text \<open>
  A text field is None when it is absent or empty and the text of its value otherwise; \<open>oq_oco\<close> is None without a sibling, Some None when the
  sibling is no object.
\<close>

record open_request =
  oq_user :: string
  oq_ip :: "string option"
  oq_key :: "string option"
  oq_account :: "string option"
  oq_instrument :: "string option"
  oq_direction :: "string option"
  oq_lots :: jsval
  oq_stop :: jsval
  oq_target :: jsval
  oq_type :: "string option"
  oq_price :: jsval
  oq_oco :: "(string option \<times> jsval) option option"

text \<open>The flags of a challenge model that restrict trading.\<close>

record model_flags =
  mf_no_hedging :: bool
  mf_no_grid :: bool
  mf_no_martingale :: bool

record 'd counter = "'d desk" +
  ct_flags :: "string \<Rightarrow> unit + model_flags option"
  ct_second :: string
  ct_group :: string

record oco_sibling =
  os_type :: string
  os_price :: num
  os_direction :: string

record order =
  od_account :: string
  od_instrument :: string
  od_direction :: string
  od_lots :: num
  od_type :: string
  od_pending :: bool
  od_sibling :: "oco_sibling option"

definition PENDING_ORDER_TYPES :: "string list" where
  "PENDING_ORDER_TYPES = [''buy_limit'', ''sell_limit'', ''buy_stop'', ''sell_stop'']"

definition open_failed :: refusal where
  "open_failed = (500, ''Could not open trade'')"

definition escape_html :: "string \<Rightarrow> string" where
  "escape_html s = concat (map (\<lambda>c. if c = CHR ''<'' then ''&lt;'' else if c = CHR ''>'' then ''&gt;'' else [c]) s)"

definition sanitizeString :: "string \<Rightarrow> nat \<Rightarrow> string" where
  "sanitizeString s maxLength = trim (escape_html (take maxLength s))"

section \<open>Before the transaction\<close>

text \<open>Lots within \<open>0.00001\<close> of a multiple of \<open>0.01\<close>.\<close>

definition off_step :: "num \<Rightarrow> bool" where
  "off_step lotsNum = nlt (mk (1 / 100000)) (math_abs (nsub (ndiv (math_round (nmul lotsNum (Fin 100))) (Fin 100)) lotsNum))"

definition read_sibling :: "bool \<Rightarrow> (string option \<times> jsval) option option \<Rightarrow> refusal + oco_sibling option" where
  "read_sibling isPending oco =
     (case oco of
        None \<Rightarrow> Inr None
      | Some x \<Rightarrow>
          if \<not> isPending then Inl (400, ''OCO is only available for pending orders'')
          else
            (case x of
               None \<Rightarrow> Inl (400, ''Invalid OCO sibling payload'')
             | Some (t, p) \<Rightarrow>
                 (let siblingOrderType = sanitizeString (to_lower (text_or_empty t)) 20 in
                  case normalizePositiveNumber p of
                    None \<Rightarrow> Inl (400, ''OCO sibling requires a valid pending order type and price'')
                  | Some q \<Rightarrow>
                      if siblingOrderType \<notin> set PENDING_ORDER_TYPES then Inl (400, ''OCO sibling requires a valid pending order type and price'')
                      else Inr (Some \<lparr>os_type = siblingOrderType, os_price = q,
                                 os_direction = (if take 3 siblingOrderType = ''buy'' then ''buy'' else ''sell'')\<rparr>))))"

definition read_order :: "'d counter \<Rightarrow> open_request \<Rightarrow> refusal + order" where
  "read_order m rq =
     (case (given (oq_account rq), given (oq_instrument rq), given (oq_direction rq)) of
        (Some account_id, Some instrument, Some direction) \<Rightarrow>
          (let i = sanitizeString (to_upper instrument) 10; d = sanitizeString (to_lower direction) 10;
               lotsNum = parse_float (oq_lots rq); minLot = ru_min_lot (mt_rules m);
               orderType = (case given (oq_type rq) of None \<Rightarrow> ''market'' | Some x \<Rightarrow> x);
               isPending = (orderType \<in> set PENDING_ORDER_TYPES); market_state = getMarketStatus ''open'' (mt_time m)
           in if \<not> truthy (oq_lots rq) then Inl (400, ''account_id, instrument, direction, and lots are required'')
              else if i \<notin> set INSTRUMENTS then Inl (400, ''Invalid instrument'')
              else if \<not> isTradableInstrument (mt_env m) (Some i) then
                Inl (400, i @ '' is temporarily unavailable for new positions. Existing positions can still be managed and closed as normal.'')
              else if d \<noteq> ''buy'' \<and> d \<noteq> ''sell'' then Inl (400, ''Direction must be buy or sell'')
              else case getActiveNewsEvent (dk_events m) (mt_time m) 3 of
                Some e \<Rightarrow> Inl (400, ''Cannot open trade. USD High-impact news event '' @ [CHR 0x27] @ ne_title e @ [CHR 0x27] @ '' is active.'')
              | None \<Rightarrow>
              if \<not> isValidLotSize (oq_lots rq) then Inl (400, ''Invalid lot size. Must be between 0.01 and 1000 in 0.01 increments.'')
              else if nlt lotsNum minLot then Inl (400, ''Minimum lot size is '' @ num_str minLot @ ''. You entered '' @ num_str lotsNum @ ''.'')
              else if off_step lotsNum then
                Inl (400, ''Lot size must be in 0.01 increments (e.g. 0.01, 0.05, 1.00). You entered '' @ num_str lotsNum @ ''.'')
              else if trim account_id = [] then Inl (400, ''Invalid account ID'')
              else if \<not> isPending \<and> \<not> fst market_state then Inl (400, snd market_state)
              else
                (case read_sibling isPending (oq_oco rq) of
                   Inl e \<Rightarrow> Inl e
                 | Inr sib \<Rightarrow>
                     Inr \<lparr>od_account = trim account_id, od_instrument = i, od_direction = d, od_lots = lotsNum, od_type = orderType,
                          od_pending = isPending, od_sibling = sib\<rparr>))
      | _ \<Rightarrow> Inl (400, ''account_id, instrument, direction, and lots are required''))"

section \<open>The snapshot\<close>

definition is_live :: "trade \<Rightarrow> bool" where
  "is_live r \<longleftrightarrow> trade_status r = Some ''open'' \<or> trade_status r = Some ''pending''"

definition live_on :: "string \<Rightarrow> string \<Rightarrow> string \<Rightarrow> db \<Rightarrow> bool" where
  "live_on accountId instrument direction t =
     list_ex (\<lambda>r. trade_account r = Some accountId \<and> trade_instrument r = instrument \<and> trade_direction r = direction \<and> is_live r) (trades t)"

text \<open>ORDER BY close_time DESC puts a missing time first.\<close>

definition closes_later :: "trade \<Rightarrow> trade \<Rightarrow> bool" where
  "closes_later a b =
     (case trade_close_time b of
        None \<Rightarrow> False
      | Some y \<Rightarrow> (case trade_close_time a of None \<Rightarrow> True | Some x \<Rightarrow> y < x))"

definition last_closed_setup :: "string \<Rightarrow> string \<Rightarrow> string \<Rightarrow> db \<Rightarrow> trade option" where
  "last_closed_setup accountId instrument direction t =
     fold (\<lambda>r best. case best of None \<Rightarrow> Some r | Some b \<Rightarrow> if closes_later r b then Some r else best)
       (filter (\<lambda>r. trade_account r = Some accountId \<and> trade_instrument r = instrument \<and> trade_direction r = direction \<and>
          trade_status r = Some ''closed'') (trades t)) None"

definition open_or_pending_count :: "string \<Rightarrow> db \<Rightarrow> nat" where
  "open_or_pending_count accountId t = length (filter (\<lambda>r. trade_account r = Some accountId \<and> is_live r) (trades t))"

section \<open>The checks of the account\<close>

definition locked_account :: "string \<Rightarrow> string \<Rightarrow> db \<Rightarrow> (account \<times> user) option" where
  "locked_account accountId user t =
     (case get_account accountId t of
        None \<Rightarrow> None
      | Some a \<Rightarrow>
          if acc_user a = Some user \<and> acc_status a = Some ''active''
          then (case find_by user_id user (users t) of None \<Rightarrow> None | Some u \<Rightarrow> Some (a, u)) else None)"

definition opposite :: "string \<Rightarrow> string" where
  "opposite direction = (if direction = ''buy'' then ''sell'' else ''buy'')"

definition restrictions :: "model_flags \<Rightarrow> order \<Rightarrow> db \<Rightarrow> refusal option" where
  "restrictions f x t =
     (let i = od_instrument x; d = od_direction x in
      if mf_no_hedging f \<and> live_on (od_account x) i (opposite d) t then
        Some (400, ''Hedging is not allowed on this account. Close your existing '' @ i @ '' position before opening the opposite direction.'')
      else if mf_no_grid f \<and> live_on (od_account x) i d t then
        Some (400, ''Grid trading is not allowed on this account. You already have an open or pending '' @ d @ '' order on '' @ i @ ''.'')
      else if mf_no_martingale f \<and>
          (case last_closed_setup (od_account x) i d t of
             None \<Rightarrow> False
           | Some r \<Rightarrow> (case demo_pnl r of None \<Rightarrow> False | Some c \<Rightarrow> nlt (usd c) (Fin 0)) \<and> nlt (mk (trade_lots r)) (od_lots x)) then
        Some (400, ''Martingale trading is not allowed on this account. You cannot increase lot size after a loss on the same '' @ i @ '' '' @ d @ '' setup.'')
      else None)"

definition position_cap :: "trading_rules \<Rightarrow> order \<Rightarrow> db \<Rightarrow> refusal option" where
  "position_cap rules x t =
     (let n = Fin (of_nat (open_or_pending_count (od_account x) t)) in
      if nlt (Fin 0) (ru_max_open rules) \<and> nle (ru_max_open rules) n then
        Some (400, ''Maximum of '' @ num_str (ru_max_open rules) @ '' open or pending positions at once. You currently have '' @ num_str n @
          ''. Close one before opening another.'')
      else None)"

text \<open>Every open position with a quote must have a value.\<close>

definition valuation :: "'d counter \<Rightarrow> order \<Rightarrow> db \<Rightarrow> refusal option" where
  "valuation m x t =
     (let verdicts = List.map_filter (\<lambda>r. case mt_tenant m (trade_instrument r) of
              None \<Rightarrow> None
            | Some q \<Rightarrow>
                (case row_pnl (market.truncate m) r (market_side r q) None of
                   Inr _ \<Rightarrow> None
                 | Inl (PnlFx _) \<Rightarrow> Some (503, ''Your open positions cannot be valued right now because a currency rate is unavailable. No new trade was opened. Please try again shortly.'')
                 | Inl PnlDecimal \<Rightarrow> Some open_failed)) (open_trades_of (od_account x) t)
      in case verdicts of [] \<Rightarrow> None | e # _ \<Rightarrow> Some e)"

definition notional_ceiling :: "'d counter \<Rightarrow> order \<Rightarrow> account \<Rightarrow> refusal option" where
  "notional_ceiling m x a =
     (let D = mt_arith m; multiple = ru_max_notional (mt_rules m);
          referencePrice = (case mt_tenant m (od_instrument x) of None \<Rightarrow> Fin 0 | Some q \<Rightarrow> q_ask q)
      in if \<not> nlt (Fin 0) multiple \<or> \<not> nlt (Fin 0) referencePrice then None
         else
           (case da_new D (numeric_val (acc_size a)) of
              None \<Rightarrow> Some open_failed
            | Some size1 \<Rightarrow>
                (let notional = da_times D (da_times D (da_from D (od_lots x)) (da_from D (contractSizeFor (od_instrument x)))) (da_from D referencePrice);
                     ceiling1 = da_times D size1 (da_from D multiple)
                 in if \<not> da_le D notional ceiling1 then Some (400, ''That order looks like a typo. Check your lot size.'') else None)))"

fun first_refusal :: "refusal option list \<Rightarrow> refusal option" where
  "first_refusal [] = None"
| "first_refusal (Some e # _) = Some e"
| "first_refusal (None # xs) = first_refusal xs"

text \<open>The account the order is for, once every check has passed.\<close>

definition check_account :: "'d counter \<Rightarrow> string \<Rightarrow> order \<Rightarrow> db \<Rightarrow> refusal + account" where
  "check_account m user x t =
     (case locked_account (od_account x) user t of
        None \<Rightarrow> Inl (400, ''Account not found or not active'')
      | Some (a, u) \<Rightarrow>
          (let kyc = (if acc_type a = ''funded'' \<and> to_lower (text_or_empty (kyc_status u)) \<noteq> ''approved'' then
                 Some (403, ''Identity verification is required before trading a funded account. Your account is safe - complete verification and trading unlocks immediately.'')
               else None);
               least = (if nlt (od_lots x) (ru_min_lot (mt_rules m)) then
                 Some (400, ''Minimum lot size is '' @ num_str (ru_min_lot (mt_rules m)) @ ''. You entered '' @ num_str (od_lots x) @ ''.'') else None);
               over = (case phase_end a of
                  Some e \<Rightarrow> if e \<le> mt_time m then Some (400, ''Challenge phase has expired. No new trades allowed.'') else None
                | None \<Rightarrow> None);
               model = (case given (challenge_model_slug a) of
                  None \<Rightarrow> None
                | Some slug \<Rightarrow> (case ct_flags m slug of Inl _ \<Rightarrow> Some open_failed | Inr None \<Rightarrow> None | Inr (Some f) \<Rightarrow> restrictions f x t))
           in case first_refusal [kyc, least, over, model, position_cap (mt_rules m) x t, valuation m x t, notional_ceiling m x a] of
                Some e \<Rightarrow> Inl e
              | None \<Rightarrow> Inr a))"

section \<open>The insertions\<close>

definition trade_commission_of :: "'d counter \<Rightarrow> account \<Rightarrow> order \<Rightarrow> num" where
  "trade_commission_of m a x =
     fixed 2 (nmul (od_lots x)
       (resolveTieredInstrumentSetting (tiers_of m (ru_commission_json (mt_rules m))) (acc_type a) (od_instrument x) (ru_commission (mt_rules m))))"

text \<open>A level of the request, as the text of the Decimal it makes; the code 22P02 stands for the Decimal's own error.\<close>

definition request_level :: "'d counter \<Rightarrow> jsval \<Rightarrow> string + rat option" where
  "request_level m v =
     (if \<not> truthy v then Inr None
      else case da_new (mt_arith m) v of None \<Rightarrow> Inl ''22P02'' | Some d \<Rightarrow> level_value (Some (dk_digits m d)))"

definition commission_cents :: "num \<Rightarrow> string + int" where
  "commission_cents x =
     sum_bind (bind_num x) (\<lambda>q. sum_bind (numeric15_2 q) (\<lambda>c. if 10 ^ 10 \<le> \<bar>c\<bar> then Inl ''22003'' else Inr c))"

text \<open>The columns both kinds of row have; those a statement does not name take their defaults.\<close>

definition base_row :: "'d counter \<Rightarrow> open_request \<Rightarrow> order \<Rightarrow> num \<Rightarrow> string \<Rightarrow> int \<Rightarrow> string + trade" where
  "base_row m rq x commission i t =
     sum_bind (bind_num (od_lots x)) (\<lambda>q. sum_bind (numeric_scaled 10 4 q) (\<lambda>l.
     sum_bind (request_level m (oq_stop rq)) (\<lambda>sl. sum_bind (request_level m (oq_target rq)) (\<lambda>tp.
     sum_bind (commission_cents commission) (\<lambda>c.
       Inr \<lparr>trade_id = i, trade_account = Some (od_account x), trade_status = None, demo_pnl = Some 0, trade_instrument = od_instrument x,
            trade_direction = od_direction x, trade_lots = l, trade_open_price = None, trade_close_price = None, trade_open_time = Some t,
            trade_close_time = None, trade_sl = sl, trade_tp = tp, trade_order_type = Some ''market'', trade_pending_price = None,
            trade_reason = None, trade_commission = Some c, trade_oco = None, trade_deferred_price = None, trade_deferred_reason = None,
            trade_deferred_at = None, trade_original_commission = Some c, trade_parent = None, trade_partial = False,
            trade_slippage = Some 0\<rparr>)))))"

definition pending_stmt :: "'d counter \<Rightarrow> open_request \<Rightarrow> order \<Rightarrow> num \<Rightarrow> string \<Rightarrow> string \<Rightarrow> string \<Rightarrow> num \<Rightarrow> string option \<Rightarrow> db \<Rightarrow> string + trade \<times> db" where
  "pending_stmt m rq x commission i direction orderType price group_id t =
     sum_bind (base_row m rq x commission i (now t)) (\<lambda>r.
     sum_bind (bind_num price) (\<lambda>q. sum_bind (numeric_scaled 20 8 q) (\<lambda>p.
       insert_trade (r\<lparr>trade_status := Some ''pending'', trade_direction := direction, trade_order_type := Some orderType,
         trade_pending_price := Some p, trade_oco := group_id\<rparr>) t)))"

definition market_stmt :: "'d counter \<Rightarrow> open_request \<Rightarrow> order \<Rightarrow> num \<Rightarrow> string \<Rightarrow> num \<Rightarrow> num \<Rightarrow> db \<Rightarrow> string + trade \<times> db" where
  "market_stmt m rq x commission i openPrice slippage t =
     sum_bind (base_row m rq x commission i (now t)) (\<lambda>r.
     sum_bind (bind_num openPrice) (\<lambda>q. sum_bind (numeric_scaled 15 5 q) (\<lambda>p.
     sum_bind (bind_num slippage) (\<lambda>q2. sum_bind (numeric_scaled 5 2 q2) (\<lambda>s.
       insert_trade (r\<lparr>trade_status := Some ''open'', trade_open_price := Some p, trade_slippage := Some \<lfloor>s * 100\<rfloor>\<rparr>) t)))))"

definition log_stmt :: "string \<Rightarrow> open_request \<Rightarrow> order \<Rightarrow> db \<Rightarrow> string + unit \<times> db" where
  "log_stmt i rq x t =
     Inr ((), t\<lparr>trade_logs := trade_logs t @ [\<lparr>tl_id = trade_log_seq t + 1, tl_trade = Some i, tl_user = Some (oq_user rq), tl_account = Some (od_account x),
       tl_ip = oq_ip rq, tl_at = now t\<rparr>], trade_log_seq := trade_log_seq t + 1\<rparr>)"

text \<open>The new row and its sibling.\<close>

definition pending_body :: "'d counter \<Rightarrow> open_request \<Rightarrow> order \<Rightarrow> account \<Rightarrow> num \<Rightarrow> (db, refusal + trade \<times> trade option) tx" where
  "pending_body m rq x a price =
     (let commission = trade_commission_of m a x; group_id = map_option (\<lambda>_. ct_group m) (od_sibling x) in
      tx_bind (query (pending_stmt m rq x commission (dk_fresh m) (od_direction x) (od_type x) price group_id)) (\<lambda>r.
      tx_bind (case od_sibling x of
          None \<Rightarrow> tx_return None
        | Some s \<Rightarrow> tx_bind (query (pending_stmt m rq x commission (ct_second m) (os_direction s) (os_type s) (os_price s) group_id)) (\<lambda>y. tx_return (Some y))) (\<lambda>sib.
      tx_bind (query (log_stmt (trade_id r) rq x)) (\<lambda>_.
      tx_bind (case sib of None \<Rightarrow> tx_return () | Some y \<Rightarrow> query (log_stmt (trade_id y) rq x)) (\<lambda>_.
        tx_return (Inr (r, sib)))))))"

definition market_body :: "'d counter \<Rightarrow> open_request \<Rightarrow> order \<Rightarrow> account \<Rightarrow> num \<Rightarrow> num \<Rightarrow> (db, refusal + trade \<times> trade option) tx" where
  "market_body m rq x a openPrice slippage =
     tx_bind (query (market_stmt m rq x (trade_commission_of m a x) (dk_fresh m) openPrice slippage)) (\<lambda>r.
     tx_bind (query (log_stmt (trade_id r) rq x)) (\<lambda>_. tx_return (Inr (r, None))))"

section \<open>Prices\<close>

definition pending_price_error :: "'d counter \<Rightarrow> order \<Rightarrow> num \<Rightarrow> refusal option" where
  "pending_price_error m x price =
     (let live = dk_live m (od_instrument x);
          bid = (case live of Inl _ \<Rightarrow> NaN | Inr (q, _) \<Rightarrow> q_bid q);
          ask = (case live of Inl _ \<Rightarrow> NaN | Inr (q, _) \<Rightarrow> q_ask q)
      in case validatePendingOrderPrice (od_type x) price bid ask of
           Some e \<Rightarrow> Some (400, e)
         | None \<Rightarrow>
             (case od_sibling x of
                None \<Rightarrow> None
              | Some s \<Rightarrow> map_option (\<lambda>e. (400, ''OCO sibling invalid: '' @ e)) (validatePendingOrderPrice (os_type s) (os_price s) bid ask)))"

text \<open>The price the trade opens at and the slippage in it, in pips against the trader.\<close>

definition open_price_of :: "'d counter \<Rightarrow> order \<Rightarrow> account \<Rightarrow> quote \<Rightarrow> num \<times> num" where
  "open_price_of m x a q =
     (let base_price = (if od_direction x = ''buy'' then q_ask q else q_bid q);
          limit = slippage_limit (desk.truncate m) (acc_type a) (od_instrument x);
          pips = slippage_pips (desk.truncate m) limit; slip = nmul pips (getPipSize (Some (od_instrument x)))
      in if ru_slippage_on (mt_rules m) \<and> nlt (Fin 0) limit
         then (roundPrice (JNum (if od_direction x = ''buy'' then nadd base_price slip else nsub base_price slip)) (Some (od_instrument x)), fixed 2 pips)
         else (base_price, Fin 0))"

definition level_refusal :: "open_request \<Rightarrow> order \<Rightarrow> num \<Rightarrow> refusal option" where
  "level_refusal rq x openPrice =
     (let buy = (od_direction x = ''buy''); sl = parse_float (oq_stop rq); tp = parse_float (oq_target rq) in
      if truthy (oq_stop rq) \<and> buy \<and> nle openPrice sl then Some (400, ''Stop loss must be below entry price for BUY trades'')
      else if truthy (oq_stop rq) \<and> \<not> buy \<and> nle sl openPrice then Some (400, ''Stop loss must be above entry price for SELL trades'')
      else if truthy (oq_target rq) \<and> buy \<and> nle tp openPrice then Some (400, ''Take profit must be above entry price for BUY trades'')
      else if truthy (oq_target rq) \<and> \<not> buy \<and> nle openPrice tp then Some (400, ''Take profit must be below entry price for SELL trades'')
      else None)"

section \<open>The handler\<close>

record open_done =
  oa_message :: string
  oa_trade :: string
  oa_account :: string
  oa_sibling :: "string option"

record front =
  ft_shop :: shop
  ft_claims :: "open_done claims"

definition ensureTradeOpenIdempotencyClaim :: "open_request \<Rightarrow> front \<Rightarrow> ((refusal + int \<times> open_done) + int option) \<times> front" where
  "ensureTradeOpenIdempotencyClaim rq f =
     (case beginIdempotentRequest ''trades:open'' (Some (oq_user rq)) (getIdempotencyKey (oq_key rq)) (ft_claims f) of
        (r, u) \<Rightarrow>
          ((case r of
              KeyRequired e \<Rightarrow> Inl (Inl (400, e))
            | Replay code body \<Rightarrow> Inl (Inr (code, body))
            | InProgress \<Rightarrow> Inl (Inl (409, ''This trade-open request is already being processed.''))
            | Claimed n \<Rightarrow> Inr (Some n)
            | NotEnabled \<Rightarrow> Inr None), f\<lparr>ft_claims := u\<rparr>))"

definition pending_row_of :: "trade \<Rightarrow> pending_row" where
  "pending_row_of r =
     \<lparr>pr_id = trade_id r, pr_account = text_or_empty (trade_account r), pr_instrument = trade_instrument r, pr_direction = trade_direction r,
      pr_type = text_or_empty (trade_order_type r), pr_price = opt_numeric (trade_pending_price r), pr_lots = JNumeric (trade_lots r), pr_oco = trade_oco r\<rparr>"

definition sync_placed :: "'d counter \<Rightarrow> trade \<Rightarrow> shop \<Rightarrow> shop" where
  "sync_placed m r s = publishTradeIndex (PubPending (pending_row_of r)) (put_index (index_pending (desk.truncate m) (pending_row_of r)) s)"

text \<open>The sibling's row for the index is that of the first order with its own identity, type and price.\<close>

definition sync_sibling :: "'d counter \<Rightarrow> order \<Rightarrow> trade \<Rightarrow> trade option \<Rightarrow> shop \<Rightarrow> shop" where
  "sync_sibling m x r sib s =
     (case (sib, od_sibling x) of
        (Some y, Some o1) \<Rightarrow>
          (let row = (pending_row_of r)\<lparr>pr_id := trade_id y, pr_direction := os_direction o1, pr_type := os_type o1, pr_price := JNum (os_price o1)\<rparr>
           in publishTradeIndex (PubPending row) (put_index (index_pending (desk.truncate m) row) s))
      | _ \<Rightarrow> s)"

definition sync_opened :: "'d counter \<Rightarrow> trade \<Rightarrow> shop \<Rightarrow> shop" where
  "sync_opened m r s = publishTradeIndex (PubOpen (index_trade_row r) None None) (put_index (index_opened (desk.truncate m) (index_trade_row r)) s)"

definition underscores_out :: "string \<Rightarrow> string" where
  "underscores_out s = map (\<lambda>c. if c = CHR ''_'' then CHR '' '' else c) s"

definition complete_claim :: "int option \<Rightarrow> open_done \<Rightarrow> front \<Rightarrow> front" where
  "complete_claim c body f = (case c of None \<Rightarrow> f | Some n \<Rightarrow> f\<lparr>ft_claims := completeIdempotentRequest n 201 body (ft_claims f)\<rparr>)"

definition abandon_claim :: "int option \<Rightarrow> front \<Rightarrow> front" where
  "abandon_claim c f = (case c of None \<Rightarrow> f | Some n \<Rightarrow> f\<lparr>ft_claims := abandonIdempotentRequest n (ft_claims f)\<rparr>)"

text \<open>From the claim on: the insertions, the index, the answer; an error gives the claim up.\<close>

definition perform :: "'d counter \<Rightarrow> open_request \<Rightarrow> order \<Rightarrow> (db, refusal + trade \<times> trade option) tx \<Rightarrow> front \<Rightarrow> (refusal + int \<times> open_done) \<times> front" where
  "perform m rq x body f =
     (case ensureTradeOpenIdempotencyClaim rq f of
        (Inl reply, f1) \<Rightarrow> (reply, f1)
      | (Inr c, f1) \<Rightarrow>
          (case at_desk ''Could not open trade'' (replied body) (ft_shop f1) of
             (Inl e, s) \<Rightarrow> (Inl e, abandon_claim c (f1\<lparr>ft_shop := s\<rparr>))
           | (Inr (r, sib), s) \<Rightarrow>
               (let s1 = (if od_pending x then sync_sibling m x r sib (sync_placed m r s) else sync_opened m r s);
                    reply = \<lparr>oa_message = (if od_pending x then underscores_out (od_type x) @ '' order placed'' else ''Trade opened successfully''),
                             oa_trade = trade_id r, oa_account = text_or_empty (trade_account r), oa_sibling = map_option trade_id sib\<rparr>
                in (Inr (201, reply), complete_claim c reply (f1\<lparr>ft_shop := s1\<rparr>)))))"

definition openTradeHandler :: "'d counter \<Rightarrow> open_request \<Rightarrow> front \<Rightarrow> (refusal + int \<times> open_done) \<times> front" where
  "openTradeHandler m rq f =
     (case read_order m rq of
        Inl e \<Rightarrow> (Inl e, f)
      | Inr x \<Rightarrow>
          (case check_account m (oq_user rq) x (en_db (sh_engine (ft_shop f))) of
             Inl e \<Rightarrow> (Inl e, f)
           | Inr a \<Rightarrow>
               if od_pending x then
                 (let price = parse_float (oq_price rq) in
                  case pending_price_error m x price of
                    Some e \<Rightarrow> (Inl e, f)
                  | None \<Rightarrow> perform m rq x (pending_body m rq x a price) f)
               else
                 (case dk_live m (od_instrument x) of
                    Inl code \<Rightarrow>
                      (Inl (if code = ''PRICE_NOT_AVAILABLE'' then (400, ''This instrument is currently unavailable for your tenant feed.'') else open_failed), f)
                  | Inr (q, updated) \<Rightarrow>
                      if too_old (mt_time m) updated
                      then (Inl (400, ''Price feed is currently delayed. Order rejected due to volatility protection/latency.''), f)
                      else
                        (let (openPrice, slippage) = open_price_of m x a q in
                         case level_refusal rq x openPrice of
                           Some e \<Rightarrow> (Inl e, f)
                         | None \<Rightarrow> perform m rq x (market_body m rq x a openPrice slippage) f))))"

end
