(* ===== verification/SessionBooks.thy ===== *)
theory SessionBooks
  imports SessionCloses ChallengeBooks
begin

text \<open>
  The scheduled closes keep the books, and what a pass that considers itself done has achieved: the news pass has left
  none of the open trades open, the other two may have left every one.
\<close>

section \<open>One trade\<close>

lemma or_rollback_effect:
  assumes "or_rollback body (pool_conn t) = (r, c)" "framed body"
  obtains (kept) "tabs c = t" "\<forall>x c1. r = Inr (Some x) \<longrightarrow> body (begin_tx (pool_conn t)) = (Inr (Some x), c1) \<longrightarrow> aborted c1"
  | (ended) x c1 where "r = Inr (Some x)" "body (begin_tx (pool_conn t)) = (Inr (Some x), c1)" "tabs c = tabs c1"
proof -
  obtain q c1 where b: "body (begin_tx (pool_conn t)) = (q, c1)" by (cases "body (begin_tx (pool_conn t))")
  have base: "base c1 = t" using framedD [OF assms(2) b] by (simp add: begin_tx_def pool_conn_def)
  show thesis
  proof (cases "\<exists>x. q = Inr (Some x) \<and> \<not> aborted c1")
    case True
    then obtain x where "q = Inr (Some x)" "\<not> aborted c1" by blast
    then show ?thesis using assms(1) b by (intro ended [of x c1]) (auto simp: or_rollback_def commit_tx_def)
  next
    case False
    then show ?thesis using assms(1) b base
      by (intro kept) (auto simp: or_rollback_def commit_tx_def rollback_tx_def split: sum.splits option.splits)
  qed
qed

lemma framed_flatten: "framed (flatten_body reason r price pnl)"
  unfolding flatten_body_def by (intro tx_frames)

lemma is_open_row:
  assumes "rows_of acct t"
  shows "is_open i t \<longleftrightarrow> (\<exists>x\<in>set (trades t). trade_id x = i \<and> trade_status x = Some ''open'')"
proof (cases "get_trade i t")
  case None
  then have "\<forall>x\<in>set (trades t). trade_id x \<noteq> i" by (simp add: get_trade_def find_by_None)
  then show ?thesis using None by (auto simp: is_open_def)
next
  case (Some x)
  then have x: "trade_id x = i" "x \<in> set (trades t)" by (auto simp: get_trade_def dest: find_by_key)
  have "y = x" if "y \<in> set (trades t)" "trade_id y = i" for y using row_unique [OF assms that(1) x(2)] that(2) x(1) by simp
  then have "(\<exists>y\<in>set (trades t). trade_id y = i \<and> trade_status y = Some ''open'') \<longleftrightarrow> trade_status x = Some ''open''" using x by blast
  then show ?thesis using Some by (simp add: is_open_def)
qed

lemma flatten_effect:
  assumes run: "flatten_trade m reason r t = (x, u)" and l: "sum_laws (mt_arith m) v" and ok: "ready acct t"
    and r: "trade_account r = Some (acct (trade_id r))"
  shows "books {} t u" "\<And>p. x = Flattened p \<Longrightarrow> closed_in u (trade_id r)" "x = Gone \<Longrightarrow> u = t \<and> \<not> is_open (trade_id r) t"
    "x \<in> {Unpriced, Unvalued, TxFailed} \<Longrightarrow> u = t" "x = Unpriced \<longleftrightarrow> mt_tenant m (trade_instrument r) = None"
proof -
  have rows: "rows_of acct t" and bal: "balances_ok t" using ok by (simp_all add: ready_def)
  have all: "books {} t u \<and> (\<forall>p. x = Flattened p \<longrightarrow> closed_in u (trade_id r)) \<and> (x = Gone \<longrightarrow> u = t \<and> \<not> is_open (trade_id r) t) \<and>
      (x \<in> {Unpriced, Unvalued, TxFailed} \<longrightarrow> u = t) \<and> (x = Unpriced \<longleftrightarrow> mt_tenant m (trade_instrument r) = None)"
  proof (cases "mt_tenant m (trade_instrument r)")
    case None
    then show ?thesis using run by (simp add: flatten_trade_def)
  next
    case (Some q)
    show ?thesis
    proof (cases "row_pnl m r (market_side r q) None")
      case (Inl e)
      then show ?thesis using run Some by (simp add: flatten_trade_def)
    next
      case (Inr pnl)
      obtain k where k: "pnl = mk (of_int k / 100)" using row_pnl_cents [OF l Inr] by blast
      let ?b = "flatten_body reason r (market_side r q) pnl"
      obtain res c where e: "or_rollback ?b (pool_conn t) = (res, c)" by (cases "or_rollback ?b (pool_conn t)")
      have body: "\<not> aborted c1 \<and> is_open (trade_id r) t \<and> (\<exists>u1 ra. exit_stmt (trade_id r) (AtQuote (market_side r q)) pnl reason t = Inr ((), u1) \<and>
          credit_stmt (acct (trade_id r)) pnl u1 = Inr (ra, tabs c1))" if "?b (begin_tx (pool_conn t)) = (Inr (Some y), c1)" for y c1
        using that r by (auto simp: flatten_body_def select_Inr query_Inr tx_return_app tx_start elim!: tx_bind_Inr_E split: if_splits)
      have gone: "\<not> is_open (trade_id r) t" if none: "res = Inr None"
      proof -
        obtain c1 where "?b (begin_tx (pool_conn t)) = (Inr None, c1)"
          using e none by (cases "?b (begin_tx (pool_conn t))") (auto simp: or_rollback_def split: sum.splits option.splits)
        then show ?thesis by (auto simp: flatten_body_def select_Inr query_Inr tx_return_app tx_start elim!: tx_bind_Inr_E split: if_splits)
      qed
      from e framed_flatten show ?thesis
      proof (cases rule: or_rollback_effect)
        case kept
        have "res \<noteq> Inr (Some y)" for y
        proof
          assume a: "res = Inr (Some y)"
          then obtain c1 where "?b (begin_tx (pool_conn t)) = (Inr (Some y), c1)"
            using e by (cases "?b (begin_tx (pool_conn t))") (auto simp: or_rollback_def split: sum.splits option.splits)
          then show False using body kept(2) a by blast
        qed
        then show ?thesis using run Some Inr e kept(1) gone by (auto simp: flatten_trade_def split: sum.splits option.splits)
      next
        case (ended y c1)
        obtain u1 ra where st: "exit_stmt (trade_id r) (AtQuote (market_side r q)) (mk (of_int k / 100)) reason t = Inr ((), u1)"
          "credit_stmt (acct (trade_id r)) (mk (of_int k / 100)) u1 = Inr (ra, tabs c1)" and io: "is_open (trade_id r) t"
          using body [OF ended(2)] k by blast
        obtain z where z: "z \<in> set (trades t)" "trade_id z = trade_id r" "trade_status z = Some ''open''"
          using io is_open_row [OF rows] by blast
        note mv = moves_exit [OF st(1) rows z]
        have bal1: "balances_ok u1" using mv(3) bal by (simp add: balances_ok_def get_account_def)
        have cr: "moves {} (\<lambda>j. if j = acct (trade_id r) then k else 0) u1 (tabs c1)" by (rule moves_credit [OF st(2) bal1])
        have b: "books {} t (tabs c1)" by (rule moves_eq [OF moves_trans [OF mv(1) cr]]) auto
        have "closed_in (tabs c1) (trade_id r)" by (rule closed_stays [OF cr mv(4)])
        then show ?thesis using run Some Inr e ended b by (auto simp: flatten_trade_def)
      qed
    qed
  qed
  show "books {} t u" "\<And>p. x = Flattened p \<Longrightarrow> closed_in u (trade_id r)" "x = Gone \<Longrightarrow> u = t \<and> \<not> is_open (trade_id r) t"
    "x \<in> {Unpriced, Unvalued, TxFailed} \<Longrightarrow> u = t" "x = Unpriced \<longleftrightarrow> mt_tenant m (trade_instrument r) = None" using all by blast+
qed

section \<open>The loop\<close>

definition gone_in :: "db \<Rightarrow> string \<Rightarrow> bool" where
  "gone_in t i \<longleftrightarrow> (\<forall>y\<in>set (trades t). trade_id y = i \<longrightarrow> trade_status y \<noteq> Some ''open'')"

lemma gone_stays:
  assumes m: "moves {} G t u" and g: "gone_in t i"
  shows "gone_in u i"
  unfolding gone_in_def
proof (intro ballI impI notI)
  fix z assume z: "z \<in> set (trades u)" "trade_id z = i" "trade_status z = Some ''open''"
  obtain y where y: "y \<in> set (trades t)" "row_ahead {} y z" using behind_row [OF m z(1)] by blast
  then have "trade_id y = i" "trade_status y \<noteq> Some ''open''" using z g by (auto simp: gone_in_def row_defs)
  then show False using y(2) z(3) unfolding row_ahead_def lifecycle_def waits_def by auto
qed

lemma closed_gone: "rows_of acct t \<Longrightarrow> closed_in t i \<Longrightarrow> gone_in t i"
  unfolding closed_in_def gone_in_def using row_unique by fastforce

lemma flatten_all_effect:
  assumes l: "sum_laws (mt_arith m) v"
  shows "flatten_all m reason rs t = (xs, u) \<Longrightarrow> ready acct t \<Longrightarrow> \<forall>r\<in>set rs. trade_account r = Some (acct (trade_id r)) \<Longrightarrow>
    books {} t u \<and> (\<not> list_ex news_error xs \<longrightarrow> (\<forall>r\<in>set rs. gone_in u (trade_id r)))"
proof (induction rs arbitrary: t xs)
  case (Cons r rs)
  obtain x t1 where one: "flatten_trade m reason r t = (x, t1)" by (cases "flatten_trade m reason r t")
  obtain ys where rest: "flatten_all m reason rs t1 = (ys, u)" and xs: "xs = x # ys"
    using Cons.prems(1) one by (auto split: prod.splits)
  have ra: "trade_account r = Some (acct (trade_id r))" using Cons.prems(3) by simp
  note e = flatten_effect [OF one l Cons.prems(2) ra]
  have ok1: "ready acct t1" by (rule ready_moves [OF e(1) Cons.prems(2)])
  have ih: "books {} t1 u" "\<not> list_ex news_error ys \<longrightarrow> (\<forall>r\<in>set rs. gone_in u (trade_id r))"
    using Cons.IH [OF rest ok1] Cons.prems(3) by auto
  have "gone_in u (trade_id r)" if "\<not> news_error x"
  proof -
    have "gone_in t1 (trade_id r)"
    proof (cases x)
      case (Flattened p)
      then show ?thesis using closed_gone e(2) ok1 by (auto simp: ready_def)
    next
      case Gone
      then show ?thesis using e(3) is_open_row Cons.prems(2) by (fastforce simp: gone_in_def ready_def)
    qed (use that in \<open>auto simp: news_error_def\<close>)
    then show ?thesis by (rule gone_stays [OF ih(1)])
  qed
  then show ?case using ih books_trans [OF e(1) ih(1)] by (auto simp: xs)
qed simp

lemma with_status_rows:
  assumes "ready acct t"
  shows "\<forall>r\<in>set (map fst (with_status st t)). trade_account r = Some (acct (trade_id r))"
    "\<forall>r\<in>set (map fst (flat_rows ov t)). trade_account r = Some (acct (trade_id r))"
  using assms unfolding with_status_def flat_rows_def joined_def ready_def rows_of_def List.map_filter_def
  by (auto split: option.splits if_splits)

lemma books_cancel_order: "books {} t (cancel_order i t)"
proof -
  obtain ids u where c: "cancel_stmt (\<lambda>r. trade_id r = i \<and> trade_status r = Some ''pending'') ''Weekend holding disabled'' t = Inr (ids, u)"
    by (simp add: cancel_stmt_def)
  have "cancel_order i t = u" using c by (simp add: cancel_order_def query_def pool_conn_def)
  then show ?thesis using books_cancel [OF c] by auto
qed

lemma books_cancels: "books {} t (fold (\<lambda>(r, a). cancel_order (trade_id r)) rows t)"
  by (induction rows arbitrary: t) (auto intro: books_trans [OF books_cancel_order])

lemma emit_db [simp]: "ss_db (session_emit evs s) = ss_db s" "ss_weekend (session_emit evs s) = ss_weekend s"
  "ss_flat (session_emit evs s) = ss_flat s" "ss_news (session_emit evs s) = ss_news s"
  by (simp_all add: session_emit_def)

lemma session_passes_books:
  assumes l: "sum_laws (mt_arith m) v" and ok: "ready acct (ss_db s)"
  shows "books {} (ss_db s) (ss_db (weekendForceCloseByTenant m s))" "books {} (ss_db s) (ss_db (flatByCloseForAccounts m ov s))"
    "books {} (ss_db s) (ss_db (checkNewsForceClose m events s))"
proof -
  have b: "books {} (ss_db s) u" if "flatten_all m reason (map fst rows) (ss_db s) = (xs, u)"
    "rows = with_status st (ss_db s) \<or> rows = flat_rows ov (ss_db s)" for reason rows st xs u
    using flatten_all_effect [OF l that(1) ok] with_status_rows [OF ok] that(2) by blast
  have w: "books {} (ss_db s) (fold (\<lambda>(r, a). cancel_order (trade_id r)) rows u)"
    if "flatten_all m ''Weekend Close'' (map fst (with_status ''open'' (ss_db s))) (ss_db s) = (xs, u)" for xs u rows
    using books_trans [OF b [OF that disjI1 [OF refl]] books_cancels] .
  show "books {} (ss_db s) (ss_db (weekendForceCloseByTenant m s))"
    unfolding weekendForceCloseByTenant_def Let_def by (auto intro: w split: prod.split)
  show "books {} (ss_db s) (ss_db (flatByCloseForAccounts m ov s))"
    unfolding flatByCloseForAccounts_def Let_def by (auto intro: b split: prod.split)
  show "books {} (ss_db s) (ss_db (checkNewsForceClose m events s))"
    unfolding checkNewsForceClose_def Let_def by (auto intro: b split: prod.split option.split)
qed

section \<open>When a pass is done\<close>

lemma news_id_nonempty: "news_id e \<noteq> []"
  by (simp add: news_id_def)

lemma gone_closed:
  assumes b: "books {} t u" and g: "gone_in u (trade_id r)" and r: "r \<in> set (trades t)" "trade_status r = Some ''open''"
  shows "closed_in u (trade_id r)"
proof -
  obtain z where z: "z \<in> set (trades u)" "row_ahead {} r z" using ahead_row [OF b r(1)] by blast
  then have "trade_id z = trade_id r" "trade_status z = Some ''closed''" using g r(2) by (auto simp: row_defs gone_in_def)
  then show ?thesis using z(1) unfolding closed_in_def by blast
qed

text \<open>C36. A news pass that considers itself done is done: when the pass over an event records the event, so that it will not run for
  it again, every trade that was open on an account is closed, and every balance has moved by exactly what the trades closed on its
  account have booked.\<close>

theorem news_pass_is_complete:
  assumes l: "sum_laws (mt_arith m) v" and ok: "ready acct (ss_db s)"
    and e: "getActiveNewsEvent events (mt_time m) 3 = Some e" "ss_news s \<noteq> news_id e" "with_status ''open'' (ss_db s) \<noteq> []"
    and signed: "ss_news (checkNewsForceClose m events s) = news_id e"
  shows "(\<forall>r\<in>fst ` set (with_status ''open'' (ss_db s)). closed_in (ss_db (checkNewsForceClose m events s)) (trade_id r)) \<and>
    residue j (ss_db (checkNewsForceClose m events s)) = residue j (ss_db s)"
proof
  let ?rows = "map fst (with_status ''open'' (ss_db s))"
  note b = session_passes_books(3) [OF l ok, of events]
  obtain xs u where run: "flatten_all m ''News Force Close'' ?rows (ss_db s) = (xs, u)" by (cases "flatten_all m ''News Force Close'' ?rows (ss_db s)")
  have u: "\<not> list_ex news_error xs" "ss_db (checkNewsForceClose m events s) = u"
    using signed e run news_id_nonempty [of e] by (auto simp: checkNewsForceClose_def Let_def split: if_splits)
  have open': "r \<in> set (trades (ss_db s)) \<and> trade_status r = Some ''open''" if "r \<in> set ?rows" for r
    using that unfolding with_status_def joined_def List.map_filter_def by (auto split: option.splits if_splits)
  show "\<forall>r\<in>fst ` set (with_status ''open'' (ss_db s)). closed_in (ss_db (checkNewsForceClose m events s)) (trade_id r)"
  proof
    fix r assume "r \<in> fst ` set (with_status ''open'' (ss_db s))"
    then have r: "r \<in> set ?rows" by simp
    have "gone_in u (trade_id r)" using flatten_all_effect [OF l run ok with_status_rows(1) [OF ok]] u(1) r by blast
    then show "closed_in (ss_db (checkNewsForceClose m events s)) (trade_id r)" using gone_closed [OF b] open' [OF r] u(2) by simp
  qed
  show "residue j (ss_db (checkNewsForceClose m events s)) = residue j (ss_db s)" using b by (simp add: moves_def option.map_ident)
qed

definition news_market :: "rat market" where
  "news_market = demo_market\<lparr>mt_tenant := quoted_at_one\<rparr>"

definition rate_decision :: news_event where
  "rate_decision = \<lparr>ne_title = ''FOMC'', ne_country = ''USD'', ne_impact = ''High'', ne_at = 100000\<rparr>"

definition trading_session :: session where
  "trading_session = \<lparr>ss_db = trading_db, ss_weekend = [], ss_flat = [], ss_news = [], ss_io = True, ss_events = []\<rparr>"

lemma news_demo:
  "ss_news (checkNewsForceClose news_market [rate_decision] trading_session) = ''FOMC_100000''"
  "map fst (with_status ''open'' trading_db) = [stopped_trade]"
  "map (\<lambda>r. (trade_id r, trade_status r, trade_reason r)) (trades (ss_db (checkNewsForceClose news_market [rate_decision] trading_session))) =
    [(''t1'', Some ''closed'', Some ''News Force Close'')]"
  by code_simp+

theorem news_pass_is_complete_witness:
  "closed_in (ss_db (checkNewsForceClose news_market [rate_decision] trading_session)) ''t1'' \<and>
   residue ''a1'' (ss_db (checkNewsForceClose news_market [rate_decision] trading_session)) = residue ''a1'' trading_db \<and>
   map fst (with_status ''open'' trading_db) = [stopped_trade]"
proof -
  have l: "sum_laws (mt_arith news_market) (\<lambda>x. x)" using exact_sums by (simp add: news_market_def demo_market_def)
  have e: "getActiveNewsEvent [rate_decision] (mt_time news_market) 3 = Some rate_decision"
    by (simp add: getActiveNewsEvent_def rate_decision_def news_market_def demo_market_def Let_def)
  have i: "news_id rate_decision = ''FOMC_100000''" by code_simp
  have o: "with_status ''open'' trading_db \<noteq> []" using news_demo(2) by auto
  have s: "ss_db trading_session = trading_db" "ss_news trading_session = []" by (simp_all add: trading_session_def)
  have "stopped_trade \<in> fst ` set (with_status ''open'' trading_db)" using news_demo(2) by (metis list.set_intros(1) list.set_map)
  moreover have "trade_id stopped_trade = ''t1''" by (simp add: stopped_trade_def)
  ultimately show ?thesis
    using news_pass_is_complete [OF l, of "\<lambda>_. ''a1''" trading_session "[rate_decision]" rate_decision] trading_ready e i o news_demo(1,2)
    by (fastforce simp: s)
qed

text \<open>Unlike it, the other passes sign the day off when no trade has a quote and every one is still open.\<close>

lemma flatten_unpriced:
  assumes "\<And>i. mt_tenant m i = None"
  shows "flatten_all m reason rs t = (map (\<lambda>_. Unpriced) rs, t)"
  by (induction rs) (simp_all add: flatten_trade_def assms)

lemma unpriced_day_is_signed_off:
  assumes q: "\<And>i. mt_tenant m i = None" and o: "with_status ''open'' (ss_db s) \<noteq> []" "with_status ''pending'' (ss_db s) = []"
  shows "utc_day (mt_time m) = 5 \<Longrightarrow> 21 * 60 \<le> utc_minutes (mt_time m) \<Longrightarrow> utc_minutes (mt_time m) < 21 * 60 + 10 \<Longrightarrow> \<not> ru_weekend (mt_rules m) \<Longrightarrow>
      ss_weekend (weekendForceCloseByTenant m s) = day_key_of (mt_time m) \<and> ss_db (weekendForceCloseByTenant m s) = ss_db s"
    and "23 * 60 \<le> utc_minutes (mt_time m) \<Longrightarrow> utc_minutes (mt_time m) < 23 * 60 + 10 \<Longrightarrow>
      ss_flat (flatByCloseForAccounts m ov s) = day_key_of (mt_time m) \<and> ss_db (flatByCloseForAccounts m ov s) = ss_db s"
  using o by (auto simp: weekendForceCloseByTenant_def flatByCloseForAccounts_def Let_def flatten_unpriced [OF q])

end
