(* ===== verification/DeskBooks.thy ===== *)
theory DeskBooks
  imports TradeEdits SessionBooks
begin

text \<open>
  What the trader's own operations keep: the books of every account, the trades that are closed, and the lots and the
  commission of a trade that is closed in parts.
\<close>

section \<open>Tidy tables\<close>

definition tidy :: "db \<Rightarrow> bool" where
  "tidy t \<longleftrightarrow> distinct (map trade_id (trades t)) \<and> (\<forall>r\<in>set (trades t). trade_account r \<noteq> None) \<and> balances_ok t"

definition account_of :: "db \<Rightarrow> string \<Rightarrow> string" where
  "account_of t i = (case get_trade i t of None \<Rightarrow> [] | Some r \<Rightarrow> text_or_empty (trade_account r))"

lemma get_trade_row: "distinct (map trade_id (trades t)) \<Longrightarrow> r \<in> set (trades t) \<Longrightarrow> get_trade (trade_id r) t = Some r"
proof -
  assume d: "distinct (map trade_id (trades t))" and r: "r \<in> set (trades t)"
  obtain y where y: "get_trade (trade_id r) t = Some y" using r unfolding get_trade_def by (metis find_by_None option.exhaust)
  then have "trade_id y = trade_id r" "y \<in> set (trades t)" using find_by_key unfolding get_trade_def by metis+
  then have "y = r" using d r by (auto simp: distinct_map inj_on_def)
  then show "get_trade (trade_id r) t = Some r" using y by simp
qed

lemma get_trade_key: "get_trade i t = Some r \<Longrightarrow> trade_id r = i \<and> r \<in> set (trades t)"
  unfolding get_trade_def by (rule find_by_key)

lemma tidy_ready: "tidy t \<Longrightarrow> length (trades t) \<le> 100000 \<Longrightarrow> ready (account_of t) t"
  unfolding ready_def rows_of_def tidy_def by (auto simp: account_of_def get_trade_row)

text \<open>The books are kept, no closed trade changes, and no row is lost.\<close>

definition kept :: "db \<Rightarrow> db \<Rightarrow> bool" where
  "kept t u \<longleftrightarrow> (\<forall>i. residue i u = residue i t) \<and> (\<forall>r\<in>set (trades t). trade_status r = Some ''closed'' \<longrightarrow> r \<in> set (trades u)) \<and>
     trade_id ` set (trades t) \<subseteq> trade_id ` set (trades u)"

lemma kept_refl [simp]: "kept t t"
  by (simp add: kept_def)

lemma kept_trans: "kept t u \<Longrightarrow> kept u v \<Longrightarrow> kept t v"
  unfolding kept_def by (metis subset_trans)

lemma kept_books: "books {} t u \<Longrightarrow> kept t u"
proof -
  assume b: "books {} t u"
  have "r \<in> set (trades u)" if r: "r \<in> set (trades t)" "trade_status r = Some ''closed''" for r
  proof -
    obtain s where "s \<in> set (trades u)" "row_ahead {} r s" using ahead_row [OF b r(1)] by blast
    then show ?thesis using r(2) by (auto simp: row_defs)
  qed
  moreover have "map trade_id (trades u) = map trade_id (trades t)" using b ahead_ids unfolding moves_def by metis
  then have "trade_id ` set (trades u) = trade_id ` set (trades t)" by (metis list.set_map)
  moreover have "residue i u = residue i t" for i using b by (simp add: moves_def option.map_ident)
  ultimately show ?thesis by (simp add: kept_def)
qed

lemma tidy_books: "books {} t u \<Longrightarrow> tidy t \<Longrightarrow> length (trades t) \<le> 100000 \<Longrightarrow> tidy u \<and> length (trades u) = length (trades t)"
proof -
  assume b: "books {} t u" and t: "tidy t" and l: "length (trades t) \<le> 100000"
  have "ready (account_of t) u" by (rule ready_moves [OF b tidy_ready [OF t l]])
  then have "tidy u" by (auto simp: ready_def rows_of_def tidy_def)
  moreover have "length (trades u) = length (trades t)" using b list_all2_lengthD unfolding moves_def by metis
  ultimately show ?thesis by blast
qed

text \<open>The trades and orders of an account that live.\<close>

definition live_count :: "string \<Rightarrow> trade list \<Rightarrow> nat" where
  "live_count i rs = length (filter (\<lambda>r. trade_account r = Some i \<and> (trade_status r = Some ''open'' \<or> trade_status r = Some ''pending'')) rs)"

lemma live_count_append [simp]: "live_count i (rs @ ss) = live_count i rs + live_count i ss"
  by (simp add: live_count_def)

lemma live_count_le: "live_count i rs \<le> length rs"
  by (simp add: live_count_def)

lemma live_count_update:
  assumes "\<And>r. trade_account (g r) = trade_account r" "\<And>r. trade_status (g r) = trade_status r"
  shows "live_count i (update_by key k g rs) = live_count i rs"
  by (induction rs) (simp_all add: live_count_def update_by_def assms)

lemma live_count_ahead: "list_all2 (row_ahead {}) rs ss \<Longrightarrow> live_count i ss \<le> live_count i rs"
proof (induction rule: list_all2_induct)
  case (Cons r rs s ss)
  have "trade_account s = Some i \<and> (trade_status s = Some ''open'' \<or> trade_status s = Some ''pending'') \<longrightarrow>
      trade_account r = Some i \<and> (trade_status r = Some ''open'' \<or> trade_status r = Some ''pending'')"
  proof -
    have l: "trade_account s = trade_account r" "trade_status r = Some ''closed'' \<Longrightarrow> s = r"
      "trade_status r = Some ''cancelled'' \<Longrightarrow> trade_status s = Some ''cancelled''"
      "trade_status r \<notin> {Some ''closed'', Some ''cancelled'', Some ''open'', Some ''pending''} \<Longrightarrow> trade_status s = trade_status r"
      using Cons.hyps(1) unfolding row_ahead_def lifecycle_def by blast+
    consider "trade_status r = Some ''closed''" | "trade_status r = Some ''cancelled''" | "trade_status r = Some ''open''" | "trade_status r = Some ''pending''"
      | "trade_status r \<notin> {Some ''closed'', Some ''cancelled'', Some ''open'', Some ''pending''}" by blast
    then show ?thesis
    proof cases
      case 5
      then have "trade_status s = trade_status r" by (rule l(4))
      then show ?thesis using 5 by simp
    qed (use l in simp_all)
  qed
  then show ?case using Cons.IH by (auto simp: live_count_def)
qed (simp add: live_count_def)

text \<open>The tables stay tidy and grow by a few rows at most; \<open>quiet\<close> when no account has more that lives.\<close>

definition grows :: "nat \<Rightarrow> db \<Rightarrow> db \<Rightarrow> bool" where
  "grows n t u \<longleftrightarrow> kept t u \<and> tidy u \<and> length (trades u) \<le> length (trades t) + n"

lemma grows_refl [simp]: "tidy t \<Longrightarrow> grows n t t"
  by (simp add: grows_def)

lemma grows_books: "books {} t u \<Longrightarrow> tidy t \<Longrightarrow> length (trades t) \<le> 100000 \<Longrightarrow> grows n t u"
  using tidy_books [of t u] kept_books [of t u] by (simp add: grows_def)

definition quiet :: "nat \<Rightarrow> db \<Rightarrow> db \<Rightarrow> bool" where
  "quiet n t u \<longleftrightarrow> grows n t u \<and> (\<forall>i. live_count i (trades u) \<le> live_count i (trades t))"

lemma quiet_refl [simp]: "tidy t \<Longrightarrow> quiet n t t"
  by (simp add: quiet_def)

lemma quiet_books: "books {} t u \<Longrightarrow> tidy t \<Longrightarrow> length (trades t) \<le> 100000 \<Longrightarrow> quiet n t u"
  using grows_books live_count_ahead unfolding quiet_def moves_def by blast

section \<open>A part of a trade\<close>

lemma gain_update:
  assumes "\<And>r. row_gain i (f r) = row_gain i r"
  shows "sum_list (map (row_gain i) (update_by key k f rs)) = sum_list (map (row_gain i) rs)"
  by (induction rs) (simp_all add: update_by_def assms)

lemma part_effect:
  assumes st: "part_stmt i r q price (mk (of_int k / 100)) (mk (of_int c / 100)) t = Inr (x, u)"
  shows "u = t\<lparr>trades := trades t @ [x]\<rparr>" "get_trade i t = None" "trade_id x = i" "trade_account x = trade_account r"
    "trade_status x = Some ''closed''" "demo_pnl x = Some k" "trade_parent x = Some (trade_id r)" "cents_ok k" "cents_ok c"
    "trade_commission x = Some c" "numeric_scaled 10 4 q = Inr (trade_lots x)"
proof -
  obtain q2 k2 q3 c2 where b: "bind_num (mk (of_int k / 100)) = Inr q2" "numeric15_2 q2 = Inr k2"
      "bind_num (mk (of_int c / 100)) = Inr q3" "numeric15_2 q3 = Inr c2"
    and x: "trade_id x = i" "trade_account x = trade_account r" "trade_status x = Some ''closed''" "demo_pnl x = Some k2"
      "trade_parent x = Some (trade_id r)" "trade_commission x = Some c2" "numeric_scaled 10 4 q = Inr (trade_lots x)"
      "get_trade i t = None" "u = t\<lparr>trades := trades t @ [x]\<rparr>"
    using st by (auto simp: part_stmt_def part_row_def insert_trade_def sum_bind_Inr split: if_splits)
  then show "u = t\<lparr>trades := trades t @ [x]\<rparr>" "get_trade i t = None" "trade_id x = i" "trade_account x = trade_account r"
    "trade_status x = Some ''closed''" "demo_pnl x = Some k" "trade_parent x = Some (trade_id r)" "cents_ok k" "cents_ok c"
    "trade_commission x = Some c" "numeric_scaled 10 4 q = Inr (trade_lots x)"
    using booked_cents [OF b(1,2)] booked_cents [OF b(3,4)] by simp_all
qed

lemma rest_effect:
  assumes "rest_stmt i q (mk (of_int c / 100)) t = Inr ((), u)"
  obtains l where "numeric_scaled 10 4 q = Inr l" "cents_ok c"
    "u = t\<lparr>trades := update_by trade_id i (\<lambda>r. r\<lparr>trade_lots := l, trade_commission := Some c\<rparr>) (trades t)\<rparr>"
proof -
  obtain l q2 c2 where r: "numeric_scaled 10 4 q = Inr l" "bind_num (mk (of_int c / 100)) = Inr q2" "numeric15_2 q2 = Inr c2"
    "u = t\<lparr>trades := update_by trade_id i (\<lambda>r. r\<lparr>trade_lots := l, trade_commission := Some c2\<rparr>) (trades t)\<rparr>"
    using assms by (auto simp: rest_stmt_def sum_bind_Inr)
  then show thesis using that booked_cents [OF r(2,3)] by blast
qed

lemma booked_part:
  assumes t: "tidy t" and r: "r \<in> set (trades t)" "trade_status r = Some ''open''"
    and part: "part_stmt i r q price (mk (of_int k / 100)) (mk (of_int c / 100)) t = Inr (x, t1)"
    and left: "rest_stmt (trade_id r) q2 (mk (of_int c2 / 100)) t1 = Inr ((), t2)"
    and cr: "credit_stmt (text_or_empty (trade_account r)) (mk (of_int k / 100)) t2 = Inr (ra, u)"
  shows "quiet 1 t u"
proof -
  note p = part_effect [OF part]
  obtain l where l: "t2 = t1\<lparr>trades := update_by trade_id (trade_id r) (\<lambda>r. r\<lparr>trade_lots := l, trade_commission := Some c2\<rparr>) (trades t1)\<rparr>"
    using left by (rule rest_effect)
  let ?f = "\<lambda>r. r\<lparr>trade_lots := l, trade_commission := Some c2\<rparr>"
  have other: "i \<noteq> trade_id r" using p(2) r(1) by (auto simp: get_trade_def find_by_None)
  have rows: "trades t2 = update_by trade_id (trade_id r) ?f (trades t) @ [x]" using other p(1,3) by (simp add: l update_by_def)
  have same: "accounts t2 = accounts t" "ledger t2 = ledger t" using p(1) by (simp_all add: l)
  have acct: "get_account j t2 = get_account j t" "ledger_sum j t2 = ledger_sum j t" for j using same by (simp_all add: get_account_def ledger_sum_def)
  have bal: "balances_ok t2" using t by (simp add: balances_ok_def acct tidy_def)
  obtain a where a: "trade_account r = Some a" using t r(1) by (auto simp: tidy_def)
  have gain: "row_gain j (?f y) = row_gain j y" for j y by (simp add: row_gain_def)
  have "trade_sum j t2 = trade_sum j t + row_gain j x" for j
    unfolding trade_sum_gain rows by (simp add: gain_update [where f = ?f, OF gain])
  then have "trade_sum j t2 = trade_sum j t + (if j = a then k else 0)" for j using p(4,5,6) a by (simp add: row_gain_def)
  then have 1: "residue j t2 = map_option (\<lambda>z. z - (if j = a then k else 0)) (residue j t)" for j
    by (simp add: residue_def acct option.map_comp o_def algebra_simps)
  have m: "moves {} (\<lambda>j. if j = a then k else 0) t2 u" using moves_credit [OF cr [unfolded a] bal] by (simp add: text_or_empty_def)
  then have res: "residue j u = residue j t" for j using 1 [of j] by (auto simp: moves_def option.map_comp o_def option.map_ident)
  have ids: "map trade_id (trades u) = map trade_id (trades t) @ [i]"
  proof -
    have "map trade_id (trades u) = map trade_id (trades t2)" using m ahead_ids unfolding moves_def by metis
    moreover have "map trade_id (update_by trade_id (trade_id r) ?f (trades t)) = map trade_id (trades t)"
      by (simp add: update_by_def)
    ultimately show ?thesis using p(3) by (simp add: rows)
  qed
  have new: "i \<notin> trade_id ` set (trades t)" using p(2) by (auto simp: get_trade_def find_by_None)
  have untouched: "trades u = trades t2" using cr by (auto simp: credit_stmt_def Let_def split: option.splits sum.splits)
  have "y \<in> set (trades u)" if y: "y \<in> set (trades t)" "trade_status y = Some ''closed''" for y
  proof -
    have "trade_id y \<noteq> trade_id r"
    proof
      assume "trade_id y = trade_id r"
      then have "y = r" using t y(1) r(1) by (auto simp: tidy_def distinct_map inj_on_def)
      then show False using y(2) r(2) by simp
    qed
    then show ?thesis using y(1) by (auto simp: untouched rows update_by_def)
  qed
  moreover have "trade_id ` set (trades t) \<subseteq> trade_id ` set (trades u)" by (metis ids list.set_map set_append sup_ge1)
  ultimately have "kept t u" by (simp add: kept_def res)
  moreover have "tidy u"
  proof -
    have "distinct (map trade_id (trades u))" using t new by (simp add: ids tidy_def)
    moreover have "\<forall>y\<in>set (trades u). trade_account y \<noteq> None"
      using t p(4) a by (auto simp: untouched rows update_by_def tidy_def)
    moreover have "balances_ok u" using m bal by (simp add: moves_def)
    ultimately show ?thesis by (simp add: tidy_def)
  qed
  moreover have "length (trades u) = Suc (length (trades t))" using arg_cong [OF ids, of length] by simp
  moreover have "live_count j (trades u) = live_count j (trades t)" for j
    using p(5) live_count_update [where g = ?f] by (simp add: untouched rows) (simp add: live_count_def)
  ultimately show ?thesis by (simp add: quiet_def grows_def)
qed

section \<open>Closing\<close>

lemma replied_effect:
  assumes "replied body (pool_conn t) = (x, c)" "framed body"
  obtains (undone) "tabs c = t" "\<And>y. x \<noteq> Inr (Inr y)"
  | (ended) y c1 where "x = Inr (Inr y)" "body (begin_tx (pool_conn t)) = (Inr (Inr y), c1)" "tabs c = (if aborted c1 then t else tabs c1)"
proof -
  obtain q c1 where b: "body (begin_tx (pool_conn t)) = (q, c1)" by (cases "body (begin_tx (pool_conn t))")
  have base: "base c1 = t" using framedD [OF assms(2) b] by (simp add: begin_tx_def pool_conn_def)
  show thesis
  proof (cases "\<exists>y. q = Inr (Inr y)")
    case True
    then obtain y where "q = Inr (Inr y)" by blast
    then show ?thesis using assms(1) b base by (intro ended [of y c1]) (auto simp: replied_def commit_tx_def rollback_tx_def)
  next
    case False
    then show ?thesis using assms(1) b base
      by (intro undone) (auto simp: replied_def rollback_tx_def split: sum.splits)
  qed
qed

lemma framed_book_close: "framed (book_close m r sp price pnl)"
  unfolding book_close_def by (auto intro!: tx_frames)

lemma framed_close_body: "framed (close_body m i w price)"
  unfolding close_body_def by (auto intro!: tx_frames framed_book_close split: option.split sum.split)

lemma split_cents:
  assumes "split_trade D rules w r = Inr sp" "sum_laws D v"
  obtains c c2 where "sp_commission sp = mk (of_int c / 100)" "sp_left_commission sp = mk (of_int c2 / 100)"
proof -
  obtain a b where "sp_commission sp = da_num D (da_cents D a)" "sp_left_commission sp = da_num D (da_cents D b)"
    using assms(1) unfolding split_trade_def Let_def by (auto split: option.splits if_splits)
  then show thesis using that by (simp add: sum_lawsD(1,2) [OF assms(2)])
qed

lemma split_pnl_cents:
  assumes "split_pnl m r sp price = Inr pnl" "sum_laws (mt_arith m) v"
  obtains k where "pnl = mk (of_int k / 100)"
proof -
  have "calculatePnL (mt_arith m) (mt_env m) (mt_cache m) (trade_direction r) (opt_numeric (trade_open_price r)) (JNum price)
             (JNum (sp_number sp)) (trade_instrument r) (JNum (sp_commission sp)) None = Inr pnl"
    using assms(1) by (auto simp: split_pnl_def split: sum.splits pnl_error.splits)
  then show thesis using that by (rule pnl_in_cents [OF assms(2)])
qed

text \<open>What a successful close has done.\<close>

definition closed_part :: "'d desk \<Rightarrow> num \<Rightarrow> trade \<Rightarrow> 'd split \<Rightarrow> num \<Rightarrow> db \<Rightarrow> db \<Rightarrow> bool" where
  "closed_part m price r sp pnl t u \<longleftrightarrow>
     (\<exists>x t1 t2 ra. part_stmt (dk_fresh m) r (dk_digits m (sp_lots sp)) price pnl (sp_commission sp) t = Inr (x, t1) \<and>
       rest_stmt (trade_id r) (dk_digits m (sp_left sp)) (sp_left_commission sp) t1 = Inr ((), t2) \<and>
       credit_stmt (text_or_empty (trade_account r)) pnl t2 = Inr (ra, u))"

definition closed_whole :: "num \<Rightarrow> trade \<Rightarrow> num \<Rightarrow> db \<Rightarrow> db \<Rightarrow> bool" where
  "closed_whole price r pnl t u \<longleftrightarrow>
     (\<exists>t1 ra. close_stmt (\<lambda>_. True) clear_deferred [\<lparr>cl_trade = trade_id r, cl_price = price, cl_pnl = pnl, cl_reason = ''Manual Close''\<rparr>] t = Inr ((), t1) \<and>
       credit_stmt (text_or_empty (trade_account r)) pnl t1 = Inr (ra, u))"

lemma close_body_effect:
  assumes "close_body m i w price (begin_tx (pool_conn t)) = (Inr (Inr (r, sp, pnl)), c)"
  shows "\<not> aborted c" "get_trade i t = Some r" "trade_status r = Some ''open''" "split_trade (mt_arith m) (mt_rules m) w r = Inr sp"
    "split_pnl m r sp price = Inr pnl" "if sp_partial sp then closed_part m price r sp pnl t (tabs c) else closed_whole price r pnl t (tabs c)"
proof -
  have run: "get_trade i t = Some r \<and> trade_status r = Some ''open'' \<and> split_trade (mt_arith m) (mt_rules m) w r = Inr sp \<and> split_pnl m r sp price = Inr pnl \<and>
    (\<exists>c1 ra. book_close m r sp price pnl (begin_tx (pool_conn t)) = (Inr (), c1) \<and>
      query (credit_stmt (text_or_empty (trade_account r)) pnl) c1 = (Inr ra, c))"
    using assms unfolding close_body_def
    by (auto simp: select_Inr tx_return_app tx_start elim!: tx_bind_Inr_E split: option.splits if_splits sum.splits)
  then obtain c1 ra where b: "book_close m r sp price pnl (begin_tx (pool_conn t)) = (Inr (), c1)"
    and q: "query (credit_stmt (text_or_empty (trade_account r)) pnl) c1 = (Inr ra, c)" by blast
  show "if sp_partial sp then closed_part m price r sp pnl t (tabs c) else closed_whole price r pnl t (tabs c)"
    using b q unfolding book_close_def closed_part_def closed_whole_def
    by (auto simp: query_Inr tx_start elim!: tx_bind_Inr_E split: if_splits)
  show "\<not> aborted c" using q by (auto simp: query_Inr)
qed (use assms in \<open>auto simp: close_body_def select_Inr tx_return_app tx_start elim!: tx_bind_Inr_E split: option.splits if_splits sum.splits\<close>)

lemma whole_kept:
  assumes w: "closed_whole price r (mk (of_int k / 100)) t u" and t: "tidy t" "length (trades t) \<le> 100000" and r: "r \<in> set (trades t)" "trade_status r = Some ''open''"
  shows "books {} t u"
proof -
  note ok = tidy_ready [OF t]
  have acct: "trade_account r = Some (account_of t (trade_id r))" using ok r(1) by (simp add: ready_def rows_of_def)
  obtain t1 ra where cl: "close_stmt (\<lambda>_. True) clear_deferred [\<lparr>cl_trade = trade_id r, cl_price = price, cl_pnl = mk (of_int k / 100), cl_reason = ''Manual Close''\<rparr>] t = Inr ((), t1)"
    and cr: "credit_stmt (text_or_empty (trade_account r)) (mk (of_int k / 100)) t1 = Inr (ra, u)" using w unfolding closed_whole_def by blast
  have "moves {} (\<lambda>i. - (\<Sum>j\<in>{j \<in> {trade_id r}. account_of t j = i}. k)) t t1"
    using moves_close(1) [OF cl, where kof = "\<lambda>_. k" and acct = "account_of t"] ok r by (auto simp: ready_def closable_def)
  then have m1: "moves {} (\<lambda>i. - (if account_of t (trade_id r) = i then k else 0)) t t1" by (simp only: sum_singleton)
  have "balances_ok t1" using ready_moves [OF m1 ok] by (simp add: ready_def)
  then have "moves {} (\<lambda>j. if j = account_of t (trade_id r) then k else 0) t1 u" using moves_credit [OF cr] acct by (simp add: text_or_empty_def)
  from moves_trans [OF m1 this] show ?thesis by (rule moves_eq) simp
qed

lemma close_effect:
  assumes run: "replied (close_body m i w price) (pool_conn t) = (x, c)" and l: "sum_laws (mt_arith m) v"
    and t: "tidy t" "length (trades t) \<le> 100000"
  shows "quiet 1 t (tabs c)"
  using run framed_close_body
proof (cases rule: replied_effect)
  case undone
  then show ?thesis using t by simp
next
  case (ended y c1)
  obtain r sp pnl where y: "y = (r, sp, pnl)" by (cases y)
  note e = close_body_effect [OF ended(2) [unfolded y]]
  have r: "trade_id r = i" "r \<in> set (trades t)" using get_trade_key [OF e(2)] by simp_all
  obtain k where k: "pnl = mk (of_int k / 100)" by (rule split_pnl_cents [OF e(5) l])
  obtain c2 c3 where com: "sp_commission sp = mk (of_int c2 / 100)" "sp_left_commission sp = mk (of_int c3 / 100)" by (rule split_cents [OF e(4) l])
  have u: "tabs c = tabs c1" using ended(3) e(1) by simp
  show ?thesis
  proof (cases "sp_partial sp")
    case True
    then have "closed_part m price r sp pnl t (tabs c)" using e(6) u by simp
    then show ?thesis unfolding closed_part_def k com using booked_part [OF t(1) r(2) e(3)] by blast
  next
    case False
    then have "closed_whole price r (mk (of_int k / 100)) t (tabs c)" using e(6) u k by simp
    then show ?thesis by (intro quiet_books [OF _ t] whole_kept [OF _ t r(2) e(3)])
  qed
qed

section \<open>The handlers\<close>

definition sh_db :: "shop \<Rightarrow> db" where
  "sh_db s = en_db (sh_engine s)"

lemma sh_db_simps [simp]: "sh_db (put_index f s) = sh_db s" "sh_db (publishTradeIndex p s) = sh_db s"
  "sh_db (s\<lparr>sh_engine := (sh_engine s)\<lparr>en_db := t\<rparr>\<rparr>) = t"
  by (simp_all add: sh_db_def put_index_def publishTradeIndex_def)

lemma at_desk_db: "at_desk failure m s = (x, s1) \<Longrightarrow> \<exists>r c. m (pool_conn (sh_db s)) = (r, c) \<and> sh_db s1 = tabs c \<and> x = settled_with failure r"
  by (auto simp: at_desk_def sh_db_def split: prod.splits)

lemma sync_close_db [simp]: "sh_db (sync_close m r sp pnl s) = sh_db s"
  by (simp add: sync_close_def Let_def)

lemma quiet_close_handler:
  assumes l: "sum_laws (mt_arith m) v" and t: "tidy (sh_db s)" "length (trades (sh_db s)) \<le> 100000"
  shows "quiet 1 (sh_db s) (sh_db (snd (closeTradeHandler m rq s)))"
proof -
  have g: "quiet 1 (sh_db s) (sh_db (snd (case at_desk failure (replied (close_body m i w price)) s of
      (Inl e, s1) \<Rightarrow> (Inl e, s1) | (Inr (locked, sp, pnl), s1) \<Rightarrow> (Inr (done1 locked sp pnl), sync_close m locked sp pnl s1))))"
    for failure i w price and done1 :: "trade \<Rightarrow> 'a split \<Rightarrow> num \<Rightarrow> close_done"
  proof -
    obtain x s1 where a: "at_desk failure (replied (close_body m i w price)) s = (x, s1)" by (cases "at_desk failure (replied (close_body m i w price)) s")
    then have "quiet 1 (sh_db s) (sh_db s1)" using at_desk_db [OF a] close_effect [OF _ l t] by auto
    then show ?thesis by (auto simp: a split: sum.split)
  qed
  show ?thesis
    unfolding closeTradeHandler_def Let_def using t g by (auto split: option.split list.split sum.split)
qed

lemma quiet_cancel_handler:
  assumes t: "tidy (sh_db s)" "length (trades (sh_db s)) \<le> 100000"
  shows "quiet 0 (sh_db s) (sh_db (snd (cancelTradeHandler user i s)))"
proof -
  have g: "quiet 0 (sh_db s) (sh_db (snd (case at_desk failure (tx_bind (query (cancel_stmt (\<lambda>x. trade_id x = j \<and> trade_status x = Some ''pending'') reason)) (\<lambda>cs. tx_return (f cs))) s of
      (Inl e, s1) \<Rightarrow> (Inl e, s1) | (Inr z, s1) \<Rightarrow> (Inr (), put_index g s1))))" for failure j reason g and f :: "string list \<Rightarrow> refusal + unit"
  proof -
    let ?m = "tx_bind (query (cancel_stmt (\<lambda>x. trade_id x = j \<and> trade_status x = Some ''pending'') reason)) (\<lambda>cs. tx_return (f cs))"
    obtain x s1 where a: "at_desk failure ?m s = (x, s1)" by (cases "at_desk failure ?m s")
    obtain ids u where c: "cancel_stmt (\<lambda>x. trade_id x = j \<and> trade_status x = Some ''pending'') reason (sh_db s) = Inr (ids, u)"
      by (simp add: cancel_stmt_def)
    have "?m (pool_conn (sh_db s)) = (Inr (f ids), (pool_conn (sh_db s))\<lparr>tabs := u\<rparr>)"
      by (simp add: tx_bind_def query_def c tx_return_def pool_conn_def)
    then have "sh_db s1 = u" using at_desk_db [OF a] by simp
    moreover have "books {} (sh_db s) u" by (rule books_cancel [OF c]) auto
    ultimately have "quiet 0 (sh_db s) (sh_db s1)" using quiet_books t by simp
    then show ?thesis by (auto simp: a split: sum.split)
  qed
  show ?thesis unfolding cancelTradeHandler_def using t g by (auto split: option.split list.split)
qed

lemma get_trade_unique: "distinct (map trade_id (trades t)) \<Longrightarrow> get_trade i t = Some x \<Longrightarrow> y \<in> set (trades t) \<Longrightarrow> trade_id y = i \<Longrightarrow> y = x"
  using get_trade_row by fastforce

lemma calm_levels: "trade_status r = Some ''open'' \<Longrightarrow> calm F r (new_levels sl tp r)"
  by (simp add: new_levels_def calm_def row_defs clear_deferred_def)

lemma books_modify:
  assumes st: "modify_stmt i sl tp t = Inr (x, u)" and d: "distinct (map trade_id (trades t))"
  shows "books F t u"
proof -
  consider "u = t" | sl' tp' r where "get_trade i t = Some r" "trade_status r = Some ''open''"
      "u = t\<lparr>trades := update_by trade_id i (new_levels sl' tp') (trades t)\<rparr>"
    using st by (auto simp: modify_stmt_def sum_bind_Inr split: option.splits if_splits)
  then show ?thesis
  proof cases
    case (2 sl' tp' r)
    have "calm F z (if trade_id z = i then new_levels sl' tp' z else z)" if "z \<in> set (trades t)" for z
      using calm_levels [OF 2(2)] get_trade_unique [OF d 2(1) that] by auto
    then have "list_all2 (calm F) (trades t) (trades u)" by (simp add: 2(3) update_by_def calm_map)
    then show ?thesis by (rule calm_rows) (simp_all add: 2(3))
  qed simp
qed

lemma quiet_modify_handler:
  assumes t: "tidy (sh_db s)" "length (trades (sh_db s)) \<le> 100000"
  shows "quiet 0 (sh_db s) (sh_db (snd (modifyTradeHandler m rq s)))"
proof -
  have g: "quiet 0 (sh_db s) (sh_db (snd (case at_desk failure (tx_bind (query (modify_stmt j sl tp)) (\<lambda>h. tx_return (f h))) s of
      (Inl e, s1) \<Rightarrow> (Inl e, s1) | (Inr z, s1) \<Rightarrow> (Inr (), publishTradeIndex (p z) (put_index (g z) s1)))))"
    for failure j sl tp g p and f :: "trade option \<Rightarrow> refusal + trade"
  proof -
    let ?m = "tx_bind (query (modify_stmt j sl tp)) (\<lambda>h. tx_return (f h))"
    obtain x s1 where a: "at_desk failure ?m s = (x, s1)" by (cases "at_desk failure ?m s")
    have "quiet 0 (sh_db s) (sh_db s1)"
    proof (cases "modify_stmt j sl tp (sh_db s)")
      case (Inl e)
      then have "sh_db s1 = sh_db s" using at_desk_db [OF a] by (auto simp: tx_bind_def query_def pool_conn_def)
      then show ?thesis using t by simp
    next
      case (Inr z)
      obtain h u where hu: "z = (h, u)" by (cases z)
      then have "sh_db s1 = u" using at_desk_db [OF a] Inr by (auto simp: tx_bind_def query_def pool_conn_def tx_return_def)
      moreover have "books {} (sh_db s) u" by (rule books_modify [OF Inr [unfolded hu]]) (use t in \<open>simp add: tidy_def\<close>)
      ultimately show ?thesis using quiet_books t by simp
    qed
    then show ?thesis by (auto simp: a split: sum.split)
  qed
  show ?thesis unfolding modifyTradeHandler_def Let_def using t g by (auto split: option.split list.split)
qed

lemma kept_modify_pending_handler: "sh_db (snd (modifyPendingHandler m rq s)) = sh_db s"
proof -
  have "sh_db (snd (at_desk failure (query (\<lambda>_. Inl code)) s)) = sh_db s" for failure code
    by (simp add: at_desk_def query_def pool_conn_def sh_db_def)
  then show ?thesis unfolding modifyPendingHandler_def Let_def by (auto split: option.split list.split)
qed

section \<open>Batches\<close>

lemma framed_batch: "framed (batch_body a r price pnl)"
  unfolding batch_body_def by (auto intro!: tx_frames)

lemma open_row_of: "is_open i t \<Longrightarrow> \<exists>z\<in>set (trades t). trade_id z = i \<and> trade_status z = Some ''open''"
  unfolding is_open_def using get_trade_key by (fastforce split: option.splits)

lemma books_stop: "stop_stmt i v t = Inr ((), u) \<Longrightarrow> rows_of acct t \<Longrightarrow> is_open i t \<Longrightarrow> books F t u"
proof -
  assume st: "stop_stmt i v t = Inr ((), u)" and rows: "rows_of acct t" and o: "is_open i t"
  consider "u = t" | x where "u = t\<lparr>trades := update_by trade_id i (\<lambda>r. r\<lparr>trade_sl := x\<rparr>) (trades t)\<rparr>"
    using st by (auto simp: stop_stmt_def sum_bind_Inr split: if_splits)
  then show "books F t u"
  proof cases
    case (2 x)
    obtain z where z: "z \<in> set (trades t)" "trade_id z = i" "trade_status z = Some ''open''" using open_row_of [OF o] by blast
    have "calm F y (if trade_id y = i then y\<lparr>trade_sl := x\<rparr> else y)" if "y \<in> set (trades t)" for y
      using row_unique [OF rows that z(1)] z(2,3) by (auto simp: calm_def row_defs)
    then have "list_all2 (calm F) (trades t) (trades u)" by (simp add: 2 update_by_def calm_map)
    then show ?thesis by (rule calm_rows) (simp_all add: 2)
  qed simp
qed

lemma books_batch_body:
  assumes run: "batch_body a r price (mk (of_int k / 100)) (begin_tx (pool_conn t)) = (Inr (Some ()), c)" and ok: "ready acct t"
    and r: "trade_account r = Some (acct (trade_id r))"
  shows "books {} t (tabs c)"
proof -
  have o: "is_open (trade_id r) t" and rest: "if a = BreakevenWinning then stop_stmt (trade_id r) (trade_open_price r) t = Inr ((), tabs c)
     else \<exists>t1 ra. exit_stmt (trade_id r) (AtQuote price) (mk (of_int k / 100)) ''Batch Close'' t = Inr ((), t1) \<and>
       credit_stmt (acct (trade_id r)) (mk (of_int k / 100)) t1 = Inr (ra, tabs c)"
    using run r by (auto simp: batch_body_def select_Inr query_Inr tx_return_app tx_start elim!: tx_bind_Inr_E split: if_splits)
  have rows: "rows_of acct t" and bal: "balances_ok t" using ok by (simp_all add: ready_def)
  show ?thesis
  proof (cases "a = BreakevenWinning")
    case True
    then show ?thesis using rest books_stop [OF _ rows o] by simp
  next
    case False
    then obtain t1 ra where st: "exit_stmt (trade_id r) (AtQuote price) (mk (of_int k / 100)) ''Batch Close'' t = Inr ((), t1)"
      and cr: "credit_stmt (acct (trade_id r)) (mk (of_int k / 100)) t1 = Inr (ra, tabs c)" using rest by auto
    obtain z where z: "z \<in> set (trades t)" "trade_id z = trade_id r" "trade_status z = Some ''open''" using open_row_of [OF o] by blast
    note mv = moves_exit [OF st rows z]
    have bal1: "balances_ok t1" using mv(3) bal by (simp add: balances_ok_def get_account_def)
    show ?thesis by (rule moves_eq [OF moves_trans [OF mv(1) moves_credit [OF cr bal1]]]) auto
  qed
qed

lemma sync_batch_db [simp]: "sh_db (sync_batch_close m r pnl s) = sh_db s"
  by (simp add: sync_batch_close_def Let_def split: option.split)

lemma books_batch_apply:
  assumes run: "batch_apply m a r price (mk (of_int k / 100)) s = (x, s1)" and ok: "ready acct (sh_db s)"
    and r: "trade_account r = Some (acct (trade_id r))"
  shows "books {} (sh_db s) (sh_db s1)"
proof -
  let ?b = "batch_body a r price (mk (of_int k / 100))"
  obtain q c where e: "or_rollback ?b (pool_conn (sh_db s)) = (q, c)" by (cases "or_rollback ?b (pool_conn (sh_db s))")
  have s1: "sh_db s1 = tabs c" using run e by (auto simp: batch_apply_def Let_def sh_db_def [symmetric] split: sum.splits option.splits if_splits)
  from e framed_batch show ?thesis
  proof (cases rule: or_rollback_effect)
    case kept
    then show ?thesis by (simp add: s1)
  next
    case (ended y c1)
    then show ?thesis using books_batch_body [OF _ ok r] by (simp add: s1)
  qed
qed

lemma books_batch_step:
  assumes run: "batch_step m a r s = (x, s1)" and l: "sum_laws (mt_arith m) v" and ok: "ready acct (sh_db s)"
    and r: "trade_account r = Some (acct (trade_id r))"
  shows "books {} (sh_db s) (sh_db s1)"
proof -
  have "s1 = s \<or> (\<exists>price pnl y. batch_pnl m r price = Inr pnl \<and> batch_apply m a r price pnl s = (y, s1))"
    using run unfolding batch_step_def by (auto split: if_splits option.splits sum.splits prod.splits)
  then show ?thesis
  proof
    assume "\<exists>price pnl y. batch_pnl m r price = Inr pnl \<and> batch_apply m a r price pnl s = (y, s1)"
    then obtain price pnl y where b: "batch_pnl m r price = Inr pnl" "batch_apply m a r price pnl s = (y, s1)" by blast
    obtain k where "pnl = mk (of_int k / 100)" by (rule pnl_in_cents [OF l b(1) [unfolded batch_pnl_def]])
    then show ?thesis using books_batch_apply [OF _ ok r] b(2) by blast
  qed simp
qed

lemma books_batch_loop:
  assumes l: "sum_laws (mt_arith m) v"
  shows "batch_loop m a rs s = (x, s1) \<Longrightarrow> ready acct (sh_db s) \<Longrightarrow> \<forall>r\<in>set rs. trade_account r = Some (acct (trade_id r)) \<Longrightarrow>
    books {} (sh_db s) (sh_db s1)"
proof (induction rs arbitrary: s x s1)
  case (Cons r rs)
  obtain y s2 where one: "batch_step m a r s = (y, s2)" by (cases "batch_step m a r s")
  have b: "books {} (sh_db s) (sh_db s2)" by (rule books_batch_step [OF one l Cons.prems(2)]) (use Cons.prems(3) in simp)
  show ?case
  proof (cases y)
    case (Inl e)
    then show ?thesis using Cons.prems(1) one b by simp
  next
    case (Inr z)
    obtain q s3 where rest: "batch_loop m a rs s2 = (q, s3)" by (cases "batch_loop m a rs s2")
    have "books {} (sh_db s2) (sh_db s3)" using Cons.IH [OF rest ready_moves [OF b Cons.prems(2)]] Cons.prems(3) by simp
    then show ?thesis using Cons.prems(1) one Inr rest books_trans [OF b] by (auto split: sum.splits)
  qed
qed simp

lemma quiet_batch_handler:
  assumes l: "sum_laws (mt_arith m) v" and t: "tidy (sh_db s)" "length (trades (sh_db s)) \<le> 100000"
  shows "quiet 0 (sh_db s) (sh_db (snd (batchActionHandler m rq s)))"
proof -
  note ok = tidy_ready [OF t]
  have "\<forall>r\<in>set (map fst (joined P (sh_db s))). trade_account r = Some (account_of (sh_db s) (trade_id r))" for P
    using ok unfolding joined_def ready_def rows_of_def List.map_filter_def by (auto split: option.splits if_splits)
  then have "books {} (sh_db s) (sh_db (snd (case batch_loop m a (map fst (joined P (sh_db s))) s of
      (Inl e, s1) \<Rightarrow> (Inl (f e), s1) | (Inr xs, s1) \<Rightarrow> (Inr (g xs), s1))))" for a P and f :: "unit \<Rightarrow> refusal" and g :: "batch_outcome list \<Rightarrow> string \<times> batch_outcome list"
    using books_batch_loop [OF l _ ok] by (auto split: prod.split sum.split)
  then have g: "quiet 0 (sh_db s) (sh_db (snd (case batch_loop m a (map fst (joined P (sh_db s))) s of
      (Inl e, s1) \<Rightarrow> (Inl (f e), s1) | (Inr xs, s1) \<Rightarrow> (Inr (g xs), s1))))" for a P and f :: "unit \<Rightarrow> refusal" and g :: "batch_outcome list \<Rightarrow> string \<times> batch_outcome list"
    using quiet_books t by blast
  show ?thesis unfolding batchActionHandler_def Let_def sh_db_def [symmetric] using t g by (auto split: option.split)
qed

end
