(* ===== verification/OrderBooks.thy ===== *)
theory OrderBooks
  imports OrderEntry DeskBooks
begin

text \<open>
  Over any sequence of a trader's requests: the books are kept, and the cap on the number of positions is exceeded by one at most.
  A close in parts keeps the lots and the commission of the trade.
\<close>

section \<open>Placed rows\<close>

definition placed :: "string \<Rightarrow> db \<Rightarrow> db \<Rightarrow> trade list \<Rightarrow> bool" where
  "placed i t u rs \<longleftrightarrow> trades u = trades t @ rs \<and> accounts u = accounts t \<and> ledger u = ledger t \<and> distinct (map trade_id rs) \<and>
     (\<forall>r\<in>set rs. trade_account r = Some i \<and> is_live r \<and> get_trade (trade_id r) t = None)"

lemma live_no_gain: "is_live r \<Longrightarrow> row_gain i r = 0"
  by (auto simp: is_live_def row_gain_def)

lemma placed_grows:
  assumes p: "placed i t u rs" and t: "tidy t" and n: "length rs \<le> n"
  shows "grows n t u"
proof -
  have rows: "trades u = trades t @ rs" and same: "accounts u = accounts t" "ledger u = ledger t"
    and new: "\<forall>r\<in>set rs. trade_account r = Some i \<and> is_live r \<and> get_trade (trade_id r) t = None" and d: "distinct (map trade_id rs)"
    using p by (simp_all add: placed_def)
  have acct: "get_account j u = get_account j t" "ledger_sum j u = ledger_sum j t" for j using same by (simp_all add: get_account_def ledger_sum_def)
  have "map (row_gain j) rs = map (\<lambda>_. 0) rs" for j using new live_no_gain by (intro map_cong) auto
  then have "trade_sum j u = trade_sum j t" for j unfolding trade_sum_gain rows by (simp add: map_replicate_const sum_list_replicate)
  then have "residue j u = residue j t" for j by (simp add: residue_def acct)
  then have "kept t u" by (auto simp: kept_def rows)
  moreover have "\<forall>r\<in>set rs. \<forall>y\<in>set (trades t). trade_id y \<noteq> trade_id r"
    using new by (simp add: get_trade_def find_by_None)
  then have "trade_id ` set (trades t) \<inter> trade_id ` set rs = {}" by blast
  then have "distinct (map trade_id (trades u))" using t d by (simp add: rows tidy_def)
  moreover have "\<forall>r\<in>set (trades u). trade_account r \<noteq> None" using t new by (auto simp: rows tidy_def)
  moreover have "balances_ok u" using t by (simp add: balances_ok_def acct tidy_def)
  ultimately show ?thesis using n by (simp add: grows_def tidy_def rows)
qed

lemma open_or_pending: "open_or_pending_count i t = live_count i (trades t)"
  by (simp add: open_or_pending_count_def live_count_def is_live_def)

section \<open>The insertions\<close>

lemma base_row_fields:
  assumes "base_row m rq x commission i n = Inr r"
  shows "trade_id r = i" "trade_account r = Some (od_account x)"
  using assms by (auto simp: base_row_def sum_bind_Inr)

lemma insert_placed:
  assumes "insert_trade r t = Inr (y, u)" "trade_account r = Some i" "is_live r"
  shows "placed i t u [y]" "y = r"
  using assms by (auto simp: insert_trade_def placed_def split: if_splits)

lemma pending_placed:
  assumes "pending_stmt m rq x commission i d ty price g t = Inr (y, u)"
  shows "placed (od_account x) t u [y]"
proof -
  obtain r p where b: "base_row m rq x commission i (now t) = Inr r"
    and st: "insert_trade (r\<lparr>trade_status := Some ''pending'', trade_direction := d, trade_order_type := Some ty, trade_pending_price := Some p, trade_oco := g\<rparr>) t = Inr (y, u)"
    using assms by (auto simp: pending_stmt_def sum_bind_Inr)
  show ?thesis by (rule insert_placed(1) [OF st]) (simp_all add: base_row_fields [OF b] is_live_def)
qed

lemma market_placed:
  assumes "market_stmt m rq x commission i price sl t = Inr (y, u)"
  shows "placed (od_account x) t u [y]"
proof -
  obtain r p and s :: rat where b: "base_row m rq x commission i (now t) = Inr r"
    and st: "insert_trade (r\<lparr>trade_status := Some ''open'', trade_open_price := Some p, trade_slippage := Some \<lfloor>s * 100\<rfloor>\<rparr>) t = Inr (y, u)"
    using assms by (auto simp: market_stmt_def sum_bind_Inr)
  show ?thesis by (rule insert_placed(1) [OF st]) (simp_all add: base_row_fields [OF b] is_live_def)
qed

lemma placed_log: "placed i t u rs \<Longrightarrow> log_stmt j rq x u = Inr ((), v) \<Longrightarrow> placed i t v rs"
  by (auto simp: placed_def log_stmt_def)

lemma placed_pair: "placed i t u [a] \<Longrightarrow> placed i u v [b] \<Longrightarrow> placed i t v [a, b]"
  by (auto simp: placed_def get_trade_def find_by_None)

lemma pending_body_effect:
  assumes "pending_body m rq x a price (begin_tx (pool_conn t)) = (Inr (Inr y), c)"
  shows "\<not> aborted c" "\<exists>rs. placed (od_account x) t (tabs c) rs \<and> length rs = (if od_sibling x = None then 1 else 2)"
proof -
  let ?com = "trade_commission_of m a x" and ?g = "map_option (\<lambda>_. ct_group m) (od_sibling x)"
  obtain r sib c1 c2 c3 c4 where
      1: "query (pending_stmt m rq x ?com (dk_fresh m) (od_direction x) (od_type x) price ?g) (begin_tx (pool_conn t)) = (Inr r, c1)"
    and 2: "(case od_sibling x of None \<Rightarrow> tx_return None
        | Some s \<Rightarrow> tx_bind (query (pending_stmt m rq x ?com (ct_second m) (os_direction s) (os_type s) (os_price s) ?g)) (\<lambda>y. tx_return (Some y))) c1 = (Inr sib, c2)"
    and 3: "query (log_stmt (trade_id r) rq x) c2 = (Inr (), c3)"
    and 4: "(case sib of None \<Rightarrow> tx_return () | Some y \<Rightarrow> query (log_stmt (trade_id y) rq x)) c3 = (Inr (), c4)" and c: "c = c4"
    using assms unfolding pending_body_def Let_def by (auto simp: tx_return_app elim!: tx_bind_Inr_E)
  have p1: "placed (od_account x) t (tabs c1) [r]" using 1 pending_placed by (auto simp: query_Inr tx_start)
  have p2: "\<exists>rs. placed (od_account x) t (tabs c2) rs \<and> length rs = (if od_sibling x = None then 1 else 2)"
  proof (cases "od_sibling x")
    case None
    then show ?thesis using 2 p1 by (auto simp: tx_return_app)
  next
    case (Some s)
    then obtain z where "pending_stmt m rq x ?com (ct_second m) (os_direction s) (os_type s) (os_price s) ?g (tabs c1) = Inr (z, tabs c2)"
      using 2 by (auto simp: query_Inr tx_return_app elim!: tx_bind_Inr_E)
    then have "placed (od_account x) t (tabs c2) [r, z]" by (intro placed_pair [OF p1] pending_placed)
    then show ?thesis using Some by (intro exI [of _ "[r, z]"]) simp
  qed
  then obtain rs where rs: "placed (od_account x) t (tabs c2) rs" "length rs = (if od_sibling x = None then 1 else 2)" by blast
  have p3: "placed (od_account x) t (tabs c3) rs" using 3 placed_log [OF rs(1)] by (auto simp: query_Inr)
  have "placed (od_account x) t (tabs c4) rs" using 4 p3 placed_log [OF p3] by (cases sib) (auto simp: query_Inr tx_return_app)
  then show "\<exists>rs. placed (od_account x) t (tabs c) rs \<and> length rs = (if od_sibling x = None then 1 else 2)" using rs(2) c by blast
  show "\<not> aborted c" using 3 4 c by (cases sib) (auto simp: query_Inr tx_return_app)
qed

lemma market_body_effect:
  assumes "market_body m rq x a price sl (begin_tx (pool_conn t)) = (Inr (Inr y), c)"
  shows "\<not> aborted c" "\<exists>rs. placed (od_account x) t (tabs c) rs \<and> length rs = 1"
proof -
  obtain r c1 where 1: "query (market_stmt m rq x (trade_commission_of m a x) (dk_fresh m) price sl) (begin_tx (pool_conn t)) = (Inr r, c1)"
    and 2: "query (log_stmt (trade_id r) rq x) c1 = (Inr (), c)"
    using assms unfolding market_body_def by (auto simp: tx_return_app elim!: tx_bind_Inr_E)
  have "placed (od_account x) t (tabs c1) [r]" using 1 market_placed by (auto simp: query_Inr tx_start)
  then have "placed (od_account x) t (tabs c) [r]" using 2 placed_log by (auto simp: query_Inr)
  then show "\<exists>rs. placed (od_account x) t (tabs c) rs \<and> length rs = 1" by (intro exI [of _ "[r]"]) simp
  show "\<not> aborted c" using 2 by (auto simp: query_Inr)
qed

section \<open>The handler\<close>

definition ft_db :: "front \<Rightarrow> db" where
  "ft_db f = sh_db (ft_shop f)"

lemma framed_bodies_desk: "framed (pending_body m rq x a price)" "framed (market_body m rq x a price sl)"
  unfolding pending_body_def market_body_def Let_def by (auto intro!: tx_frames split: option.split)

lemma sync_db [simp]: "sh_db (sync_placed m r s) = sh_db s" "sh_db (sync_opened m r s) = sh_db s" "sh_db (sync_sibling m x r sib s) = sh_db s"
  by (simp_all add: sync_placed_def sync_opened_def sync_sibling_def Let_def split: option.split)

lemma claim_db [simp]: "ft_db (complete_claim c b f) = ft_db f" "ft_db (abandon_claim c f) = ft_db f" "ft_db (f\<lparr>ft_claims := u\<rparr>) = ft_db f"
  by (simp_all add: complete_claim_def abandon_claim_def ft_db_def split: option.split)

lemma ensure_shop: "ensureTradeOpenIdempotencyClaim rq f = (r, f1) \<Longrightarrow> ft_shop f1 = ft_shop f"
  by (auto simp: ensureTradeOpenIdempotencyClaim_def split: prod.splits)

lemma perform_effect:
  assumes fr: "framed body"
    and eff: "\<And>y c. body (begin_tx (pool_conn (ft_db f))) = (Inr (Inr y), c) \<Longrightarrow> \<not> aborted c \<and> P (tabs c)"
  shows "ft_db (snd (perform m rq x body f)) = ft_db f \<or> P (ft_db (snd (perform m rq x body f)))"
proof -
  obtain r f1 where c: "ensureTradeOpenIdempotencyClaim rq f = (r, f1)" by (cases "ensureTradeOpenIdempotencyClaim rq f")
  have same: "ft_shop f1 = ft_shop f" by (rule ensure_shop [OF c])
  obtain z s where a: "at_desk ''Could not open trade'' (replied body) (ft_shop f1) = (z, s)" by (cases "at_desk ''Could not open trade'' (replied body) (ft_shop f1)")
  obtain q cn where q: "replied body (pool_conn (ft_db f)) = (q, cn)" "sh_db s = tabs cn"
    using at_desk_db [OF a] by (auto simp: same ft_db_def)
  have d: "sh_db s = ft_db f \<or> P (sh_db s)"
    using q(1) fr
  proof (cases rule: replied_effect)
    case undone
    then show ?thesis by (simp add: q(2))
  next
    case (ended y c1)
    then show ?thesis using eff [OF ended(2)] by (simp add: q(2))
  qed
  have db: "ft_db (f1\<lparr>ft_shop := s'\<rparr>) = sh_db s'" for s' by (simp add: ft_db_def)
  have "ft_db (snd (perform m rq x body f)) = ft_db f1 \<or> ft_db (snd (perform m rq x body f)) = sh_db s"
    unfolding perform_def c by (cases r; cases z) (simp_all add: a db Let_def split: prod.split)
  moreover have "ft_db f1 = ft_db f" by (simp add: ft_db_def same)
  ultimately show ?thesis using d by metis
qed

lemma pending_body_two: "pending_body m rq x a price (begin_tx (pool_conn t)) = (Inr (Inr y), c) \<Longrightarrow>
    \<not> aborted c \<and> (\<exists>rs. placed (od_account x) t (tabs c) rs \<and> length rs \<le> 2)"
  using pending_body_effect by (metis one_le_numeral order_refl)

lemma market_body_two: "market_body m rq x a price sl (begin_tx (pool_conn t)) = (Inr (Inr y), c) \<Longrightarrow>
    \<not> aborted c \<and> (\<exists>rs. placed (od_account x) t (tabs c) rs \<and> length rs \<le> 2)"
  using market_body_effect by (metis one_le_numeral)

lemma open_effect:
  obtains (nothing) "ft_db (snd (openTradeHandler m rq f)) = ft_db f"
  | (rows) x a rs where "read_order m rq = Inr x" "check_account m (oq_user rq) x (ft_db f) = Inr a"
      "placed (od_account x) (ft_db f) (ft_db (snd (openTradeHandler m rq f))) rs" "length rs \<le> 2"
proof -
  have t: "en_db (sh_engine (ft_shop f)) = ft_db f" by (simp add: ft_db_def sh_db_def)
  have p: "ft_db (snd (perform m rq x (pending_body m rq x a price) f)) = ft_db f \<or>
      (\<exists>rs. placed (od_account x) (ft_db f) (ft_db (snd (perform m rq x (pending_body m rq x a price) f))) rs \<and> length rs \<le> 2)" for x a price
    by (rule perform_effect [OF framed_bodies_desk(1), where P = "\<lambda>u. \<exists>rs. placed (od_account x) (ft_db f) u rs \<and> length rs \<le> 2"])
      (rule pending_body_two)
  have k: "ft_db (snd (perform m rq x (market_body m rq x a price sl) f)) = ft_db f \<or>
      (\<exists>rs. placed (od_account x) (ft_db f) (ft_db (snd (perform m rq x (market_body m rq x a price sl) f))) rs \<and> length rs \<le> 2)" for x a price sl
    by (rule perform_effect [OF framed_bodies_desk(2), where P = "\<lambda>u. \<exists>rs. placed (od_account x) (ft_db f) u rs \<and> length rs \<le> 2"])
      (rule market_body_two)
  let ?u = "ft_db (snd (openTradeHandler m rq f))"
  have "?u = ft_db f \<or> (\<exists>x a rs. read_order m rq = Inr x \<and> check_account m (oq_user rq) x (ft_db f) = Inr a \<and>
      placed (od_account x) (ft_db f) ?u rs \<and> length rs \<le> 2)"
  proof (cases "read_order m rq")
    case (Inl e)
    then show ?thesis by (simp add: openTradeHandler_def)
  next
    case (Inr x)
    show ?thesis
    proof (cases "check_account m (oq_user rq) x (ft_db f)")
      case (Inl e)
      then show ?thesis using Inr by (simp add: openTradeHandler_def t)
    next
      case (Inr a)
      have "?u = ft_db f \<or> (\<exists>rs. placed (od_account x) (ft_db f) ?u rs \<and> length rs \<le> 2)"
        using \<open>read_order m rq = Inr x\<close> Inr p k
        by (auto simp: openTradeHandler_def t Let_def split: sum.split option.split prod.split)
      then show ?thesis using \<open>read_order m rq = Inr x\<close> Inr by blast
    qed
  qed
  then show thesis by (elim disjE exE conjE) (rule nothing, assumption, rule rows)
qed

lemma grows_open: "tidy (ft_db f) \<Longrightarrow> grows 2 (ft_db f) (ft_db (snd (openTradeHandler m rq f)))"
  by (rule open_effect [of m rq f]) (auto intro: placed_grows)

text \<open>What a passed check says of the number of positions.\<close>

lemma first_refusal_None: "first_refusal xs = None \<Longrightarrow> x \<in> set xs \<Longrightarrow> x = None"
  by (induction xs rule: first_refusal.induct) auto

lemma checked_cap:
  assumes "check_account m user x t = Inr a" "ru_max_open (mt_rules m) = Fin (of_nat n)" "0 < n"
  shows "open_or_pending_count (od_account x) t < n"
proof -
  have "position_cap (mt_rules m) x t = None"
    using assms(1) unfolding check_account_def Let_def by (auto split: option.splits prod.splits dest!: first_refusal_None)
  then show ?thesis using assms(2,3) by (simp add: position_cap_def Let_def nle_def split: if_splits)
qed

lemma open_count:
  assumes "ru_max_open (mt_rules m) = Fin (of_nat n)" "0 < n"
  shows "open_or_pending_count i (ft_db (snd (openTradeHandler m rq f))) \<le> max (open_or_pending_count i (ft_db f)) (n + 1)"
proof (rule open_effect [of m rq f])
  fix x a rs assume x: "check_account m (oq_user rq) x (ft_db f) = Inr a"
    and p: "placed (od_account x) (ft_db f) (ft_db (snd (openTradeHandler m rq f))) rs" "length rs \<le> 2"
  let ?u = "ft_db (snd (openTradeHandler m rq f))"
  have rows: "trades ?u = trades (ft_db f) @ rs" using p(1) by (simp add: placed_def)
  show ?thesis
  proof (cases "i = od_account x")
    case True
    have "open_or_pending_count i (ft_db f) < n" using checked_cap [OF x assms] True by simp
    moreover have "live_count i rs \<le> 2" using live_count_le [of i rs] p(2) by simp
    ultimately show ?thesis by (simp add: open_or_pending rows)
  next
    case False
    have "filter (\<lambda>r. trade_account r = Some i \<and> is_live r) rs = []" using p(1) False by (auto simp: placed_def filter_empty_conv)
    then have "live_count i rs = 0" by (simp add: live_count_def is_live_def)
    then show ?thesis by (simp add: open_or_pending rows)
  qed
qed simp

end
