(* ===== verification/DeskRuns.thy ===== *)
theory DeskRuns
  imports OrderBooks
begin

text \<open>
  Sequences of requests of traders, each served with the market and the draws of its moment: what they keep of the books and of
  the cap on positions, and what a close in parts keeps of a trade.
\<close>

section \<open>Requests\<close>

datatype 'd desk_op =
    OpenOp "'d counter" open_request
  | CloseOp "'d desk" close_request
  | CancelOp string "string option"
  | BatchOp "'d desk" batch_request
  | ModifyOp "'d desk" modify_request
  | ModifyPendingOp "'d desk" modify_request

definition at_front :: "(shop \<Rightarrow> shop) \<Rightarrow> front \<Rightarrow> front" where
  "at_front g f = f\<lparr>ft_shop := g (ft_shop f)\<rparr>"

fun desk_step :: "'d desk_op \<Rightarrow> front \<Rightarrow> front" where
  "desk_step (OpenOp m rq) f = snd (openTradeHandler m rq f)"
| "desk_step (CloseOp m rq) f = at_front (\<lambda>s. snd (closeTradeHandler m rq s)) f"
| "desk_step (CancelOp user i) f = at_front (\<lambda>s. snd (cancelTradeHandler user i s)) f"
| "desk_step (BatchOp m rq) f = at_front (\<lambda>s. snd (batchActionHandler m rq s)) f"
| "desk_step (ModifyOp m rq) f = at_front (\<lambda>s. snd (modifyTradeHandler m rq s)) f"
| "desk_step (ModifyPendingOp m rq) f = at_front (\<lambda>s. snd (modifyPendingHandler m rq s)) f"

definition desk_run :: "'d desk_op list \<Rightarrow> front \<Rightarrow> front" where
  "desk_run ops f = fold desk_step ops f"

lemma desk_run_simps [simp]: "desk_run [] f = f" "desk_run (op1 # ops) f = desk_run ops (desk_step op1 f)"
  by (simp_all add: desk_run_def)

text \<open>The decimals of the process follow the laws of sums.\<close>

fun sound_desk :: "('d \<Rightarrow> rat) \<Rightarrow> 'd desk_op \<Rightarrow> bool" where
  "sound_desk v (CloseOp m rq) = sum_laws (mt_arith m) v"
| "sound_desk v (BatchOp m rq) = sum_laws (mt_arith m) v"
| "sound_desk v _ = True"

lemma at_front_db [simp]: "ft_db (at_front g f) = sh_db (g (ft_shop f))"
  by (simp add: ft_db_def at_front_def)

lemma grows_mono: "grows k t u \<Longrightarrow> k \<le> n \<Longrightarrow> grows n t u"
  by (auto simp: grows_def)

lemma grows_trans: "grows k t u \<Longrightarrow> grows n u w \<Longrightarrow> grows (k + n) t w"
  unfolding grows_def using kept_trans by fastforce

lemma quiet_step:
  assumes "sound_desk v op1" "\<And>m rq. op1 \<noteq> OpenOp m rq" "tidy (ft_db f)" "length (trades (ft_db f)) \<le> 100000"
  shows "quiet 1 (ft_db f) (ft_db (desk_step op1 f))"
proof -
  have t: "tidy (sh_db (ft_shop f))" "length (trades (sh_db (ft_shop f))) \<le> 100000" using assms by (simp_all add: ft_db_def)
  have up: "quiet 0 t u \<Longrightarrow> quiet 1 t u" for t u by (auto simp: quiet_def grows_def)
  show ?thesis
  proof (cases op1)
    case (OpenOp m rq)
    then show ?thesis using assms(2) by blast
  next
    case (CloseOp m rq)
    then show ?thesis using quiet_close_handler [OF _ t] assms(1) by (simp add: ft_db_def at_front_def)
  next
    case (CancelOp user i)
    then show ?thesis using up [OF quiet_cancel_handler [OF t]] by (simp add: ft_db_def at_front_def)
  next
    case (BatchOp m rq)
    then show ?thesis using up [OF quiet_batch_handler [OF _ t]] assms(1) by (simp add: ft_db_def at_front_def)
  next
    case (ModifyOp m rq)
    then show ?thesis using up [OF quiet_modify_handler [OF t]] by (simp add: ft_db_def at_front_def)
  next
    case (ModifyPendingOp m rq)
    then show ?thesis using t by (simp add: kept_modify_pending_handler ft_db_def at_front_def)
  qed
qed

lemma grows_step:
  assumes "sound_desk v op1" "tidy (ft_db f)" "length (trades (ft_db f)) \<le> 100000"
  shows "grows 2 (ft_db f) (ft_db (desk_step op1 f))"
proof (cases "\<exists>m rq. op1 = OpenOp m rq")
  case True
  then show ?thesis using grows_open [OF assms(2)] by auto
next
  case False
  then have "quiet 1 (ft_db f) (ft_db (desk_step op1 f))" using assms by (intro quiet_step) auto
  then show ?thesis by (auto simp: quiet_def grows_def)
qed

lemma grows_run:
  "list_all (sound_desk v) ops \<Longrightarrow> tidy (ft_db f) \<Longrightarrow> length (trades (ft_db f)) + 2 * length ops \<le> 100000 \<Longrightarrow>
    grows (2 * length ops) (ft_db f) (ft_db (desk_run ops f))"
proof (induction ops arbitrary: f)
  case (Cons x ops)
  have 1: "grows 2 (ft_db f) (ft_db (desk_step x f))" using Cons.prems by (intro grows_step) auto
  then have "tidy (ft_db (desk_step x f))" "length (trades (ft_db (desk_step x f))) \<le> length (trades (ft_db f)) + 2"
    by (simp_all add: grows_def)
  then have "grows (2 * length ops) (ft_db (desk_step x f)) (ft_db (desk_run ops (desk_step x f)))"
    using Cons.prems by (intro Cons.IH) auto
  then show ?case using grows_trans [OF 1] by simp
qed simp

text \<open>C37. Over any sequence of traders' requests to open, close, cancel, batch or modify, whatever they ask, whatever errors they meet and
  whatever decides the prices, the balance of every account moves by exactly what the trades closed on it have booked, no closed trade
  changes, and no row of a trade is lost or shares its identity with another.\<close>

theorem desk_keeps_the_books:
  assumes "list_all (sound_desk v) ops" "tidy (ft_db f)" "length (trades (ft_db f)) + 2 * length ops \<le> 100000"
  shows "residue i (ft_db (desk_run ops f)) = residue i (ft_db f) \<and>
    {r \<in> set (trades (ft_db f)). trade_status r = Some ''closed''} \<subseteq> set (trades (ft_db (desk_run ops f))) \<and>
    trade_id ` set (trades (ft_db f)) \<subseteq> trade_id ` set (trades (ft_db (desk_run ops f))) \<and>
    distinct (map trade_id (trades (ft_db (desk_run ops f))))"
  using grows_run [OF assms] by (auto simp: grows_def kept_def tidy_def)

section \<open>The cap on positions\<close>

fun capped :: "nat \<Rightarrow> 'd desk_op \<Rightarrow> bool" where
  "capped n (OpenOp m rq) = (ru_max_open (mt_rules m) = Fin (of_nat n))"
| "capped n _ = True"

lemma count_step:
  assumes "sound_desk v op1" "capped n op1" "0 < n" "tidy (ft_db f)" "length (trades (ft_db f)) \<le> 100000"
  shows "open_or_pending_count i (ft_db (desk_step op1 f)) \<le> max (open_or_pending_count i (ft_db f)) (n + 1)"
proof (cases "\<exists>m rq. op1 = OpenOp m rq")
  case True
  then show ?thesis using open_count assms(2,3) by auto
next
  case False
  then have "quiet 1 (ft_db f) (ft_db (desk_step op1 f))" using assms by (intro quiet_step) auto
  then show ?thesis by (simp add: quiet_def open_or_pending le_max_iff_disj)
qed

text \<open>C38. While every request to open is judged by the same positive cap, no sequence of traders' requests leaves an account with more open
  and pending positions than the cap and one, the second leg of a pair, or than it began with.\<close>

theorem cap_on_positions:
  assumes "list_all (sound_desk v) ops" "list_all (capped n) ops" "0 < n"
    and "tidy (ft_db f)" "length (trades (ft_db f)) + 2 * length ops \<le> 100000"
  shows "open_or_pending_count i (ft_db (desk_run ops f)) \<le> max (open_or_pending_count i (ft_db f)) (n + 1)"
  using assms
proof (induction ops arbitrary: f)
  case (Cons x ops)
  have g: "grows 2 (ft_db f) (ft_db (desk_step x f))" using Cons.prems by (intro grows_step) auto
  have "open_or_pending_count i (ft_db (desk_step x f)) \<le> max (open_or_pending_count i (ft_db f)) (n + 1)"
    using Cons.prems by (intro count_step) auto
  moreover have "open_or_pending_count i (ft_db (desk_run ops (desk_step x f))) \<le> max (open_or_pending_count i (ft_db (desk_step x f))) (n + 1)"
    using Cons.prems g by (intro Cons.IH) (auto simp: grows_def)
  ultimately show ?case by simp
qed simp

section \<open>A close in parts\<close>

text \<open>The laws of Decimal on amounts of whole hundredths: a NUMERIC text is read exactly, differences are exact, comparison is that of
  the values, and the decimal of a Decimal is its value.\<close>

definition lot_laws :: "'d desk \<Rightarrow> ('d \<Rightarrow> rat) \<Rightarrow> bool" where
  "lot_laws m v \<longleftrightarrow>
     dk_digits m = v \<and>
     (\<forall>k d. da_new (mt_arith m) (numeric_val k) = Some d \<longrightarrow> v d = of_int k / 100) \<and>
     (\<forall>a b j k. v a = of_int j / 100 \<longrightarrow> v b = of_int k / 100 \<longrightarrow> \<bar>j - k\<bar> \<le> 10 ^ 18 \<longrightarrow> v (da_minus (mt_arith m) a b) = of_int (j - k) / 100) \<and>
     (\<forall>a b. da_le (mt_arith m) a b \<longleftrightarrow> v a \<le> v b)"

lemma lot_lawsD:
  assumes "lot_laws m v"
  shows "dk_digits m = v" "da_new (mt_arith m) (numeric_val k) = Some d \<Longrightarrow> v d = of_int k / 100"
    "v a = of_int j / 100 \<Longrightarrow> v b = of_int k / 100 \<Longrightarrow> \<bar>j - k\<bar> \<le> 10 ^ 18 \<Longrightarrow> v (da_minus (mt_arith m) a b) = of_int (j - k) / 100"
    "da_le (mt_arith m) a b \<longleftrightarrow> v a \<le> v b"
  using assms unfolding lot_laws_def by blast+

lemma hundredths_column: "numeric_scaled 10 4 (of_int k / 100) = Inr l \<Longrightarrow> l = of_int k / 100"
proof -
  have "\<lfloor>(of_int k / 100 :: rat) * 10000 + 1 / 2\<rfloor> = k * 100" "\<lfloor>- (of_int k / 100 :: rat) * 10000 + 1 / 2\<rfloor> = - (k * 100)"
    by (rule floor_unique; simp)+
  then show "numeric_scaled 10 4 (of_int k / 100) = Inr l \<Longrightarrow> l = of_int k / 100"
    by (auto simp: numeric_scaled_def Let_def split: if_splits)
qed

lemma split_in_hundredths:
  assumes sp: "split_trade (mt_arith m) rules (Some (mk (of_int k / 100))) r = Inr sp" "sp_partial sp"
    and l: "sum_laws (mt_arith m) v" "lot_laws m v"
    and r: "trade_lots r = of_int n / 100" "trade_commission r = Some c" and ok: "cents_ok k" "cents_ok n" "cents_ok c"
  obtains p where "v (sp_lots sp) = of_int k / 100" "v (sp_left sp) = of_int (n - k) / 100" "0 < k" "k < n"
    "sp_commission sp = mk (of_int p / 100)" "cents_ok p \<longrightarrow> sp_left_commission sp = mk (of_int (c - p) / 100)"
proof -
  let ?D = "mt_arith m"
  let ?close = "da_from ?D (mk (of_int k / 100))"
  obtain lots com where new: "da_new ?D (numeric_val n) = Some lots" "da_new ?D (numeric_val c) = Some com"
    using sp(1) r by (auto simp: split_trade_def commission_val_def numeric_val_def split: option.splits)
  note vals = lot_lawsD(2) [OF l(2) new(1)] lot_lawsD(2) [OF l(2) new(2)]
  have close: "v ?close = of_int k / 100" by (rule from_cents [OF l(1) ok(1)])
  have small: "\<bar>n - k\<bar> \<le> 10 ^ 18" "cents_ok p \<Longrightarrow> \<bar>c - p\<bar> \<le> 10 ^ 18" for p using ok by (auto simp: cents_ok_def)
  have diff: "v (da_minus ?D lots ?close) = of_int (n - k) / 100" by (rule lot_lawsD(3) [OF l(2) vals(1) close small(1)])
  let ?left = "da_cents ?D (da_minus ?D lots ?close)"
  have left: "v ?left = of_int (n - k) / 100" by (simp only: sum_lawsD(1) [OF l(1)] diff to_cents_exact)
  let ?part = "da_cents ?D (da_times ?D com (da_div ?D ?close lots))"
  define p where "p = to_cents (v (da_times ?D com (da_div ?D ?close lots)))"
  have part: "da_num ?D ?part = mk (of_int p / 100)" by (simp only: sum_lawsD(1,2) [OF l(1)] p_def)
  have fields: "sp_lots sp = ?close" "sp_left sp = ?left" "sp_commission sp = da_num ?D ?part" "nlt (Fin 0) (da_num ?D ?left)"
      "sp_left_commission sp = da_num ?D (da_cents ?D (da_minus ?D com (da_from ?D (da_num ?D ?part))))"
      "\<not> da_le ?D ?close (da_from ?D (Fin 0))" "da_le ?D ?close lots"
    using sp r new by (auto simp: split_trade_def commission_val_def numeric_val_def Let_def split: if_splits)
  have "0 < k" using fields(6) close sum_lawsD(3) [OF l(1), of 0] by (simp add: lot_lawsD(4) [OF l(2)] dec_of_def)
  moreover have "k \<le> n" using fields(7) close vals(1) by (simp add: lot_lawsD(4) [OF l(2)] divide_le_cancel)
  moreover have "k \<noteq> n" using fields(4) left zero_cents [symmetric] by (auto simp: sum_lawsD(2) [OF l(1)])
  moreover have "sp_left_commission sp = mk (of_int (c - p) / 100)" if p: "cents_ok p"
  proof -
    have "v (da_from ?D (da_num ?D ?part)) = of_int p / 100" unfolding part by (rule from_cents [OF l(1) p])
    then have "v (da_minus ?D com (da_from ?D (da_num ?D ?part))) = of_int (c - p) / 100" by (rule lot_lawsD(3) [OF l(2) vals(2) _ small(2) [OF p]])
    then show ?thesis by (simp only: fields(5) sum_lawsD(1,2) [OF l(1)] to_cents_exact)
  qed
  ultimately show thesis using that [of p] fields(1-3) close left part by simp
qed

lemma credit_rows: "credit_stmt i x t = Inr (ra, u) \<Longrightarrow> trades u = trades t"
  by (auto simp: credit_stmt_def Let_def put_account_def split: option.splits sum.splits)

text \<open>C39. When the trader closes a part of a trade, in hundredths of a lot, the closed part and what stays open have together the lots and the
  commission the trade had; the trade stays open under its identity, and the part is a closed trade of the same account that names it.\<close>

theorem partial_close_conserves:
  assumes run: "closeTradeHandler m rq s = (Inr d, s1)" "cx_partial d" "given (cq_trade rq) = Some i"
    and l: "sum_laws (mt_arith m) v" "lot_laws m v" and t: "tidy (sh_db s)"
    and k: "parse_float (cq_lots rq) = mk (of_int k / 100)" "cents_ok k"
    and r: "get_trade i (sh_db s) = Some r" "trade_lots r = of_int n / 100" "cents_ok n" "trade_commission r = Some c" "cents_ok c"
  shows "\<exists>x y. get_trade (dk_fresh m) (sh_db s1) = Some x \<and> get_trade i (sh_db s1) = Some y \<and>
    trade_status x = Some ''closed'' \<and> trade_parent x = Some i \<and> trade_account x = trade_account r \<and>
    trade_status y = Some ''open'' \<and> trade_account y = trade_account r \<and>
    trade_lots x = of_int k / 100 \<and> 0 < trade_lots x \<and> 0 < trade_lots y \<and> trade_lots x + trade_lots y = trade_lots r \<and>
    (\<exists>p. trade_commission x = Some p \<and> trade_commission y = Some (c - p))"
proof -
  let ?t = "sh_db s" and ?w = "Some (mk (of_int k / 100))"
  have fin: "is_finite (mk (of_int k / 100))" using usd_Fin [OF k(2)] by (simp add: usd_def)
  have asked: "\<not> nullish (cq_lots rq)"
  proof
    assume "nullish (cq_lots rq)"
    then have "parse_float (cq_lots rq) = NaN" by (cases "cq_lots rq") auto
    then show False using fin by (simp add: k(1))
  qed
  obtain price sp pnl locked s2 where a: "at_desk ''Could not close trade'' (replied (close_body m i ?w price)) s = (Inr (locked, sp, pnl), s2)"
    and s1: "s1 = sync_close m locked sp pnl s2" and d: "d = \<lparr>cx_pnl = pnl, cx_price = price, cx_partial = sp_partial sp, cx_left = sp_left_number sp\<rparr>"
    using run(1) asked unfolding closeTradeHandler_def run(3) k(1) Let_def
    by (auto split: list.splits prod.splits if_splits sum.splits)
  obtain x c0 where c0: "replied (close_body m i ?w price) (pool_conn ?t) = (Inr (Inr (locked, sp, pnl)), c0)" "sh_db s2 = tabs c0"
    using at_desk_db [OF a] by (force simp: settled_with_def split: sum.splits)
  obtain c1 where c1: "close_body m i ?w price (begin_tx (pool_conn ?t)) = (Inr (Inr (locked, sp, pnl)), c1)" "tabs c0 = (if aborted c1 then ?t else tabs c1)"
    using c0(1) framed_close_body by (cases rule: replied_effect) auto
  note e = close_body_effect [OF c1(1)]
  have part: "sp_partial sp" using run(2) d by simp
  have same: "locked = r" using e(2) r(1) by simp
  have u: "sh_db s1 = tabs c1" using s1 c0(2) c1(2) e(1) by simp
  obtain p where sp: "v (sp_lots sp) = of_int k / 100" "v (sp_left sp) = of_int (n - k) / 100" "0 < k" "k < n"
    "sp_commission sp = mk (of_int p / 100)" "cents_ok p \<longrightarrow> sp_left_commission sp = mk (of_int (c - p) / 100)"
    by (rule split_in_hundredths [OF e(4) [unfolded same] part l r(2,4) k(2) r(3,5)])
  obtain j where j: "pnl = mk (of_int j / 100)" by (rule split_pnl_cents [OF e(5) l(1)])
  obtain x t1 t2 ra where
      st: "part_stmt (dk_fresh m) r (of_int k / 100) price (mk (of_int j / 100)) (mk (of_int p / 100)) ?t = Inr (x, t1)"
    and left: "rest_stmt (trade_id r) (of_int (n - k) / 100) (sp_left_commission sp) t1 = Inr ((), t2)"
    and cr: "credit_stmt (text_or_empty (trade_account r)) pnl t2 = Inr (ra, tabs c1)"
    using e(6) part by (auto simp: closed_part_def same j sp(1,2,5) lot_lawsD(1) [OF l(2)])
  note f = part_effect [OF st]
  have left2: "rest_stmt (trade_id r) (of_int (n - k) / 100) (mk (of_int (c - p) / 100)) t1 = Inr ((), t2)" using left sp(6) f(9) by simp
  obtain q where q: "numeric_scaled 10 4 (of_int (n - k) / 100) = Inr q"
    and t2: "t2 = t1\<lparr>trades := update_by trade_id (trade_id r) (\<lambda>r. r\<lparr>trade_lots := q, trade_commission := Some (c - p)\<rparr>) (trades t1)\<rparr>"
    using left2 by (rule rest_effect)
  have lots: "trade_lots x = of_int k / 100" "q = of_int (n - k) / 100" using hundredths_column [OF f(11)] hundredths_column [OF q] by simp_all
  have rid: "trade_id r = i" "r \<in> set (trades ?t)" using get_trade_key [OF r(1)] by simp_all
  have other: "dk_fresh m \<noteq> i" using f(2) r(1) by auto
  let ?y = "r\<lparr>trade_lots := q, trade_commission := Some (c - p)\<rparr>"
  have "trades (tabs c1) = trades t2" by (rule credit_rows [OF cr])
  then have rows: "trades (tabs c1) = update_by trade_id i (\<lambda>r. r\<lparr>trade_lots := q, trade_commission := Some (c - p)\<rparr>) (trades ?t) @ [x]"
    using f(1,3) other rid(1) by (simp add: t2 update_by_def)
  have look: "find_by trade_id b (update_by trade_id i g rs) = map_option (\<lambda>r. if trade_id r = i then g r else r) (find_by trade_id b rs)"
    if "\<And>r. trade_id (g r) = trade_id r" for b g and rs :: "trade list"
    by (induction rs) (simp_all add: table_simps that)
  have x: "get_trade (dk_fresh m) (sh_db s1) = Some x"
    using f(2,3) by (simp add: u get_trade_def rows find_by_append look table_simps)
  have y: "get_trade i (sh_db s1) = Some ?y"
    using r(1) rid(1) by (simp add: u get_trade_def rows find_by_append look)
  show ?thesis
    using x y f(4,5,7,10) rid(1) e(3) same sp(3,4) lots r(2) by (auto simp: diff_divide_distrib)
qed

section \<open>A concrete desk\<close>

definition live_at_one :: "string \<Rightarrow> string + quote \<times> int option" where
  "live_at_one i = Inr (\<lparr>q_bid = Fin 1, q_ask = Fin 1\<rparr>, Some 100000)"

definition demo_desk :: "string \<Rightarrow> rat desk" where
  "demo_desk fresh = market.extend (demo_market\<lparr>mt_tenant := quoted_at_one\<rparr>)
     \<lparr>dk_digits = (\<lambda>x. x), dk_live = live_at_one, dk_random = mk (1/2), dk_tiers = (\<lambda>_. []), dk_models = (\<lambda>_. Inr None), dk_account = (\<lambda>_. Inr None),
      dk_fresh = fresh, dk_events = []\<rparr>"

definition demo_counter :: "string \<Rightarrow> rat counter" where
  "demo_counter fresh = desk.extend (demo_desk fresh) \<lparr>ct_flags = (\<lambda>_. Inr None), ct_second = ''t9'', ct_group = ''g1''\<rparr>"

definition buy_request :: open_request where
  "buy_request =
     \<lparr>oq_user = ''u1'', oq_ip = None, oq_key = Some ''k1'', oq_account = Some ''a1'', oq_instrument = Some ''EURUSD'', oq_direction = Some ''buy'',
      oq_lots = JText ''0.02'', oq_stop = JUndef, oq_target = JUndef, oq_type = None, oq_price = JUndef, oq_oco = None\<rparr>"

definition part_request :: close_request where
  "part_request = \<lparr>cq_user = ''u1'', cq_trade = Some ''t1'', cq_lots = JText ''0.25''\<rparr>"

definition part_trade :: trade where
  "part_trade = stopped_trade\<lparr>trade_commission := Some 700\<rparr>"

definition desk_db :: db where
  "desk_db = demo_db\<lparr>trades := [part_trade]\<rparr>"

definition desk_shop :: shop where
  "desk_shop = \<lparr>sh_engine = demo_engine\<lparr>en_db := desk_db\<rparr>, sh_published = []\<rparr>"

definition desk_front :: front where
  "desk_front = \<lparr>ft_shop = desk_shop, ft_claims = \<lparr>im_now = 0, im_rows = [], im_seq = 0\<rparr>\<rparr>"

definition desk_ops :: "rat desk_op list" where
  "desk_ops = [CloseOp (demo_desk ''t3'') part_request, CancelOp ''u1'' (Some ''t1''), OpenOp (demo_counter ''t2'') buy_request]"

lemma desk_shop_db: "sh_db desk_shop = desk_db" "ft_db desk_front = desk_db" "ft_shop desk_front = desk_shop"
  by (simp_all add: sh_db_def ft_db_def desk_front_def desk_shop_def)

lemma desk_tidy: "tidy desk_db"
  using demo_engine_ok by (auto simp: engine_ok_def ready_def rows_of_def tidy_def desk_db_def demo_engine_def part_trade_def stopped_trade_def
      balances_ok_def get_account_def)

lemma desk_laws: "sum_laws (mt_arith (demo_desk x)) (\<lambda>x. x)" "lot_laws (demo_desk x) (\<lambda>x. x)" "mt_rules (demo_counter x) = DEFAULT_TRADING_RULES"
  using exact_sums
  by (simp_all add: lot_laws_def demo_desk_def demo_counter_def market.defs desk.defs demo_market_def exact_arith_def exact_new_def numeric_val_def
      diff_divide_distrib)

lemma close_trades:
  assumes "given (cq_trade rq) = Some i" "joined (\<lambda>r a. trade_id r = i \<and> trade_status r = Some ''open'') (sh_db s) = (r, a) # rest"
    "acc_user a = Some (cq_user rq)" "\<not> nlt (seconds_open (mt_time m) (trade_open_time r)) (ru_min_hold (mt_rules m))"
    "fst (getMarketStatus ''close'' (mt_time m))" "dk_live m (trade_instrument r) = Inr (q, updated)" "\<not> too_old (mt_time m) updated"
    "\<not> nullish (cq_lots rq)" "parse_float (cq_lots rq) = Fin w"
  shows "closeTradeHandler m rq s =
     (case at_desk ''Could not close trade'' (replied (close_body m i (Some (Fin w)) (close_price m r a q))) s of
        (Inl e, s1) \<Rightarrow> (Inl e, s1)
      | (Inr (locked, sp, pnl), s1) \<Rightarrow>
          (Inr \<lparr>cx_pnl = pnl, cx_price = close_price m r a q, cx_partial = sp_partial sp, cx_left = sp_left_number sp\<rparr>, sync_close m locked sp pnl s1))"
  using assms by (simp add: closeTradeHandler_def Let_def sh_db_def)

definition part_body :: "(db, refusal + trade \<times> rat split \<times> num) tx" where
  "part_body = close_body (demo_desk ''t3'') ''t1'' (Some (Fin (1/4))) (Fin 1)"

definition columns :: "db \<Rightarrow> (string \<times> string option \<times> rat \<times> int option) list" where
  "columns t = map (\<lambda>r. (trade_id r, trade_status r, trade_lots r, trade_commission r)) (trades t)"

lemma part_steps:
  "joined (\<lambda>r a. trade_id r = ''t1'' \<and> trade_status r = Some ''open'') desk_db = [(part_trade, demo_account)]"
  "close_price (demo_desk ''t3'') part_trade demo_account \<lparr>q_bid = Fin 1, q_ask = Fin 1\<rparr> = Fin 1"
  "parse_float (JText ''0.25'') = Fin (1/4)"
  "fst (getMarketStatus ''close'' 100000)" "\<not> nlt (seconds_open 100000 (Some 0)) (Fin 60)"
  by code_simp+

lemma part_closed:
  "(case at_desk ''Could not close trade'' (replied part_body) desk_shop of (z, s) \<Rightarrow>
      (map_sum id (\<lambda>(r, sp, p). (trade_id r, sp_partial sp)) z, columns (sh_db s))) =
    (Inr (''t1'', True), [(''t1'', Some ''open'', 3/4, Some 525), (''t3'', Some ''closed'', 1/4, Some 175)])"
  by code_simp

lemma part_demo:
  obtains d s1 where "closeTradeHandler (demo_desk ''t3'') part_request desk_shop = (Inr d, s1)" "cx_partial d"
    "columns (sh_db s1) = [(''t1'', Some ''open'', 3/4, Some 525), (''t3'', Some ''closed'', 1/4, Some 175)]"
proof -
  let ?m = "demo_desk ''t3''"
  have m: "mt_time ?m = 100000" "ru_min_hold (mt_rules ?m) = Fin 60" "dk_live ?m = live_at_one"
    by (simp_all add: demo_desk_def market.defs demo_market_def DEFAULT_TRADING_RULES_def)
  have rq: "given (cq_trade part_request) = Some ''t1''" "cq_lots part_request = JText ''0.25''" "cq_user part_request = ''u1''"
    by (simp_all add: part_request_def given_def)
  have r: "trade_open_time part_trade = Some 0" "acc_user demo_account = Some ''u1''" by (simp_all add: part_trade_def stopped_trade_def demo_account_def)
  have run: "closeTradeHandler ?m part_request desk_shop =
     (case at_desk ''Could not close trade'' (replied part_body) desk_shop of
        (Inl e, s1) \<Rightarrow> (Inl e, s1)
      | (Inr (locked, sp, pnl), s1) \<Rightarrow>
          (Inr \<lparr>cx_pnl = pnl, cx_price = close_price ?m part_trade demo_account \<lparr>q_bid = Fin 1, q_ask = Fin 1\<rparr>, cx_partial = sp_partial sp, cx_left = sp_left_number sp\<rparr>, sync_close ?m locked sp pnl s1))"
    using close_trades [OF rq(1), of desk_shop part_trade demo_account "[]" ?m "\<lparr>q_bid = Fin 1, q_ask = Fin 1\<rparr>" "Some 100000" "1/4"] part_steps
    by (simp add: desk_shop_db rq m r live_at_one_def too_old_def part_body_def)
  obtain z s2 where a: "at_desk ''Could not close trade'' (replied part_body) desk_shop = (z, s2)" by (cases "at_desk ''Could not close trade'' (replied part_body) desk_shop")
  obtain locked sp p where z: "z = Inr (locked, sp, p)" "sp_partial sp" using part_closed a by (cases z) auto
  show thesis using run part_closed by (intro that) (auto simp: a z)
qed

text \<open>A quarter of the demo trade.\<close>

theorem partial_close_conserves_witness:
  "\<exists>d s1. closeTradeHandler (demo_desk ''t3'') part_request desk_shop = (Inr d, s1) \<and>
     (\<exists>x y. get_trade ''t3'' (sh_db s1) = Some x \<and> get_trade ''t1'' (sh_db s1) = Some y \<and> trade_lots x + trade_lots y = 1) \<and>
     columns (sh_db s1) = [(''t1'', Some ''open'', 3/4, Some 525), (''t3'', Some ''closed'', 1/4, Some 175)]"
proof -
  obtain d s1 where run: "closeTradeHandler (demo_desk ''t3'') part_request desk_shop = (Inr d, s1)" "cx_partial d"
    "columns (sh_db s1) = [(''t1'', Some ''open'', 3/4, Some 525), (''t3'', Some ''closed'', 1/4, Some 175)]" by (rule part_demo)
  have f: "dk_fresh (demo_desk ''t3'') = ''t3''" by (simp add: demo_desk_def market.defs)
  have k: "parse_float (cq_lots part_request) = mk (of_int 25 / 100)" by code_simp
  have r: "get_trade ''t1'' (sh_db desk_shop) = Some part_trade" "trade_lots part_trade = of_int 100 / 100" "trade_commission part_trade = Some 700"
    by (simp_all add: desk_shop_db get_trade_def desk_db_def part_trade_def stopped_trade_def table_simps)
  have t: "tidy (sh_db desk_shop)" using desk_tidy by (simp add: desk_shop_db)
  have i: "given (cq_trade part_request) = Some ''t1''" by (simp add: part_request_def given_def)
  have "\<exists>x y. get_trade ''t3'' (sh_db s1) = Some x \<and> get_trade ''t1'' (sh_db s1) = Some y \<and> trade_lots x + trade_lots y = 1"
    using partial_close_conserves [OF run(1,2) i desk_laws(1,2) t k _ r(1,2) _ r(3)] by (auto simp: f cents_ok_def r(2))
  then show ?thesis using run by blast
qed

theorem desk_keeps_the_books_witness:
  "residue ''a1'' (ft_db (desk_run desk_ops desk_front)) = residue ''a1'' desk_db \<and>
   columns (ft_db (desk_run (take 1 desk_ops) desk_front)) = [(''t1'', Some ''open'', 3/4, Some 525), (''t3'', Some ''closed'', 1/4, Some 175)]"
proof
  have "list_all (sound_desk (\<lambda>x. x)) desk_ops" by (simp add: desk_ops_def desk_laws)
  then show "residue ''a1'' (ft_db (desk_run desk_ops desk_front)) = residue ''a1'' desk_db"
    using desk_keeps_the_books [of "\<lambda>x. x" desk_ops desk_front "''a1''"] desk_tidy by (simp add: desk_shop_db) (simp add: desk_ops_def desk_db_def)
  show "columns (ft_db (desk_run (take 1 desk_ops) desk_front)) = [(''t1'', Some ''open'', 3/4, Some 525), (''t3'', Some ''closed'', 1/4, Some 175)]"
    by (rule part_demo) (simp add: desk_ops_def desk_shop_db)
qed

theorem cap_on_positions_witness:
  "open_or_pending_count ''a1'' (ft_db (desk_run desk_ops desk_front)) \<le> 11"
proof -
  have 1: "list_all (sound_desk (\<lambda>x. x)) desk_ops" "list_all (capped 10) desk_ops"
    by (simp_all add: desk_ops_def desk_laws DEFAULT_TRADING_RULES_def MAX_OPEN_POSITIONS_def)
  have "open_or_pending_count ''a1'' desk_db \<le> 1" unfolding open_or_pending by (rule order_trans [OF live_count_le]) (simp add: desk_db_def)
  moreover have "length (trades desk_db) + 2 * length desk_ops \<le> 100000" by (simp add: desk_db_def desk_ops_def)
  ultimately show ?thesis using cap_on_positions [OF 1, of desk_front "''a1''"] desk_tidy by (simp add: desk_shop_db)
qed

end
