(* ===== verification/Spec2Isabelle.thy ===== *)
theory Spec2Isabelle
  imports Drawdown TradeIndexSync ProgressionProps ScalingOnce SweepLimits DeskRuns
begin

text \<open>
  A model of the backend of a proprietary-trading platform (src/backend): traders buy a challenge, trade on a
  simulated account within drawdown limits, are promoted phase by phase to a funded account, and are paid a share of
  its profit. Modelled are the components through which an account's status and balance change.

  \<^bold>\<open>How the parts interact.\<close> The tables of PostgreSQL are a record of lists of rows (\<open>db\<close>), a connection is
  the tables seen inside a transaction with the snapshot a ROLLBACK returns to (\<open>conn\<close>), and an operation is a
  function from a connection to a result or an error and the connection (\<open>tx\<close>); \<open>withTransaction\<close> and the
  explicit BEGIN and COMMIT of the engines are built on it. A quote reaches the price cache and
  starts a tick; the tick engine scans the index of open trades, closes the triggered ones and confirms breaches
  and passed targets from the database; the interval passes and the scheduled sweep do the same from the database
  alone. Ending an account goes through the ledger and the account rows; passing one raises a promotion review, and
  its approval inserts the next account; a payout is approved under dual control, debits the account through the
  aggregate and mints a certificate.

  \<^bold>\<open>JavaScript.\<close> JsNumber (binary64 with its rounding, NaN and infinities), JsDecimal and JsMoney (the decimal
  text of a Number, numeric columns as whole cents or hundredths), JsValue (strings, coercions, case, trimming), JsDate
  (dates as milliseconds) and JsMap (Map and Set in insertion order, the interface \<open>finite_map\<close>). Prelude holds the
  errors, transactions and keyed tables with the interfaces the other theories reason through: \<open>keyed_table\<close>
  (lookup after update, interpreted for accounts and payouts) and \<open>effect\<close> (a preorder on tables kept by every
  statement of an operation, interpreted for certificates, uid sequences, drawdown anchors, milestones and claims).

  \<^bold>\<open>Which theory models what.\<close>
  \<^item> Database: the tables of migrations/ the components share.
  \<^item> Ledger: utils/balanceAdjustments.js, domain/drawdownAnchors.js. Effects on whole cents, errors, and how far a
    sub-cent amount lets balance and ledger drift apart.
  \<^item> Account: domain/account.js. The table of status changes, capital movements and resets.
  \<^item> Eligibility: domain/payoutEligibility.js and constants.ts. The blockers, and bounds and monotonicity of the released profit.
  \<^item> Payout: domain/payout.js and the request POST /payouts/approve of routes/admin/payouts.js. Dual control, a payout paid at most
    once and exactly, and paid in the end when it is eligible and two admins approve.
  \<^item> Certificates: services/certificateService.js, utils/certificateSignature.js. Idempotent issuing, signatures that verify.
  \<^item> Drawdown: services/drawdownService.ts. Floors and anchors that never fall.
  \<^item> Instruments, Pricing, PnlParity: instruments.ts, utils/priceCache.ts, fxRates.ts, fastPnL.ts, pnlCalculator.ts,
    pendingOrderValidation.js, services/feedHealth.ts. The price grid, the triggers of stops and orders, the circuit
    breaker, and the distance between the fast and the booking valuation.
  \<^item> TradeIndex, TradeIndexInv, TradeIndexSync: utils/tradeIndex.ts and the functions of services/tradeEngine.ts that keep it
    in step. Its consistency under every operation, and reconciliation as a mirror of the database.
  \<^item> Progression, ProgressionProps: services/promotionTarget.js, progressionService.js, tenantMonthlyQuotaService.js,
    utils/accountIds.ts, routes/admin/promotionReviews.js. The ladder, reviews decided once, accounts as announced.
  \<^item> TradeShared: services/tradeShared.ts, services/tradingDaysService.ts. Rules that are always finite, the trading week.
  \<^item> Engine, EnginePasses, EngineTick: services/tradeEngine.ts, with its state, the settlements, the three interval passes
    and the event-driven tick. EngineBooks, EngineLife, EngineRuns and EngineTicks lift lemmas on the statements to
    the passes, the tick and every sequence of them: balances move by what is booked, trades follow their lives.
  \<^item> Violations: services/violationEngine.ts. The log counts detections.
  \<^item> Challenge, ChallengeSweep, OpposingTrades: challengeEngine.ts, which ends accounts, grants the scaling plan, evaluates an
    account, and looks for opposing trades. ChallengeBooks settles ended accounts, ScalingOnce shows that milestones are
    granted once over all sweeps, SweepLimits what the limits do not end.
  \<^item> SessionCloses, SessionBooks: services/weekendCloseService.ts, flatByCloseService.js, newsCloseService.js and the windows of
    newsService.js. The passes keep the books; a news pass is done only when everything it found open is closed.
  \<^item> TradeDesk, ManualClose, TradeEdits, OrderEntry: the routes of a trader in routes/trades (close.ts, batch.ts, modify.ts, open.ts)
    with what they use of utils/validation.ts, utils/tenantSettings.ts and services/tradeIndexSync.ts. A route is a
    function from a request and the state of the process (tables, index, published hints, claims) to an answer and that state.
    DeskBooks and OrderBooks say what each of them keeps, DeskRuns lifts it to every sequence of requests (books, the cap on
    positions) and shows that a close in parts keeps lots and commission.
  \<^item> Idempotency: utils/idempotency.ts, as statements on its table and as a step relation of concurrent requests: an action
    happens at most once per key, but for claims that are reaped or given up after the action.

  \<^bold>\<open>Parameters and hypotheses.\<close> decimal.js is a package: its operations are fields of records of functions, the documented
  facts used are \<open>decimal_laws\<close>, \<open>arith_laws\<close>, \<open>sum_laws\<close> and \<open>lot_laws\<close>, and each is met by exact rational arithmetic
  (\<open>exact_arith\<close>, \<open>exact_sums\<close>) in the witnesses. Parameters too are the quotes of the tenant, step models and
  settings (answers of services), Math.pow, hashes, random blocks, the environment, and the choice PostgreSQL makes
  among several updates of one row in a statement.

  \<^bold>\<open>Bounds and fuel.\<close> There is no fuel: loops run over lists of rows, and the two that repeat (the search for the
  shortest decimal of a Number, the coalescing of ticks) run over the seventeen digits that always suffice and over the
  list of ticks that arrived. Money is below \<open>10 ^ 15\<close> cents where a column has type NUMERIC(15,2); a value outside its
  column is the error 22003, as in the database. The sums of results are exact up to 100000 rows of trades, which bounds
  the sequences of requests. Years are between 0 and 9999.

  \<^bold>\<open>What is left out of these components.\<close> An operation runs without interleaving at its awaits: concurrency enters as the order
  of operations, so row locks are never found taken, and the workers of the sweep take the accounts one after the
  other; only the claims of Idempotency interleave. Emails, notifications, logging, metrics and texts of socket messages
  are dropped, as are payload columns that nothing reads back. Strings hold bytes; case mapping and white space are those of ASCII. A numeric column holds
  cents: a NaN sent to it is refused with 22003, where PostgreSQL would store its numeric NaN; integer counters do not
  overflow; a quote has both a bid and an ask. \<open>withTransaction\<close> stands for BEGIN, COMMIT and ROLLBACK wherever the
  code writes them out in that shape.

  \<^bold>\<open>Not modelled.\<close> The other HTTP routes (validation and shaping of requests around the services above), authentication, billing and
  mail (dialogues with outside services), the price feed's sockets, certificate rendering, analytics (read-only
  queries), competitions, account linking, the calendar of news, the migrations beyond their column types, and the
  frontend.
\<close>

end
